(* ===== verification/Py_Prelude.thy ===== *)
theory Py_Prelude
  imports Complex_Main "HOL-Library.AList" "HOL-Library.Char_ord" "HOL-Library.List_Lexorder"
begin

text \<open>
  Shared ground of the development: the exceptions the code raises, results as a sum of an
  exception and a value, loops that stop at the first exception, and the string operations of
  Python that the modelled modules use. A Python string is a HOL \<open>string\<close>, a list of code
  points below 256; the character classes below (whitespace, case, printable characters) are
  those of Python on that range.
\<close>

section \<open>Exceptions and results\<close>

text \<open>
  One constructor per exception class of the modelled modules, and one per exception class of
  the language that an operation on them can raise. The string is the message, and for the
  classes that carry a machine-readable code the first string is that code.
\<close>

datatype exn =
    KeyError string
  | TypeError
  | AttributeError
  | ValueError string
  | OverflowError
  | FileNotFoundError string
  | SchemaValidationError string
  | CanonicalJSONError
  | UnsupportedMemoryVersionError string
  | MemoryEventValidationError string
  | MemoryPatchValidationError string
  | MemoryV2ValidationError string
  | TypedCanonicalMemoryError string
  | AuthoritativeStateError "string list"
  | MemoryReducerError string
  | RecoveryProtocolError string
  | StageControlError string string
  | AutonomyContractError string string
  | BookLeaseError string string
  | BookRunContractError string string
  | AutonomyOperationError string string
  | AutonomySessionError string string
  | AutonomyPlanError string string
  | TrustedProfilesError string string
  | AutonomyReceiptError string string
  | ContextBudgetError string string
  | RepairNotConvergingError string

type_synonym 'a res = "exn + 'a"

definition rbind :: "'e + 'a \<Rightarrow> ('a \<Rightarrow> 'e + 'b) \<Rightarrow> 'e + 'b" where
  "rbind m f = (case m of Inl e \<Rightarrow> Inl e | Inr x \<Rightarrow> f x)"

named_theorems res_simps "inversion of results"

lemma rbind_Inl [simp]: "rbind (Inl e) f = Inl e"
  by (simp add: rbind_def)

lemma rbind_Inr [simp]: "rbind (Inr x) f = f x"
  by (simp add: rbind_def)

lemma rbind_eq_Inr [res_simps]: "rbind m f = Inr y \<longleftrightarrow> (\<exists>x. m = Inr x \<and> f x = Inr y)"
  by (cases m) simp_all

lemma rbind_eq_Inl [res_simps]:
  "rbind m f = Inl e \<longleftrightarrow> m = Inl e \<or> (\<exists>x. m = Inr x \<and> f x = Inl e)"
  by (cases m) simp_all

lemma if_raise_eq_Inr [simp]: "(if c then Inl e else m) = Inr y \<longleftrightarrow> \<not> c \<and> m = Inr y"
  by simp

lemma rbindE:
  assumes "rbind m f = Inr y"
  obtains x where "m = Inr x" and "f x = Inr y"
  using assms by (auto simp: rbind_eq_Inr)

lemma rbind_cong [fundef_cong]:
  assumes "m = m'" and "\<And>x. m' = Inr x \<Longrightarrow> f x = f' x"
  shows "rbind m f = rbind m' f'"
  using assms by (cases m') simp_all

text \<open>A list comprehension whose element expression may raise.\<close>

fun rmap :: "('a \<Rightarrow> 'e + 'b) \<Rightarrow> 'a list \<Rightarrow> 'e + 'b list" where
  "rmap f [] = Inr []"
| "rmap f (x # xs) = rbind (f x) (\<lambda>y. rbind (rmap f xs) (\<lambda>ys. Inr (y # ys)))"

text \<open>A \<open>for\<close> loop over a list that threads a state and may raise.\<close>

fun rfold :: "('a \<Rightarrow> 's \<Rightarrow> 'e + 's) \<Rightarrow> 'a list \<Rightarrow> 's \<Rightarrow> 'e + 's" where
  "rfold f [] s = Inr s"
| "rfold f (x # xs) s = rbind (f x s) (\<lambda>s'. rfold f xs s')"

text \<open>A \<open>for\<close> loop that only checks its elements.\<close>

definition rcheck :: "('a \<Rightarrow> 'e + unit) \<Rightarrow> 'a list \<Rightarrow> 'e + unit" where
  "rcheck f xs = rfold (\<lambda>x _. f x) xs ()"

lemma rmap_length: "rmap f xs = Inr ys \<Longrightarrow> length ys = length xs"
  by (induction xs arbitrary: ys) (auto simp: rbind_eq_Inr)

lemma rmap_Inr_iff:
  "rmap f xs = Inr ys \<longleftrightarrow> length ys = length xs \<and> (\<forall>i < length xs. f (xs ! i) = Inr (ys ! i))"
proof (induction xs arbitrary: ys)
  case Nil
  then show ?case by auto
next
  case (Cons x xs)
  show ?case
    by (cases ys) (auto simp: rbind_eq_Inr Cons.IH nth_Cons split: nat.splits)
qed

lemma rmap_id: "rmap f xs = Inr ys \<Longrightarrow> (\<And>x y. x \<in> set xs \<Longrightarrow> f x = Inr y \<Longrightarrow> y = x) \<Longrightarrow> ys = xs"
  by (induction xs arbitrary: ys) (auto simp: rbind_eq_Inr)

lemma rmap_total: "(\<And>x. x \<in> set xs \<Longrightarrow> \<exists>y. f x = Inr y) \<Longrightarrow> rmap f xs = Inr (map (projr \<circ> f) xs)"
  by (induction xs) fastforce+

lemma rmap_members: "rmap f xs = Inr ys \<Longrightarrow> x \<in> set xs \<Longrightarrow> \<exists>y. f x = Inr y \<and> y \<in> set ys"
  by (induction xs arbitrary: ys) (auto simp: rbind_eq_Inr)

lemma rmap_snoc: "rmap f xs = Inr ys \<Longrightarrow> f x = Inr y \<Longrightarrow> rmap f (xs @ [x]) = Inr (ys @ [y])"
  by (induction xs arbitrary: ys) (auto simp: rbind_eq_Inr)

lemma rcheck_Nil [simp]: "rcheck f [] = Inr ()"
  by (simp add: rcheck_def)

lemma rcheck_Cons [simp]: "rcheck f (x # xs) = rbind (f x) (\<lambda>_. rcheck f xs)"
  by (simp add: rcheck_def)

lemma rcheck_Inr_iff: "rcheck f xs = Inr u \<longleftrightarrow> (\<forall>x \<in> set xs. f x = Inr ())"
  by (induction xs) (auto simp: rbind_eq_Inr)

lemma rfold_append: "rfold f (xs @ ys) s = rbind (rfold f xs s) (rfold f ys)"
proof (induction xs arbitrary: s)
  case Nil
  then show ?case by simp
next
  case (Cons x xs)
  then show ?case by (cases "f x s") simp_all
qed

lemma rfold_mono:
  "rfold f xs s = Inr t \<Longrightarrow> (\<And>x c c'. x \<in> set xs \<Longrightarrow> f x c = Inr c' \<Longrightarrow> g x c = Inr c') \<Longrightarrow> rfold g xs s = Inr t"
  by (induction xs arbitrary: s) (auto simp: rbind_eq_Inr)

lemma rfold_last: "rfold f (xs @ [x]) s = rbind (rfold f xs s) (f x)"
proof (induction xs arbitrary: s)
  case Nil
  show ?case by (cases "f x s") simp_all
next
  case (Cons y ys)
  then show ?case by (cases "f y s") simp_all
qed

lemma rfold_snoc: "rfold f (xs @ [x]) s = Inr t \<longleftrightarrow> (\<exists>c. rfold f xs s = Inr c \<and> f x c = Inr t)"
  by (simp add: rfold_append rbind_eq_Inr)

lemma find_unique: "x \<in> set xs \<Longrightarrow> P x \<Longrightarrow> (\<And>y. y \<in> set xs \<Longrightarrow> P y \<Longrightarrow> y = x) \<Longrightarrow> find P xs = Some x"
proof -
  assume x: "x \<in> set xs" "P x" and unique: "\<And>y. y \<in> set xs \<Longrightarrow> P y \<Longrightarrow> y = x"
  from x have "find P xs \<noteq> None" by (auto simp: find_None_iff)
  then obtain y where y: "find P xs = Some y" by blast
  then have "y \<in> set xs" "P y" by (auto simp: find_Some_iff)
  with unique y show ?thesis by blast
qed

text \<open>An invariant of every step of a loop is an invariant of the loop.\<close>

lemma rfold_invariant:
  assumes "rfold f xs s = Inr t" and "P s"
    and "\<And>x s s'. x \<in> set xs \<Longrightarrow> P s \<Longrightarrow> f x s = Inr s' \<Longrightarrow> P s'"
  shows "P t"
  using assms
proof (induction xs arbitrary: s)
  case Nil
  then show ?case by simp
next
  case (Cons x xs)
  from Cons.prems(1) obtain s' where s': "f x s = Inr s'" and rest: "rfold f xs s' = Inr t"
    by (auto simp: rbind_eq_Inr)
  from Cons.prems(2,3) s' have "P s'" by (meson list.set_intros(1))
  with rest Cons.prems(3) show ?case by (intro Cons.IH) auto
qed

section \<open>Strings\<close>

abbreviation code :: "char \<Rightarrow> nat" where
  "code c \<equiv> of_char c"

text \<open>\<open>str.isspace\<close> on one character, the characters \<open>str.strip\<close> removes.\<close>

definition py_isspace :: "char \<Rightarrow> bool" where
  "py_isspace c \<longleftrightarrow> code c \<in> {9, 10, 11, 12, 13, 28, 29, 30, 31, 32, 133, 160}"

text \<open>The same test by comparing characters, for evaluation.\<close>

lemma py_isspace_code [code]:
  "py_isspace (Char b0 b1 b2 b3 b4 b5 b6 b7) \<longleftrightarrow> Char b0 b1 b2 b3 b4 b5 b6 b7 \<in>
     set [CHR 0x20, CHR 0x0A, CHR 0x09, CHR 0x0B, CHR 0x0C, CHR 0x0D,
          CHR 0x1C, CHR 0x1D, CHR 0x1E, CHR 0x1F, CHR 0x85, CHR 0xA0]"
  by (cases b0; cases b1; cases b2; cases b3; cases b4; cases b5; cases b6; cases b7)
     (simp_all add: py_isspace_def)

definition py_strip :: "string \<Rightarrow> string" where
  "py_strip s = rev (dropWhile py_isspace (rev (dropWhile py_isspace s)))"

lemma py_strip_idem [simp]: "py_strip (py_strip s) = py_strip s"
proof -
  define t where "t = dropWhile py_isspace s"
  define u where "u = dropWhile py_isspace (rev t)"
  have s: "py_strip s = rev u" by (simp add: py_strip_def t_def u_def)
  obtain p where p: "rev t = p @ u"
    unfolding u_def by (metis takeWhile_dropWhile_id)
  have "dropWhile py_isspace (rev u) = rev u"
  proof (cases "rev u")
    case (Cons x xs)
    from p have "t = rev u @ rev p" by (metis rev_append rev_rev_ident)
    with Cons have "hd t = x" and "t \<noteq> []" by auto
    with hd_dropWhile [of py_isspace s] have "\<not> py_isspace x" by (simp add: t_def)
    with Cons show ?thesis by simp
  qed simp
  moreover have "dropWhile py_isspace u = u" by (simp add: u_def)
  ultimately show ?thesis unfolding s by (simp add: py_strip_def)
qed

text \<open>\<open>str.lower\<close>: the upper-case letters below 256 lie 32 below their lower-case forms.\<close>

definition py_lower_char :: "char \<Rightarrow> char" where
  "py_lower_char c =
     (if (65 \<le> code c \<and> code c \<le> 90) \<or> (192 \<le> code c \<and> code c \<le> 222 \<and> code c \<noteq> 215)
      then char_of (code c + 32) else c)"

definition py_lower :: "string \<Rightarrow> string" where
  "py_lower s = map py_lower_char s"

fun py_join :: "string \<Rightarrow> string list \<Rightarrow> string" where
  "py_join sep [] = []"
| "py_join sep [x] = x"
| "py_join sep (x # y # zs) = x @ sep @ py_join sep (y # zs)"

text \<open>\<open>s.split(c)\<close> for a one-character separator: \<open>''a..b''\<close> has an empty middle part.\<close>

fun py_split :: "char \<Rightarrow> string \<Rightarrow> string list" where
  "py_split c [] = [[]]"
| "py_split c (x # xs) =
     (if x = c then [] # py_split c xs
      else (case py_split c xs of [] \<Rightarrow> [[x]] | p # ps \<Rightarrow> (x # p) # ps))"

text \<open>\<open>sub in s\<close> for strings.\<close>

fun py_substring :: "string \<Rightarrow> string \<Rightarrow> bool" where
  "py_substring p [] = (p = [])"
| "py_substring p (x # xs) = (take (length p) (x # xs) = p \<or> py_substring p xs)"

lemma py_split_nonempty [simp]: "py_split c s \<noteq> []"
  by (cases s) (auto split: list.splits)

lemma py_split_no_sep: "c \<notin> set s \<Longrightarrow> py_split c s = [s]"
  by (induction s) auto

lemma py_split_append:
  "c \<notin> set s \<Longrightarrow> py_split c (s @ c # t) = s # py_split c t"
  by (induction s) auto

lemma py_join_split: "py_join [c] (py_split c s) = s"
proof (induction s)
  case Nil
  then show ?case by simp
next
  case (Cons x xs)
  obtain p ps where p: "py_split c xs = p # ps"
    by (cases "py_split c xs") auto
  show ?case
  proof (cases "x = c")
    case True
    with Cons p show ?thesis by simp
  next
    case False
    with Cons p show ?thesis by (cases ps) auto
  qed
qed

section \<open>Decimal numbers\<close>

definition digit_char :: "nat \<Rightarrow> char" where
  "digit_char d = char_of (48 + d)"

fun show_nat :: "nat \<Rightarrow> string" where
  "show_nat n = (if n < 10 then [digit_char n] else show_nat (n div 10) @ [digit_char (n mod 10)])"

declare show_nat.simps [simp del]

definition show_int :: "int \<Rightarrow> string" where
  "show_int i = (if i < 0 then CHR ''-'' # show_nat (nat (- i)) else show_nat (nat i))"

text \<open>The digits of an integer by binary arithmetic, for evaluation.\<close>

function int_digits :: "int \<Rightarrow> string" where
  "int_digits i = (if i < 10 then [digit_char (nat i)] else int_digits (i div 10) @ [digit_char (nat (i mod 10))])"
  by pat_completeness auto
termination by (relation "measure nat") auto

lemma show_nat_int: "0 \<le> i \<Longrightarrow> show_nat (nat i) = int_digits i"
proof (induction i rule: int_digits.induct)
  case (1 i)
  show ?case
  proof (cases "i < 10")
    case True
    with 1 have "nat i < 10" by linarith
    with True show ?thesis by (simp add: show_nat.simps [of "nat i"])
  next
    case False
    with 1 have "show_nat (nat (i div 10)) = int_digits (i div 10)" by simp
    moreover from False have "\<not> nat i < 10" by linarith
    ultimately show ?thesis
      using False 1 by (simp add: show_nat.simps [of "nat i"] int_digits.simps [of i] nat_div_distrib nat_mod_distrib)
  qed
qed

lemma show_int_code [code]: "show_int i = (if i < 0 then CHR ''-'' # int_digits (- i) else int_digits i)"
  by (simp add: show_int_def show_nat_int del: int_digits.simps)

declare int_digits.simps [simp del]

text \<open>The format \<open>{i:06d}\<close>: at least six characters, zeros between the sign and the digits.\<close>

definition show_06d :: "int \<Rightarrow> string" where
  "show_06d i =
     (if i < 0
      then (let ds = show_nat (nat (- i)) in CHR ''-'' # replicate (5 - length ds) (CHR ''0'') @ ds)
      else (let ds = show_nat (nat i) in replicate (6 - length ds) (CHR ''0'') @ ds))"

definition is_digit :: "char \<Rightarrow> bool" where
  "is_digit c \<longleftrightarrow> 48 \<le> code c \<and> code c \<le> 57"

definition digit_val :: "char \<Rightarrow> nat" where
  "digit_val c = code c - 48"

definition read_nat :: "string \<Rightarrow> nat" where
  "read_nat s = foldl (\<lambda>a c. 10 * a + digit_val c) 0 s"

lemma digit_val_char [simp]: "d < 10 \<Longrightarrow> digit_val (digit_char d) = d"
  by (simp add: digit_val_def digit_char_def)

lemma is_digit_char [simp]: "d < 10 \<Longrightarrow> is_digit (digit_char d)"
  by (simp add: is_digit_def digit_char_def)

lemma show_nat_digits: "c \<in> set (show_nat n) \<Longrightarrow> is_digit c"
proof (induction n rule: show_nat.induct)
  case (1 n)
  show ?case
  proof (cases "n < 10")
    case True
    with "1.prems" show ?thesis by (simp add: show_nat.simps [of n])
  next
    case False
    with "1.prems" have "c \<in> set (show_nat (n div 10)) \<or> c = digit_char (n mod 10)"
      by (auto simp: show_nat.simps [of n])
    with "1.IH" [OF False] show ?thesis by auto
  qed
qed

lemma show_nat_nonempty [simp]: "show_nat n \<noteq> []"
  by (subst show_nat.simps) simp

lemma read_show_nat [simp]: "read_nat (show_nat n) = n"
proof (induction n rule: show_nat.induct)
  case (1 n)
  show ?case
  proof (cases "n < 10")
    case True
    then show ?thesis by (simp add: show_nat.simps [of n] read_nat_def)
  next
    case False
    with "1.IH" have "read_nat (show_nat (n div 10)) = n div 10" by simp
    with False show ?thesis by (simp add: show_nat.simps [of n] read_nat_def)
  qed
qed

lemma read_nat_zeros: "read_nat (replicate n (CHR ''0'') @ s) = read_nat s"
  by (induction n) (simp_all add: read_nat_def digit_val_def)

lemma show_nat_inj: "show_nat m = show_nat n \<longleftrightarrow> m = n"
  by (metis read_show_nat)

lemma show_int_inj: "show_int i = show_int j \<longleftrightarrow> i = j"
proof -
  have "\<not> is_digit (CHR ''-'')" by (simp add: is_digit_def)
  then have neq: "CHR ''-'' # xs \<noteq> show_nat n" for xs n
    by (metis list.set_intros(1) show_nat_digits)
  show ?thesis
    using neq by (auto simp: show_int_def show_nat_inj) (metis neq)+
qed

section \<open>Digests and identifiers\<close>

definition hex_digits :: string where
  "hex_digits = ''0123456789abcdef''"

text \<open>A lowercase SHA-256 digest, as every module of the program recognises it.\<close>

definition is_sha256 :: "string \<Rightarrow> bool" where
  "is_sha256 s \<longleftrightarrow> length s = 64 \<and> list_all (\<lambda>c. c \<in> set hex_digits) s"

definition is_alnum_ascii :: "char \<Rightarrow> bool" where
  "is_alnum_ascii c \<longleftrightarrow>
     (48 \<le> code c \<and> code c \<le> 57) \<or> (65 \<le> code c \<and> code c \<le> 90) \<or> (97 \<le> code c \<and> code c \<le> 122)"

text \<open>The identifiers of the autonomy layer and of recovery markers: one letter or digit, then
  up to 159 letters, digits, dots, underscores, colons or hyphens.\<close>

definition is_safe_id :: "string \<Rightarrow> bool" where
  "is_safe_id s \<longleftrightarrow>
     (case s of [] \<Rightarrow> False
      | c # cs \<Rightarrow> is_alnum_ascii c \<and> length cs \<le> 159 \<and>
          list_all (\<lambda>d. is_alnum_ascii d \<or> d \<in> set ''._:-'') cs)"

lemma is_sha256_length: "is_sha256 s \<Longrightarrow> length s = 64"
  by (simp add: is_sha256_def)

section \<open>Association lists\<close>

lemma map_of_update_same [simp]: "map_of (AList.update k v d) k = Some v"
  by (simp add: update_conv')

lemma map_of_update_other [simp]: "k \<noteq> j \<Longrightarrow> map_of (AList.update k v d) j = map_of d j"
  by (simp add: update_conv')

lemma map_of_delete_same [simp]: "map_of (AList.delete k d) k = None"
  by (simp add: delete_conv')

lemma map_of_delete_other [simp]: "k \<noteq> j \<Longrightarrow> map_of (AList.delete k d) j = map_of d j"
  by (simp add: delete_conv')

lemma update_idem_at: "map_of d k = Some v \<Longrightarrow> AList.update k v d = d"
  by (induction d) auto

lemma update_update_same [simp]: "AList.update k v (AList.update k w d) = AList.update k v d"
  by (induction d) auto

end
