(* ===== verification/Py_Value.thy ===== *)
theory Py_Value
  imports Py_Prelude
begin

text \<open>
  The values the program moves around: JSON documents as Python sees them. A dictionary is an
  association list in insertion order whose keys are distinct (\<open>wf_json\<close>); assigning to a key
  keeps its position or appends it, as Python does. Finite floats are the rationals they denote.
  The theory gives the operations of the language the program applies to such values: equality,
  truth value, \<open>in\<close>, comparison, \<open>str\<close>, \<open>repr\<close>, \<open>int\<close>, and the record \<open>host\<close> of the
  functions of the interpreter's C library that the code calls.
\<close>

section \<open>Documents\<close>

datatype pyfloat = Finite rat | PosInf | NegInf | NaN

datatype json =
    JNull
  | JBool bool
  | JInt int
  | JFloat pyfloat
  | JStr string
  | JList "json list"
  | JObj "(string \<times> json) list"

type_synonym dict = "(string \<times> json) list"

text \<open>
  What the code takes from the interpreter's C library: \<open>hashlib.sha256(s.encode()).hexdigest()\<close>,
  \<open>repr\<close> of a finite float, sum, difference and product of floats (double precision rounds),
  \<open>datetime.fromisoformat\<close> (the instant in microseconds and whether it has an offset, \<open>None\<close> for
  \<open>ValueError\<close>), \<open>isoformat\<close> of an instant in UTC (\<open>None\<close> beyond the range of \<open>datetime\<close>), the
  regular expression engine for the patterns of schema files (\<open>re.compile\<close> with its error message,
  \<open>re.search\<close>), and the schema files of the working directory as \<open>json.load\<close> reads them.
\<close>

record host =
  sha256_hex :: "string \<Rightarrow> string"
  float_repr :: "rat \<Rightarrow> string"
  float_add :: "rat \<Rightarrow> rat \<Rightarrow> rat"
  float_sub :: "rat \<Rightarrow> rat \<Rightarrow> rat"
  float_mul :: "rat \<Rightarrow> rat \<Rightarrow> rat"
  parse_iso :: "string \<Rightarrow> (int \<times> bool) option"
  iso_utc :: "int \<Rightarrow> string option"
  re_error :: "string \<Rightarrow> string option"
  re_search :: "string \<Rightarrow> string \<Rightarrow> bool"
  schema_file :: "string \<Rightarrow> json option"

section \<open>Dictionaries\<close>

definition dget :: "dict \<Rightarrow> string \<Rightarrow> json" where
  "dget d k = (case map_of d k of None \<Rightarrow> JNull | Some v \<Rightarrow> v)"

definition dget_or :: "dict \<Rightarrow> string \<Rightarrow> json \<Rightarrow> json" where
  "dget_or d k v0 = (case map_of d k of None \<Rightarrow> v0 | Some v \<Rightarrow> v)"

definition ditem :: "dict \<Rightarrow> string \<Rightarrow> json res" where
  "ditem d k = (case map_of d k of None \<Rightarrow> Inl (KeyError k) | Some v \<Rightarrow> Inr v)"

definition dhas :: "dict \<Rightarrow> string \<Rightarrow> bool" where
  "dhas d k \<longleftrightarrow> map_of d k \<noteq> None"

definition dset :: "string \<Rightarrow> json \<Rightarrow> dict \<Rightarrow> dict" where
  "dset k v d = AList.update k v d"

definition dpop :: "string \<Rightarrow> dict \<Rightarrow> dict" where
  "dpop k d = AList.delete k d"

definition dsetdefault :: "string \<Rightarrow> json \<Rightarrow> dict \<Rightarrow> dict" where
  "dsetdefault k v d = (if dhas d k then d else dset k v d)"

fun dupdate :: "dict \<Rightarrow> dict \<Rightarrow> dict" where
  "dupdate d [] = d"
| "dupdate d ((k, v) # e) = dupdate (dset k v d) e"

definition dkeys :: "dict \<Rightarrow> string list" where
  "dkeys d = map fst d"

definition same_keys :: "dict \<Rightarrow> string list \<Rightarrow> bool" where
  "same_keys d ks \<longleftrightarrow> list_all (\<lambda>k. k \<in> set ks) (dkeys d) \<and> list_all (dhas d) ks"

lemma map_of_dset [simp]: "map_of (dset k v d) j = (if j = k then Some v else map_of d j)"
  by (simp add: dset_def)

lemma map_of_dpop [simp]: "map_of (dpop k d) j = (if j = k then None else map_of d j)"
  by (simp add: dpop_def)

lemma map_of_dsetdefault [simp]:
  "map_of (dsetdefault k v d) j = (if j = k \<and> map_of d k = None then Some v else map_of d j)"
  by (auto simp: dsetdefault_def dhas_def)

lemma dget_Cons: "dget ((j, v) # d) k = (if j = k then v else dget d k)"
  by (simp add: dget_def)

lemma dget_dset [simp]: "dget (dset k v d) j = (if j = k then v else dget d j)"
  by (simp add: dget_def)

lemma dhas_dset [simp]: "dhas (dset k v d) j \<longleftrightarrow> j = k \<or> dhas d j"
  by (simp add: dhas_def)

lemma ditem_dset [simp]: "ditem (dset k v d) j = (if j = k then Inr v else ditem d j)"
  by (simp add: ditem_def)

lemma ditem_Inr: "ditem d k = Inr v \<longleftrightarrow> map_of d k = Some v"
  by (simp add: ditem_def split: option.splits)

lemma dset_same: "map_of d k = Some v \<Longrightarrow> dset k v d = d"
  by (simp add: dset_def update_idem_at)

lemma dset_dset [simp]: "dset k v (dset k w d) = dset k v d"
  by (simp add: dset_def)

lemma dkeys_dset: "dkeys (dset k v d) = (if k \<in> set (dkeys d) then dkeys d else dkeys d @ [k])"
  by (simp add: dkeys_def dset_def update_keys)

lemma distinct_dset [simp]: "distinct (map fst d) \<Longrightarrow> distinct (map fst (dset k v d))"
  by (simp add: dset_def distinct_update)

lemma distinct_dpop [simp]: "distinct (map fst d) \<Longrightarrow> distinct (map fst (dpop k d))"
  by (simp add: dpop_def distinct_delete)

lemma dhas_iff_key: "dhas d k \<longleftrightarrow> k \<in> set (dkeys d)"
  by (simp add: dhas_def dkeys_def map_of_eq_None_iff)

lemma same_keys_set: "same_keys d ks \<longleftrightarrow> set (dkeys d) = set ks"
  by (auto simp: same_keys_def list_all_iff dhas_iff_key)

section \<open>Well-formed documents\<close>

text \<open>Every dictionary of a document has distinct keys, as a Python \<open>dict\<close> does.\<close>

fun wf_json :: "json \<Rightarrow> bool" and wf_list :: "json list \<Rightarrow> bool" and wf_items :: "dict \<Rightarrow> bool" where
  "wf_json (JList xs) = wf_list xs"
| "wf_json (JObj d) = (distinct (map fst d) \<and> wf_items d)"
| "wf_json _ = True"
| "wf_list [] = True"
| "wf_list (x # xs) = (wf_json x \<and> wf_list xs)"
| "wf_items [] = True"
| "wf_items ((k, v) # d) = (wf_json v \<and> wf_items d)"

lemma wf_list_iff: "wf_list xs \<longleftrightarrow> (\<forall>x \<in> set xs. wf_json x)"
  by (induction xs) auto

lemma wf_items_iff: "wf_items d \<longleftrightarrow> (\<forall>(k, v) \<in> set d. wf_json v)"
  by (induction d) auto

lemma wf_items_map_of: "wf_items d \<Longrightarrow> map_of d k = Some v \<Longrightarrow> wf_json v"
  by (auto simp: wf_items_iff dest: map_of_SomeD)

lemma wf_items_dset: "wf_items d \<Longrightarrow> wf_json v \<Longrightarrow> wf_items (dset k v d)"
  by (induction d) (auto simp: dset_def)

text \<open>The number of nodes, the measure of every recursion over a document and its members.\<close>

fun jsize :: "json \<Rightarrow> nat" and jsize_list :: "json list \<Rightarrow> nat" and jsize_items :: "dict \<Rightarrow> nat" where
  "jsize (JList xs) = Suc (jsize_list xs)"
| "jsize (JObj d) = Suc (jsize_items d)"
| "jsize _ = 1"
| "jsize_list [] = 0"
| "jsize_list (x # xs) = Suc (jsize x + jsize_list xs)"
| "jsize_items [] = 0"
| "jsize_items ((k, v) # d) = Suc (jsize v + jsize_items d)"

section \<open>Truth value and equality\<close>

definition truthy :: "json \<Rightarrow> bool" where
  "truthy v = (case v of
      JNull \<Rightarrow> False
    | JBool b \<Rightarrow> b
    | JInt i \<Rightarrow> i \<noteq> 0
    | JFloat f \<Rightarrow> f \<noteq> Finite 0
    | JStr s \<Rightarrow> s \<noteq> []
    | JList xs \<Rightarrow> xs \<noteq> []
    | JObj d \<Rightarrow> d \<noteq> [])"

text \<open>\<open>a or b\<close>.\<close>

definition py_or :: "json \<Rightarrow> json \<Rightarrow> json" where
  "py_or a b = (if truthy a then a else b)"

text \<open>The number a value is, for the types that compare as numbers (\<open>bool\<close> is an \<open>int\<close>).\<close>

definition as_float :: "json \<Rightarrow> pyfloat option" where
  "as_float v = (case v of
      JBool b \<Rightarrow> Some (Finite (if b then 1 else 0))
    | JInt i \<Rightarrow> Some (Finite (of_int i))
    | JFloat f \<Rightarrow> Some f
    | _ \<Rightarrow> None)"

definition float_eq :: "pyfloat \<Rightarrow> pyfloat \<Rightarrow> bool" where
  "float_eq a b \<longleftrightarrow> a = b \<and> a \<noteq> NaN"

fun float_less :: "pyfloat \<Rightarrow> pyfloat \<Rightarrow> bool" where
  "float_less (Finite a) (Finite b) = (a < b)"
| "float_less (Finite a) PosInf = True"
| "float_less NegInf (Finite b) = True"
| "float_less NegInf PosInf = True"
| "float_less _ _ = False"

text \<open>
  \<open>a == b\<close>: numbers compare by value across \<open>bool\<close>, \<open>int\<close> and \<open>float\<close>, dictionaries without
  regard to order.
\<close>

fun py_eq :: "json \<Rightarrow> json \<Rightarrow> bool"
  and py_eq_list :: "json list \<Rightarrow> json list \<Rightarrow> bool"
  and py_eq_items :: "dict \<Rightarrow> dict \<Rightarrow> bool" where
  "py_eq (JList xs) v = (case v of JList ys \<Rightarrow> py_eq_list xs ys | _ \<Rightarrow> False)"
| "py_eq (JObj d) v = (case v of JObj e \<Rightarrow> length d = length e \<and> py_eq_items d e | _ \<Rightarrow> False)"
| "py_eq (JStr s) v = (v = JStr s)"
| "py_eq JNull v = (v = JNull)"
| "py_eq (JBool b) v = (case as_float v of None \<Rightarrow> False | Some g \<Rightarrow> float_eq (Finite (if b then 1 else 0)) g)"
| "py_eq (JInt i) v = (case as_float v of None \<Rightarrow> False | Some g \<Rightarrow> float_eq (Finite (of_int i)) g)"
| "py_eq (JFloat f) v = (case as_float v of None \<Rightarrow> False | Some g \<Rightarrow> float_eq f g)"
| "py_eq_list [] ys = (ys = [])"
| "py_eq_list (x # xs) ys = (case ys of [] \<Rightarrow> False | y # zs \<Rightarrow> py_eq x y \<and> py_eq_list xs zs)"
| "py_eq_items [] e = True"
| "py_eq_items ((k, v) # d) e = ((case map_of e k of None \<Rightarrow> False | Some w \<Rightarrow> py_eq v w) \<and> py_eq_items d e)"

declare py_eq.simps(5,6,7) [simp del]

lemma py_eq_JBool [simp]: "py_eq (JBool a) (JBool b) \<longleftrightarrow> a = b"
  by (simp add: py_eq.simps as_float_def float_eq_def)

lemma py_eq_JInt [simp]: "py_eq (JInt i) (JInt j) \<longleftrightarrow> i = j"
  by (simp add: py_eq.simps as_float_def float_eq_def)

text \<open>Values without NaN and with distinct keys are equal to themselves.\<close>

fun no_nan :: "json \<Rightarrow> bool" and no_nan_list :: "json list \<Rightarrow> bool" and no_nan_items :: "dict \<Rightarrow> bool" where
  "no_nan (JFloat f) = (f \<noteq> NaN)"
| "no_nan (JList xs) = no_nan_list xs"
| "no_nan (JObj d) = no_nan_items d"
| "no_nan _ = True"
| "no_nan_list [] = True"
| "no_nan_list (x # xs) = (no_nan x \<and> no_nan_list xs)"
| "no_nan_items [] = True"
| "no_nan_items ((k, v) # d) = (no_nan v \<and> no_nan_items d)"

lemma py_eq_items_sub:
  "\<forall>(k, v) \<in> set d. map_of e k = Some v \<and> py_eq v v \<Longrightarrow> py_eq_items d e"
  by (induction d) auto

lemma py_eq_refl_aux:
  "wf_json v \<Longrightarrow> no_nan v \<Longrightarrow> py_eq v v"
  "wf_list xs \<Longrightarrow> no_nan_list xs \<Longrightarrow> py_eq_list xs xs"
  "wf_items d \<Longrightarrow> no_nan_items d \<Longrightarrow> \<forall>(k, w) \<in> set d. py_eq w w"
proof (induction v and xs and d rule: wf_json_wf_list_wf_items.induct)
  case (2 d)
  then have "\<forall>(k, v) \<in> set d. map_of d k = Some v \<and> py_eq v v" by auto
  then show ?case by (simp add: py_eq_items_sub)
qed (auto simp: py_eq.simps float_eq_def as_float_def)

lemma py_eq_refl: "wf_json v \<Longrightarrow> no_nan v \<Longrightarrow> py_eq v v"
  by (rule py_eq_refl_aux)

lemma py_eq_JStr [simp]: "py_eq v (JStr s) \<longleftrightarrow> v = JStr s"
  by (cases v) (auto simp: py_eq.simps as_float_def)

lemma py_eq_JNull [simp]: "py_eq v JNull \<longleftrightarrow> v = JNull"
  by (cases v) (auto simp: py_eq.simps as_float_def)

section \<open>Types and conversions\<close>

definition is_dict :: "json \<Rightarrow> bool" where
  "is_dict v \<longleftrightarrow> (case v of JObj _ \<Rightarrow> True | _ \<Rightarrow> False)"

definition is_list :: "json \<Rightarrow> bool" where
  "is_list v \<longleftrightarrow> (case v of JList _ \<Rightarrow> True | _ \<Rightarrow> False)"

definition is_str :: "json \<Rightarrow> bool" where
  "is_str v \<longleftrightarrow> (case v of JStr _ \<Rightarrow> True | _ \<Rightarrow> False)"

text \<open>\<open>isinstance(v, int) and not isinstance(v, bool)\<close>.\<close>

definition strict_int :: "json \<Rightarrow> int option" where
  "strict_int v = (case v of JInt i \<Rightarrow> Some i | _ \<Rightarrow> None)"

definition is_bool :: "json \<Rightarrow> bool" where
  "is_bool v \<longleftrightarrow> (case v of JBool _ \<Rightarrow> True | _ \<Rightarrow> False)"

text \<open>\<open>repr\<close> of a string: quotes as CPython chooses them, escapes for what is not printable.\<close>

definition hex2 :: "nat \<Rightarrow> string" where
  "hex2 n = [hex_digits ! (n div 16 mod 16), hex_digits ! (n mod 16)]"

definition repr_char :: "char \<Rightarrow> char \<Rightarrow> string" where
  "repr_char q c =
     (if c = q \<or> code c = 92 then [CHR 0x5C, c]
      else if code c = 10 then [CHR 0x5C, CHR ''n'']
      else if code c = 13 then [CHR 0x5C, CHR ''r'']
      else if code c = 9 then [CHR 0x5C, CHR ''t'']
      else if code c < 32 \<or> (127 \<le> code c \<and> code c \<le> 160) \<or> code c = 173
        then [CHR 0x5C, CHR ''x''] @ hex2 (code c)
      else [c])"

definition repr_str :: "string \<Rightarrow> string" where
  "repr_str s =
     (let q = (if CHR 0x27 \<in> set s \<and> CHR 0x22 \<notin> set s then CHR 0x22 else CHR 0x27)
      in q # concat (map (repr_char q) s) @ [q])"

definition repr_float :: "host \<Rightarrow> pyfloat \<Rightarrow> string" where
  "repr_float h f = (case f of Finite r \<Rightarrow> float_repr h r | PosInf \<Rightarrow> ''inf'' | NegInf \<Rightarrow> ''-inf'' | NaN \<Rightarrow> ''nan'')"

fun py_repr :: "host \<Rightarrow> json \<Rightarrow> string"
  and py_repr_list :: "host \<Rightarrow> json list \<Rightarrow> string list"
  and py_repr_items :: "host \<Rightarrow> dict \<Rightarrow> string list" where
  "py_repr h JNull = ''None''"
| "py_repr h (JBool b) = (if b then ''True'' else ''False'')"
| "py_repr h (JInt i) = show_int i"
| "py_repr h (JFloat f) = repr_float h f"
| "py_repr h (JStr s) = repr_str s"
| "py_repr h (JList xs) = ''['' @ py_join '', '' (py_repr_list h xs) @ '']''"
| "py_repr h (JObj d) = ''{'' @ py_join '', '' (py_repr_items h d) @ ''}''"
| "py_repr_list h [] = []"
| "py_repr_list h (x # xs) = py_repr h x # py_repr_list h xs"
| "py_repr_items h [] = []"
| "py_repr_items h ((k, v) # d) = (repr_str k @ '': '' @ py_repr h v) # py_repr_items h d"

definition py_str :: "host \<Rightarrow> json \<Rightarrow> string" where
  "py_str h v = (case v of JStr s \<Rightarrow> s | _ \<Rightarrow> py_repr h v)"

lemma py_str_JStr [simp]: "py_str h (JStr s) = s"
  by (simp add: py_str_def)

text \<open>\<open>int(v)\<close>. A string is a decimal literal with an optional sign and single underscores
  between digits, white space around it.\<close>

fun digits_ok :: "string \<Rightarrow> bool" where
  "digits_ok [] = False"
| "digits_ok [c] = is_digit c"
| "digits_ok (c # d # cs) =
     (is_digit c \<and> (if d = CHR ''_'' then cs \<noteq> [] \<and> digits_ok cs else digits_ok (d # cs)))"

definition parse_int :: "string \<Rightarrow> int option" where
  "parse_int s =
     (let t = py_strip s;
          neg = (t \<noteq> [] \<and> hd t = CHR ''-'');
          ds = (if t \<noteq> [] \<and> hd t \<in> {CHR ''-'', CHR ''+''} then tl t else t)
      in if digits_ok ds
         then (let n = int (read_nat (filter is_digit ds)) in Some (if neg then - n else n))
         else None)"

definition trunc_rat :: "rat \<Rightarrow> int" where
  "trunc_rat r = (if r < 0 then - \<lfloor>- r\<rfloor> else \<lfloor>r\<rfloor>)"

definition py_int :: "json \<Rightarrow> int res" where
  "py_int v = (case v of
      JInt i \<Rightarrow> Inr i
    | JBool b \<Rightarrow> Inr (if b then 1 else 0)
    | JFloat (Finite r) \<Rightarrow> Inr (trunc_rat r)
    | JFloat NaN \<Rightarrow> Inl (ValueError ''cannot convert float NaN to integer'')
    | JFloat _ \<Rightarrow> Inl OverflowError
    | JStr s \<Rightarrow> (case parse_int s of Some i \<Rightarrow> Inr i | None \<Rightarrow> Inl (ValueError ''invalid literal for int() with base 10''))
    | _ \<Rightarrow> Inl TypeError)"

lemma py_int_JInt [simp]: "py_int (JInt i) = Inr i"
  by (simp add: py_int_def)

text \<open>\<open>a < b\<close> where one side is a number: the other must be one.\<close>

definition num_less :: "json \<Rightarrow> json \<Rightarrow> bool res" where
  "num_less a b = (case (as_float a, as_float b) of
      (Some f, Some g) \<Rightarrow> Inr (float_less f g)
    | _ \<Rightarrow> Inl TypeError)"

text \<open>\<open>v in c\<close>. A list compares with \<open>==\<close>, a string wants a string, a dictionary a hashable key.\<close>

definition hashable :: "json \<Rightarrow> bool" where
  "hashable v \<longleftrightarrow> \<not> is_list v \<and> \<not> is_dict v"

definition py_in :: "json \<Rightarrow> json \<Rightarrow> bool res" where
  "py_in v c = (case c of
      JList xs \<Rightarrow> Inr (list_ex (py_eq v) xs)
    | JStr s \<Rightarrow> (case v of JStr p \<Rightarrow> Inr (py_substring p s) | _ \<Rightarrow> Inl TypeError)
    | JObj d \<Rightarrow> (if hashable v then Inr (case v of JStr k \<Rightarrow> dhas d k | _ \<Rightarrow> False) else Inl TypeError)
    | _ \<Rightarrow> Inl TypeError)"

text \<open>The elements a \<open>for\<close> loop takes from a value.\<close>

definition py_iter :: "json \<Rightarrow> json list res" where
  "py_iter v = (case v of
      JList xs \<Rightarrow> Inr xs
    | JStr s \<Rightarrow> Inr (map (\<lambda>c. JStr [c]) s)
    | JObj d \<Rightarrow> Inr (map JStr (dkeys d))
    | _ \<Rightarrow> Inl TypeError)"

text \<open>A non-empty string after stripping, the test most modules apply to a text field.\<close>

definition nonblank :: "json \<Rightarrow> bool" where
  "nonblank v \<longleftrightarrow> (case v of JStr s \<Rightarrow> py_strip s \<noteq> [] | _ \<Rightarrow> False)"

definition json_sha256 :: "json \<Rightarrow> bool" where
  "json_sha256 v \<longleftrightarrow> (case v of JStr s \<Rightarrow> is_sha256 s | _ \<Rightarrow> False)"

lemma json_sha256_JStr [simp]: "json_sha256 (JStr s) = is_sha256 s"
  by (simp add: json_sha256_def)

lemma json_sha256D: "json_sha256 v \<Longrightarrow> \<exists>s. v = JStr s \<and> is_sha256 s"
  by (cases v) (auto simp: json_sha256_def)

section \<open>Inversion of case distinctions\<close>

lemma case_obj_Inr:
  "(case v of JObj r \<Rightarrow> f r | _ \<Rightarrow> Inl e) = Inr z \<longleftrightarrow> (\<exists>r. v = JObj r \<and> f r = Inr z)"
  by (cases v) auto

lemma case_sum_Inr:
  "(case r of Inl a \<Rightarrow> Inl (g a) | Inr b \<Rightarrow> f b) = Inr z \<longleftrightarrow> (\<exists>b. r = Inr b \<and> f b = Inr z)"
  by (cases r) auto

end
