(* ===== verification/Schema.thy ===== *)
theory Schema
  imports Py_Value
begin

text \<open>
  The contract validator of \<open>core/schema.py\<close>: the JSON-Schema subset the program supports, as
  the two traversals of the source. \<open>keyword_errors\<close> checks a schema, \<open>vld\<close> checks a document
  against a schema and returns the messages it collects, and \<open>validate_schema\<close> loads a schema
  file, checks it and returns the document unchanged or raises. The schema files are the field
  \<open>schema_file\<close> of the host record.
\<close>

section \<open>Checking a schema\<close>

definition supported_schema_keywords :: "string list" where
  "supported_schema_keywords =
     [''$id'', ''$schema'', ''additionalProperties'', ''description'', ''enum'', ''items'',
      ''maximum'', ''maxLength'', ''minimum'', ''minItems'', ''minLength'', ''pattern'',
      ''properties'', ''required'', ''title'', ''type'']"

definition keyword_leaf_errors :: "host \<Rightarrow> string \<Rightarrow> json \<Rightarrow> string \<Rightarrow> string list" where
  "keyword_leaf_errors h key value path =
     (if key = ''additionalProperties'' \<and> \<not> is_bool value
      then [path @ ''.additionalProperties must be a boolean''] else []) @
     (if key \<in> {''minLength'', ''maxLength''} \<and>
         (case strict_int value of None \<Rightarrow> True | Some i \<Rightarrow> i < 0)
      then [path @ ''.'' @ key @ '' must be a non-negative integer''] else []) @
     (if key = ''pattern''
      then (case value of
              JStr p \<Rightarrow> (case re_error h p of
                  None \<Rightarrow> []
                | Some exc \<Rightarrow> [path @ ''.pattern is invalid: '' @ exc])
            | _ \<Rightarrow> [path @ ''.pattern must be a string''])
      else [])"

fun schema_keyword_errors :: "host \<Rightarrow> dict \<Rightarrow> string \<Rightarrow> string list"
  and property_keyword_errors :: "host \<Rightarrow> dict \<Rightarrow> string \<Rightarrow> string list" where
  "schema_keyword_errors h [] path = []"
| "schema_keyword_errors h ((key, value) # rest) path =
     (if key \<notin> set supported_schema_keywords then [path @ ''.'' @ key @ '' is unsupported''] else []) @
     (if key = ''properties''
      then (case value of
              JObj ps \<Rightarrow> property_keyword_errors h ps path
            | _ \<Rightarrow> [path @ ''.properties must be an object''])
      else if key = ''items''
      then (case value of
              JObj s \<Rightarrow> schema_keyword_errors h s (path @ ''.items'')
            | _ \<Rightarrow> [path @ ''.items must be a schema object''])
      else keyword_leaf_errors h key value path) @
     schema_keyword_errors h rest path"
| "property_keyword_errors h [] path = []"
| "property_keyword_errors h ((name, sub) # rest) path =
     (case sub of
        JObj s \<Rightarrow> schema_keyword_errors h s (path @ ''.properties.'' @ name)
      | _ \<Rightarrow> [path @ ''.properties.'' @ name @ '' must be a schema object'']) @
     property_keyword_errors h rest path"

definition validate_schema_keywords :: "host \<Rightarrow> json \<Rightarrow> string \<Rightarrow> dict res" where
  "validate_schema_keywords h schema name =
     (case schema of
        JObj s \<Rightarrow>
          (let errors = schema_keyword_errors h s name
           in if errors \<noteq> [] then Inl (SchemaValidationError (name @ '': '' @ py_join ''; '' errors))
              else Inr s)
      | _ \<Rightarrow> Inl (SchemaValidationError (name @ '': schema must be a JSON object'')))"

section \<open>Types\<close>

fun matches_type :: "json \<Rightarrow> json \<Rightarrow> bool" and matches_any :: "json \<Rightarrow> json list \<Rightarrow> bool" where
  "matches_type v (JList ts) = matches_any v ts"
| "matches_type v t =
     (if t = JStr ''object'' then is_dict v
      else if t = JStr ''array'' then is_list v
      else if t = JStr ''string'' then is_str v
      else if t = JStr ''integer'' then strict_int v \<noteq> None
      else if t = JStr ''boolean'' then is_bool v
      else if t = JStr ''number'' then as_float v \<noteq> None \<and> \<not> is_bool v
      else if t = JStr ''null'' then v = JNull
      else True)"
| "matches_any v [] = False"
| "matches_any v (t # ts) = (matches_type v t \<or> matches_any v ts)"

fun first_in :: "json list \<Rightarrow> json \<Rightarrow> json res" where
  "first_in [] c = Inr JNull"
| "first_in (x # xs) c = rbind (py_in x c) (\<lambda>b. if b then Inr x else first_in xs c)"

definition primary_type :: "json \<Rightarrow> json res" where
  "primary_type t =
     (if t = JNull then Inr JNull
      else if is_str t then Inr t
      else first_in [JStr ''object'', JStr ''array'', JStr ''integer'', JStr ''string'',
                     JStr ''boolean'', JStr ''number'', JStr ''null''] t)"

definition primary_type_for_value :: "json \<Rightarrow> json \<Rightarrow> json res" where
  "primary_type_for_value v t =
     (case t of
        JList ts \<Rightarrow> (case filter (matches_type v) ts of
            x # _ \<Rightarrow> Inr x
          | [] \<Rightarrow> primary_type t)
      | _ \<Rightarrow> primary_type t)"

section \<open>Checking a document\<close>

definition bound_errors :: "host \<Rightarrow> json \<Rightarrow> dict \<Rightarrow> string \<Rightarrow> string list res" where
  "bound_errors h data schema path =
     (let minimum = dget schema ''minimum''; maximum = dget schema ''maximum'' in
      rbind (if minimum = JNull then Inr False else num_less data minimum) (\<lambda>below.
      rbind (if maximum = JNull then Inr False else num_less maximum data) (\<lambda>above.
      Inr ((if below then [path @ '' must be >= '' @ py_str h minimum] else []) @
           (if above then [path @ '' must be <= '' @ py_str h maximum] else [])))))"

definition text_errors :: "host \<Rightarrow> json \<Rightarrow> dict \<Rightarrow> string \<Rightarrow> string list res" where
  "text_errors h data schema path =
     (case data of
        JStr s \<Rightarrow>
          (let len = JInt (int (length s));
               min_length = dget schema ''minLength''; max_length = dget schema ''maxLength'' in
           rbind (if min_length = JNull then Inr False else num_less len min_length) (\<lambda>short.
           rbind (if max_length = JNull then Inr False else num_less max_length len) (\<lambda>long.
           Inr ((if short then [path @ '' length must be >= '' @ py_str h min_length] else []) @
                (if long then [path @ '' length must be <= '' @ py_str h max_length] else []) @
                (case dget schema ''pattern'' of
                   JStr p \<Rightarrow> (if re_search h p s then []
                             else [path @ '' must match pattern '' @ repr_str p])
                 | _ \<Rightarrow> [])))))
      | _ \<Rightarrow> Inl TypeError)"

definition required_errors :: "host \<Rightarrow> dict \<Rightarrow> dict \<Rightarrow> string \<Rightarrow> string list res" where
  "required_errors h data schema path =
     rbind (py_iter (dget_or schema ''required'' (JList []))) (\<lambda>keys.
     rbind (rmap (\<lambda>key. rbind (py_in key (JObj data)) (\<lambda>b.
        Inr (if b then [] else [path @ ''.'' @ py_str h key @ '' is required'']))) keys) (\<lambda>errs.
     Inr (concat errs)))"

definition item_count_errors :: "host \<Rightarrow> json list \<Rightarrow> dict \<Rightarrow> string \<Rightarrow> string list res" where
  "item_count_errors h xs schema path =
     (let min_items = dget schema ''minItems'' in
      rbind (if min_items = JNull then Inr False else num_less (JInt (int (length xs))) min_items) (\<lambda>few.
      Inr (if few then [path @ '' must contain at least '' @ py_str h min_items @ '' item(s)''] else [])))"

definition enum_rejects :: "json \<Rightarrow> dict \<Rightarrow> bool res" where
  "enum_rejects data schema =
     (case map_of schema ''enum'' of
        None \<Rightarrow> Inr False
      | Some e \<Rightarrow> rbind (py_in data e) (\<lambda>b. Inr (\<not> b)))"

text \<open>The properties of a schema, and the schema of one of them: \<open>None\<close> when it has none. A
  property whose schema is not an object is refused by the keyword check before.\<close>

definition child_schema :: "dict \<Rightarrow> string \<Rightarrow> dict option res" where
  "child_schema schema key =
     (case dget_or schema ''properties'' (JObj []) of
        JObj ps \<Rightarrow> (case dget ps key of
            JNull \<Rightarrow> Inr None
          | JObj s \<Rightarrow> Inr (Some s)
          | JStr _ \<Rightarrow> Inl AttributeError
          | JList _ \<Rightarrow> Inl AttributeError
          | _ \<Rightarrow> Inl TypeError)
      | _ \<Rightarrow> Inl AttributeError)"

text \<open>
  The part of \<open>_validate\<close> before it descends: the \<open>enum\<close> and \<open>type\<close> checks with their early
  returns, and the checks of the primary type. The flag says that the value is an object or an
  array of its primary type, so that \<open>_validate\<close> goes on to its members.
\<close>

definition vld_primary :: "host \<Rightarrow> json \<Rightarrow> dict \<Rightarrow> string \<Rightarrow> json \<Rightarrow> (bool \<times> string list) res" where
  "vld_primary h data schema path primary =
     (if primary = JStr ''integer'' then
        rbind (bound_errors h data schema path) (\<lambda>errs. Inr (False, errs))
      else if primary = JStr ''string'' then
        rbind (text_errors h data schema path) (\<lambda>errs. Inr (False, errs))
      else if primary = JStr ''object'' then
        (case data of
           JObj d \<Rightarrow> rbind (required_errors h d schema path) (\<lambda>missing. Inr (True, missing))
         | _ \<Rightarrow> Inl TypeError)
      else if primary = JStr ''array'' then
        (case data of
           JList xs \<Rightarrow> rbind (item_count_errors h xs schema path) (\<lambda>few. Inr (True, few))
         | _ \<Rightarrow> Inl TypeError)
      else Inr (False, []))"

definition vld_head :: "host \<Rightarrow> json \<Rightarrow> dict \<Rightarrow> string \<Rightarrow> (bool \<times> string list) res" where
  "vld_head h data schema path =
     rbind (enum_rejects data schema) (\<lambda>rejected.
     if rejected then Inr (False, [path @ '' must be one of '' @ py_str h (dget schema ''enum'')])
     else let expected = dget schema ''type'' in
       if truthy expected \<and> \<not> matches_type data expected
       then Inr (False, [path @ '' must be '' @ py_str h expected])
       else rbind (primary_type_for_value data expected) (vld_primary h data schema path))"

text \<open>The schema \<open>_validate\<close> applies to the elements of an array, if it is an object.\<close>

definition item_schema :: "dict \<Rightarrow> dict option" where
  "item_schema schema = (case dget schema ''items'' of JObj s \<Rightarrow> Some s | _ \<Rightarrow> None)"

text \<open>What \<open>_validate\<close> says of a member without a schema.\<close>

definition extra_errors :: "dict \<Rightarrow> string \<Rightarrow> string \<Rightarrow> string list" where
  "extra_errors schema key path =
     (if dget schema ''additionalProperties'' = JBool False
      then [path @ ''.'' @ key @ '' is not allowed''] else [])"

definition rappend :: "string list \<Rightarrow> string list res \<Rightarrow> string list res" where
  "rappend errs m = rbind m (\<lambda>more. Inr (errs @ more))"

function (sequential) vld :: "host \<Rightarrow> json \<Rightarrow> dict \<Rightarrow> string \<Rightarrow> string list res"
  and vld_props :: "host \<Rightarrow> dict \<Rightarrow> dict \<Rightarrow> string \<Rightarrow> string list res"
  and vld_items :: "host \<Rightarrow> json list \<Rightarrow> nat \<Rightarrow> dict \<Rightarrow> string \<Rightarrow> string list res" where
  "vld h data schema path =
     rbind (vld_head h data schema path) (\<lambda>r.
     rappend (snd r)
       (case data of
          JObj d \<Rightarrow> (if fst r then vld_props h d schema path else Inr [])
        | JList xs \<Rightarrow> (if fst r \<and> item_schema schema \<noteq> None
                       then vld_items h xs 0 (the (item_schema schema)) path else Inr [])
        | _ \<Rightarrow> Inr []))"
| "vld_props h [] schema path = Inr []"
| "vld_props h ((key, value) # rest) schema path =
     rbind (child_schema schema key) (\<lambda>child.
     rbind (case child of
              None \<Rightarrow> Inr (extra_errors schema key path)
            | Some s \<Rightarrow> vld h value s (path @ ''.'' @ key)) (\<lambda>errs.
     rappend errs (vld_props h rest schema path)))"
| "vld_items h [] i schema path = Inr []"
| "vld_items h (x # xs) i schema path =
     rbind (vld h x schema (path @ ''['' @ show_nat i @ '']'')) (\<lambda>errs.
     rappend errs (vld_items h xs (Suc i) schema path))"

  by pat_completeness auto
termination
  by (relation "measure (\<lambda>x. case x of Inl (h, v, s, p) \<Rightarrow> jsize v
        | Inr (Inl (h, d, s, p)) \<Rightarrow> jsize_items d
        | Inr (Inr (h, xs, i, s, p)) \<Rightarrow> jsize_list xs)") auto

declare vld.simps [simp del]

definition load_schema :: "host \<Rightarrow> string \<Rightarrow> json res" where
  "load_schema h name =
     (case schema_file h name of None \<Rightarrow> Inl (FileNotFoundError name) | Some s \<Rightarrow> Inr s)"

definition validate_schema :: "host \<Rightarrow> json \<Rightarrow> string \<Rightarrow> json res" where
  "validate_schema h data name =
     rbind (load_schema h name) (\<lambda>file.
     rbind (validate_schema_keywords h file name) (\<lambda>schema.
     rbind (vld h data schema ''$'') (\<lambda>errors.
     if errors \<noteq> [] then Inl (SchemaValidationError (name @ '': '' @ py_join ''; '' errors))
     else Inr data)))"

section \<open>What acceptance promises\<close>

text \<open>The validator never changes a document.\<close>

lemma validate_schema_id: "validate_schema h v n = Inr w \<Longrightarrow> w = v"
  by (auto simp: validate_schema_def rbind_eq_Inr)

lemma validate_schema_object:
  assumes "validate_schema h v n = Inr w" and "schema_file h n = Some (JObj s)"
  shows "vld h v s ''$'' = Inr []" and "schema_keyword_errors h s n = []"
  using assms
  by (auto simp: validate_schema_def load_schema_def validate_schema_keywords_def rbind_eq_Inr
      Let_def split: if_splits)

lemma rappend_Nil: "rappend errs m = Inr [] \<longleftrightarrow> errs = [] \<and> m = Inr []"
  by (auto simp: rappend_def rbind_eq_Inr)

lemma vld_head_type:
  assumes "vld_head h v s p = Inr (b, [])" and "truthy (dget s ''type'')"
  shows "matches_type v (dget s ''type'')"
  using assms by (auto simp: vld_head_def rbind_eq_Inr Let_def split: if_splits)

lemma vld_head_of_vld: "vld h v s p = Inr [] \<Longrightarrow> \<exists>b. vld_head h v s p = Inr (b, [])"
  by (auto simp: vld.simps [of h v s p] rbind_eq_Inr rappend_Nil)

lemma vld_type:
  assumes "vld h v s p = Inr []" and "truthy (dget s ''type'')"
  shows "matches_type v (dget s ''type'')"
  using vld_head_of_vld [OF assms(1)] assms(2) vld_head_type by blast

lemma vld_head_object:
  assumes "dget s ''type'' = JStr ''object''" and "vld_head h (JObj d) s p = Inr (b, [])"
  shows "b" and "required_errors h d s p = Inr []"
  using assms
  by (auto simp: vld_head_def primary_type_for_value_def primary_type_def is_str_def
      vld_primary_def rbind_eq_Inr Let_def is_dict_def split: if_splits)

lemma vld_object:
  assumes "vld h (JObj d) s p = Inr []" and "dget s ''type'' = JStr ''object''"
  shows "required_errors h d s p = Inr []" and "vld_props h d s p = Inr []"
proof -
  from assms(1) obtain r where r: "vld_head h (JObj d) s p = Inr r" "snd r = []"
    and rest: "(if fst r then vld_props h d s p else Inr []) = Inr []"
    by (auto simp: vld.simps rbind_eq_Inr rappend_Nil)
  then have "vld_head h (JObj d) s p = Inr (fst r, [])" by (cases r) auto
  from vld_head_object [OF assms(2) this] rest
  show "required_errors h d s p = Inr []" and "vld_props h d s p = Inr []" by auto
qed

lemma required_errors_member:
  assumes "required_errors h d s p = Inr []" and "dget_or s ''required'' (JList []) = JList ks"
    and "JStr k \<in> set ks"
  shows "dhas d k"
proof -
  let ?f = "\<lambda>key. rbind (py_in key (JObj d))
     (\<lambda>b. Inr (if b then [] else [p @ ''.'' @ py_str h key @ '' is required'']))"
  from assms(1,2) obtain errs where m: "rmap ?f ks = Inr errs" and c: "concat errs = []"
    by (auto simp: required_errors_def py_iter_def rbind_eq_Inr)
  from assms(3) obtain i where i: "i < length ks" "ks ! i = JStr k"
    by (auto simp: in_set_conv_nth)
  from m i(1) have "?f (ks ! i) = Inr (errs ! i)" and "i < length errs"
    by (simp_all only: rmap_Inr_iff)
  then have "?f (JStr k) = Inr (errs ! i)" by (simp only: i(2))
  moreover from c \<open>i < length errs\<close> have "errs ! i = []"
    by (simp add: concat_eq_Nil_conv)
  ultimately show ?thesis
    by (auto simp: py_in_def hashable_def is_list_def is_dict_def split: if_splits)
qed

lemma vld_props_member:
  assumes "vld_props h d s p = Inr []" and "(k, v) \<in> set d"
  shows "(child_schema s k = Inr None \<and> dget s ''additionalProperties'' \<noteq> JBool False) \<or>
         (\<exists>c. child_schema s k = Inr (Some c) \<and> vld h v c (p @ ''.'' @ k) = Inr [])"
  using assms
proof (induction d)
  case Nil
  then show ?case by simp
next
  case (Cons m d)
  obtain j w where m: "m = (j, w)" by (cases m)
  from Cons.prems(1) m obtain child where child: "child_schema s j = Inr child"
    and here: "(case child of None \<Rightarrow> Inr (extra_errors s j p)
               | Some c \<Rightarrow> vld h w c (p @ ''.'' @ j)) = Inr []"
    and rest: "vld_props h d s p = Inr []"
    by (auto simp: rbind_eq_Inr rappend_Nil)
  show ?case
  proof (cases "(k, v) \<in> set d")
    case True
    with Cons.IH rest show ?thesis by blast
  next
    case False
    with Cons.prems(2) m have "j = k" "w = v" by auto
    with child here show ?thesis
      by (auto simp: extra_errors_def split: option.splits if_splits)
  qed
qed

text \<open>An accepted object: the schema it was accepted by, as one fact for the clients.\<close>

lemma accepted_object:
  assumes "validate_schema h (JObj d) n = Inr w" and "schema_file h n = Some (JObj s)"
    and "dget s ''type'' = JStr ''object''"
  shows "required_errors h d s ''$'' = Inr []" and "vld_props h d s ''$'' = Inr []"
  using vld_object [OF validate_schema_object(1) [OF assms(1,2)] assms(3)] by auto

end
