(* ===== verification/Canonical.thy ===== *)
theory Canonical
  imports Py_Value "HOL-Library.Multiset"
begin

text \<open>
  Canonical JSON of \<open>core/memory_v2/canonical.py\<close>, the byte string behind every integrity hash of
  the program: excluded fields are dropped at every depth, keys are sorted, nothing insignificant
  is printed. The theory shows what the hashes rest on: the text does not depend on the order of
  keys or on excluded fields, and two documents without floats that print the same text are equal.
\<close>

section \<open>Normalisation\<close>

definition environment_field_names :: "string list" where
  "environment_field_names = [''absolute_path'', ''file_path'', ''mtime'', ''mtime_ns'', ''storage_path'']"

definition dropped :: "string list \<Rightarrow> bool \<Rightarrow> string \<Rightarrow> bool" where
  "dropped excluded env k \<longleftrightarrow> k \<in> set excluded \<or> (env \<and> k \<in> set environment_field_names)"

fun normalized_for_hash :: "string list \<Rightarrow> bool \<Rightarrow> json \<Rightarrow> json"
  and normalized_list :: "string list \<Rightarrow> bool \<Rightarrow> json list \<Rightarrow> json list"
  and normalized_items :: "string list \<Rightarrow> bool \<Rightarrow> dict \<Rightarrow> dict" where
  "normalized_for_hash ex env (JObj d) = JObj (normalized_items ex env d)"
| "normalized_for_hash ex env (JList xs) = JList (normalized_list ex env xs)"
| "normalized_for_hash ex env v = v"
| "normalized_list ex env [] = []"
| "normalized_list ex env (x # xs) = normalized_for_hash ex env x # normalized_list ex env xs"
| "normalized_items ex env [] = []"
| "normalized_items ex env ((k, v) # d) =
     (if dropped ex env k then normalized_items ex env d
      else (k, normalized_for_hash ex env v) # normalized_items ex env d)"

section \<open>Rendering\<close>

definition esc_char :: "char \<Rightarrow> string" where
  "esc_char c =
     (if code c = 34 then [CHR 0x5C, c]
      else if code c = 92 then [c, c]
      else if code c = 8 then [CHR 0x5C, CHR ''b'']
      else if code c = 12 then [CHR 0x5C, CHR ''f'']
      else if code c = 10 then [CHR 0x5C, CHR ''n'']
      else if code c = 13 then [CHR 0x5C, CHR ''r'']
      else if code c = 9 then [CHR 0x5C, CHR ''t'']
      else if code c < 32 then [CHR 0x5C] @ ''u00'' @ hex2 (code c)
      else [c])"

text \<open>The same function by the bits of the character, for evaluation.\<close>

lemma esc_char_code [code]:
  "esc_char (Char b0 b1 b2 b3 b4 b5 b6 b7) =
     (let c = Char b0 b1 b2 b3 b4 b5 b6 b7 in
      if b5 \<or> b6 \<or> b7
      then (if c = CHR 0x22 \<or> c = CHR 0x5C then [CHR 0x5C, c] else [c])
      else if c = CHR 0x08 then [CHR 0x5C, CHR ''b'']
      else if c = CHR 0x0C then [CHR 0x5C, CHR ''f'']
      else if c = CHR 0x0A then [CHR 0x5C, CHR ''n'']
      else if c = CHR 0x0D then [CHR 0x5C, CHR ''r'']
      else if c = CHR 0x09 then [CHR 0x5C, CHR ''t'']
      else [CHR 0x5C] @ ''u00'' @ hex2 (code c))"
  by (cases b0; cases b1; cases b2; cases b3; cases b4; cases b5; cases b6; cases b7)
     (simp_all add: esc_char_def Let_def)

definition dquote :: char where
  "dquote = CHR 0x22"

definition quote_str :: "string \<Rightarrow> string" where
  "quote_str s = dquote # concat (map esc_char s) @ [dquote]"

definition render_pair :: "string \<times> string \<Rightarrow> string" where
  "render_pair kr = quote_str (fst kr) @ '':'' @ snd kr"

text \<open>\<open>json.dumps\<close> with sorted keys, compact separators and no escaping of non-ASCII text.\<close>

function (sequential) render :: "host \<Rightarrow> json \<Rightarrow> string res"
  and render_list :: "host \<Rightarrow> json list \<Rightarrow> string list res"
  and render_items :: "host \<Rightarrow> dict \<Rightarrow> (string \<times> string) list res" where
  "render h JNull = Inr ''null''"
| "render h (JBool b) = Inr (if b then ''true'' else ''false'')"
| "render h (JInt i) = Inr (show_int i)"
| "render h (JFloat f) = (case f of Finite r \<Rightarrow> Inr (float_repr h r) | _ \<Rightarrow> Inl CanonicalJSONError)"
| "render h (JStr s) = Inr (quote_str s)"
| "render h (JList xs) = rbind (render_list h xs) (\<lambda>rs. Inr (''['' @ py_join '','' rs @ '']''))"
| "render h (JObj d) = rbind (render_items h d) (\<lambda>rs.
     Inr (''{'' @ py_join '','' (map render_pair (sort_key fst rs)) @ ''}''))"
| "render_list h [] = Inr []"
| "render_list h (x # xs) = rbind (render h x) (\<lambda>r. rbind (render_list h xs) (\<lambda>rs. Inr (r # rs)))"
| "render_items h [] = Inr []"
| "render_items h ((k, v) # d) =
     rbind (render h v) (\<lambda>r. rbind (render_items h d) (\<lambda>rs. Inr ((k, r) # rs)))"
  by pat_completeness auto
termination
  by (relation "measure (\<lambda>x. case x of Inl (h, v) \<Rightarrow> jsize v
        | Inr (Inl (h, xs)) \<Rightarrow> jsize_list xs | Inr (Inr (h, d)) \<Rightarrow> jsize_items d)") auto

definition canonical_json_text :: "host \<Rightarrow> string list \<Rightarrow> bool \<Rightarrow> json \<Rightarrow> string res" where
  "canonical_json_text h exclude_fields exclude_environment_fields value =
     render h (normalized_for_hash exclude_fields exclude_environment_fields value)"

definition canonical_json_hash :: "host \<Rightarrow> string list \<Rightarrow> bool \<Rightarrow> json \<Rightarrow> string res" where
  "canonical_json_hash h exclude_fields exclude_environment_fields value =
     rbind (canonical_json_text h exclude_fields exclude_environment_fields value)
       (\<lambda>text. Inr (sha256_hex h text))"

definition canonical_copy_for_hash :: "string list \<Rightarrow> bool \<Rightarrow> json \<Rightarrow> json" where
  "canonical_copy_for_hash exclude_fields exclude_environment_fields value =
     normalized_for_hash exclude_fields exclude_environment_fields value"

section \<open>Excluded fields\<close>

lemma normalized_items_dset_dropped:
  "dropped ex env k \<Longrightarrow> normalized_items ex env (dset k v d) = normalized_items ex env d"
  by (induction d) (auto simp: dset_def)

text \<open>Writing a field the hash excludes, the hash field itself above all, does not change the hash.\<close>

lemma canonical_json_hash_dset_excluded:
  "k \<in> set ex \<Longrightarrow> canonical_json_hash h ex env (JObj (dset k v d)) = canonical_json_hash h ex env (JObj d)"
  by (simp add: canonical_json_hash_def canonical_json_text_def normalized_items_dset_dropped dropped_def)

lemma normalized_idem_aux:
  "normalized_for_hash ex env (normalized_for_hash ex env v) = normalized_for_hash ex env v"
  "normalized_list ex env (normalized_list ex env xs) = normalized_list ex env xs"
  "normalized_items ex env (normalized_items ex env d) = normalized_items ex env d"
  by (induction ex env v and ex env xs and ex env d
      rule: normalized_for_hash_normalized_list_normalized_items.induct) auto

lemma normalized_items_keys:
  "map fst (normalized_items ex env d) = filter (\<lambda>k. \<not> dropped ex env k) (map fst d)"
  by (induction d) auto

lemma normalized_wf_aux:
  "wf_json v \<Longrightarrow> wf_json (normalized_for_hash ex env v)"
  "wf_list xs \<Longrightarrow> wf_list (normalized_list ex env xs)"
  "wf_items d \<Longrightarrow> wf_items (normalized_items ex env d)"
  by (induction v and xs and d rule: wf_json_wf_list_wf_items.induct)
     (auto simp: normalized_items_keys)

lemma normalized_items_map_of:
  "map_of (normalized_items ex env d) k =
     (if dropped ex env k then None else map_option (normalized_for_hash ex env) (map_of d k))"
  by (induction d) auto

section \<open>Key order\<close>

text \<open>The same document with the keys of every dictionary sorted.\<close>

fun sort_doc :: "json \<Rightarrow> json" and sort_doc_list :: "json list \<Rightarrow> json list" and sort_doc_items :: "dict \<Rightarrow> dict" where
  "sort_doc (JList xs) = JList (sort_doc_list xs)"
| "sort_doc (JObj d) = JObj (sort_key fst (sort_doc_items d))"
| "sort_doc v = v"
| "sort_doc_list [] = []"
| "sort_doc_list (x # xs) = sort_doc x # sort_doc_list xs"
| "sort_doc_items [] = []"
| "sort_doc_items ((k, v) # d) = (k, sort_doc v) # sort_doc_items d"

fun float_free :: "json \<Rightarrow> bool" and float_free_list :: "json list \<Rightarrow> bool" and float_free_items :: "dict \<Rightarrow> bool" where
  "float_free (JFloat f) = False"
| "float_free (JList xs) = float_free_list xs"
| "float_free (JObj d) = float_free_items d"
| "float_free JNull = True"
| "float_free (JBool b) = True"
| "float_free (JInt i) = True"
| "float_free (JStr s) = True"
| "float_free_list [] = True"
| "float_free_list (x # xs) = (float_free x \<and> float_free_list xs)"
| "float_free_items [] = True"
| "float_free_items ((k, v) # d) = (float_free v \<and> float_free_items d)"

text \<open>The text of a document without floats, in the order its keys have.\<close>

fun plain :: "json \<Rightarrow> string" and plain_list :: "json list \<Rightarrow> string" and plain_items :: "dict \<Rightarrow> string" where
  "plain JNull = ''null''"
| "plain (JBool b) = (if b then ''true'' else ''false'')"
| "plain (JInt i) = show_int i"
| "plain (JFloat f) = []"
| "plain (JStr s) = quote_str s"
| "plain (JList xs) = ''['' @ plain_list xs"
| "plain (JObj d) = ''{'' @ plain_items d"
| "plain_list [] = '']''"
| "plain_list (x # xs) = plain x @ (if xs = [] then '']'' else '','' @ plain_list xs)"
| "plain_items [] = ''}''"
| "plain_items ((k, v) # d) =
     quote_str k @ '':'' @ plain v @ (if d = [] then ''}'' else '','' @ plain_items d)"

lemma insort_key_map: "insort_key f (g x) (map g xs) = map g (insort_key (\<lambda>a. f (g a)) x xs)"
  by (induction xs) auto

lemma sort_key_map: "sort_key f (map g xs) = map g (sort_key (\<lambda>a. f (g a)) xs)"
  by (induction xs) (simp_all add: insort_key_map)

lemma sort_doc_items_map: "sort_doc_items d = map (\<lambda>(k, v). (k, sort_doc v)) d"
  by (induction d) auto

lemma sort_doc_list_map: "sort_doc_list xs = map sort_doc xs"
  by (induction xs) auto

lemma plain_list_join: "plain_list xs = py_join '','' (map plain xs) @ '']''"
proof (induction xs)
  case Nil
  then show ?case by simp
next
  case (Cons x xs)
  then show ?case by (cases xs) auto
qed

lemma plain_items_join:
  "plain_items d = py_join '','' (map (\<lambda>(k, v). render_pair (k, plain v)) d) @ ''}''"
proof (induction d)
  case Nil
  then show ?case by simp
next
  case (Cons m d)
  then show ?case by (cases m; cases d) (auto simp: render_pair_def)
qed

lemma render_plain_aux:
  "float_free v \<Longrightarrow> render h v = Inr (plain (sort_doc v))"
  "float_free_list xs \<Longrightarrow> render_list h xs = Inr (map plain (sort_doc_list xs))"
  "float_free_items d \<Longrightarrow> render_items h d = Inr (map (\<lambda>(k, v). (k, plain v)) (sort_doc_items d))"
proof (induction v and xs and d rule: float_free_float_free_list_float_free_items.induct)
  case (3 d)
  have [simp]: "(\<lambda>a. fst (case a of (k, v) \<Rightarrow> (k, plain v))) = fst"
    by (auto simp: fun_eq_iff)
  have [simp]: "render_pair \<circ> (\<lambda>(k, v). (k, plain v)) = (\<lambda>(k, v). render_pair (k, plain v))"
    by (auto simp: fun_eq_iff)
  from 3 show ?case
    by (simp add: sort_key_map plain_items_join)
qed (auto simp: plain_list_join)

lemma render_plain: "float_free v \<Longrightarrow> render h v = Inr (plain (sort_doc v))"
  by (rule render_plain_aux)

section \<open>The text determines the document\<close>

lemma hex2_inj: "m < 256 \<Longrightarrow> n < 256 \<Longrightarrow> hex2 m = hex2 n \<Longrightarrow> m = n"
proof -
  assume mn: "m < 256" "n < 256" and eq: "hex2 m = hex2 n"
  have d: "distinct hex_digits" and l: "length hex_digits = 16"
    by (simp_all add: hex_digits_def)
  from mn have lt: "m div 16 < 16" "n div 16 < 16" by auto
  from eq lt have "hex_digits ! (m div 16) = hex_digits ! (n div 16)"
    and "hex_digits ! (m mod 16) = hex_digits ! (n mod 16)"
    by (auto simp: hex2_def)
  with d l lt have "m div 16 = n div 16" and "m mod 16 = n mod 16"
    by (auto simp: nth_eq_iff_index_eq)
  then show "m = n" by (metis div_mult_mod_eq)
qed

lemma code_less: "code c < (256::nat)"
  by simp

lemma code_eqD: "code c = (code d :: nat) \<Longrightarrow> c = d"
  by (simp add: of_char_eq_iff)

definition short_escape :: "char \<Rightarrow> char option" where
  "short_escape c =
     (if code c = 34 \<or> code c = 92 then Some c
      else if code c = 8 then Some (CHR ''b'') else if code c = 12 then Some (CHR ''f'')
      else if code c = 10 then Some (CHR ''n'') else if code c = 13 then Some (CHR ''r'')
      else if code c = 9 then Some (CHR ''t'') else None)"

lemma esc_char_short: "short_escape c = Some x \<Longrightarrow> esc_char c = [CHR 0x5C, x]"
  using code_eqD [of c "CHR 0x5C"]
  by (auto simp: esc_char_def short_escape_def simp del: of_char_eq_iff split: if_splits)

lemma esc_char_plain:
  "short_escape c = None \<Longrightarrow>
   code c \<noteq> 34 \<and> code c \<noteq> 92 \<and>
   esc_char c = (if code c < 32 then [CHR 0x5C] @ ''u00'' @ hex2 (code c) else [c])"
  by (auto simp: esc_char_def short_escape_def split: if_splits)

lemma esc_char_cases:
  obtains (short) x where "short_escape c = Some x" "esc_char c = [CHR 0x5C, x]"
  | (long) "short_escape c = None" "code c < 32" "esc_char c = [CHR 0x5C] @ ''u00'' @ hex2 (code c)"
  | (none) "short_escape c = None" "code c \<noteq> 34" "code c \<noteq> 92" "esc_char c = [c]"
proof (cases "short_escape c")
  case None
  from esc_char_plain [OF None] None show thesis
    by (cases "code c < 32") (auto intro: long none)
next
  case (Some x)
  then show thesis by (intro short esc_char_short)
qed

lemma short_escape_inj: "short_escape c = Some x \<Longrightarrow> short_escape d = Some x \<Longrightarrow> c = d"
  by (rule code_eqD) (auto simp del: of_char_eq_iff simp: short_escape_def split: if_splits)

lemma short_escape_not_u: "short_escape c \<noteq> Some (CHR ''u'')"
  by (auto simp: short_escape_def split: if_splits)

lemma esc_char_prefix: "esc_char c @ r = esc_char d @ s \<Longrightarrow> c = d \<and> r = s"
proof -
  assume eq: "esc_char c @ r = esc_char d @ s"
  have c92: "code (CHR 0x5C) = (92::nat)" by simp
  show ?thesis
  proof (cases c rule: esc_char_cases)
    case (short x)
    note c = short
    show ?thesis
    proof (cases d rule: esc_char_cases)
      case (short y)
      with c eq show ?thesis by (auto dest: short_escape_inj)
    next
      case long
      with c eq show ?thesis by (auto simp: short_escape_not_u)
    next
      case none
      with c eq c92 show ?thesis by auto
    qed
  next
    case long
    note c = long
    show ?thesis
    proof (cases d rule: esc_char_cases)
      case (short y)
      with c eq show ?thesis by (auto simp: short_escape_not_u)
    next
      case long
      with c eq have "hex2 (code c) = hex2 (code d)" and "r = s"
        by (auto simp: hex2_def)
      then show ?thesis by (meson code_eqD code_less hex2_inj)
    next
      case none
      with c eq c92 show ?thesis by auto
    qed
  next
    case none
    note c = none
    show ?thesis
      by (cases d rule: esc_char_cases) (use c eq c92 in auto)
  qed
qed

lemma esc_char_not_dquote: "esc_char c @ x \<noteq> dquote # y"
proof -
  have "code dquote = (34::nat)" and "CHR 0x5C \<noteq> dquote"
    by (simp_all add: dquote_def)
  then show ?thesis
    by (cases c rule: esc_char_cases) auto
qed

lemma quoted_prefix:
  "concat (map esc_char s) @ dquote # r = concat (map esc_char t) @ dquote # u \<Longrightarrow> s = t \<and> r = u"
proof (induction s arbitrary: t)
  case Nil
  then show ?case
  proof (cases t)
    case (Cons d t')
    with Nil have "esc_char d @ concat (map esc_char t') @ dquote # u = dquote # r" by simp
    then show ?thesis using esc_char_not_dquote by blast
  qed simp
next
  case (Cons c s)
  show ?case
  proof (cases t)
    case Nil
    with Cons.prems show ?thesis using esc_char_not_dquote by fastforce
  next
    case (Cons d t')
    with Cons.prems have "esc_char c @ concat (map esc_char s) @ dquote # r
        = esc_char d @ concat (map esc_char t') @ dquote # u" by simp
    from esc_char_prefix [OF this] Cons.IH [of t'] Cons show ?thesis by auto
  qed
qed

lemma quote_str_prefix: "quote_str s @ r = quote_str t @ u \<Longrightarrow> s = t \<and> r = u"
  by (auto simp: quote_str_def dest: quoted_prefix)

text \<open>What may follow a number: the end, or anything but a digit.\<close>

definition no_digit :: "string \<Rightarrow> bool" where
  "no_digit r \<longleftrightarrow> (case r of [] \<Rightarrow> True | c # _ \<Rightarrow> \<not> is_digit c)"

lemma show_nat_prefix:
  assumes "show_nat m @ r = show_nat n @ s" and "no_digit r" and "no_digit s"
  shows "m = n \<and> r = s"
proof -
  have tw: "takeWhile is_digit (show_nat k @ t) = show_nat k" if "no_digit t" for k t
  proof -
    have "takeWhile is_digit t = []"
      using that by (cases t) (auto simp: no_digit_def)
    then show ?thesis by (simp add: takeWhile_append show_nat_digits)
  qed
  from assms tw have "show_nat m = show_nat n" by metis
  with assms(1) show ?thesis by (simp add: show_nat_inj)
qed

lemma show_nat_hd: "is_digit (hd (show_nat n))"
  by (meson hd_in_set show_nat_digits show_nat_nonempty)

lemma hd_minus: "hd (show_nat n @ r) \<noteq> CHR ''-''"
  using show_nat_hd [of n] by (auto simp: is_digit_def hd_append)

lemma show_int_prefix:
  assumes "show_int i @ r = show_int j @ s" and "no_digit r" and "no_digit s"
  shows "i = j \<and> r = s"
proof -
  have neq: "CHR ''-'' # x \<noteq> show_nat n @ y" for x y n
    by (metis hd_minus list.sel(1))
  show ?thesis
    using assms neq neq [symmetric]
    by (auto simp: show_int_def split: if_splits dest: show_nat_prefix)
qed

text \<open>The first character of a text tells the kind of value it is.\<close>

definition char_kind :: "char \<Rightarrow> nat" where
  "char_kind c =
     (if c = CHR ''n'' then 0 else if c = CHR ''t'' then 1 else if c = CHR ''f'' then 2
      else if c = dquote then 3 else if c = CHR ''['' then 4 else if c = CHR ''{'' then 5
      else if c = CHR ''-'' \<or> is_digit c then 6 else 7)"

definition kind :: "json \<Rightarrow> nat" where
  "kind v = (case v of JNull \<Rightarrow> 0 | JBool b \<Rightarrow> (if b then 1 else 2) | JInt i \<Rightarrow> 6 | JFloat f \<Rightarrow> 7
     | JStr s \<Rightarrow> 3 | JList xs \<Rightarrow> 4 | JObj d \<Rightarrow> 5)"

lemma char_kind_digit: "is_digit c \<Longrightarrow> char_kind c = 6"
  by (auto simp: char_kind_def is_digit_def dquote_def)

lemma char_kind_int: "char_kind (hd (show_int i @ r)) = 6"
  by (simp add: show_int_def hd_append show_nat_hd char_kind_digit)
     (simp add: char_kind_def dquote_def)

lemma char_kind_plain: "float_free v \<Longrightarrow> char_kind (hd (plain v @ r)) = kind v"
  by (cases v) (simp_all add: kind_def char_kind_int, simp_all add: char_kind_def quote_str_def dquote_def)

lemma plain_kind:
  assumes "plain a @ r = plain b @ s" and "float_free a" and "float_free b"
  shows "kind a = kind b"
  using assms char_kind_plain by metis

lemma plain_start: "float_free v \<Longrightarrow> plain v @ r \<noteq> CHR '']'' # x"
  using char_kind_plain [of v r]
  by (auto simp: char_kind_def kind_def dquote_def is_digit_def split: json.splits if_splits)

lemma no_digit_simps [simp]:
  "no_digit []" "no_digit (CHR '']'' # x)" "no_digit (CHR ''}'' # x)" "no_digit (CHR '','' # x)"
  by (simp_all add: no_digit_def is_digit_def)

lemma quote_str_start: "quote_str k @ r \<noteq> CHR ''}'' # x"
  by (simp add: quote_str_def dquote_def)

lemma plain_list_prefix_Cons:
  assumes eq: "plain x @ (if xs = [] then '']'' else '','' @ plain_list xs) @ r
      = plain y @ (if ys = [] then '']'' else '','' @ plain_list ys) @ s"
    and head: "\<And>r s. no_digit r \<Longrightarrow> no_digit s \<Longrightarrow> plain x @ r = plain y @ s \<Longrightarrow> x = y \<and> r = s"
    and tail: "plain_list xs @ r = plain_list ys @ s \<Longrightarrow> xs = ys \<and> r = s"
  shows "x # xs = y # ys \<and> r = s"
proof -
  have "no_digit ((if us = [] then '']'' else '','' @ plain_list us) @ v)" for us v by simp
  from head [OF this this eq] have "x = y"
    and "(if xs = [] then '']'' else '','' @ plain_list xs) @ r
       = (if ys = [] then '']'' else '','' @ plain_list ys) @ s" by auto
  with tail show ?thesis by (auto split: if_splits)
qed

lemma plain_items_prefix_Cons:
  assumes eq: "quote_str k @ '':'' @ plain x @ (if d = [] then ''}'' else '','' @ plain_items d) @ r
      = quote_str l @ '':'' @ plain y @ (if e = [] then ''}'' else '','' @ plain_items e) @ s"
    and head: "\<And>r s. no_digit r \<Longrightarrow> no_digit s \<Longrightarrow> plain x @ r = plain y @ s \<Longrightarrow> x = y \<and> r = s"
    and tail: "plain_items d @ r = plain_items e @ s \<Longrightarrow> d = e \<and> r = s"
  shows "(k, x) # d = (l, y) # e \<and> r = s"
proof -
  have nd: "no_digit ((if us = [] then ''}'' else '','' @ plain_items us) @ v)" for us v by simp
  from quote_str_prefix [OF eq] have "k = l"
    and "plain x @ (if d = [] then ''}'' else '','' @ plain_items d) @ r
       = plain y @ (if e = [] then ''}'' else '','' @ plain_items e) @ s" by auto
  moreover from head [OF nd nd this(2)] have "x = y"
    and "(if d = [] then ''}'' else '','' @ plain_items d) @ r
       = (if e = [] then ''}'' else '','' @ plain_items e) @ s" by auto
  ultimately show ?thesis using tail by (auto split: if_splits)
qed

lemma plain_prefix_aux:
  "float_free a \<Longrightarrow> float_free b \<Longrightarrow> no_digit r \<Longrightarrow> no_digit s \<Longrightarrow>
     plain a @ r = plain b @ s \<Longrightarrow> a = b \<and> r = s"
  "float_free_list xs \<Longrightarrow> float_free_list ys \<Longrightarrow>
     plain_list xs @ r = plain_list ys @ s \<Longrightarrow> xs = ys \<and> r = s"
  "float_free_items d \<Longrightarrow> float_free_items e \<Longrightarrow>
     plain_items d @ r = plain_items e @ s \<Longrightarrow> d = e \<and> r = s"
proof (induction a and xs and d arbitrary: b r s and ys r s and e r s
    rule: float_free_float_free_list_float_free_items.induct)
  case (2 xs)
  from "2.prems" plain_kind [of "JList xs" r b s] obtain ys where b: "b = JList ys"
    by (cases b) (auto simp: kind_def split: if_splits)
  with "2.prems" have "float_free_list xs" "float_free_list ys" "plain_list xs @ r = plain_list ys @ s"
    by simp_all
  from "2.IH" [OF this] b show ?case by simp
next
  case (3 d)
  from "3.prems" plain_kind [of "JObj d" r b s] obtain e where b: "b = JObj e"
    by (cases b) (auto simp: kind_def split: if_splits)
  with "3.prems" have "float_free_items d" "float_free_items e" "plain_items d @ r = plain_items e @ s"
    by simp_all
  from "3.IH" [OF this] b show ?case by simp
next
  case 4
  then show ?case using plain_kind [of JNull r b s]
    by (cases b) (auto simp: kind_def split: if_splits)
next
  case (5 v)
  then show ?case using plain_kind [of "JBool v" r b s]
    by (cases b) (auto simp: kind_def split: if_splits)
next
  case (6 i)
  from 6 plain_kind [of "JInt i" r b s] obtain j where "b = JInt j"
    by (cases b) (auto simp: kind_def split: if_splits)
  with 6 show ?case by (auto dest: show_int_prefix)
next
  case (7 t)
  from 7 plain_kind [of "JStr t" r b s] obtain u where "b = JStr u"
    by (cases b) (auto simp: kind_def split: if_splits)
  with 7 show ?case by (auto dest: quote_str_prefix)
next
  case 8
  then show ?case
    by (cases ys) (simp_all, metis append_assoc plain_start)
next
  case (9 x xs)
  show ?case
  proof (cases ys)
    case Nil
    with "9.prems" show ?thesis by (auto simp: plain_start)
  next
    case (Cons y zs)
    with "9.prems" have ff: "float_free x" "float_free y" "float_free_list xs" "float_free_list zs"
      and eq: "plain x @ (if xs = [] then '']'' else '','' @ plain_list xs) @ r
        = plain y @ (if zs = [] then '']'' else '','' @ plain_list zs) @ s"
      by simp_all
    show ?thesis unfolding Cons
      by (rule plain_list_prefix_Cons [OF eq "9.IH"(1) [OF ff(1,2)] "9.IH"(2) [OF ff(3,4)]])
  qed
next
  case 10
  show ?case
  proof (cases e)
    case Nil
    with 10 show ?thesis by simp
  next
    case (Cons m e')
    obtain l w where m: "m = (l, w)" by (cases m)
    from "10.prems" Cons m
    have "quote_str l @ ('':'' @ plain w @ (if e' = [] then ''}'' else '','' @ plain_items e') @ s)
        = CHR ''}'' # r" by simp
    then show ?thesis using quote_str_start by blast
  qed
next
  case (11 k v d)
  show ?case
  proof (cases e)
    case Nil
    with "11.prems" have "quote_str k @ ('':'' @ plain v @ (if d = [] then ''}'' else '','' @ plain_items d) @ r)
        = CHR ''}'' # s" by simp
    then show ?thesis using quote_str_start by blast
  next
    case (Cons m e')
    obtain l w where m: "m = (l, w)" by (cases m)
    from "11.prems" Cons m have ff: "float_free v" "float_free w" "float_free_items d" "float_free_items e'"
      and eq: "quote_str k @ '':'' @ plain v @ (if d = [] then ''}'' else '','' @ plain_items d) @ r
        = quote_str l @ '':'' @ plain w @ (if e' = [] then ''}'' else '','' @ plain_items e') @ s"
      by simp_all
    show ?thesis unfolding Cons m
      by (rule plain_items_prefix_Cons [OF eq "11.IH"(1) [OF ff(1,2)] "11.IH"(2) [OF ff(3,4)]])
  qed
qed simp

lemma plain_inj: "float_free a \<Longrightarrow> float_free b \<Longrightarrow> plain a = plain b \<Longrightarrow> a = b"
  using plain_prefix_aux(1) [of a b "[]" "[]"] by simp

section \<open>Sorted documents, texts and hashes\<close>

lemma float_free_items_iff: "float_free_items d \<longleftrightarrow> (\<forall>(k, v) \<in> set d. float_free v)"
  by (induction d) auto

lemma float_free_sort_aux:
  "float_free v \<Longrightarrow> float_free (sort_doc v)"
  "float_free_list xs \<Longrightarrow> float_free_list (sort_doc_list xs)"
  "float_free_items d \<Longrightarrow> float_free_items (sort_doc_items d)"
  by (induction v and xs and d rule: float_free_float_free_list_float_free_items.induct)
     (auto simp: float_free_items_iff)

lemma float_free_normalized_aux:
  "float_free v \<Longrightarrow> float_free (normalized_for_hash ex env v)"
  "float_free_list xs \<Longrightarrow> float_free_list (normalized_list ex env xs)"
  "float_free_items d \<Longrightarrow> float_free_items (normalized_items ex env d)"
  by (induction v and xs and d rule: float_free_float_free_list_float_free_items.induct) auto

lemma canonical_json_text_plain:
  "float_free v \<Longrightarrow> canonical_json_text h ex env v = Inr (plain (sort_doc (normalized_for_hash ex env v)))"
  by (simp add: canonical_json_text_def render_plain float_free_normalized_aux)

lemma canonical_json_text_iff:
  assumes "float_free a" and "float_free b"
  shows "canonical_json_text h ex env a = canonical_json_text h ex env b \<longleftrightarrow>
         sort_doc (normalized_for_hash ex env a) = sort_doc (normalized_for_hash ex env b)"
  using assms plain_inj
  by (auto simp: canonical_json_text_plain float_free_sort_aux float_free_normalized_aux)

text \<open>Two texts with the same digest: what a forged hash needs.\<close>

definition sha_collision :: "host \<Rightarrow> bool" where
  "sha_collision h \<longleftrightarrow> (\<exists>s t. s \<noteq> t \<and> sha256_hex h s = sha256_hex h t)"

lemma canonical_json_hash_eq:
  assumes "float_free a" and "float_free b"
    and "canonical_json_hash h ex env a = canonical_json_hash h ex env b"
  shows "sort_doc (normalized_for_hash ex env a) = sort_doc (normalized_for_hash ex env b) \<or> sha_collision h"
  using assms canonical_json_text_iff [of a b h ex env]
  by (auto simp: canonical_json_hash_def canonical_json_text_plain sha_collision_def)

lemma sort_key_fst_cong:
  assumes "mset (d :: (string \<times> 'a) list) = mset e" and "distinct (map fst d)"
  shows "sort_key fst d = sort_key fst e"
proof -
  from assms(2) have "inj_on fst (set d)" by (simp add: distinct_map)
  with assms(1) show ?thesis by (rule sort_key_eq_sort_key)
qed

lemma normalized_items_filter:
  "normalized_items ex env d =
     map (\<lambda>(k, v). (k, normalized_for_hash ex env v)) (filter (\<lambda>(k, v). \<not> dropped ex env k) d)"
  by (induction d) auto

lemma canonical_order_independent:
  assumes "mset d = mset e" and "distinct (map fst d)" and "float_free (JObj d)"
  shows "canonical_json_hash h ex env (JObj d) = canonical_json_hash h ex env (JObj e)"
proof -
  let ?n = "normalized_items ex env"
  from assms(1) have m: "mset (sort_doc_items (?n d)) = mset (sort_doc_items (?n e))"
    by (simp only: sort_doc_items_map normalized_items_filter mset_map mset_filter)
  have "map fst (sort_doc_items (?n d)) = map fst (?n d)"
    by (simp add: sort_doc_items_map split_def)
  with assms(2) have "distinct (map fst (sort_doc_items (?n d)))"
    by (simp add: normalized_items_keys)
  from sort_key_fst_cong [OF m this]
  have "sort_doc (normalized_for_hash ex env (JObj d)) = sort_doc (normalized_for_hash ex env (JObj e))"
    by simp
  moreover have "float_free (JObj e)"
    using assms(3) mset_eq_setD [OF assms(1)] by (simp add: float_free_items_iff)
  ultimately have "canonical_json_text h ex env (JObj d) = canonical_json_text h ex env (JObj e)"
    using canonical_json_text_iff [OF assms(3)] by blast
  then show ?thesis by (simp only: canonical_json_hash_def)
qed

text \<open>Documents that agree once sorted are equal for Python.\<close>

lemma sort_doc_py_eq_aux:
  "wf_json a \<Longrightarrow> wf_json b \<Longrightarrow> float_free a \<Longrightarrow> sort_doc a = sort_doc b \<Longrightarrow> py_eq a b"
  "wf_list xs \<Longrightarrow> wf_list ys \<Longrightarrow> float_free_list xs \<Longrightarrow> sort_doc_list xs = sort_doc_list ys \<Longrightarrow> py_eq_list xs ys"
  "wf_items d \<Longrightarrow> wf_items e \<Longrightarrow> float_free_items d \<Longrightarrow>
     \<forall>(k, v) \<in> set d. \<exists>w. map_of e k = Some w \<and> sort_doc v = sort_doc w \<Longrightarrow> py_eq_items d e"
proof (induction a and xs and d arbitrary: b and ys and e
    rule: float_free_float_free_list_float_free_items.induct)
  case (2 xs)
  then show ?case by (cases b) auto
next
  case (3 d)
  from "3.prems"(4) obtain e where b: "b = JObj e"
    and s: "sort_key fst (sort_doc_items d) = sort_key fst (sort_doc_items e)"
    by (cases b) auto
  from s have ms: "mset (sort_doc_items d) = mset (sort_doc_items e)" by (metis mset_sort)
  then have len: "length d = length e"
    using mset_eq_length by (fastforce simp: sort_doc_items_map)
  have "\<exists>w. map_of e k = Some w \<and> sort_doc v = sort_doc w" if kv: "(k, v) \<in> set d" for k v
  proof -
    from kv have "(k, sort_doc v) \<in> set (sort_doc_items d)"
      by (force simp: sort_doc_items_map)
    with ms have "(k, sort_doc v) \<in> set (sort_doc_items e)" by (metis mset_eq_setD)
    then obtain w where "(k, w) \<in> set e" "sort_doc v = sort_doc w"
      by (auto simp: sort_doc_items_map)
    with "3.prems"(2) b show ?thesis by auto
  qed
  with "3.IH" [of e] "3.prems" b len show ?case by auto
next
  case (9 x xs)
  then show ?case by (cases ys) auto
next
  case 8
  then show ?case by (cases ys) auto
next
  case 4
  then show ?case by (cases b) auto
next
  case (5 v)
  then show ?case by (cases b) (auto simp: py_eq.simps as_float_def float_eq_def)
next
  case (6 v)
  then show ?case by (cases b) (auto simp: py_eq.simps as_float_def float_eq_def)
next
  case (7 v)
  then show ?case by (cases b) auto
next
  case (11 k v d)
  then obtain w where "map_of e k = Some w" "sort_doc v = sort_doc w" by auto
  with 11 show ?case by (auto intro: wf_items_map_of)
qed auto

lemma sort_doc_py_eq:
  "wf_json a \<Longrightarrow> wf_json b \<Longrightarrow> float_free a \<Longrightarrow> sort_doc a = sort_doc b \<Longrightarrow> py_eq a b"
  by (rule sort_doc_py_eq_aux)

end
