(* ===== verification/Sealed.thy ===== *)
theory Sealed
  imports Canonical
begin

text \<open>
  Two interfaces the durable artifacts of the program share. A sealed record is a JSON object
  that carries the canonical hash of its other fields; stage authorizations, stage receipts,
  recovery markers, book leases and memory events are sealed records, and each of their theories
  interprets \<open>sealed_record\<close> on its own validator. A hash chain is a list of sealed records in
  which each one names the hash of the one before; stage receipt chains, lease histories and
  event histories are such chains.
\<close>

section \<open>A concrete host\<close>

text \<open>
  An instance of the host functions on which the examples of the development evaluate: a constant
  digest of 64 hexadecimal digits, timestamps that are plain numbers of seconds, schema files that
  accept every document.
\<close>

definition zero_digest :: string where
  "zero_digest = replicate 64 (CHR ''0'')"

definition example_host :: host where
  "example_host = \<lparr>sha256_hex = (\<lambda>s. zero_digest), float_repr = (\<lambda>r. ''0.5''),
     float_add = (+), float_sub = (-), float_mul = (*),
     parse_iso = (\<lambda>s. map_option (\<lambda>i. (i * 1000000, True)) (parse_int s)),
     iso_utc = (\<lambda>i. Some (show_int (i div 1000000))),
     re_error = (\<lambda>p. None), re_search = (\<lambda>p s. True), schema_file = (\<lambda>n. Some (JObj []))\<rparr>"

text \<open>A host whose digest tells texts of different length apart.\<close>

definition measured_host :: host where
  "measured_host = example_host\<lparr>sha256_hex :=
     \<lambda>s. replicate (64 - length (show_nat (length s))) (CHR ''0'') @ show_nat (length s)\<rparr>"

section \<open>Sealed records\<close>

text \<open>The document a hash covers, as a value that does not depend on key order.\<close>

definition covered :: "string \<Rightarrow> bool \<Rightarrow> json \<Rightarrow> json" where
  "covered field env v = sort_doc (normalized_for_hash [field] env v)"

lemma covered_map_of:
  assumes "covered field env (JObj d) = covered field env (JObj e)"
    and "distinct (map fst d)" and "distinct (map fst e)" and "\<not> dropped [field] env k"
  shows "map_option (covered field env) (map_of d k) = map_option (covered field env) (map_of e k)"
proof -
  let ?n = "\<lambda>x. sort_doc_items (normalized_items [field] env x)"
  have keys: "map fst (?n x) = filter (\<lambda>k. \<not> dropped [field] env k) (map fst x)" for x
    by (simp add: sort_doc_items_map split_def normalized_items_keys flip: normalized_items_keys)
  have mo: "map_of (?n x) k = map_option (covered field env) (map_of x k)" for x
    using assms(4)
    by (cases "map_of x k")
      (simp_all add: sort_doc_items_map map_of_map normalized_items_map_of covered_def)
  from assms(1) have "mset (?n d) = mset (?n e)"
    by (simp add: covered_def) (metis mset_sort)
  then have "set (?n d) = set (?n e)" by (rule mset_eq_setD)
  moreover have "distinct (map fst (?n d))" "distinct (map fst (?n e))"
    using assms(2,3) by (simp_all add: keys)
  ultimately have "map_of (?n d) = map_of (?n e)" by (simp add: map_of_inject_set)
  then show ?thesis by (simp flip: mo)
qed

locale sealed_record =
  fixes h :: host and field :: string and env :: bool
    and check :: "json \<Rightarrow> json res" \<comment> \<open>the validator of the record\<close>
  assumes check_id: "check v = Inr w \<Longrightarrow> w = v"
    and check_seal: "check v = Inr w \<Longrightarrow>
      \<exists>d x. v = JObj d \<and> map_of d field = Some (JStr x) \<and>
            canonical_json_hash h [field] env (JObj d) = Inr x"
begin

lemma check_object: "check v = Inr w \<Longrightarrow> \<exists>d. v = JObj d"
  using check_seal by blast

lemma sealE:
  assumes "check (JObj d) = Inr w"
  obtains x where "dget d field = JStr x" and "map_of d field = Some (JStr x)"
    and "canonical_json_hash h [field] env (JObj d) = Inr x"
  using check_seal [OF assms] by (auto simp: dget_def)

text \<open>Two accepted records with one hash cover the same content, or SHA-256 has a collision.\<close>

lemma same_hash_same_content:
  assumes "check (JObj d) = Inr u" and "check (JObj e) = Inr w"
    and "dget d field = dget e field" and "float_free (JObj d)" and "float_free (JObj e)"
  shows "covered field env (JObj d) = covered field env (JObj e) \<or> sha_collision h"
proof -
  obtain x where "dget d field = JStr x" "canonical_json_hash h [field] env (JObj d) = Inr x"
    using assms(1) by (elim sealE)
  moreover obtain y where "dget e field = JStr y" "canonical_json_hash h [field] env (JObj e) = Inr y"
    using assms(2) by (elim sealE)
  ultimately show ?thesis
    using canonical_json_hash_eq [OF assms(4,5)] assms(3) by (auto simp: covered_def)
qed

text \<open>Changing one covered field of an accepted record is refused, or is a collision.\<close>

lemma tamper_evident:
  assumes "check (JObj d) = Inr u" and "check (JObj (dset k v d)) = Inr w"
    and "\<not> dropped [field] env k" and "map_of d k = Some v0"
    and "covered field env v \<noteq> covered field env v0"
    and "distinct (map fst d)" and "float_free (JObj d)" and "float_free v"
  shows "sha_collision h"
proof (rule ccontr)
  assume no: "\<not> sha_collision h"
  have "k \<noteq> field" using assms(3) by (auto simp: dropped_def)
  then have "dget d field = dget (dset k v d) field" by simp
  moreover have "float_free (JObj (dset k v d))"
    using assms(7,8) by (induction d) (auto simp: dset_def)
  ultimately have "covered field env (JObj d) = covered field env (JObj (dset k v d))"
    using same_hash_same_content [OF assms(1,2)] assms(7) no by blast
  from covered_map_of [OF this assms(6) distinct_dset [OF assms(6)] assms(3)] assms(4,5)
  show False by simp
qed

end

section \<open>Hash chains\<close>

text \<open>
  \<open>linked check field prev p rs\<close>: every record of \<open>rs\<close> is accepted by \<open>check\<close>, the first one names
  \<open>p\<close> as its predecessor and every other one the hash of the record before it.
\<close>

fun linked :: "(json \<Rightarrow> json res) \<Rightarrow> string \<Rightarrow> string \<Rightarrow> json \<Rightarrow> json list \<Rightarrow> bool" where
  "linked check field prev p [] = True"
| "linked check field prev p (r # rs) =
     (case r of
        JObj d \<Rightarrow> check r = Inr r \<and> dget d prev = p \<and> linked check field prev (dget d field) rs
      | _ \<Rightarrow> False)"

fun hash_of :: "string \<Rightarrow> json \<Rightarrow> json" where
  "hash_of field (JObj d) = dget d field"
| "hash_of field _ = JNull"

definition head_hash :: "string \<Rightarrow> json \<Rightarrow> json list \<Rightarrow> json" where
  "head_hash field p rs = (if rs = [] then p else hash_of field (last rs))"

lemma head_hash_Nil [simp]: "head_hash field p [] = p"
  by (simp add: head_hash_def)

lemma head_hash_Cons [simp]: "head_hash field p (r # rs) = head_hash field (hash_of field r) rs"
  by (simp add: head_hash_def)

lemma head_hash_snoc [simp]: "head_hash field p (rs @ [r]) = hash_of field r"
  by (simp add: head_hash_def)

lemma linked_append:
  "linked check field prev p (rs @ ts) \<longleftrightarrow>
     linked check field prev p rs \<and> linked check field prev (head_hash field p rs) ts"
  by (induction rs arbitrary: p) (auto split: json.splits)

locale hash_chain = sealed_record +
  fixes prev :: string \<comment> \<open>the field that names the hash of the record before\<close>
  assumes prev_covered: "\<not> dropped [field] env prev"
begin

lemma linked_record:
  assumes "linked check field prev p rs" and "r \<in> set rs"
  obtains d where "r = JObj d" and "check (JObj d) = Inr (JObj d)"
  using assms by (induction rs arbitrary: p) (auto split: json.splits)

lemma linked_head:
  assumes "linked check field prev JNull rs"
  shows "head_hash field JNull rs = JNull \<or> (\<exists>x. head_hash field JNull rs = JStr x)"
proof (cases rs rule: rev_cases)
  case (snoc us r)
  with assms obtain f where "r = JObj f" "check (JObj f) = Inr (JObj f)"
    by (elim linked_record) auto
  with snoc show ?thesis by (auto elim: sealE)
qed simp

text \<open>
  The head hash of a chain fixes the whole chain: two chains that start from the same point
  without a predecessor and end in the same hash have the same length and cover the same content,
  record by record.
\<close>

lemma head_determines_chain:
  assumes "linked check field prev JNull rs" and "linked check field prev JNull ts"
    and "head_hash field JNull rs = head_hash field JNull ts"
    and "\<And>r. r \<in> set rs \<union> set ts \<Longrightarrow> float_free r \<and> wf_json r"
  shows "map (covered field env) rs = map (covered field env) ts \<or> sha_collision h"
  using assms
proof (induction rs arbitrary: ts rule: rev_induct)
  case Nil
  show ?case
  proof (cases ts rule: rev_cases)
    case (snoc us t)
    with Nil.prems(2) obtain e where "t = JObj e" and "check (JObj e) = Inr (JObj e)"
      by (elim linked_record) auto
    with Nil.prems(3) snoc show ?thesis by (auto elim: sealE)
  qed simp
next
  case (snoc r rs)
  from snoc.prems(1) obtain d where r: "r = JObj d" and cd: "check (JObj d) = Inr (JObj d)"
    by (elim linked_record) auto
  have hd: "head_hash field JNull (rs @ [r]) = dget d field" by (simp add: r)
  show ?case
  proof (cases ts rule: rev_cases)
    case Nil
    with snoc.prems(3) hd show ?thesis using cd by (auto elim: sealE)
  next
    case (snoc us t)
    note ts = snoc
    from snoc.prems(2) ts obtain e where t: "t = JObj e" and ce: "check (JObj e) = Inr (JObj e)"
      by (elim linked_record) auto
    from snoc.prems(3) hd ts t have same: "dget d field = dget e field"
      by simp
    have ok: "float_free (JObj d)" "float_free (JObj e)"
      "distinct (map fst d)" "distinct (map fst e)"
      using snoc.prems(4) [of r] snoc.prems(4) [of t] ts r t by auto
    from same_hash_same_content [OF cd ce same ok(1,2)]
    consider "sha_collision h" | (content) "covered field env (JObj d) = covered field env (JObj e)"
      by blast
    then show ?thesis
    proof cases
      case content
      from covered_map_of [OF this ok(3,4) prev_covered]
      have mo: "map_option (covered field env) (map_of d prev) = map_option (covered field env) (map_of e prev)" .
      have p: "dget d prev = head_hash field JNull rs" "dget e prev = head_hash field JNull us"
        and l: "linked check field prev JNull rs" "linked check field prev JNull us"
        using snoc.prems(1,2) ts r t by (auto simp: linked_append)
      from linked_head [OF l(1)] linked_head [OF l(2)] mo p
      have "head_hash field JNull rs = head_hash field JNull us"
        by (elim disjE exE) (auto simp: dget_def covered_def split: option.splits)
      with snoc.IH [OF l] snoc.prems(4) ts content r t show ?thesis by auto
    qed simp
  qed
qed

end

end
