(* ===== verification/Recovery_Protocol.thy ===== *)
theory Recovery_Protocol
  imports Sealed
begin

text \<open>
  The commit-marker protocol of \<open>core/engine/recovery_protocol.py\<close>: one decision for every
  durable writer (before the marker roll back, after it roll forward, after the completion record
  nothing is left to do), the tamper-evident marker envelope, and the executor that runs the
  callback the decision selects. A callback is a transformer of the writer's state that may raise.
\<close>

section \<open>The recovery decision\<close>

definition MARKER_RECOVERY_PROTOCOL :: string where
  "MARKER_RECOVERY_PROTOCOL = ''commit-marker-forward-v1''"

datatype recovery_decision = ROLL_BACK | ROLL_FORWARD | COMPLETED

definition decide_marker_recovery :: "bool \<Rightarrow> bool \<Rightarrow> recovery_decision res" where
  "decide_marker_recovery marker completion =
     (if completion \<and> \<not> marker
      then Inl (RecoveryProtocolError ''recovery completion exists without its durable commit marker'')
      else if completion then Inr COMPLETED
      else if marker then Inr ROLL_FORWARD
      else Inr ROLL_BACK)"

definition reconcile_marker_transaction ::
  "bool \<Rightarrow> bool \<Rightarrow> ('s \<Rightarrow> 'a res \<times> 's) \<Rightarrow> ('s \<Rightarrow> 'a res \<times> 's) \<Rightarrow> ('s \<Rightarrow> 'a res \<times> 's) \<Rightarrow> 's \<Rightarrow> 'a res \<times> 's" where
  "reconcile_marker_transaction marker_present completion_present on_roll_back on_roll_forward on_completed s =
     (case decide_marker_recovery marker_present completion_present of
        Inl e \<Rightarrow> (Inl e, s)
      | Inr ROLL_BACK \<Rightarrow> on_roll_back s
      | Inr ROLL_FORWARD \<Rightarrow> on_roll_forward s
      | Inr COMPLETED \<Rightarrow> on_completed s)"

section \<open>The marker envelope\<close>

definition marker_fields :: "string list" where
  "marker_fields = [''schema_version'', ''recovery_protocol'', ''transaction_id'', ''intent_hash'',
     ''evidence_kind'', ''evidence_hash'', ''metadata'', ''marker_hash'']"

definition json_safe_id :: "json \<Rightarrow> bool" where
  "json_safe_id v \<longleftrightarrow> (case v of JStr s \<Rightarrow> is_safe_id s | _ \<Rightarrow> False)"

definition validate_marker_envelope :: "host \<Rightarrow> json \<Rightarrow> json res" where
  "validate_marker_envelope h value =
     (case value of
        JObj marker \<Rightarrow>
          if \<not> same_keys marker marker_fields \<or> dget marker ''schema_version'' \<noteq> JStr ''1.0''
          then Inl (RecoveryProtocolError ''recovery marker envelope is malformed'')
          else if dget marker ''recovery_protocol'' \<noteq> JStr MARKER_RECOVERY_PROTOCOL
          then Inl (RecoveryProtocolError ''recovery marker protocol changed'')
          else if \<not> json_safe_id (dget marker ''transaction_id'')
          then Inl (RecoveryProtocolError ''recovery marker transaction id is invalid'')
          else if \<not> json_safe_id (dget marker ''evidence_kind'')
          then Inl (RecoveryProtocolError ''recovery marker evidence kind is invalid'')
          else rbind (rcheck (\<lambda>field. if json_sha256 (dget marker field) then Inr ()
                 else Inl (RecoveryProtocolError (''recovery marker '' @ field @ '' is invalid'')))
               [''intent_hash'', ''evidence_hash'', ''marker_hash'']) (\<lambda>_.
          if \<not> is_dict (dget marker ''metadata'')
          then Inl (RecoveryProtocolError ''recovery marker metadata must be an object'')
          else rbind (canonical_json_hash h [''marker_hash''] True (JObj marker)) (\<lambda>expected.
          if dget marker ''marker_hash'' \<noteq> JStr expected
          then Inl (RecoveryProtocolError ''recovery marker hash mismatch'')
          else Inr (JObj marker)))
      | _ \<Rightarrow> Inl (RecoveryProtocolError ''recovery marker must be an object''))"

definition marker_body :: "host \<Rightarrow> json \<Rightarrow> json \<Rightarrow> json \<Rightarrow> json \<Rightarrow> dict option \<Rightarrow> dict" where
  "marker_body h transaction_id intent_hash evidence_kind evidence_hash metadata =
     [(''schema_version'', JStr ''1.0''),
      (''recovery_protocol'', JStr MARKER_RECOVERY_PROTOCOL),
      (''transaction_id'', JStr (py_str h transaction_id)),
      (''intent_hash'', JStr (py_str h intent_hash)),
      (''evidence_kind'', JStr (py_str h evidence_kind)),
      (''evidence_hash'', JStr (py_str h evidence_hash)),
      (''metadata'', JObj (case metadata of None \<Rightarrow> [] | Some m \<Rightarrow> m))]"

definition build_marker_envelope :: "host \<Rightarrow> json \<Rightarrow> json \<Rightarrow> json \<Rightarrow> json \<Rightarrow> dict option \<Rightarrow> json res" where
  "build_marker_envelope h transaction_id intent_hash evidence_kind evidence_hash metadata =
     (let marker = marker_body h transaction_id intent_hash evidence_kind evidence_hash metadata in
      rbind (canonical_json_hash h [''marker_hash''] True (JObj marker)) (\<lambda>hash.
      validate_marker_envelope h (JObj (dset ''marker_hash'' (JStr hash) marker))))"

section \<open>Facts the writers rest on\<close>

lemma decide_marker_recovery_Inr:
  "decide_marker_recovery m c = Inr d \<longleftrightarrow>
     (c \<longrightarrow> m) \<and> d = (if c then COMPLETED else if m then ROLL_FORWARD else ROLL_BACK)"
  by (auto simp: decide_marker_recovery_def)

lemma validate_marker_id: "validate_marker_envelope h v = Inr w \<Longrightarrow> w = v"
  by (auto simp: validate_marker_envelope_def rbind_eq_Inr split: json.splits if_splits)

lemma validate_marker_iff:
  "validate_marker_envelope h (JObj d) = Inr w \<longleftrightarrow>
     w = JObj d \<and> same_keys d marker_fields \<and> dget d ''schema_version'' = JStr ''1.0'' \<and>
     dget d ''recovery_protocol'' = JStr MARKER_RECOVERY_PROTOCOL \<and>
     json_safe_id (dget d ''transaction_id'') \<and> json_safe_id (dget d ''evidence_kind'') \<and>
     json_sha256 (dget d ''intent_hash'') \<and> json_sha256 (dget d ''evidence_hash'') \<and>
     json_sha256 (dget d ''marker_hash'') \<and> is_dict (dget d ''metadata'') \<and>
     (\<exists>x. canonical_json_hash h [''marker_hash''] True (JObj d) = Inr x \<and>
          dget d ''marker_hash'' = JStr x)"
  by (auto simp: validate_marker_envelope_def rbind_eq_Inr split: if_splits)

lemma validate_marker_seal:
  assumes "validate_marker_envelope h v = Inr w"
  shows "\<exists>d x. v = JObj d \<and> map_of d ''marker_hash'' = Some (JStr x) \<and>
     canonical_json_hash h [''marker_hash''] True (JObj d) = Inr x"
proof (cases v)
  case (JObj d)
  with assms obtain x where "canonical_json_hash h [''marker_hash''] True (JObj d) = Inr x"
    and "dget d ''marker_hash'' = JStr x"
    by (auto simp: validate_marker_iff)
  with JObj show ?thesis by (auto simp: dget_def split: option.splits)
qed (use assms in \<open>auto simp: validate_marker_envelope_def\<close>)

interpretation marker: sealed_record h "''marker_hash''" True "validate_marker_envelope h" for h
  by unfold_locales (fact validate_marker_id, fact validate_marker_seal)

text \<open>What a valid envelope needs beside its hash.\<close>

definition marker_args_ok :: "host \<Rightarrow> json \<Rightarrow> json \<Rightarrow> json \<Rightarrow> json \<Rightarrow> bool" where
  "marker_args_ok h transaction_id intent_hash evidence_kind evidence_hash \<longleftrightarrow>
     is_safe_id (py_str h transaction_id) \<and> is_sha256 (py_str h intent_hash) \<and>
     is_safe_id (py_str h evidence_kind) \<and> is_sha256 (py_str h evidence_hash)"

definition sha_digests :: "host \<Rightarrow> bool" where
  "sha_digests h \<longleftrightarrow> (\<forall>s. is_sha256 (sha256_hex h s))"

lemma canonical_hash_digest:
  "sha_digests h \<Longrightarrow> canonical_json_hash h ex env v = Inr x \<Longrightarrow> is_sha256 x"
  by (auto simp: canonical_json_hash_def rbind_eq_Inr sha_digests_def)

lemma marker_body_same_keys:
  "same_keys (dset ''marker_hash'' v (marker_body h t i k e m)) marker_fields"
  by (simp add: same_keys_set dkeys_def marker_body_def dset_def marker_fields_def)

lemma marker_body_dget:
  "dget (marker_body h t i k e m) ''schema_version'' = JStr ''1.0''"
  "dget (marker_body h t i k e m) ''recovery_protocol'' = JStr MARKER_RECOVERY_PROTOCOL"
  "dget (marker_body h t i k e m) ''transaction_id'' = JStr (py_str h t)"
  "dget (marker_body h t i k e m) ''intent_hash'' = JStr (py_str h i)"
  "dget (marker_body h t i k e m) ''evidence_kind'' = JStr (py_str h k)"
  "dget (marker_body h t i k e m) ''evidence_hash'' = JStr (py_str h e)"
  "dget (marker_body h t i k e m) ''metadata'' = JObj (case m of None \<Rightarrow> [] | Some m \<Rightarrow> m)"
  by (simp_all add: marker_body_def dget_def)

lemma build_marker_Inr:
  assumes "sha_digests h"
  shows "build_marker_envelope h t i k e m = Inr w \<longleftrightarrow>
     marker_args_ok h t i k e \<and>
     (\<exists>x. canonical_json_hash h [''marker_hash''] True (JObj (marker_body h t i k e m)) = Inr x \<and>
          w = JObj (dset ''marker_hash'' (JStr x) (marker_body h t i k e m)))"
  using canonical_hash_digest [OF assms]
  by (auto simp: build_marker_envelope_def Let_def rbind_eq_Inr validate_marker_iff marker_args_ok_def
      marker_body_same_keys marker_body_dget json_safe_id_def is_dict_def canonical_json_hash_dset_excluded)

lemma build_marker_fields:
  assumes "build_marker_envelope h t i k e mt = Inr (JObj m)"
  shows "validate_marker_envelope h (JObj m) = Inr (JObj m)"
    and "dget m ''transaction_id'' = JStr (py_str h t)" and "dget m ''intent_hash'' = JStr (py_str h i)"
    and "dget m ''evidence_kind'' = JStr (py_str h k)" and "dget m ''evidence_hash'' = JStr (py_str h e)"
    and "dget m ''metadata'' = JObj (case mt of None \<Rightarrow> [] | Some d \<Rightarrow> d)"
proof -
  from assms obtain x where v: "validate_marker_envelope h (JObj (dset ''marker_hash'' (JStr x) (marker_body h t i k e mt))) = Inr (JObj m)"
    by (auto simp: build_marker_envelope_def Let_def rbind_eq_Inr)
  from validate_marker_id [OF v] have "m = dset ''marker_hash'' (JStr x) (marker_body h t i k e mt)" by simp
  with v show "validate_marker_envelope h (JObj m) = Inr (JObj m)"
    "dget m ''transaction_id'' = JStr (py_str h t)" "dget m ''intent_hash'' = JStr (py_str h i)"
    "dget m ''evidence_kind'' = JStr (py_str h k)" "dget m ''evidence_hash'' = JStr (py_str h e)"
    "dget m ''metadata'' = JObj (case mt of None \<Rightarrow> [] | Some d \<Rightarrow> d)"
    by (simp_all add: marker_body_dget)
qed

end
