(* ===== verification/Field_Checks.thy ===== *)
theory Field_Checks
  imports Schema Recovery_Protocol
begin

text \<open>
  What the contract validators of the program do with the fields of a document: read a key or raise
  \<open>KeyError\<close>, test for a positive integer, a text or a digest, and compare. The lemmas say when
  such a test passes and when Python's equality on its values is equality.
\<close>

section \<open>Reading fields\<close>

text \<open>A check of a field of a document: the value of the key, or \<open>KeyError\<close>, through a check.\<close>

definition on_item :: "dict \<Rightarrow> string \<Rightarrow> (json \<Rightarrow> 'a res) \<Rightarrow> 'a res" where
  "on_item d k f = rbind (ditem d k) f"

text \<open>\<open>v[k]\<close> for a value that should be an object.\<close>

definition jitem :: "json \<Rightarrow> string \<Rightarrow> json res" where
  "jitem v k = (case v of JObj d \<Rightarrow> ditem d k | _ \<Rightarrow> Inl TypeError)"

text \<open>\<open>len(set(xs))\<close>: equal elements count once, an unhashable one raises.\<close>

fun py_set_size :: "json list \<Rightarrow> nat res" where
  "py_set_size [] = Inr 0"
| "py_set_size (x # xs) =
     (if \<not> hashable x then Inl TypeError
      else rbind (py_set_size xs) (\<lambda>n. Inr (if list_ex (py_eq x) xs then n else Suc n)))"

section \<open>Classes of values\<close>

definition pos_int :: "json \<Rightarrow> bool" where
  "pos_int v \<longleftrightarrow> (\<exists>i. v = JInt i \<and> 1 \<le> i)"

definition stripped :: "json \<Rightarrow> json" where
  "stripped v = (case v of JStr s \<Rightarrow> JStr (py_strip s) | _ \<Rightarrow> v)"

definition digest_or_null :: "json \<Rightarrow> bool" where
  "digest_or_null v \<longleftrightarrow> v = JNull \<or> json_sha256 v"

section \<open>When a check passes\<close>

lemma on_item_eq_Inr [res_simps]:
  "on_item d k f = Inr y \<longleftrightarrow> (\<exists>v. map_of d k = Some v \<and> f v = Inr y)"
  by (auto simp: on_item_def ditem_def split: option.splits)

lemma on_item_dget: "on_item d k f = Inr y \<Longrightarrow> f (dget d k) = Inr y"
  by (auto simp: res_simps dget_def)

lemma dget_eq_JStr: "dget d k = JStr x \<longleftrightarrow> map_of d k = Some (JStr x)"
  by (simp add: dget_def split: option.splits)

lemma py_eq_JStr_left [simp]: "py_eq (JStr s) v \<longleftrightarrow> v = JStr s"
  by simp

lemma py_eq_JNull_left [simp]: "py_eq JNull v \<longleftrightarrow> v = JNull"
  by simp

lemma digest_or_null_py_eq: "digest_or_null v \<Longrightarrow> py_eq v w \<longleftrightarrow> w = v"
  by (auto simp: digest_or_null_def dest: json_sha256D)

lemma py_eq_strings: "py_eq_list (map JStr xs) ys \<longleftrightarrow> ys = map JStr xs"
  by (induction xs arbitrary: ys) (auto split: list.splits)

lemma nonblank_py_eq: "nonblank v \<Longrightarrow> py_eq v w \<longleftrightarrow> w = v"
  by (auto simp: nonblank_def split: json.splits)

lemma truthy_JBool [simp]: "truthy (JBool b) = b"
  by (simp add: truthy_def)

lemma num_less_ints [simp]: "num_less (JInt i) (JInt j) = Inr (i < j)"
  by (simp add: num_less_def as_float_def)

lemma nonblank_stripped: "nonblank (stripped v) = nonblank v" "stripped (stripped v) = stripped v"
  by (auto simp: nonblank_def stripped_def split: json.splits)

lemma py_eq_stripped [simp]: "nonblank v \<Longrightarrow> py_eq w (stripped v) \<longleftrightarrow> w = stripped v"
  by (auto simp: nonblank_def stripped_def split: json.splits)

lemma py_eq_digest [simp]: "json_sha256 v \<Longrightarrow> py_eq w v \<longleftrightarrow> w = v"
  by (auto dest: json_sha256D)

lemma py_eq_optional_digest [simp]: "digest_or_null v \<Longrightarrow> py_eq w v \<longleftrightarrow> w = v"
  by (auto simp: digest_or_null_def dest: json_sha256D)

lemma py_eq_pos_int [simp]: "pos_int v \<Longrightarrow> pos_int w \<Longrightarrow> py_eq w v \<longleftrightarrow> w = v"
  by (auto simp: pos_int_def)

lemma py_eq_items_lookup:
  "py_eq_items d e \<Longrightarrow> map_of d k = Some v \<Longrightarrow> \<exists>w. map_of e k = Some w \<and> py_eq v w"
  by (induction d) (auto split: if_splits option.splits)

text \<open>Equal objects have the same texts.\<close>

lemma py_eq_text: "py_eq (JObj d) (JObj e) \<Longrightarrow> dget d k = JStr x \<Longrightarrow> dget e k = JStr x"
  by (auto simp: dget_eq_JStr dest: py_eq_items_lookup)

section \<open>Sets of digests\<close>

lemma py_set_size_le: "py_set_size xs = Inr n \<Longrightarrow> n \<le> length xs"
  by (induction xs arbitrary: n) (auto simp: rbind_eq_Inr split: if_splits)

lemma py_set_size_distinct:
  "py_set_size hs = Inr (length hs) \<Longrightarrow> list_all json_sha256 hs \<Longrightarrow> distinct hs"
proof (induction hs)
  case (Cons x xs)
  then obtain n where n: "py_set_size xs = Inr n"
    and l: "Suc (length xs) = (if list_ex (py_eq x) xs then n else Suc n)"
    by (auto simp: rbind_eq_Inr split: if_splits)
  from py_set_size_le [OF n] l have "\<not> list_ex (py_eq x) xs" and len: "n = length xs"
    by (auto split: if_splits)
  then have "x \<notin> set xs"
    using Cons.prems(2) by (auto simp: list_ex_iff list_all_iff dest: json_sha256D)
  with Cons n len show ?case by simp
qed simp

end
