(* ===== verification/Stage_Control.thy ===== *)
theory Stage_Control
  imports Field_Checks
begin

text \<open>
  The stage contracts of \<open>core/stage_control.py\<close>: a model stage runs under an authorization that
  fixes its scope, inputs and output budget, leaves a receipt that names the authorization and the
  receipt before it, and the next stage starts only from readiness derived from such evidence.
  Keyword arguments are the values the caller passed; the clock is the argument \<open>now\<close>.
\<close>

section \<open>Field checks\<close>

definition stages :: "string list" where
  "stages = [''outline'', ''scene_plan'', ''draft'', ''polish'', ''validator'', ''repair'']"

definition receipt_statuses :: "string list" where
  "receipt_statuses = [''succeeded'', ''failed'', ''provider_call_uncertain'', ''budget_rejected'', ''cancelled'']"

definition legacy_authorization_fields :: "string list" where
  "legacy_authorization_fields =
     [''schema_version'', ''authorization_hash'', ''stage'', ''book_id'', ''session_id'', ''plan_id'',
      ''chapter_index'', ''authority'', ''input_digest'', ''previous_stage_receipt_hash'',
      ''provider_profile'', ''max_output_tokens'', ''issued_at'']"

definition legacy_receipt_fields :: "string list" where
  "legacy_receipt_fields =
     [''schema_version'', ''receipt_hash'', ''authorization_hash'', ''stage'', ''status'', ''book_id'',
      ''session_id'', ''plan_id'', ''chapter_index'', ''authority'', ''input_digest'', ''output_digest'',
      ''model_call_receipt_hash'', ''previous_stage_receipt_hash'', ''created_at'']"

definition st_stage :: "host \<Rightarrow> json \<Rightarrow> json res" where
  "st_stage h value =
     (let resolved = py_str h value in
      if resolved \<notin> set stages
      then Inl (StageControlError ''stage_invalid'' (''unsupported stage: '' @ resolved))
      else Inr (JStr resolved))"

definition st_execution_kind :: "host \<Rightarrow> json \<Rightarrow> json res" where
  "st_execution_kind h value =
     (let resolved = py_str h value in
      if resolved \<notin> {''model'', ''deterministic''}
      then Inl (StageControlError ''stage_execution_kind_invalid'' (''unsupported execution kind: '' @ resolved))
      else Inr (JStr resolved))"

definition st_chapter :: "string \<Rightarrow> json \<Rightarrow> json res" where
  "st_chapter label value =
     (if (case strict_int value of None \<Rightarrow> True | Some i \<Rightarrow> i < 1)
      then Inl (StageControlError ''stage_chapter_invalid'' (label @ '' must be a positive integer''))
      else Inr value)"

definition st_positive_int :: "string \<Rightarrow> json \<Rightarrow> json res" where
  "st_positive_int label value =
     (if (case strict_int value of None \<Rightarrow> True | Some i \<Rightarrow> i < 1)
      then Inl (StageControlError ''stage_limit_invalid'' (label @ '' must be a positive integer''))
      else Inr value)"

definition st_boolean :: "string \<Rightarrow> json \<Rightarrow> json res" where
  "st_boolean label value =
     (if \<not> is_bool value
      then Inl (StageControlError ''stage_boolean_invalid'' (label @ '' must be a boolean''))
      else Inr value)"

definition st_required_text :: "string \<Rightarrow> json \<Rightarrow> json res" where
  "st_required_text label value =
     (case value of
        JStr s \<Rightarrow> if py_strip s = [] then Inl (StageControlError ''stage_text_invalid'' (label @ '' is required''))
                  else Inr (JStr (py_strip s))
      | _ \<Rightarrow> Inl (StageControlError ''stage_text_invalid'' (label @ '' is required'')))"

definition st_sha256 :: "string \<Rightarrow> json \<Rightarrow> json res" where
  "st_sha256 label value =
     (if \<not> json_sha256 value
      then Inl (StageControlError ''stage_digest_invalid'' (label @ '' must be a lowercase SHA-256 digest''))
      else Inr value)"

definition st_optional_sha256 :: "string \<Rightarrow> json \<Rightarrow> json res" where
  "st_optional_sha256 label value = (if value = JNull then Inr JNull else st_sha256 label value)"

definition st_authority :: "json \<Rightarrow> json \<Rightarrow> json res" where
  "st_authority epoch head_event_hash =
     (if (case strict_int epoch of None \<Rightarrow> True | Some i \<Rightarrow> i < 0)
      then Inl (StageControlError ''stage_authority_invalid'' ''authority epoch must be a non-negative integer'')
      else rbind (st_optional_sha256 ''authority_head_event_hash'' head_event_hash) (\<lambda>head.
        Inr (JObj [(''epoch'', epoch), (''head_event_hash'', head)])))"

definition st_validate_authority :: "json \<Rightarrow> json res" where
  "st_validate_authority value =
     (case value of
        JObj d \<Rightarrow>
          if \<not> same_keys d [''epoch'', ''head_event_hash'']
          then Inl (StageControlError ''stage_authority_invalid'' ''authority fields are invalid'')
          else st_authority (dget d ''epoch'') (dget d ''head_event_hash'')
      | _ \<Rightarrow> Inl (StageControlError ''stage_authority_invalid'' ''authority fields are invalid''))"

text \<open>\<open>_validate_mapping\<close>: a schema error becomes a contract error, any other exception passes.\<close>

definition st_validate_mapping :: "host \<Rightarrow> json \<Rightarrow> string \<Rightarrow> string \<Rightarrow> dict res" where
  "st_validate_mapping h value schema label =
     (case value of
        JObj d \<Rightarrow>
          (case validate_schema h (JObj d) schema of
             Inl (SchemaValidationError msg) \<Rightarrow>
               Inl (StageControlError ''stage_contract_invalid'' (''invalid '' @ label @ '': '' @ msg))
           | Inl e \<Rightarrow> Inl e
           | Inr _ \<Rightarrow> Inr d)
      | _ \<Rightarrow> Inl (StageControlError ''stage_contract_invalid'' (label @ '' must be an object'')))"

text \<open>The reasons a readiness decision lists: the codes of the evidence fields that are not true.\<close>

fun evidence_reasons :: "json \<Rightarrow> (string \<times> string) list \<Rightarrow> json list res" where
  "evidence_reasons evidence [] = Inr []"
| "evidence_reasons evidence ((field, reason) # rest) =
     rbind (jitem evidence field) (\<lambda>v.
     rbind (evidence_reasons evidence rest) (\<lambda>rs.
     Inr (if truthy v then rs else JStr reason # rs)))"

definition outline_reason_codes :: "(string \<times> string) list" where
  "outline_reason_codes =
     [(''project_identity_matches'', ''project_identity_mismatch''),
      (''canonical_next_chapter_matches'', ''requested_chapter_not_canonical_next''),
      (''book_lease_held'', ''book_lease_missing''),
      (''required_delivery_allows_progress'', ''required_delivery_blocked''),
      (''sources_current'', ''outline_source_drift'')]"

definition draft_reason_codes :: "(string \<times> string) list" where
  "draft_reason_codes =
     [(''outline_receipt_valid'', ''outline_stage_receipt_not_succeeded''),
      (''book_matches'', ''outline_book_mismatch''),
      (''outline_hash_matches'', ''outline_hash_drift''),
      (''authority_matches'', ''outline_authority_stale''),
      (''context_matches'', ''outline_input_drift''),
      (''session_matches'', ''outline_session_mismatch''),
      (''plan_matches'', ''outline_plan_mismatch''),
      (''chapter_matches'', ''outline_chapter_mismatch'')]"

section \<open>Outline readiness\<close>

text \<open>The last check of both readiness validators: reasons and verdict follow from the evidence.\<close>

definition check_derived :: "dict \<Rightarrow> (string \<times> string) list \<Rightarrow> string \<Rightarrow> json res" where
  "check_derived decision codes error =
     rbind (on_item decision ''evidence'' (\<lambda>ev. evidence_reasons ev codes)) (\<lambda>expected.
     on_item decision ''reasons'' (\<lambda>reasons.
     if \<not> py_eq reasons (JList expected)
     then Inl (StageControlError error ''readiness must match its evidence'')
     else on_item decision ''ok'' (\<lambda>ok.
       if \<not> py_eq ok (JBool (expected = []))
       then Inl (StageControlError error ''readiness must match its evidence'')
       else Inr (JObj decision))))"

definition validate_outline_readiness :: "host \<Rightarrow> json \<Rightarrow> json res" where
  "validate_outline_readiness h value =
     rbind (st_validate_mapping h value ''outline_readiness.schema.json'' ''OutlineReadiness'') (\<lambda>decision.
     rbind (on_item decision ''book_id'' (st_required_text ''book_id'')) (\<lambda>_.
     rbind (on_item decision ''chapter_index'' (st_chapter ''chapter_index'')) (\<lambda>_.
     rbind (on_item decision ''authority'' st_validate_authority) (\<lambda>_.
     rbind (on_item decision ''context_digest'' (st_sha256 ''context_digest'')) (\<lambda>_.
     check_derived decision outline_reason_codes ''outline_readiness_not_derived'')))))"

definition derive_outline_readiness ::
  "host \<Rightarrow> string \<Rightarrow> json \<Rightarrow> json \<Rightarrow> json \<Rightarrow> json \<Rightarrow> json \<Rightarrow> json \<Rightarrow> json \<Rightarrow> json \<Rightarrow> json \<Rightarrow> json \<Rightarrow> json \<Rightarrow> json \<Rightarrow> json res" where
  "derive_outline_readiness h now book_id expected_book_id requested_chapter canonical_next_chapter
       authority_epoch authority_head_event_hash context_digest book_lease_held
       required_delivery_allows_progress sources_current outline_exists checked_at =
     rbind (st_required_text ''book_id'' book_id) (\<lambda>resolved_book_id.
     rbind (st_required_text ''expected_book_id'' expected_book_id) (\<lambda>expected.
     rbind (st_chapter ''requested_chapter'' requested_chapter) (\<lambda>requested.
     rbind (st_chapter ''canonical_next_chapter'' canonical_next_chapter) (\<lambda>canonical.
     rbind (st_boolean ''book_lease_held'' book_lease_held) (\<lambda>lease.
     rbind (st_boolean ''required_delivery_allows_progress'' required_delivery_allows_progress) (\<lambda>delivery.
     rbind (st_boolean ''sources_current'' sources_current) (\<lambda>current.
     rbind (st_boolean ''outline_exists'' outline_exists) (\<lambda>exists.
     let evidence = JObj
          [(''project_identity_matches'', JBool (py_eq resolved_book_id expected)),
           (''canonical_next_chapter_matches'', JBool (py_eq requested canonical)),
           (''book_lease_held'', lease),
           (''required_delivery_allows_progress'', delivery),
           (''sources_current'', current),
           (''outline_exists'', exists)] in
     rbind (evidence_reasons evidence outline_reason_codes) (\<lambda>reasons.
     rbind (st_authority authority_epoch authority_head_event_hash) (\<lambda>authority.
     rbind (st_sha256 ''context_digest'' context_digest) (\<lambda>digest.
     validate_outline_readiness h (JObj
       [(''schema_version'', JStr ''1.0''), (''kind'', JStr ''outline''),
        (''ok'', JBool (reasons = [])), (''reasons'', JList reasons),
        (''book_id'', resolved_book_id), (''chapter_index'', requested_chapter),
        (''authority'', authority), (''context_digest'', digest),
        (''checked_at'', py_or checked_at (JStr now)), (''evidence'', evidence)]))))))))))))"

section \<open>Authorizations\<close>

definition check_authorization_version :: "dict \<Rightarrow> string \<Rightarrow> unit res" where
  "check_authorization_version authorization version =
     (if version = ''1.0'' \<and> \<not> same_keys authorization legacy_authorization_fields
      then Inl (StageControlError ''stage_authorization_version_invalid''
             ''legacy StageAuthorization bytes cannot contain 1.1 execution fields'')
      else if version = ''1.1'' \<and> \<not> dhas authorization ''execution_kind''
      then Inl (StageControlError ''stage_authorization_version_invalid''
             ''StageAuthorization 1.1 requires execution_kind'')
      else Inr ())"

definition check_authorization_fields :: "host \<Rightarrow> dict \<Rightarrow> string \<Rightarrow> unit res" where
  "check_authorization_fields h a version =
     rbind (on_item a ''stage'' (st_stage h)) (\<lambda>_.
     rbind (rcheck (\<lambda>field. on_item a field (\<lambda>v. rbind (st_required_text field v) (\<lambda>_. Inr ())))
              [''book_id'', ''session_id'', ''plan_id'', ''provider_profile'']) (\<lambda>_.
     rbind (on_item a ''chapter_index'' (st_chapter ''chapter_index'')) (\<lambda>_.
     rbind (on_item a ''authority'' st_validate_authority) (\<lambda>_.
     rbind (on_item a ''input_digest'' (st_sha256 ''input_digest'')) (\<lambda>_.
     rbind (on_item a ''previous_stage_receipt_hash'' (st_optional_sha256 ''previous_stage_receipt_hash'')) (\<lambda>_.
     rbind (on_item a ''max_output_tokens'' (st_positive_int ''max_output_tokens'')) (\<lambda>_.
     rbind (if version = ''1.1'' then on_item a ''execution_kind'' (st_execution_kind h) else Inr JNull) (\<lambda>_.
     rbind (on_item a ''authorization_hash'' (st_sha256 ''authorization_hash'')) (\<lambda>_.
     Inr ())))))))))"

definition validate_stage_authorization :: "host \<Rightarrow> json \<Rightarrow> json res" where
  "validate_stage_authorization h value =
     rbind (st_validate_mapping h value ''stage_authorization.schema.json'' ''StageAuthorization'') (\<lambda>a.
     on_item a ''schema_version'' (\<lambda>sv. let version = py_str h sv in
     rbind (check_authorization_version a version) (\<lambda>_.
     rbind (check_authorization_fields h a version) (\<lambda>_.
     rbind (canonical_json_hash h [''authorization_hash''] True (JObj a)) (\<lambda>expected.
     if dget a ''authorization_hash'' \<noteq> JStr expected
     then Inl (StageControlError ''stage_authorization_hash_mismatch'' ''authorization content was modified'')
     else Inr (JObj a))))))"

text \<open>The keyword arguments that describe the scope of a stage, shared by the builder of an
  authorization and the check before a call.\<close>

record stage_scope =
  arg_stage :: json
  arg_book_id :: json
  arg_session_id :: json
  arg_plan_id :: json
  arg_chapter_index :: json
  arg_authority_epoch :: json
  arg_authority_head_event_hash :: json
  arg_input_digest :: json
  arg_previous_stage_receipt_hash :: json
  arg_provider_profile :: json

definition scope_fields :: "host \<Rightarrow> stage_scope \<Rightarrow> dict res" where
  "scope_fields h a =
     rbind (st_stage h (arg_stage a)) (\<lambda>stage.
     rbind (st_required_text ''book_id'' (arg_book_id a)) (\<lambda>book_id.
     rbind (st_required_text ''session_id'' (arg_session_id a)) (\<lambda>session_id.
     rbind (st_required_text ''plan_id'' (arg_plan_id a)) (\<lambda>plan_id.
     rbind (st_chapter ''chapter_index'' (arg_chapter_index a)) (\<lambda>chapter_index.
     rbind (st_authority (arg_authority_epoch a) (arg_authority_head_event_hash a)) (\<lambda>authority.
     rbind (st_sha256 ''input_digest'' (arg_input_digest a)) (\<lambda>input_digest.
     rbind (st_optional_sha256 ''previous_stage_receipt_hash'' (arg_previous_stage_receipt_hash a)) (\<lambda>previous.
     rbind (st_required_text ''provider_profile'' (arg_provider_profile a)) (\<lambda>provider_profile.
     Inr [(''stage'', stage), (''book_id'', book_id), (''session_id'', session_id), (''plan_id'', plan_id),
          (''chapter_index'', chapter_index), (''authority'', authority), (''input_digest'', input_digest),
          (''previous_stage_receipt_hash'', previous), (''provider_profile'', provider_profile)])))))))))"

definition build_stage_authorization ::
  "host \<Rightarrow> string \<Rightarrow> stage_scope \<Rightarrow> json \<Rightarrow> json \<Rightarrow> json \<Rightarrow> json res" where
  "build_stage_authorization h now a max_output_tokens execution_kind issued_at =
     rbind (scope_fields h a) (\<lambda>scope.
     rbind (st_positive_int ''max_output_tokens'' max_output_tokens) (\<lambda>limit.
     rbind (st_execution_kind h execution_kind) (\<lambda>kind.
     let authorization = (''schema_version'', JStr ''1.1'') # scope @
           [(''max_output_tokens'', limit), (''execution_kind'', kind),
            (''issued_at'', py_or issued_at (JStr now))] in
     rbind (canonical_json_hash h [] True (JObj authorization)) (\<lambda>hash.
     validate_stage_authorization h (JObj (dset ''authorization_hash'' (JStr hash) authorization))))))"

text \<open>The loop of \<open>assert_stage_authorized\<close> over the expected fields.\<close>

fun check_expected_fields :: "dict \<Rightarrow> dict \<Rightarrow> unit res" where
  "check_expected_fields validated [] = Inr ()"
| "check_expected_fields validated ((field, actual) # rest) =
     on_item validated field (\<lambda>v.
       if \<not> py_eq v actual
       then Inl (StageControlError ''stage_authorization_drift'' (field @ '' changed after authorization''))
       else check_expected_fields validated rest)"

definition expected_execution_kind :: "host \<Rightarrow> dict \<Rightarrow> json \<Rightarrow> dict res" where
  "expected_execution_kind h validated execution_kind =
     on_item validated ''schema_version'' (\<lambda>version.
       if version = JStr ''1.1''
       then rbind (if execution_kind = JNull then on_item validated ''execution_kind'' (st_execution_kind h)
                   else st_execution_kind h execution_kind) (\<lambda>kind. Inr [(''execution_kind'', kind)])
       else if execution_kind \<noteq> JNull \<and> execution_kind \<noteq> JStr ''model''
       then Inl (StageControlError ''stage_authorization_drift''
              ''legacy authorization cannot be reinterpreted as deterministic execution'')
       else Inr [])"

definition assert_stage_authorized :: "host \<Rightarrow> dict \<Rightarrow> stage_scope \<Rightarrow> json \<Rightarrow> json \<Rightarrow> json res" where
  "assert_stage_authorized h authorization a requested_max_output_tokens execution_kind =
     rbind (validate_stage_authorization h (JObj authorization)) (\<lambda>_.
     let validated = authorization in
     rbind (scope_fields h a) (\<lambda>scope.
     rbind (expected_execution_kind h validated execution_kind) (\<lambda>kind.
     rbind (check_expected_fields validated (scope @ kind)) (\<lambda>_.
     rbind (st_positive_int ''requested_max_output_tokens'' requested_max_output_tokens) (\<lambda>requested.
     on_item validated ''max_output_tokens'' (\<lambda>limit.
     rbind (num_less limit requested) (\<lambda>escalates.
     if escalates
     then Inl (StageControlError ''stage_authorization_budget_escalation''
            ''requested output budget exceeds the authorized profile'')
     else Inr (JObj validated))))))))"

section \<open>Receipts\<close>

definition check_receipt_version :: "dict \<Rightarrow> string \<Rightarrow> unit res" where
  "check_receipt_version receipt version =
     (if version = ''1.0'' \<and> \<not> same_keys receipt legacy_receipt_fields
      then Inl (StageControlError ''stage_receipt_version_invalid''
             ''legacy StageReceipt bytes cannot contain 1.1 execution fields'')
      else if version = ''1.1'' \<and>
         \<not> list_all (dhas receipt) [''execution_kind'', ''execution_evidence_hash'', ''model_call_receipt_hashes'']
      then Inl (StageControlError ''stage_receipt_version_invalid''
             ''StageReceipt 1.1 requires explicit execution evidence fields'')
      else if dhas receipt ''recovery_protocol'' \<and>
         dget receipt ''recovery_protocol'' \<noteq> JStr MARKER_RECOVERY_PROTOCOL
      then Inl (StageControlError ''stage_receipt_recovery_protocol_invalid''
             ''StageReceipt recovery protocol is not supported'')
      else Inr ())"

definition check_receipt_fields :: "host \<Rightarrow> dict \<Rightarrow> unit res" where
  "check_receipt_fields h r =
     rbind (on_item r ''stage'' (st_stage h)) (\<lambda>_.
     rbind (on_item r ''status'' (\<lambda>status.
       if \<not> hashable status then Inl TypeError
       else if status \<notin> JStr ` set receipt_statuses
       then Inl (StageControlError ''stage_receipt_status_invalid'' ''unsupported receipt status'')
       else Inr ())) (\<lambda>_.
     rbind (rcheck (\<lambda>field. on_item r field (\<lambda>v. rbind (st_required_text field v) (\<lambda>_. Inr ())))
              [''book_id'', ''session_id'', ''plan_id'']) (\<lambda>_.
     rbind (on_item r ''chapter_index'' (st_chapter ''chapter_index'')) (\<lambda>_.
     rbind (on_item r ''authority'' st_validate_authority) (\<lambda>_.
     rbind (rcheck (\<lambda>field. on_item r field (\<lambda>v. rbind (st_sha256 field v) (\<lambda>_. Inr ())))
              [''receipt_hash'', ''authorization_hash'', ''input_digest'']) (\<lambda>_.
     rcheck (\<lambda>field. on_item r field (\<lambda>v. rbind (st_optional_sha256 field v) (\<lambda>_. Inr ())))
              [''output_digest'', ''model_call_receipt_hash'', ''previous_stage_receipt_hash'']))))))"

definition check_receipt_evidence :: "host \<Rightarrow> dict \<Rightarrow> json list res" where
  "check_receipt_evidence h r =
     rbind (on_item r ''execution_evidence_hash'' (st_optional_sha256 ''execution_evidence_hash'')) (\<lambda>_.
     rbind (on_item r ''execution_kind'' (st_execution_kind h)) (\<lambda>_.
     on_item r ''model_call_receipt_hashes'' (\<lambda>hs.
       case hs of
         JList hashes \<Rightarrow>
           rbind (py_set_size hashes) (\<lambda>n.
           if length hashes \<noteq> n
           then Inl (StageControlError ''stage_receipt_model_evidence_invalid''
                  ''model_call_receipt_hashes must be a unique list'')
           else rbind (rmap (st_sha256 ''model_call_receipt_hashes'') hashes) (\<lambda>_. Inr hashes))
       | _ \<Rightarrow> Inl (StageControlError ''stage_receipt_model_evidence_invalid''
                  ''model_call_receipt_hashes must be a unique list''))))"

definition check_receipt_outcome :: "dict \<Rightarrow> string \<Rightarrow> json list \<Rightarrow> json res" where
  "check_receipt_outcome r version hashes =
     (let succeeded = (dget r ''status'' = JStr ''succeeded'') in
      if succeeded \<noteq> (dget r ''output_digest'' \<noteq> JNull)
      then Inl (StageControlError ''stage_receipt_output_status_mismatch''
             ''only a successful stage may carry an output digest'')
      else if version = ''1.1'' \<and> succeeded \<noteq> (dget r ''execution_evidence_hash'' \<noteq> JNull)
      then Inl (StageControlError ''stage_receipt_execution_evidence_status_mismatch''
             ''only a successful stage may carry execution evidence'')
      else if version = ''1.1'' \<and> dget r ''execution_kind'' = JStr ''model''
      then (if succeeded \<and> hashes = []
            then Inl (StageControlError ''stage_receipt_model_evidence_missing''
                   ''a successful model stage requires ModelCallReceipt evidence'')
            else if dget r ''model_call_receipt_hash'' \<noteq> JNull \<and>
                    \<not> list_ex (py_eq (dget r ''model_call_receipt_hash'')) hashes
            then Inl (StageControlError ''stage_receipt_model_evidence_invalid''
                   ''primary ModelCallReceipt is not in the receipt evidence list'')
            else Inr (JObj r))
      else if version = ''1.1'' \<and> (hashes \<noteq> [] \<or> dget r ''model_call_receipt_hash'' \<noteq> JNull)
      then Inl (StageControlError ''stage_receipt_deterministic_model_evidence''
             ''deterministic stage evidence cannot claim model receipts'')
      else Inr (JObj r))"

definition validate_stage_receipt :: "host \<Rightarrow> json \<Rightarrow> json res" where
  "validate_stage_receipt h value =
     rbind (st_validate_mapping h value ''stage_receipt.schema.json'' ''StageReceipt'') (\<lambda>r.
     on_item r ''schema_version'' (\<lambda>sv. let version = py_str h sv in
     rbind (check_receipt_version r version) (\<lambda>_.
     rbind (check_receipt_fields h r) (\<lambda>_.
     rbind (if version = ''1.1'' then check_receipt_evidence h r else Inr []) (\<lambda>hashes.
     rbind (canonical_json_hash h [''receipt_hash''] True (JObj r)) (\<lambda>expected.
     if dget r ''receipt_hash'' \<noteq> JStr expected
     then Inl (StageControlError ''stage_receipt_hash_mismatch'' ''receipt content was modified'')
     else check_receipt_outcome r version hashes))))))"


record receipt_args =
  arg_status :: json
  arg_output_digest :: json
  arg_model_call_receipt_hash :: json
  arg_model_call_receipt_hashes :: json
  arg_execution_evidence_hash :: json
  arg_created_at :: json

text \<open>The model call evidence of a new receipt: the listed hashes, then the primary one.\<close>

definition receipt_model_evidence :: "receipt_args \<Rightarrow> (json list \<times> json) res" where
  "receipt_model_evidence b =
     rbind (py_iter (py_or (arg_model_call_receipt_hashes b) (JList []))) (\<lambda>items.
     rbind (rmap (st_sha256 ''model_call_receipt_hash'') items) (\<lambda>hashes.
     if \<not> distinct hashes
     then Inl (StageControlError ''stage_receipt_model_evidence_duplicate''
            ''model call receipt evidence must not contain duplicates'')
     else rbind (st_optional_sha256 ''model_call_receipt_hash'' (arg_model_call_receipt_hash b)) (\<lambda>primary.
       Inr (if primary \<noteq> JNull \<and> primary \<notin> set hashes then hashes @ [primary] else hashes, primary))))"

definition receipt_execution_evidence :: "host \<Rightarrow> receipt_args \<Rightarrow> json \<Rightarrow> json list \<Rightarrow> json res" where
  "receipt_execution_evidence h b execution_kind hashes =
     rbind (st_optional_sha256 ''execution_evidence_hash'' (arg_execution_evidence_hash b)) (\<lambda>evidence.
     if evidence = JNull \<and> execution_kind = JStr ''model'' \<and> hashes \<noteq> []
     then rbind (canonical_json_hash h [] True
            (JObj [(''execution_kind'', JStr ''model''), (''model_call_receipt_hashes'', JList hashes)]))
          (\<lambda>x. Inr (JStr x))
     else Inr evidence)"

definition check_new_receipt_evidence :: "string \<Rightarrow> json \<Rightarrow> json list \<Rightarrow> json \<Rightarrow> unit res" where
  "check_new_receipt_evidence status execution_kind hashes evidence =
     (if status = ''succeeded''
      then (if execution_kind = JStr ''model'' \<and> hashes = []
            then Inl (StageControlError ''stage_receipt_model_evidence_missing''
                   ''a successful model stage requires durable ModelCallReceipt evidence'')
            else if execution_kind = JStr ''deterministic'' \<and> hashes \<noteq> []
            then Inl (StageControlError ''stage_receipt_deterministic_model_evidence''
                   ''a deterministic stage cannot claim model call receipts'')
            else if evidence = JNull
            then Inl (StageControlError ''stage_receipt_execution_evidence_missing''
                   ''a successful stage requires execution evidence'')
            else Inr ())
      else if hashes \<noteq> [] \<or> evidence \<noteq> JNull
      then Inl (StageControlError ''stage_receipt_failed_evidence_present''
             ''an unsuccessful stage cannot publish success evidence'')
      else Inr ())"

definition new_receipt ::
  "dict \<Rightarrow> string \<Rightarrow> json \<Rightarrow> json \<Rightarrow> json \<Rightarrow> json \<Rightarrow> json list \<Rightarrow> json \<Rightarrow> dict" where
  "new_receipt a status output execution_kind evidence primary hashes created_at =
     [(''schema_version'', JStr ''1.1''),
      (''recovery_protocol'', JStr MARKER_RECOVERY_PROTOCOL),
      (''authorization_hash'', dget a ''authorization_hash''),
      (''stage'', dget a ''stage''),
      (''status'', JStr status),
      (''book_id'', dget a ''book_id''),
      (''session_id'', dget a ''session_id''),
      (''plan_id'', dget a ''plan_id''),
      (''chapter_index'', dget a ''chapter_index''),
      (''authority'', dget a ''authority''),
      (''input_digest'', dget a ''input_digest''),
      (''output_digest'', output),
      (''execution_kind'', execution_kind),
      (''execution_evidence_hash'', evidence),
      (''model_call_receipt_hash'', primary),
      (''model_call_receipt_hashes'', JList hashes),
      (''previous_stage_receipt_hash'', dget a ''previous_stage_receipt_hash''),
      (''created_at'', created_at)]"

definition build_stage_receipt :: "host \<Rightarrow> string \<Rightarrow> dict \<Rightarrow> receipt_args \<Rightarrow> json res" where
  "build_stage_receipt h now authorization b =
     rbind (validate_stage_authorization h (JObj authorization)) (\<lambda>_.
     let a = authorization in
     if dget a ''schema_version'' \<noteq> JStr ''1.1''
     then Inl (StageControlError ''stage_receipt_builder_version_invalid''
            ''new StageReceipts require a StageAuthorization 1.1'')
     else let status = py_str h (arg_status b) in
     if status \<notin> set receipt_statuses
     then Inl (StageControlError ''stage_receipt_status_invalid'' (''unsupported status: '' @ status))
     else rbind (st_optional_sha256 ''output_digest'' (arg_output_digest b)) (\<lambda>output.
     if status = ''succeeded'' \<and> output = JNull
     then Inl (StageControlError ''stage_receipt_output_missing'' ''a successful stage requires an output digest'')
     else if status \<noteq> ''succeeded'' \<and> output \<noteq> JNull
     then Inl (StageControlError ''stage_receipt_failed_output_present'' ''an unsuccessful stage cannot publish output'')
     else rbind (st_execution_kind h (dget a ''execution_kind'')) (\<lambda>execution_kind.
     rbind (receipt_model_evidence b) (\<lambda>(hashes, primary).
     rbind (receipt_execution_evidence h b execution_kind hashes) (\<lambda>evidence.
     rbind (check_new_receipt_evidence status execution_kind hashes evidence) (\<lambda>_.
     let receipt = new_receipt a status output execution_kind evidence primary hashes
                     (py_or (arg_created_at b) (JStr now)) in
     rbind (canonical_json_hash h [] True (JObj receipt)) (\<lambda>hash.
     validate_stage_receipt h (JObj (dset ''receipt_hash'' (JStr hash) receipt)))))))))"

definition bound_fields :: "string list" where
  "bound_fields = [''stage'', ''book_id'', ''session_id'', ''plan_id'', ''chapter_index'', ''authority'',
     ''input_digest'', ''previous_stage_receipt_hash'']"

definition same_bound_field :: "dict \<Rightarrow> dict \<Rightarrow> string \<Rightarrow> unit res" where
  "same_bound_field r a field =
     on_item r field (\<lambda>x. on_item a field (\<lambda>y.
       if \<not> py_eq x y
       then Inl (StageControlError ''stage_receipt_authorization_mismatch'' (''receipt '' @ field @ '' is not authorized''))
       else Inr ()))"

definition assert_receipt_matches_authorization :: "host \<Rightarrow> dict \<Rightarrow> dict \<Rightarrow> unit res" where
  "assert_receipt_matches_authorization h r a =
     rbind (validate_stage_receipt h (JObj r)) (\<lambda>_.
     rbind (validate_stage_authorization h (JObj a)) (\<lambda>_.
     on_item r ''schema_version'' (\<lambda>rv. on_item a ''schema_version'' (\<lambda>av.
     if \<not> py_eq rv av
     then Inl (StageControlError ''stage_receipt_authorization_mismatch''
            ''receipt and authorization contract versions differ'')
     else on_item r ''authorization_hash'' (\<lambda>rh. on_item a ''authorization_hash'' (\<lambda>ah.
     if \<not> py_eq rh ah
     then Inl (StageControlError ''stage_receipt_authorization_mismatch'' ''receipt belongs to another authorization'')
     else rbind (rcheck (same_bound_field r a) bound_fields) (\<lambda>_.
     if rv = JStr ''1.1''
     then on_item r ''execution_kind'' (\<lambda>rk. on_item a ''execution_kind'' (\<lambda>ak.
       if \<not> py_eq rk ak
       then Inl (StageControlError ''stage_receipt_authorization_mismatch'' ''receipt execution_kind is not authorized'')
       else Inr ()))
     else Inr ())))))))"

section \<open>Draft readiness\<close>

definition validate_draft_readiness :: "host \<Rightarrow> json \<Rightarrow> json res" where
  "validate_draft_readiness h value =
     rbind (st_validate_mapping h value ''draft_readiness.schema.json'' ''DraftReadiness'') (\<lambda>decision.
     rbind (rcheck (\<lambda>field. on_item decision field (\<lambda>v. rbind (st_required_text field v) (\<lambda>_. Inr ())))
              [''book_id'', ''session_id'', ''plan_id'']) (\<lambda>_.
     rbind (on_item decision ''chapter_index'' (st_chapter ''chapter_index'')) (\<lambda>_.
     rbind (on_item decision ''authority'' st_validate_authority) (\<lambda>_.
     rbind (rcheck (\<lambda>field. on_item decision field (\<lambda>v. rbind (st_sha256 field v) (\<lambda>_. Inr ())))
              [''context_digest'', ''outline_hash'', ''outline_stage_receipt_hash'']) (\<lambda>_.
     check_derived decision draft_reason_codes ''draft_readiness_not_derived'')))))"

record draft_args =
  d_book_id :: json
  d_session_id :: json
  d_plan_id :: json
  d_chapter_index :: json
  d_authority_epoch :: json
  d_authority_head_event_hash :: json
  d_current_outline_input_digest :: json
  d_current_outline_hash :: json
  d_checked_at :: json

definition draft_evidence :: "dict \<Rightarrow> draft_args \<Rightarrow> json \<Rightarrow> json res" where
  "draft_evidence r c current_authority =
     on_item r ''stage'' (\<lambda>stage.
     rbind (if stage = JStr ''outline'' then on_item r ''status'' (\<lambda>s. Inr (s = JStr ''succeeded'')) else Inr False) (\<lambda>valid.
     on_item r ''book_id'' (\<lambda>r_book. rbind (st_required_text ''book_id'' (d_book_id c)) (\<lambda>book.
     on_item r ''output_digest'' (\<lambda>r_out. rbind (st_sha256 ''current_outline_hash'' (d_current_outline_hash c)) (\<lambda>out.
     on_item r ''authority'' (\<lambda>r_auth.
     on_item r ''input_digest'' (\<lambda>r_in. rbind (st_sha256 ''current_outline_input_digest'' (d_current_outline_input_digest c)) (\<lambda>inp.
     on_item r ''session_id'' (\<lambda>r_ses. rbind (st_required_text ''session_id'' (d_session_id c)) (\<lambda>ses.
     on_item r ''plan_id'' (\<lambda>r_plan. rbind (st_required_text ''plan_id'' (d_plan_id c)) (\<lambda>plan.
     on_item r ''chapter_index'' (\<lambda>r_ch. rbind (st_chapter ''chapter_index'' (d_chapter_index c)) (\<lambda>ch.
     Inr (JObj [(''outline_receipt_valid'', JBool valid),
                (''book_matches'', JBool (py_eq r_book book)),
                (''outline_hash_matches'', JBool (py_eq r_out out)),
                (''authority_matches'', JBool (py_eq r_auth current_authority)),
                (''context_matches'', JBool (py_eq r_in inp)),
                (''session_matches'', JBool (py_eq r_ses ses)),
                (''plan_matches'', JBool (py_eq r_plan plan)),
                (''chapter_matches'', JBool (py_eq r_ch ch))]))))))))))))))))"

definition derive_draft_readiness :: "host \<Rightarrow> string \<Rightarrow> dict \<Rightarrow> draft_args \<Rightarrow> json res" where
  "derive_draft_readiness h now outline_stage_receipt c =
     rbind (validate_stage_receipt h (JObj outline_stage_receipt)) (\<lambda>_.
     let r = outline_stage_receipt in
     rbind (st_authority (d_authority_epoch c) (d_authority_head_event_hash c)) (\<lambda>current_authority.
     rbind (draft_evidence r c current_authority) (\<lambda>evidence.
     rbind (evidence_reasons evidence draft_reason_codes) (\<lambda>reasons.
     rbind (st_required_text ''book_id'' (d_book_id c)) (\<lambda>book.
     rbind (st_required_text ''session_id'' (d_session_id c)) (\<lambda>session.
     rbind (st_required_text ''plan_id'' (d_plan_id c)) (\<lambda>plan.
     rbind (st_chapter ''chapter_index'' (d_chapter_index c)) (\<lambda>chapter.
     rbind (st_sha256 ''current_outline_input_digest'' (d_current_outline_input_digest c)) (\<lambda>digest.
     rbind (st_sha256 ''current_outline_hash'' (d_current_outline_hash c)) (\<lambda>outline_hash.
     on_item r ''receipt_hash'' (\<lambda>receipt_hash.
     validate_draft_readiness h (JObj
       [(''schema_version'', JStr ''1.0''), (''kind'', JStr ''draft''),
        (''ok'', JBool (reasons = [])), (''reasons'', JList reasons),
        (''book_id'', book), (''session_id'', session), (''plan_id'', plan),
        (''chapter_index'', chapter), (''authority'', current_authority),
        (''context_digest'', digest), (''outline_hash'', outline_hash),
        (''outline_stage_receipt_hash'', receipt_hash),
        (''checked_at'', py_or (d_checked_at c) (JStr now)), (''evidence'', evidence)]))))))))))))"

section \<open>Receipt chains\<close>

text \<open>The variables of the loop of \<open>validate_stage_receipt_chain\<close>.\<close>

record chain_state =
  previous_hash :: json
  chain_scope :: "(json \<times> json \<times> json) option"
  previous_chapter :: "int option"
  validated :: "json list"

definition initial_chain :: chain_state where
  "initial_chain = \<lparr>previous_hash = JNull, chain_scope = None, previous_chapter = None, validated = []\<rparr>"

definition chain_step :: "host \<Rightarrow> nat \<Rightarrow> dict \<Rightarrow> chain_state \<Rightarrow> chain_state res" where
  "chain_step h index r s =
     rbind (validate_stage_receipt h (JObj r)) (\<lambda>_.
     on_item r ''previous_stage_receipt_hash'' (\<lambda>prev.
     if \<not> py_eq prev (previous_hash s)
     then Inl (StageControlError ''stage_receipt_chain_broken''
            (''receipt '' @ show_nat index @ '' does not reference the preceding receipt''))
     else on_item r ''book_id'' (\<lambda>book. on_item r ''session_id'' (\<lambda>session. on_item r ''plan_id'' (\<lambda>plan.
     let current_scope = (book, session, plan) in
     if (case chain_scope s of None \<Rightarrow> False
         | Some (b, e, p) \<Rightarrow> \<not> (py_eq book b \<and> py_eq session e \<and> py_eq plan p))
     then Inl (StageControlError ''stage_receipt_scope_changed'' ''receipt chain changed book/session/plan'')
     else on_item r ''chapter_index'' (\<lambda>ci. rbind (py_int ci) (\<lambda>chapter.
     if previous_chapter s \<noteq> None \<and> previous_chapter s \<noteq> Some chapter
     then Inl (StageControlError ''stage_receipt_chapter_changed''
            ''a model-stage receipt chain is scoped to one chapter; publication receipts advance chapters'')
     else on_item r ''receipt_hash'' (\<lambda>hash.
       Inr \<lparr>previous_hash = hash,
            chain_scope = (case chain_scope s of None \<Rightarrow> Some current_scope | Some sc \<Rightarrow> Some sc),
            previous_chapter = Some chapter,
            validated = validated s @ [JObj r]\<rparr>))))))))"

fun chain_loop :: "host \<Rightarrow> nat \<Rightarrow> dict list \<Rightarrow> chain_state \<Rightarrow> chain_state res" where
  "chain_loop h index [] s = Inr s"
| "chain_loop h index (raw # rest) s =
     rbind (chain_step h index raw s) (\<lambda>s'. chain_loop h (Suc index) rest s')"

definition validate_stage_receipt_chain :: "host \<Rightarrow> dict list \<Rightarrow> json list res" where
  "validate_stage_receipt_chain h receipts =
     rbind (chain_loop h 0 receipts initial_chain) (\<lambda>s. Inr (validated s))"


section \<open>Inversion of the checks\<close>

lemma st_stage_Inr [res_simps]:
  "st_stage h v = Inr w \<longleftrightarrow> py_str h v \<in> set stages \<and> w = JStr (py_str h v)"
  by (auto simp: st_stage_def Let_def)

lemma st_execution_kind_Inr [res_simps]:
  "st_execution_kind h v = Inr w \<longleftrightarrow> py_str h v \<in> {''model'', ''deterministic''} \<and> w = JStr (py_str h v)"
  by (auto simp: st_execution_kind_def Let_def)

lemma st_chapter_Inr [res_simps]: "st_chapter l v = Inr w \<longleftrightarrow> pos_int v \<and> w = v"
  by (cases v) (auto simp: st_chapter_def strict_int_def pos_int_def)

lemma st_positive_int_Inr [res_simps]: "st_positive_int l v = Inr w \<longleftrightarrow> pos_int v \<and> w = v"
  by (cases v) (auto simp: st_positive_int_def strict_int_def pos_int_def)

lemma st_boolean_Inr [res_simps]: "st_boolean l v = Inr w \<longleftrightarrow> is_bool v \<and> w = v"
  by (auto simp: st_boolean_def)

lemma st_required_text_Inr [res_simps]:
  "st_required_text l v = Inr w \<longleftrightarrow> nonblank v \<and> w = stripped v"
  by (cases v) (auto simp: st_required_text_def nonblank_def stripped_def)

lemma st_sha256_Inr [res_simps]: "st_sha256 l v = Inr w \<longleftrightarrow> json_sha256 v \<and> w = v"
  by (auto simp: st_sha256_def)

lemma st_optional_sha256_Inr [res_simps]:
  "st_optional_sha256 l v = Inr w \<longleftrightarrow> digest_or_null v \<and> w = v"
  by (auto simp: st_optional_sha256_def st_sha256_Inr digest_or_null_def)

definition authority_json :: "int \<Rightarrow> json \<Rightarrow> json" where
  "authority_json epoch head = JObj [(''epoch'', JInt epoch), (''head_event_hash'', head)]"

lemma st_authority_Inr [res_simps]:
  "st_authority e v = Inr w \<longleftrightarrow> (\<exists>i. e = JInt i \<and> 0 \<le> i \<and> digest_or_null v \<and> w = authority_json i v)"
  by (cases e) (auto simp: st_authority_def strict_int_def authority_json_def res_simps)

lemma st_validate_authority_Inr [res_simps]:
  "st_validate_authority v = Inr w \<longleftrightarrow>
     (\<exists>d i. v = JObj d \<and> same_keys d [''epoch'', ''head_event_hash''] \<and> dget d ''epoch'' = JInt i \<and> 0 \<le> i \<and>
        digest_or_null (dget d ''head_event_hash'') \<and> w = authority_json i (dget d ''head_event_hash''))"
  by (cases v) (auto simp: st_validate_authority_def res_simps)

lemma st_validate_mapping_Inr [res_simps]:
  "st_validate_mapping h v n l = Inr d \<longleftrightarrow> v = JObj d \<and> validate_schema h v n = Inr v"
  by (cases v)
     (auto simp: st_validate_mapping_def dest: validate_schema_id split: sum.splits exn.splits)

lemma check_derived_Inr:
  "check_derived d codes e = Inr w \<longleftrightarrow>
     w = JObj d \<and> (\<exists>ev expected reasons ok. map_of d ''evidence'' = Some ev \<and>
       evidence_reasons ev codes = Inr expected \<and> map_of d ''reasons'' = Some reasons \<and>
       py_eq reasons (JList expected) \<and> map_of d ''ok'' = Some ok \<and> py_eq ok (JBool (expected = [])))"
  by (auto simp: check_derived_def res_simps)

text \<open>No reasons means that every listed piece of evidence is present and true.\<close>

lemma evidence_reasons_Nil:
  "evidence_reasons ev codes = Inr [] \<longleftrightarrow>
     (\<forall>(field, c) \<in> set codes. \<exists>v. jitem ev field = Inr v \<and> truthy v)"
  by (induction codes) (auto simp: res_simps split: if_splits)

section \<open>Authorizations are sealed records\<close>

lemma validate_stage_authorization_Inr:
  "validate_stage_authorization h v = Inr w \<longleftrightarrow>
     (\<exists>a sv x. v = JObj a \<and> w = v \<and> validate_schema h v ''stage_authorization.schema.json'' = Inr v \<and>
        map_of a ''schema_version'' = Some sv \<and>
        check_authorization_version a (py_str h sv) = Inr () \<and>
        check_authorization_fields h a (py_str h sv) = Inr () \<and>
        canonical_json_hash h [''authorization_hash''] True v = Inr x \<and>
        map_of a ''authorization_hash'' = Some (JStr x))"
  by (simp add: validate_stage_authorization_def rbind_eq_Inr on_item_eq_Inr st_validate_mapping_Inr
      Let_def if_raise_eq_Inr dget_eq_JStr) blast

lemma validate_stage_authorization_id: "validate_stage_authorization h v = Inr w \<Longrightarrow> w = v"
  by (auto simp: validate_stage_authorization_Inr)

interpretation authorization: sealed_record h "''authorization_hash''" True "validate_stage_authorization h" for h
  by unfold_locales (auto simp: validate_stage_authorization_Inr)

text \<open>What the fields of an accepted authorization are.\<close>

definition authority_ok :: "json \<Rightarrow> bool" where
  "authority_ok v \<longleftrightarrow>
     (\<exists>d i. v = JObj d \<and> same_keys d [''epoch'', ''head_event_hash''] \<and>
        dget d ''epoch'' = JInt i \<and> 0 \<le> i \<and> digest_or_null (dget d ''head_event_hash''))"

definition scope_ok :: "dict \<Rightarrow> bool" where
  "scope_ok a \<longleftrightarrow>
     pos_int (dget a ''chapter_index'') \<and>
     nonblank (dget a ''book_id'') \<and> nonblank (dget a ''session_id'') \<and> nonblank (dget a ''plan_id'') \<and>
     authority_ok (dget a ''authority'') \<and>
     json_sha256 (dget a ''input_digest'') \<and> json_sha256 (dget a ''authorization_hash'') \<and>
     digest_or_null (dget a ''previous_stage_receipt_hash'')"

lemma st_validate_authority_ok: "st_validate_authority v = Inr w \<Longrightarrow> authority_ok v"
  by (auto simp: st_validate_authority_Inr authority_ok_def)

lemma validated_authorization_scope:
  assumes "validate_stage_authorization h (JObj a) = Inr w"
  shows "scope_ok a" and "pos_int (dget a ''max_output_tokens'')"
proof -
  from assms obtain version where c: "check_authorization_fields h a version = Inr ()"
    by (auto simp: validate_stage_authorization_Inr)
  show "scope_ok a"
    using c unfolding scope_ok_def check_authorization_fields_def
    by (simp add: rbind_eq_Inr rcheck_Cons)
       (auto simp: res_simps dget_def authority_ok_def)
  show "pos_int (dget a ''max_output_tokens'')"
    using c unfolding check_authorization_fields_def
    by (simp add: rbind_eq_Inr) (auto simp: res_simps dget_def)
qed

section \<open>Receipts are sealed records and form hash chains\<close>

lemma check_receipt_outcome_id: "check_receipt_outcome r v hs = Inr w \<Longrightarrow> w = JObj r"
  by (auto simp: check_receipt_outcome_def Let_def split: if_splits)

lemma validate_stage_receipt_Inr:
  "validate_stage_receipt h v = Inr w \<longleftrightarrow>
     (\<exists>r sv hashes x. v = JObj r \<and> validate_schema h v ''stage_receipt.schema.json'' = Inr v \<and>
        map_of r ''schema_version'' = Some sv \<and>
        check_receipt_version r (py_str h sv) = Inr () \<and>
        check_receipt_fields h r = Inr () \<and>
        (if py_str h sv = ''1.1'' then check_receipt_evidence h r else Inr []) = Inr hashes \<and>
        canonical_json_hash h [''receipt_hash''] True v = Inr x \<and>
        map_of r ''receipt_hash'' = Some (JStr x) \<and>
        check_receipt_outcome r (py_str h sv) hashes = Inr w)"
  by (simp add: validate_stage_receipt_def rbind_eq_Inr on_item_eq_Inr st_validate_mapping_Inr
      Let_def if_raise_eq_Inr dget_eq_JStr) blast

lemma validate_stage_receipt_id: "validate_stage_receipt h v = Inr w \<Longrightarrow> w = v"
  by (auto simp: validate_stage_receipt_Inr dest: check_receipt_outcome_id)

interpretation receipts: hash_chain h "''receipt_hash''" True "validate_stage_receipt h"
    "''previous_stage_receipt_hash''" for h
  by unfold_locales
     (fact validate_stage_receipt_id,
      auto simp: validate_stage_receipt_Inr dropped_def environment_field_names_def)

lemma validated_receipt_scope:
  assumes "validate_stage_receipt h (JObj r) = Inr w"
  shows "scope_ok r" and "digest_or_null (dget r ''output_digest'')" and "json_sha256 (dget r ''receipt_hash'')"
proof -
  from assms have c: "check_receipt_fields h r = Inr ()"
    by (auto simp: validate_stage_receipt_Inr)
  show "scope_ok r"
    using c unfolding scope_ok_def check_receipt_fields_def
    by (simp add: rbind_eq_Inr rcheck_Cons)
       (auto simp: res_simps dget_def authority_ok_def)
  show "digest_or_null (dget r ''output_digest'')" "json_sha256 (dget r ''receipt_hash'')"
    using c unfolding check_receipt_fields_def
    by (simp_all add: rbind_eq_Inr rcheck_Cons) (auto simp: res_simps dget_def)
qed

section \<open>Issuing and checking authorizations\<close>

definition scope_list :: "host \<Rightarrow> stage_scope \<Rightarrow> json \<Rightarrow> dict" where
  "scope_list h a authority =
     [(''stage'', JStr (py_str h (arg_stage a))), (''book_id'', stripped (arg_book_id a)),
      (''session_id'', stripped (arg_session_id a)), (''plan_id'', stripped (arg_plan_id a)),
      (''chapter_index'', arg_chapter_index a), (''authority'', authority),
      (''input_digest'', arg_input_digest a),
      (''previous_stage_receipt_hash'', arg_previous_stage_receipt_hash a),
      (''provider_profile'', stripped (arg_provider_profile a))]"

definition scope_args_ok :: "host \<Rightarrow> stage_scope \<Rightarrow> bool" where
  "scope_args_ok h a \<longleftrightarrow>
     py_str h (arg_stage a) \<in> set stages \<and> nonblank (arg_book_id a) \<and> nonblank (arg_session_id a) \<and>
     nonblank (arg_plan_id a) \<and> pos_int (arg_chapter_index a) \<and> nonblank (arg_provider_profile a) \<and>
     json_sha256 (arg_input_digest a) \<and> digest_or_null (arg_previous_stage_receipt_hash a)"

lemma scope_fields_Inr:
  "scope_fields h a = Inr sc \<longleftrightarrow> scope_args_ok h a \<and>
     (\<exists>au. st_authority (arg_authority_epoch a) (arg_authority_head_event_hash a) = Inr au \<and>
           sc = scope_list h a au)"
  by (simp add: scope_fields_def rbind_eq_Inr st_stage_Inr st_required_text_Inr st_chapter_Inr
      st_sha256_Inr st_optional_sha256_Inr scope_args_ok_def scope_list_def) blast

lemma scope_list_member: "(k, x) \<in> set (scope_list h a au) \<Longrightarrow> map_of (scope_list h a au) k = Some x"
proof -
  have "distinct (map fst (scope_list h a au))" by (simp add: scope_list_def)
  then show "(k, x) \<in> set (scope_list h a au) \<Longrightarrow> map_of (scope_list h a au) k = Some x"
    by (rule map_of_is_SomeI)
qed

lemma check_expected_fields_Inr:
  "check_expected_fields v fs = Inr u \<longleftrightarrow> (\<forall>(k, x) \<in> set fs. \<exists>y. map_of v k = Some y \<and> py_eq y x)"
  by (induction fs) (auto simp: on_item_eq_Inr)

lemma assert_stage_authorized_Inr:
  "assert_stage_authorized h auth a req ek0 = Inr w \<longleftrightarrow>
     validate_stage_authorization h (JObj auth) = Inr (JObj auth) \<and> w = JObj auth \<and>
     (\<exists>sc ek limit. scope_fields h a = Inr sc \<and> expected_execution_kind h auth ek0 = Inr ek \<and>
        check_expected_fields auth (sc @ ek) = Inr () \<and> pos_int req \<and>
        map_of auth ''max_output_tokens'' = Some limit \<and> num_less limit req = Inr False)"
  by (auto simp: assert_stage_authorized_def rbind_eq_Inr on_item_eq_Inr Let_def st_positive_int_Inr
      dest: validate_stage_authorization_id)

text \<open>The document an issued authorization is, hash apart.\<close>

definition authorization_body :: "dict \<Rightarrow> json \<Rightarrow> json \<Rightarrow> json \<Rightarrow> dict" where
  "authorization_body sc limit ek issued =
     (''schema_version'', JStr ''1.1'') # sc @
     [(''max_output_tokens'', limit), (''execution_kind'', ek), (''issued_at'', issued)]"

lemma build_stage_authorization_Inr:
  assumes "build_stage_authorization h now a limit ek0 issued = Inr (JObj auth)"
  obtains sc x where "scope_fields h a = Inr sc" and "pos_int limit"
    and "py_str h ek0 \<in> {''model'', ''deterministic''}"
    and "auth = authorization_body sc limit (JStr (py_str h ek0)) (py_or issued (JStr now)) @
           [(''authorization_hash'', JStr x)]"
    and "validate_stage_authorization h (JObj auth) = Inr (JObj auth)"
proof -
  from assms obtain sc x where sc: "scope_fields h a = Inr sc" and l: "pos_int limit"
    and k: "py_str h ek0 \<in> {''model'', ''deterministic''}"
    and v: "validate_stage_authorization h (JObj (dset ''authorization_hash'' (JStr x)
       (authorization_body sc limit (JStr (py_str h ek0)) (py_or issued (JStr now))))) = Inr (JObj auth)"
    by (auto simp: build_stage_authorization_def rbind_eq_Inr st_positive_int_Inr st_execution_kind_Inr
        Let_def authorization_body_def)
  from sc have "dset ''authorization_hash'' (JStr x)
       (authorization_body sc limit (JStr (py_str h ek0)) (py_or issued (JStr now))) =
       authorization_body sc limit (JStr (py_str h ek0)) (py_or issued (JStr now)) @
           [(''authorization_hash'', JStr x)]"
    by (auto simp: scope_fields_Inr scope_list_def authorization_body_def dset_def)
  with v validate_stage_authorization_id [OF v] sc l k show ?thesis
    by (intro that [of sc x]) auto
qed

lemma authority_py_eq:
  "st_authority e v = Inr au \<Longrightarrow> py_eq au au"
  by (auto simp: st_authority_Inr authority_json_def digest_or_null_py_eq)

lemma authorized_call_limits:
  assumes "assert_stage_authorized h auth a req ek0 = Inr w"
  shows "w = JObj auth" and "\<exists>r m. req = JInt r \<and> dget auth ''max_output_tokens'' = JInt m \<and> 1 \<le> r \<and> r \<le> m"
proof -
  from assms obtain limit where v: "validate_stage_authorization h (JObj auth) = Inr (JObj auth)"
    and w: "w = JObj auth" and req: "pos_int req"
    and lim: "map_of auth ''max_output_tokens'' = Some limit" "num_less limit req = Inr False"
    by (auto simp: assert_stage_authorized_Inr)
  show "w = JObj auth" by fact
  from validated_authorization_scope [OF v] lim req
  show "\<exists>r m. req = JInt r \<and> dget auth ''max_output_tokens'' = JInt m \<and> 1 \<le> r \<and> r \<le> m"
    by (auto simp: pos_int_def dget_def)
qed

text \<open>The fields an authorized call shares with its authorization.\<close>

definition same_scope :: "host \<Rightarrow> dict \<Rightarrow> stage_scope \<Rightarrow> bool" where
  "same_scope h auth a \<longleftrightarrow>
     dget auth ''stage'' = JStr (py_str h (arg_stage a)) \<and>
     dget auth ''book_id'' = stripped (arg_book_id a) \<and>
     dget auth ''session_id'' = stripped (arg_session_id a) \<and>
     dget auth ''plan_id'' = stripped (arg_plan_id a) \<and>
     dget auth ''provider_profile'' = stripped (arg_provider_profile a) \<and>
     dget auth ''chapter_index'' = arg_chapter_index a \<and>
     dget auth ''input_digest'' = arg_input_digest a \<and>
     dget auth ''previous_stage_receipt_hash'' = arg_previous_stage_receipt_hash a"

lemma check_expected_fields_member:
  "check_expected_fields v fs = Inr u \<Longrightarrow> (k, x) \<in> set fs \<Longrightarrow> py_eq (dget v k) x"
  by (induction fs) (auto simp: on_item_eq_Inr dget_def)

lemma authorized_call_scope:
  assumes "assert_stage_authorized h auth a req ek0 = Inr w"
  shows "same_scope h auth a"
proof -
  from assms obtain au ek where v: "validate_stage_authorization h (JObj auth) = Inr (JObj auth)"
    and ok: "scope_args_ok h a" and ck: "check_expected_fields auth (scope_list h a au @ ek) = Inr ()"
    by (auto simp: assert_stage_authorized_Inr scope_fields_Inr)
  from ck have "\<forall>(k, x) \<in> set (scope_list h a au). py_eq (dget auth k) x"
    by (auto dest: check_expected_fields_member)
  moreover have "pos_int (dget auth ''chapter_index'')"
    using validated_authorization_scope [OF v] by (simp add: scope_ok_def)
  ultimately show ?thesis
    using ok by (simp add: same_scope_def scope_args_ok_def scope_list_def)
qed

lemma scope_fields_match_themselves:
  assumes "scope_fields h a = Inr sc" and sub: "\<And>k x. map_of sc k = Some x \<Longrightarrow> map_of auth k = Some x"
  shows "check_expected_fields auth sc = Inr ()"
proof -
  from assms(1) obtain au where sc: "sc = scope_list h a au" and ok: "scope_args_ok h a"
    and au: "st_authority (arg_authority_epoch a) (arg_authority_head_event_hash a) = Inr au"
    by (auto simp: scope_fields_Inr)
  have "py_eq x x" if "(k, x) \<in> set sc" for k x
    using that ok authority_py_eq [OF au] by (auto simp: sc scope_list_def scope_args_ok_def)
  moreover have "map_of auth k = Some x" if "(k, x) \<in> set sc" for k x
    using that unfolding sc by (intro sub) (simp only: sc scope_list_member)
  ultimately show ?thesis by (fastforce simp: check_expected_fields_Inr)
qed

lemma issued_covers_call:
  assumes "build_stage_authorization h now a (JInt m) ek0 issued = Inr (JObj auth)"
    and "1 \<le> r" and "r \<le> m" and "ek = JNull \<or> ek = ek0"
  shows "assert_stage_authorized h auth a (JInt r) ek = Inr (JObj auth)"
proof -
  from assms(1) obtain sc x where sc: "scope_fields h a = Inr sc" and l: "pos_int (JInt m)"
    and k: "py_str h ek0 \<in> {''model'', ''deterministic''}"
    and auth: "auth = authorization_body sc (JInt m) (JStr (py_str h ek0)) (py_or issued (JStr now)) @
           [(''authorization_hash'', JStr x)]"
    and v: "validate_stage_authorization h (JObj auth) = Inr (JObj auth)"
    by (rule build_stage_authorization_Inr)
  have other: "map_of sc ''schema_version'' = None" "map_of sc ''execution_kind'' = None"
    "map_of sc ''max_output_tokens'' = None" "map_of sc ''issued_at'' = None"
    "map_of sc ''authorization_hash'' = None"
    using sc by (auto simp: scope_fields_Inr scope_list_def)
  then have own: "map_of auth ''schema_version'' = Some (JStr ''1.1'')"
    "map_of auth ''execution_kind'' = Some (JStr (py_str h ek0))"
    "map_of auth ''max_output_tokens'' = Some (JInt m)"
    by (simp_all add: auth authorization_body_def map_add_def)
  have sub: "map_of auth k' = Some y" if "map_of sc k' = Some y" for k' y
  proof -
    have "k' \<noteq> ''schema_version''" "k' \<noteq> ''max_output_tokens''" "k' \<noteq> ''execution_kind''"
      "k' \<noteq> ''issued_at''" "k' \<noteq> ''authorization_hash''"
      using other that by auto
    with that show ?thesis
      by (simp add: auth authorization_body_def map_add_def split: option.splits)
  qed
  have "expected_execution_kind h auth ek = Inr [(''execution_kind'', JStr (py_str h ek0))]"
    using k assms(4) own
    by (auto simp: expected_execution_kind_def on_item_eq_Inr rbind_eq_Inr st_execution_kind_Inr)
  moreover have "check_expected_fields auth (sc @ [(''execution_kind'', JStr (py_str h ek0))]) = Inr ()"
    using scope_fields_match_themselves [OF sc sub] own
    by (simp add: check_expected_fields_Inr ball_Un)
  ultimately show ?thesis
    using v sc assms(2,3) own unfolding assert_stage_authorized_Inr
    by (auto simp: pos_int_def)
qed

section \<open>Building receipts\<close>

lemma stage_value:
  assumes "py_str h v \<in> set stages"
  shows "py_eq v v"
proof (cases v)
  case (JFloat f)
  with assms have "f \<noteq> NaN" by (auto simp: py_str_def repr_float_def stages_def)
  with JFloat show ?thesis by (simp add: py_eq.simps as_float_def float_eq_def)
qed (use assms in \<open>auto simp: py_str_def stages_def\<close>)

lemma authority_value:
  assumes "authority_ok v" and "wf_json v"
  shows "py_eq v v"
proof -
  from assms(1) obtain d i where v: "v = JObj d" and k: "same_keys d [''epoch'', ''head_event_hash'']"
    and e: "dget d ''epoch'' = JInt i" "digest_or_null (dget d ''head_event_hash'')"
    by (auto simp: authority_ok_def)
  from assms(2) v have dist: "distinct (map fst d)" by simp
  have "map_of d j = Some w \<and> py_eq w w" if "(j, w) \<in> set d" for j w
  proof -
    from dist that have m: "map_of d j = Some w" by (rule map_of_is_SomeI)
    from k that have "j = ''epoch'' \<or> j = ''head_event_hash''"
      by (force simp: same_keys_set dkeys_def)
    with m e have "py_eq w w" by (auto simp: dget_def)
    with m show ?thesis by simp
  qed
  then show ?thesis by (auto simp: v intro: py_eq_items_sub)
qed

lemma build_stage_receipt_Inr:
  assumes "build_stage_receipt h now a b = Inr (JObj r)"
  obtains status outp ek evidence primary hashes created x
  where "validate_stage_authorization h (JObj a) = Inr (JObj a)"
    and "dget a ''schema_version'' = JStr ''1.1''"
    and "ek = JStr (py_str h (dget a ''execution_kind''))"
    and "py_str h (dget a ''execution_kind'') \<in> {''model'', ''deterministic''}"
    and "r = new_receipt a status outp ek evidence primary hashes created @ [(''receipt_hash'', JStr x)]"
    and "validate_stage_receipt h (JObj r) = Inr (JObj r)"
proof -
  have app: "dset ''receipt_hash'' (JStr x) (new_receipt a s out ek ev p hs c) =
      new_receipt a s out ek ev p hs c @ [(''receipt_hash'', JStr x)]" for s out ek ev p hs c x
    by (simp add: new_receipt_def dset_def)
  from assms obtain u status outp ek evidence primary hashes x
    where v: "validate_stage_authorization h (JObj a) = Inr u"
      and sv: "dget a ''schema_version'' = JStr ''1.1''"
      and ek: "st_execution_kind h (dget a ''execution_kind'') = Inr ek"
      and r: "validate_stage_receipt h (JObj (dset ''receipt_hash'' (JStr x)
        (new_receipt a status outp ek evidence primary hashes (py_or (arg_created_at b) (JStr now))))) = Inr (JObj r)"
    by (auto simp: build_stage_receipt_def rbind_eq_Inr Let_def if_raise_eq_Inr split: prod.splits)
  from validate_stage_receipt_id [OF r] have "r = dset ''receipt_hash'' (JStr x)
      (new_receipt a status outp ek evidence primary hashes (py_or (arg_created_at b) (JStr now)))"
    by simp
  moreover with r have "validate_stage_receipt h (JObj r) = Inr (JObj r)" by simp
  moreover from v have "validate_stage_authorization h (JObj a) = Inr (JObj a)"
    using validate_stage_authorization_id [OF v] by simp
  ultimately show ?thesis
    using sv ek by (intro that) (auto simp: app st_execution_kind_Inr)
qed

lemma validated_authorization_stage:
  assumes "validate_stage_authorization h (JObj a) = Inr w"
  shows "py_str h (dget a ''stage'') \<in> set stages" and "\<And>k. k \<in> set bound_fields \<Longrightarrow> dhas a k"
proof -
  from assms obtain version where c: "check_authorization_fields h a version = Inr ()"
    by (auto simp: validate_stage_authorization_Inr)
  then show "py_str h (dget a ''stage'') \<in> set stages"
    unfolding check_authorization_fields_def by (simp add: rbind_eq_Inr) (auto simp: res_simps dget_def)
  have "list_all (dhas a) bound_fields"
    using c unfolding check_authorization_fields_def bound_fields_def
    by (simp add: rbind_eq_Inr on_item_eq_Inr dhas_def) blast
  then show "\<And>k. k \<in> set bound_fields \<Longrightarrow> dhas a k" by (simp add: list_all_iff)
qed

lemma bound_field_self:
  assumes "validate_stage_authorization h (JObj a) = Inr w" and "wf_json (JObj a)" and "k \<in> set bound_fields"
  shows "py_eq (dget a k) (dget a k)"
proof -
  from assms(2) have "wf_json (dget a k)" for k
    by (auto simp: dget_def wf_items_map_of split: option.splits)
  with validated_authorization_scope(1) [OF assms(1)]
  have "authority_ok (dget a ''authority'')" "wf_json (dget a ''authority'')"
    by (auto simp: scope_ok_def)
  then have "py_eq (dget a ''authority'') (dget a ''authority'')" by (rule authority_value)
  moreover note stage_value [OF validated_authorization_stage(1) [OF assms(1)]]
  moreover have "nonblank v \<Longrightarrow> py_eq v v" for v by (auto simp: nonblank_def split: json.splits)
  ultimately show ?thesis
    using assms(3) validated_authorization_scope(1) [OF assms(1)]
    by (auto simp: bound_fields_def scope_ok_def)
qed

lemma new_receipt_bound:
  assumes "k \<in> set bound_fields"
  shows "map_of (new_receipt a s out0 ek ev p hs c @ t) k = Some (dget a k)"
proof -
  have "list_all (\<lambda>k. map_of (new_receipt a s out0 ek ev p hs c) k = Some (dget a k)) bound_fields"
    by (simp add: new_receipt_def bound_fields_def)
  with assms show ?thesis by (simp add: list_all_iff map_add_def split: option.splits)
qed

lemma new_receipt_own:
  "map_of (new_receipt a s out0 ek ev p hs c @ t) ''schema_version'' = Some (JStr ''1.1'')"
  "map_of (new_receipt a s out0 ek ev p hs c @ t) ''authorization_hash'' = Some (dget a ''authorization_hash'')"
  "map_of (new_receipt a s out0 ek ev p hs c @ t) ''execution_kind'' = Some ek"
  by (simp_all add: new_receipt_def)

lemma validated_authorization_kind:
  assumes "validate_stage_authorization h (JObj a) = Inr w" and "dget a ''schema_version'' = JStr ''1.1''"
  shows "dhas a ''execution_kind''"
  using assms
  by (auto simp: validate_stage_authorization_Inr check_authorization_version_def dget_def split: if_splits)

lemma kind_value:
  assumes "py_str h v \<in> {''model'', ''deterministic''}"
  shows "py_eq (JStr (py_str h v)) v \<longleftrightarrow> is_str v"
  using assms by (cases v) (auto simp: is_str_def)

lemma built_receipt_matches:
  assumes b: "build_stage_receipt h now a b = Inr (JObj r)" and wf: "wf_json (JObj a)"
    and kind: "is_str (dget a ''execution_kind'')"
  shows "assert_receipt_matches_authorization h r a = Inr ()"
proof -
  from b obtain status out0 ek evidence primary hashes created x
    where va: "validate_stage_authorization h (JObj a) = Inr (JObj a)"
      and sv: "dget a ''schema_version'' = JStr ''1.1''"
      and ek: "ek = JStr (py_str h (dget a ''execution_kind''))"
        "py_str h (dget a ''execution_kind'') \<in> {''model'', ''deterministic''}"
      and r: "r = new_receipt a status out0 ek evidence primary hashes created @ [(''receipt_hash'', JStr x)]"
      and vr: "validate_stage_receipt h (JObj r) = Inr (JObj r)"
    by (rule build_stage_receipt_Inr)
  have bound: "same_bound_field r a k = Inr ()" if "k \<in> set bound_fields" for k
    using bound_field_self [OF va wf that] validated_authorization_stage(2) [OF va that]
    by (auto simp: same_bound_field_def on_item_eq_Inr r new_receipt_bound [OF that] dget_def dhas_def
        simp del: map_of_append split: option.splits)
  have "map_of a ''schema_version'' = Some (JStr ''1.1'')" using sv by (simp add: dget_eq_JStr)
  moreover obtain s where "map_of a ''authorization_hash'' = Some (JStr s)"
    using authorization.sealE [OF va] by blast
  moreover obtain ak where "map_of a ''execution_kind'' = Some ak" and "py_eq ek ak"
    using validated_authorization_kind [OF va sv] kind_value [OF ek(2)] kind
    by (auto simp: dhas_def dget_def ek(1))
  moreover have "rcheck (same_bound_field r a) bound_fields = Inr ()"
    using bound by (simp add: rcheck_Inr_iff)
  ultimately show ?thesis
    using va vr by (simp add: assert_receipt_matches_authorization_def on_item_def ditem_def r new_receipt_own dget_def
        del: map_of_append)
qed

section \<open>What an accepted receipt says\<close>

definition receipt_outcome_ok :: "dict \<Rightarrow> bool" where
  "receipt_outcome_ok r \<longleftrightarrow>
     (let succeeded = (dget r ''status'' = JStr ''succeeded'') in
      \<exists>hashes. dget r ''model_call_receipt_hashes'' = JList hashes \<and> list_all json_sha256 hashes \<and> distinct hashes \<and>
        (dget r ''output_digest'' \<noteq> JNull \<longleftrightarrow> succeeded) \<and>
        (dget r ''execution_evidence_hash'' \<noteq> JNull \<longleftrightarrow> succeeded) \<and>
        (if dget r ''execution_kind'' = JStr ''model''
         then (succeeded \<longrightarrow> hashes \<noteq> []) \<and>
              (dget r ''model_call_receipt_hash'' \<noteq> JNull \<longrightarrow> dget r ''model_call_receipt_hash'' \<in> set hashes)
         else hashes = [] \<and> dget r ''model_call_receipt_hash'' = JNull))"

lemma rmap_sha256: "rmap (st_sha256 l) hs = Inr ys \<longleftrightarrow> list_all json_sha256 hs \<and> ys = hs"
  by (induction hs arbitrary: ys) (auto simp: rbind_eq_Inr st_sha256_Inr)

lemma check_receipt_evidence_Inr:
  assumes "check_receipt_evidence h r = Inr hashes"
  shows "dget r ''model_call_receipt_hashes'' = JList hashes" and "list_all json_sha256 hashes" and "distinct hashes"
proof -
  from assms obtain v where m: "map_of r ''model_call_receipt_hashes'' = Some v"
    and c: "(case v of
         JList hashes \<Rightarrow>
           rbind (py_set_size hashes) (\<lambda>n.
           if length hashes \<noteq> n
           then Inl (StageControlError ''stage_receipt_model_evidence_invalid''
                  ''model_call_receipt_hashes must be a unique list'')
           else rbind (rmap (st_sha256 ''model_call_receipt_hashes'') hashes) (\<lambda>_. Inr hashes))
       | _ \<Rightarrow> Inl (StageControlError ''stage_receipt_model_evidence_invalid''
                  ''model_call_receipt_hashes must be a unique list'')) = Inr hashes"
    unfolding check_receipt_evidence_def rbind_eq_Inr on_item_eq_Inr by blast
  from c m have *: "map_of r ''model_call_receipt_hashes'' = Some (JList hashes) \<and>
      py_set_size hashes = Inr (length hashes) \<and> list_all json_sha256 hashes"
    by (cases v) (auto simp: rbind_eq_Inr rmap_sha256)
  then show "dget r ''model_call_receipt_hashes'' = JList hashes" and "list_all json_sha256 hashes"
    by (auto simp: dget_def)
  from * show "distinct hashes" by (simp add: py_set_size_distinct)
qed

lemma accepted_receipt_outcome:
  assumes "validate_stage_receipt h (JObj r) = Inr w" and "dget r ''schema_version'' = JStr ''1.1''"
  shows "receipt_outcome_ok r"
proof -
  from assms obtain hashes where e: "check_receipt_evidence h r = Inr hashes"
    and o: "check_receipt_outcome r ''1.1'' hashes = Inr w"
    by (auto simp: validate_stage_receipt_Inr dget_def)
  from validated_receipt_scope(2) [OF assms(1)]
  have "list_ex (py_eq (dget r ''model_call_receipt_hash'')) hashes \<longleftrightarrow>
        dget r ''model_call_receipt_hash'' \<in> set hashes"
    using check_receipt_evidence_Inr(2) [OF e] by (auto simp: list_ex_iff list_all_iff)
  with o check_receipt_evidence_Inr [OF e] show ?thesis
    by (auto simp: check_receipt_outcome_def receipt_outcome_ok_def Let_def split: if_splits)
qed

text \<open>A receipt that matches two authorizations shows that they are one, or a collision.\<close>

lemma matched_receipt:
  assumes "assert_receipt_matches_authorization h r a = Inr ()"
  shows "validate_stage_receipt h (JObj r) = Inr (JObj r)"
    and "validate_stage_authorization h (JObj a) = Inr (JObj a)"
    and "dget r ''authorization_hash'' = dget a ''authorization_hash''"
proof -
  from assms obtain u w rh ah where v: "validate_stage_receipt h (JObj r) = Inr u"
    "validate_stage_authorization h (JObj a) = Inr w"
    and hs: "map_of r ''authorization_hash'' = Some rh" "map_of a ''authorization_hash'' = Some ah" "py_eq rh ah"
    by (auto simp: assert_receipt_matches_authorization_def rbind_eq_Inr on_item_eq_Inr)
  from v show "validate_stage_receipt h (JObj r) = Inr (JObj r)"
    "validate_stage_authorization h (JObj a) = Inr (JObj a)"
    using validate_stage_receipt_id validate_stage_authorization_id by auto
  from v(2) obtain x where "map_of a ''authorization_hash'' = Some (JStr x)"
    by (elim authorization.sealE)
  with hs have "rh = ah" by (metis option.inject py_eq_JStr)
  with hs show "dget r ''authorization_hash'' = dget a ''authorization_hash''"
    by (simp add: dget_def)
qed

section \<open>Receipt chains\<close>

definition receipt_scope :: "dict \<Rightarrow> json \<times> json \<times> json" where
  "receipt_scope r = (dget r ''book_id'', dget r ''session_id'', dget r ''plan_id'')"

definition advance_chain :: "dict \<Rightarrow> int \<Rightarrow> chain_state \<Rightarrow> chain_state" where
  "advance_chain r c s =
     \<lparr>previous_hash = dget r ''receipt_hash'', chain_scope = Some (receipt_scope r),
      previous_chapter = Some c, validated = validated s @ [JObj r]\<rparr>"

lemma validated_receipt_keys:
  assumes "validate_stage_receipt h (JObj r) = Inr w"
    and "k \<in> {''previous_stage_receipt_hash'', ''book_id'', ''session_id'', ''plan_id'', ''chapter_index'', ''receipt_hash''}"
  shows "map_of r k = Some (dget r k)"
proof -
  from assms(1) have c: "check_receipt_fields h r = Inr ()"
    by (auto simp: validate_stage_receipt_Inr)
  have "list_all (\<lambda>k. map_of r k = Some (dget r k))
     [''previous_stage_receipt_hash'', ''book_id'', ''session_id'', ''plan_id'', ''chapter_index'', ''receipt_hash'']"
    using c unfolding check_receipt_fields_def
    by (simp add: rbind_eq_Inr on_item_eq_Inr dget_def) (elim exE conjE, simp)
  with assms(2) show ?thesis by (auto simp: list_all_iff)
qed

lemma chain_step_Inr:
  "chain_step h i r s = Inr t \<longleftrightarrow>
     (\<exists>c. validate_stage_receipt h (JObj r) = Inr (JObj r) \<and>
        dget r ''previous_stage_receipt_hash'' = previous_hash s \<and>
        (chain_scope s = None \<or> chain_scope s = Some (receipt_scope r)) \<and>
        dget r ''chapter_index'' = JInt c \<and> (previous_chapter s = None \<or> previous_chapter s = Some c) \<and>
        t = advance_chain r c s)"
proof (cases "validate_stage_receipt h (JObj r)")
  case (Inr w)
  note v = Inr
  from validate_stage_receipt_id [OF v] v have v': "validate_stage_receipt h (JObj r) = Inr (JObj r)" by simp
  note keys = validated_receipt_keys [OF v]
  from validated_receipt_scope(1) [OF v]
  have ok: "digest_or_null (dget r ''previous_stage_receipt_hash'')" "nonblank (dget r ''book_id'')"
      "nonblank (dget r ''session_id'')" "nonblank (dget r ''plan_id'')"
    and "pos_int (dget r ''chapter_index'')"
    by (simp_all add: scope_ok_def)
  then obtain c where c: "dget r ''chapter_index'' = JInt c" by (auto simp: pos_int_def)
  show ?thesis
    using keys [of "''previous_stage_receipt_hash''"] keys [of "''book_id''"] keys [of "''session_id''"]
      keys [of "''plan_id''"] keys [of "''chapter_index''"] keys [of "''receipt_hash''"]
    by (cases "chain_scope s"; cases "previous_chapter s")
       (auto simp: chain_step_def v' on_item_def ditem_def ok c digest_or_null_py_eq nonblank_py_eq
         advance_chain_def receipt_scope_def)
qed (simp add: chain_step_def)

definition one_chapter :: "dict list \<Rightarrow> bool" where
  "one_chapter rs \<longleftrightarrow>
     (\<forall>r \<in> set rs. \<forall>q \<in> set rs. receipt_scope r = receipt_scope q \<and>
        dget r ''chapter_index'' = dget q ''chapter_index'')"

definition continues :: "chain_state \<Rightarrow> dict list \<Rightarrow> bool" where
  "continues s rs \<longleftrightarrow>
     (\<forall>r \<in> set rs. (chain_scope s = None \<or> chain_scope s = Some (receipt_scope r)) \<and>
        (\<forall>c. previous_chapter s = Some c \<longrightarrow> dget r ''chapter_index'' = JInt c))"

lemma one_chapter_Cons:
  "one_chapter (r # rs) \<longleftrightarrow>
     (\<forall>q \<in> set rs. receipt_scope r = receipt_scope q \<and> dget q ''chapter_index'' = dget r ''chapter_index'')"
  unfolding one_chapter_def by (metis list.set_intros set_ConsD)

lemma continues_advance:
  assumes c: "dget r ''chapter_index'' = JInt c"
    and sc: "chain_scope s = None \<or> chain_scope s = Some (receipt_scope r)"
    and pc: "previous_chapter s = None \<or> previous_chapter s = Some c"
  shows "continues (advance_chain r c s) rs \<and> one_chapter rs \<longleftrightarrow> continues s (r # rs) \<and> one_chapter (r # rs)"
proof -
  have "continues (advance_chain r c s) rs \<longleftrightarrow> one_chapter (r # rs)"
    by (simp add: continues_def advance_chain_def one_chapter_Cons c)
  moreover have "one_chapter (r # rs) \<Longrightarrow> one_chapter rs"
    unfolding one_chapter_def by (meson list.set_intros(2))
  moreover have "one_chapter (r # rs) \<Longrightarrow> continues s (r # rs)"
    using c sc pc unfolding continues_def one_chapter_Cons by (metis option.inject set_ConsD option.distinct(1))
  ultimately show ?thesis by blast
qed

lemma chain_loop_Inr:
  "(\<exists>t. chain_loop h i rs s = Inr t) \<longleftrightarrow>
     linked (validate_stage_receipt h) ''receipt_hash'' ''previous_stage_receipt_hash'' (previous_hash s) (map JObj rs) \<and>
     continues s rs \<and> one_chapter rs"
proof (induction rs arbitrary: i s)
  case Nil
  then show ?case by (simp add: continues_def one_chapter_def)
next
  case (Cons r rs)
  show ?case
  proof (cases "validate_stage_receipt h (JObj r) = Inr (JObj r)")
    case True
    then obtain c where c: "dget r ''chapter_index'' = JInt c"
      using validated_receipt_scope(1) [OF True] by (auto simp: scope_ok_def pos_int_def)
    have first: "continues s (r # rs) \<Longrightarrow> (chain_scope s = None \<or> chain_scope s = Some (receipt_scope r)) \<and>
        (previous_chapter s = None \<or> previous_chapter s = Some c)"
      using c by (cases "previous_chapter s") (auto simp: continues_def)
    have "(\<exists>t. chain_loop h i (r # rs) s = Inr t) \<longleftrightarrow>
        dget r ''previous_stage_receipt_hash'' = previous_hash s \<and>
        (chain_scope s = None \<or> chain_scope s = Some (receipt_scope r)) \<and>
        (previous_chapter s = None \<or> previous_chapter s = Some c) \<and>
        (\<exists>t. chain_loop h (Suc i) rs (advance_chain r c s) = Inr t)"
      using True c by (auto simp: rbind_eq_Inr chain_step_Inr)
    also have "\<dots> \<longleftrightarrow> linked (validate_stage_receipt h) ''receipt_hash'' ''previous_stage_receipt_hash''
        (previous_hash s) (map JObj (r # rs)) \<and> continues s (r # rs) \<and> one_chapter (r # rs)"
      using True first continues_advance [OF c, of s rs]
      by (auto simp: Cons.IH advance_chain_def)
    finally show ?thesis .
  next
    case False
    then show ?thesis by (auto simp: rbind_eq_Inr chain_step_Inr)
  qed
qed

lemma chain_loop_validated: "chain_loop h i rs s = Inr t \<Longrightarrow> validated t = validated s @ map JObj rs"
  by (induction rs arbitrary: i s) (auto simp: rbind_eq_Inr chain_step_Inr advance_chain_def)

lemma receipt_chain_Inr:
  "validate_stage_receipt_chain h rs = Inr vs \<longleftrightarrow>
     vs = map JObj rs \<and> one_chapter rs \<and>
     linked (validate_stage_receipt h) ''receipt_hash'' ''previous_stage_receipt_hash'' JNull (map JObj rs)"
  using chain_loop_Inr [of h 0 rs initial_chain] chain_loop_validated [of h 0 rs initial_chain]
  by (auto simp: validate_stage_receipt_chain_def rbind_eq_Inr initial_chain_def continues_def)

section \<open>Derived readiness\<close>

lemma evidence_reasons_codes:
  "evidence_reasons ev codes = Inr rs \<Longrightarrow> \<exists>cs. rs = map JStr cs"
proof (induction codes arbitrary: rs)
  case (Cons p codes)
  obtain f c where p: "p = (f, c)" by (cases p)
  from Cons.prems obtain v qs where q: "evidence_reasons ev codes = Inr qs"
    and rs: "rs = (if truthy v then qs else JStr c # qs)"
    by (auto simp: p rbind_eq_Inr)
  from Cons.IH [OF q] obtain cs where "qs = map JStr cs" ..
  with rs have "rs = map JStr (if truthy v then cs else c # cs)" by simp
  then show ?case ..
qed simp

lemma check_derived_accepts:
  assumes "evidence_reasons ev codes = Inr reasons" and "map_of d ''evidence'' = Some ev"
    and "map_of d ''reasons'' = Some (JList reasons)" and "map_of d ''ok'' = Some (JBool (reasons = []))"
  shows "check_derived d codes e = Inr (JObj d)"
proof -
  from evidence_reasons_codes [OF assms(1)] have "py_eq (JList reasons) (JList reasons)"
    by (auto simp: py_eq_strings)
  with assms show ?thesis by (auto simp: check_derived_Inr)
qed

lemma check_derived_verdict:
  assumes "check_derived d codes e = Inr w" and "dget d ''ok'' = JBool b"
  shows "b \<longleftrightarrow> (\<forall>(field, c) \<in> set codes. \<exists>v. jitem (dget d ''evidence'') field = Inr v \<and> truthy v)"
  using assms by (auto simp: check_derived_Inr dget_def simp flip: evidence_reasons_Nil)

lemma reasons_verdict:
  assumes "evidence_reasons (JObj ev) codes = Inr reasons"
  shows "reasons = [] \<longleftrightarrow> (\<forall>(field, c) \<in> set codes. \<exists>v. map_of ev field = Some v \<and> truthy v)"
  using assms evidence_reasons_Nil [of "JObj ev" codes] by (simp add: jitem_def ditem_Inr)

lemma validate_outline_readiness_id: "validate_outline_readiness h v = Inr w \<Longrightarrow> w = v"
  by (auto simp: validate_outline_readiness_def rbind_eq_Inr check_derived_Inr st_validate_mapping_Inr)

lemma validate_draft_readiness_id: "validate_draft_readiness h v = Inr w \<Longrightarrow> w = v"
  by (auto simp: validate_draft_readiness_def rbind_eq_Inr check_derived_Inr st_validate_mapping_Inr)

section \<open>Properties of the stage contracts\<close>


definition example_scope :: stage_scope where
  "example_scope =
     \<lparr>arg_stage = JStr ''outline'', arg_book_id = JStr '' b '', arg_session_id = JStr ''s'', arg_plan_id = JStr ''p'',
      arg_chapter_index = JInt 3, arg_authority_epoch = JInt 0, arg_authority_head_event_hash = JNull,
      arg_input_digest = JStr zero_digest, arg_previous_stage_receipt_hash = JNull,
      arg_provider_profile = JStr ''x''\<rparr>"

definition example_authorization :: dict where
  "example_authorization =
     [(''schema_version'', JStr ''1.1''), (''stage'', JStr ''outline''), (''book_id'', JStr ''b''),
      (''session_id'', JStr ''s''), (''plan_id'', JStr ''p''), (''chapter_index'', JInt 3),
      (''authority'', JObj [(''epoch'', JInt 0), (''head_event_hash'', JNull)]),
      (''input_digest'', JStr zero_digest), (''previous_stage_receipt_hash'', JNull),
      (''provider_profile'', JStr ''x''), (''max_output_tokens'', JInt 100),
      (''execution_kind'', JStr ''model''), (''issued_at'', JStr ''now''),
      (''authorization_hash'', JStr zero_digest)]"

lemma example_built:
  "build_stage_authorization example_host ''now'' example_scope (JInt 100) (JStr ''model'') JNull =
     Inr (JObj example_authorization)"
  by code_simp


text \<open>
  An authorization the builder returns authorizes the call it was issued for, at every output
  budget up to the authorized one, and so the check never refuses a call that did not drift.
\<close>

lemma issued_authorization_covers_its_call:
  assumes "build_stage_authorization h now a (JInt m) ek0 issued = Inr (JObj auth)"
    and "1 \<le> r" and "r \<le> m" and "ek = JNull \<or> ek = ek0"
  shows "assert_stage_authorized h auth a (JInt r) ek = Inr (JObj auth)"
  using assms by (rule issued_covers_call)

theorem issued_authorization_covers_its_call_witness:
  "assert_stage_authorized example_host example_authorization example_scope (JInt 40) JNull =
     Inr (JObj example_authorization)"
  by (rule issued_authorization_covers_its_call [OF example_built]) simp_all

definition example_receipt_args :: receipt_args where
  "example_receipt_args =
     \<lparr>arg_status = JStr ''succeeded'', arg_output_digest = JStr zero_digest,
      arg_model_call_receipt_hash = JStr zero_digest, arg_model_call_receipt_hashes = JNull,
      arg_execution_evidence_hash = JNull, arg_created_at = JNull\<rparr>"

definition example_receipt :: dict where
  "example_receipt =
     new_receipt example_authorization ''succeeded'' (JStr zero_digest) (JStr ''model'') (JStr zero_digest)
       (JStr zero_digest) [JStr zero_digest] (JStr ''now'') @ [(''receipt_hash'', JStr zero_digest)]"

lemma example_receipt_built:
  "build_stage_receipt example_host ''now'' example_authorization example_receipt_args = Inr (JObj example_receipt)"
  by code_simp

lemma example_receipt_valid:
  "validate_stage_receipt example_host (JObj example_receipt) = Inr (JObj example_receipt)"
  using example_receipt_built by (auto elim: build_stage_receipt_Inr)

text \<open>
  A receipt that the builder returns for an authorization passes the check that it belongs to
  that authorization: it repeats its hash and every field of its scope.
\<close>

lemma built_receipt_belongs_to_its_authorization:
  assumes "build_stage_receipt h now a b = Inr (JObj r)" and "wf_json (JObj a)"
    and "is_str (dget a ''execution_kind'')"
  shows "assert_receipt_matches_authorization h r a = Inr ()"
  using assms by (rule built_receipt_matches)

theorem built_receipt_belongs_to_its_authorization_witness:
  "assert_receipt_matches_authorization example_host example_receipt example_authorization = Inr ()"
  by (rule built_receipt_belongs_to_its_authorization [OF example_receipt_built])
     (simp_all add: example_authorization_def is_str_def dget_def)

text \<open>
  A receipt belongs to one authorization. Two authorizations that it matches cover the same
  content in every field, or SHA-256 has a collision.
\<close>

lemma receipt_binds_one_authorization:
  assumes "assert_receipt_matches_authorization h r a = Inr ()"
    and "assert_receipt_matches_authorization h r b = Inr ()"
    and "float_free (JObj a)" and "float_free (JObj b)"
  shows "covered ''authorization_hash'' True (JObj a) = covered ''authorization_hash'' True (JObj b) \<or>
         sha_collision h"
  using authorization.same_hash_same_content
    [OF matched_receipt(2) [OF assms(1)] matched_receipt(2) [OF assms(2)] _ assms(3,4)]
    matched_receipt(3) [OF assms(1)] matched_receipt(3) [OF assms(2)] by simp

theorem receipt_binds_one_authorization_witness:
  "covered ''authorization_hash'' True (JObj example_authorization) =
     covered ''authorization_hash'' True (JObj example_authorization) \<or> sha_collision example_host"
proof -
  have m: "assert_receipt_matches_authorization example_host example_receipt example_authorization = Inr ()"
    by (rule built_receipt_matches [OF example_receipt_built])
       (simp_all add: example_authorization_def is_str_def dget_def)
  show ?thesis
    by (rule receipt_binds_one_authorization [OF m m]) (simp_all add: example_authorization_def)
qed

text \<open>
  An accepted 1.1 receipt carries an output digest and execution evidence exactly when the
  stage succeeded; its model receipts are distinct digests, a succeeded model stage has at least
  one and the primary one is listed, a deterministic stage has none.
\<close>

lemma accepted_receipt_is_evidenced:
  assumes "validate_stage_receipt h (JObj r) = Inr w" and "dget r ''schema_version'' = JStr ''1.1''"
  shows "receipt_outcome_ok r"
  using assms by (rule accepted_receipt_outcome)

theorem accepted_receipt_is_evidenced_witness: "receipt_outcome_ok example_receipt"
  by (rule accepted_receipt_is_evidenced [OF example_receipt_valid])
     (simp add: example_receipt_def new_receipt_def dget_def)

text \<open>
  C37: the chain validator accepts a list of receipts exactly when every receipt is valid, the
  first has no predecessor, every other one names the hash of the one before, and all belong to
  one book, session, plan and chapter. It returns them unchanged.
\<close>

theorem receipt_chain_accepted_iff:
  "validate_stage_receipt_chain h rs = Inr vs \<longleftrightarrow>
     vs = map JObj rs \<and> one_chapter rs \<and>
     linked (validate_stage_receipt h) ''receipt_hash'' ''previous_stage_receipt_hash'' JNull (map JObj rs)"
  by (rule receipt_chain_Inr)



text \<open>
  The outline readiness the code derives says \<open>ok\<close> exactly when the book is the expected one,
  the requested chapter is the next canonical one, the book lease is held, the required delivery
  allows progress and the sources are current. Whether an outline exists already plays no part.
\<close>

lemma outline_readiness_verdict:
  assumes "derive_outline_readiness h now book expected requested canonical epoch head digest
      (JBool lease) (JBool delivery) (JBool current) exists checked = Inr (JObj d)"
  shows "dget d ''ok'' = JBool (stripped book = stripped expected \<and> requested = canonical \<and>
      lease \<and> delivery \<and> current)"
proof -
  from assms obtain reasons ev where
    ev: "ev = [(''project_identity_matches'', JBool (py_eq (stripped book) (stripped expected))),
           (''canonical_next_chapter_matches'', JBool (py_eq requested canonical)),
           (''book_lease_held'', JBool lease), (''required_delivery_allows_progress'', JBool delivery),
           (''sources_current'', JBool current), (''outline_exists'', exists)]"
    and reasons: "evidence_reasons (JObj ev) outline_reason_codes = Inr reasons"
    and ok: "dget d ''ok'' = JBool (reasons = [])"
    and args: "nonblank expected" "pos_int requested" "pos_int canonical"
    by (auto simp: derive_outline_readiness_def rbind_eq_Inr Let_def st_required_text_Inr st_chapter_Inr
        st_boolean_Inr st_sha256_Inr dget_def dest!: validate_outline_readiness_id)
  show ?thesis
    using args by (simp add: ok reasons_verdict [OF reasons] ev outline_reason_codes_def)
qed

theorem outline_readiness_verdict_witness:
  "\<exists>d. derive_outline_readiness example_host ''now'' (JStr ''b'') (JStr ''b'') (JInt 2) (JInt 2) (JInt 0) JNull
       (JStr zero_digest) (JBool True) (JBool True) (JBool False) (JBool True) JNull = Inr (JObj d) \<and>
     dget d ''ok'' = JBool False"
proof -
  have "\<exists>d. derive_outline_readiness example_host ''now'' (JStr ''b'') (JStr ''b'') (JInt 2) (JInt 2) (JInt 0) JNull
       (JStr zero_digest) (JBool True) (JBool True) (JBool False) (JBool True) JNull = Inr (JObj d)"
  proof (intro exI)
    show "derive_outline_readiness example_host ''now'' (JStr ''b'') (JStr ''b'') (JInt 2) (JInt 2) (JInt 0) JNull
       (JStr zero_digest) (JBool True) (JBool True) (JBool False) (JBool True) JNull =
      Inr (JObj [(''schema_version'', JStr ''1.0''), (''kind'', JStr ''outline''), (''ok'', JBool False),
        (''reasons'', JList [JStr ''outline_source_drift'']), (''book_id'', JStr ''b''),
        (''chapter_index'', JInt 2), (''authority'', JObj [(''epoch'', JInt 0), (''head_event_hash'', JNull)]),
        (''context_digest'', JStr zero_digest), (''checked_at'', JStr ''now''),
        (''evidence'', JObj [(''project_identity_matches'', JBool True),
           (''canonical_next_chapter_matches'', JBool True), (''book_lease_held'', JBool True),
           (''required_delivery_allows_progress'', JBool True), (''sources_current'', JBool False),
           (''outline_exists'', JBool True)])])"
      by code_simp
  qed
  then show ?thesis using outline_readiness_verdict by fastforce
qed

text \<open>
  The draft readiness the code derives says \<open>ok\<close> exactly when the receipt it is given is the
  succeeded outline receipt of the same book, session, plan and chapter, for the current outline
  hash, the current outline input and the current authority.
\<close>

lemma draft_readiness_verdict:
  assumes "derive_draft_readiness h now r c = Inr (JObj d)"
  shows "\<exists>au. st_authority (d_authority_epoch c) (d_authority_head_event_hash c) = Inr au \<and>
    dget d ''ok'' = JBool (dget r ''stage'' = JStr ''outline'' \<and> dget r ''status'' = JStr ''succeeded'' \<and>
      dget r ''book_id'' = stripped (d_book_id c) \<and> dget r ''output_digest'' = d_current_outline_hash c \<and>
      py_eq (dget r ''authority'') au \<and> dget r ''input_digest'' = d_current_outline_input_digest c \<and>
      dget r ''session_id'' = stripped (d_session_id c) \<and> dget r ''plan_id'' = stripped (d_plan_id c) \<and>
      dget r ''chapter_index'' = d_chapter_index c)"
proof -
  from assms obtain w au ev reasons where v: "validate_stage_receipt h (JObj r) = Inr w"
    and au: "st_authority (d_authority_epoch c) (d_authority_head_event_hash c) = Inr au"
    and ev: "draft_evidence r c au = Inr ev"
    and reasons: "evidence_reasons ev draft_reason_codes = Inr reasons"
    and ok: "dget d ''ok'' = JBool (reasons = [])"
    and args: "nonblank (d_book_id c)" "nonblank (d_session_id c)" "nonblank (d_plan_id c)"
      "pos_int (d_chapter_index c)" "json_sha256 (d_current_outline_input_digest c)"
      "json_sha256 (d_current_outline_hash c)"
    by (auto simp: derive_draft_readiness_def rbind_eq_Inr on_item_eq_Inr Let_def st_required_text_Inr st_chapter_Inr
        st_sha256_Inr dget_def dest!: validate_draft_readiness_id)
  have "pos_int (dget r ''chapter_index'')"
    using validated_receipt_scope(1) [OF v] by (simp add: scope_ok_def)
  with args have num: "py_eq (dget r ''chapter_index'') (d_chapter_index c) \<longleftrightarrow>
      dget r ''chapter_index'' = d_chapter_index c" by simp
  from ev obtain stage valid where stage: "map_of r ''stage'' = Some stage"
    and valid: "(if stage = JStr ''outline'' then on_item r ''status'' (\<lambda>s. Inr (s = JStr ''succeeded'')) else Inr False) = Inr valid"
    and ev': "ev = JObj [(''outline_receipt_valid'', JBool valid),
                (''book_matches'', JBool (py_eq (dget r ''book_id'') (stripped (d_book_id c)))),
                (''outline_hash_matches'', JBool (py_eq (dget r ''output_digest'') (d_current_outline_hash c))),
                (''authority_matches'', JBool (py_eq (dget r ''authority'') au)),
                (''context_matches'', JBool (py_eq (dget r ''input_digest'') (d_current_outline_input_digest c))),
                (''session_matches'', JBool (py_eq (dget r ''session_id'') (stripped (d_session_id c)))),
                (''plan_matches'', JBool (py_eq (dget r ''plan_id'') (stripped (d_plan_id c)))),
                (''chapter_matches'', JBool (py_eq (dget r ''chapter_index'') (d_chapter_index c)))]"
    unfolding draft_evidence_def rbind_eq_Inr on_item_eq_Inr [of r "''stage''"]
    by (elim exE conjE) (drule on_item_dget, elim rbindE, drule on_item_dget, elim rbindE, (drule on_item_dget)+,
        elim rbindE, (drule on_item_dget)+, elim rbindE, (drule on_item_dget)+, elim rbindE, (drule on_item_dget)+,
        elim rbindE, simp add: st_required_text_Inr st_chapter_Inr st_sha256_Inr)
  have valid': "valid \<longleftrightarrow> dget r ''stage'' = JStr ''outline'' \<and> dget r ''status'' = JStr ''succeeded''"
    using stage valid by (auto simp: on_item_eq_Inr dget_def split: if_splits)
  show ?thesis
    using args num reasons_verdict [OF reasons [unfolded ev']] valid'
    by (simp add: ok au draft_reason_codes_def)
qed

definition example_draft_args :: draft_args where
  "example_draft_args =
     \<lparr>d_book_id = JStr ''b'', d_session_id = JStr ''s'', d_plan_id = JStr ''p'', d_chapter_index = JInt 3,
      d_authority_epoch = JInt 0, d_authority_head_event_hash = JNull,
      d_current_outline_input_digest = JStr zero_digest, d_current_outline_hash = JStr zero_digest,
      d_checked_at = JNull\<rparr>"

lemma example_draft_ready:
  "\<exists>d. derive_draft_readiness example_host ''now'' example_receipt example_draft_args = Inr (JObj d)"
proof -
  have "\<not> isl (derive_draft_readiness example_host ''now'' example_receipt example_draft_args)"
    by code_simp
  then obtain w where w: "derive_draft_readiness example_host ''now'' example_receipt example_draft_args = Inr w"
    by (cases "derive_draft_readiness example_host ''now'' example_receipt example_draft_args") auto
  then have "\<exists>d. w = JObj d"
    by (auto simp: derive_draft_readiness_def rbind_eq_Inr on_item_eq_Inr Let_def
        dest!: validate_draft_readiness_id)
  with w show ?thesis by blast
qed

theorem draft_readiness_verdict_witness:
  "\<exists>d. derive_draft_readiness example_host ''now'' example_receipt example_draft_args = Inr (JObj d) \<and>
     dget d ''ok'' = JBool True"
proof -
  from example_draft_ready obtain d
    where d: "derive_draft_readiness example_host ''now'' example_receipt example_draft_args = Inr (JObj d)" ..
  have "st_authority (JInt 0) JNull = Inr (authority_json 0 JNull)"
    by (simp add: st_authority_Inr digest_or_null_def)
  with draft_readiness_verdict [OF d] d show ?thesis
    by (auto simp: example_draft_args_def example_receipt_def new_receipt_def example_authorization_def
        dget_def authority_json_def stripped_def py_strip_def py_isspace_def)
qed

text \<open>
  A published receipt cannot be edited. When the validator accepts a receipt and also accepts
  it with another output digest, the two SHA-256 texts collide.
\<close>

lemma receipt_output_is_tamper_evident:
  assumes "validate_stage_receipt h (JObj r) = Inr u"
    and "validate_stage_receipt h (JObj (dset ''output_digest'' (JStr y) r)) = Inr w"
    and "map_of r ''output_digest'' = Some (JStr x)" and "x \<noteq> y"
    and "distinct (map fst r)" and "float_free (JObj r)"
  shows "sha_collision h"
  by (rule receipts.tamper_evident [OF assms(1,2) _ assms(3) _ assms(5,6)])
     (use assms(4) in \<open>auto simp: dropped_def environment_field_names_def covered_def\<close>)

theorem receipt_output_is_tamper_evident_witness: "sha_collision example_host"
proof (rule receipt_output_is_tamper_evident [OF example_receipt_valid])
  show "validate_stage_receipt example_host
     (JObj (dset ''output_digest'' (JStr (replicate 64 (CHR ''1''))) example_receipt)) =
     Inr (JObj (dset ''output_digest'' (JStr (replicate 64 (CHR ''1''))) example_receipt))"
    by code_simp
  show "map_of example_receipt ''output_digest'' = Some (JStr zero_digest)"
    by (simp add: example_receipt_def new_receipt_def)
  show "zero_digest \<noteq> replicate 64 (CHR ''1'')" by code_simp
qed (simp_all add: example_receipt_def new_receipt_def example_authorization_def dget_def)

end
