(* ===== verification/Autonomy_Common.thy ===== *)
theory Autonomy_Common
  imports Field_Checks
begin

text \<open>
  The shared checks and artifact files of \<open>core/autonomy/common.py\<close>: identifiers, texts, digests and
  timestamps, contract validation, and the two ways an artifact is written, append-only and by
  replacement. A file is the JSON document it holds, or the error the platform reports for it.
\<close>

section \<open>Timestamps\<close>

text \<open>\<open>s.replace(''Z'', ''+00:00'')\<close>.\<close>

definition replace_z :: "string \<Rightarrow> string" where
  "replace_z s = concat (map (\<lambda>c. if c = CHR ''Z'' then ''+00:00'' else [c]) s)"

definition au_required_text :: "string \<Rightarrow> json \<Rightarrow> string res" where
  "au_required_text label value =
     (case value of
        JStr s \<Rightarrow> if py_strip s = [] then Inl (AutonomyContractError ''autonomy_text_invalid'' (label @ '' is required''))
                  else Inr (py_strip s)
      | _ \<Rightarrow> Inl (AutonomyContractError ''autonomy_text_invalid'' (label @ '' is required'')))"

text \<open>The instant of a timestamp, in microseconds.\<close>

definition parse_utc :: "host \<Rightarrow> json \<Rightarrow> int res" where
  "parse_utc h value =
     rbind (au_required_text ''timestamp'' value) (\<lambda>s.
     case parse_iso h (replace_z s) of
       None \<Rightarrow> Inl (AutonomyContractError ''autonomy_timestamp_invalid'' (''invalid timestamp: '' @ py_repr h value))
     | Some (instant, aware) \<Rightarrow>
         if \<not> aware then Inl (AutonomyContractError ''autonomy_timestamp_invalid'' ''timestamp must include an offset'')
         else Inr instant)"

text \<open>\<open>(moment + timedelta(seconds=ttl)).isoformat()\<close>.\<close>

definition after_seconds :: "host \<Rightarrow> int \<Rightarrow> int \<Rightarrow> json res" where
  "after_seconds h moment seconds =
     (case iso_utc h (moment + seconds * 1000000) of None \<Rightarrow> Inl OverflowError | Some s \<Rightarrow> Inr (JStr s))"

section \<open>Checks\<close>

definition au_validate_mapping :: "host \<Rightarrow> json \<Rightarrow> string \<Rightarrow> string \<Rightarrow> dict res" where
  "au_validate_mapping h value schema label =
     (case value of
        JObj d \<Rightarrow>
          (case validate_schema h (JObj d) schema of
             Inl (SchemaValidationError msg) \<Rightarrow>
               Inl (AutonomyContractError ''autonomy_contract_invalid'' (''invalid '' @ label @ '': '' @ msg))
           | Inl e \<Rightarrow> Inl e
           | Inr _ \<Rightarrow> Inr d)
      | _ \<Rightarrow> Inl (AutonomyContractError ''autonomy_contract_invalid'' (label @ '' must be an object'')))"

definition safe_id :: "string \<Rightarrow> json \<Rightarrow> string res" where
  "safe_id label value =
     (case value of
        JStr s \<Rightarrow> if is_safe_id s then Inr s
                  else Inl (AutonomyContractError ''autonomy_identifier_invalid''
                    (label @ '' must use only letters, digits, dot, underscore, colon, or hyphen''))
      | _ \<Rightarrow> Inl (AutonomyContractError ''autonomy_identifier_invalid''
                    (label @ '' must use only letters, digits, dot, underscore, colon, or hyphen'')))"

definition au_sha256 :: "string \<Rightarrow> json \<Rightarrow> json res" where
  "au_sha256 label value =
     (if json_sha256 value then Inr value
      else Inl (AutonomyContractError ''autonomy_digest_invalid'' (label @ '' must be a lowercase SHA-256 digest'')))"

definition au_optional_sha256 :: "string \<Rightarrow> json \<Rightarrow> json res" where
  "au_optional_sha256 label value = (if value = JNull then Inr JNull else au_sha256 label value)"

definition au_int_from :: "string \<Rightarrow> int \<Rightarrow> json \<Rightarrow> int res" where
  "au_int_from label least value =
     (case strict_int value of
        Some i \<Rightarrow> if i < least then Inl (AutonomyContractError ''autonomy_integer_invalid''
                    (label @ '' must be an integer >= '' @ show_int least)) else Inr i
      | None \<Rightarrow> Inl (AutonomyContractError ''autonomy_integer_invalid''
                    (label @ '' must be an integer >= '' @ show_int least)))"

definition au_canonical_hash :: "host \<Rightarrow> string list \<Rightarrow> json \<Rightarrow> string res" where
  "au_canonical_hash h exclude_fields value = canonical_json_hash h exclude_fields True value"

text \<open>The text of a field that a validator has found to be a text.\<close>

definition doc_text :: "dict \<Rightarrow> string \<Rightarrow> string" where
  "doc_text d field = (case dget d field of JStr s \<Rightarrow> s | _ \<Rightarrow> [])"

lemma doc_text_JStr [simp]: "dget d field = JStr s \<Longrightarrow> doc_text d field = s"
  by (simp add: doc_text_def)

section \<open>Artifact files\<close>

datatype file_doc = Doc json | Unreadable string

type_synonym files = "(string \<times> file_doc) list"

definition load_json_object :: "string \<Rightarrow> file_doc \<Rightarrow> dict res" where
  "load_json_object path file =
     (case file of
        Unreadable exc \<Rightarrow> Inl (AutonomyContractError ''autonomy_artifact_unreadable''
            (''could not read '' @ path @ '': '' @ exc))
      | Doc (JObj d) \<Rightarrow> Inr d
      | Doc _ \<Rightarrow> Inl (AutonomyContractError ''autonomy_contract_invalid'' (path @ '' must contain a JSON object'')))"

text \<open>\<open>atomic_append_json\<close>: create the file, or accept the same document that is there already.\<close>

definition atomic_append_json :: "string \<Rightarrow> dict \<Rightarrow> files \<Rightarrow> files res" where
  "atomic_append_json name payload fs =
     (case map_of fs name of
        None \<Rightarrow> Inr (fs @ [(name, Doc (JObj payload))])
      | Some file \<Rightarrow>
          rbind (load_json_object name file) (\<lambda>existing.
          if \<not> py_eq (JObj existing) (JObj payload)
          then Inl (AutonomyContractError ''autonomy_append_conflict'' (''append-only artifact already differs: '' @ name))
          else Inr fs))"

section \<open>When a check passes\<close>

lemma au_required_text_Inr [res_simps]:
  "au_required_text l v = Inr s \<longleftrightarrow> nonblank v \<and> stripped v = JStr s"
  by (cases v) (auto simp: au_required_text_def nonblank_def stripped_def)

lemma au_validate_mapping_Inr [res_simps]:
  "au_validate_mapping h v n l = Inr d \<longleftrightarrow> v = JObj d \<and> validate_schema h v n = Inr v"
  by (cases v)
     (auto simp: au_validate_mapping_def dest: validate_schema_id split: sum.splits exn.splits)

lemma safe_id_Inr [res_simps]: "safe_id l v = Inr s \<longleftrightarrow> v = JStr s \<and> is_safe_id s"
  by (cases v) (auto simp: safe_id_def)

lemma au_sha256_Inr [res_simps]: "au_sha256 l v = Inr w \<longleftrightarrow> json_sha256 v \<and> w = v"
  by (auto simp: au_sha256_def)

lemma au_optional_sha256_Inr [res_simps]: "au_optional_sha256 l v = Inr w \<longleftrightarrow> digest_or_null v \<and> w = v"
  by (auto simp: au_optional_sha256_def au_sha256_Inr digest_or_null_def)

lemma au_int_from_Inr [res_simps]: "au_int_from l m v = Inr i \<longleftrightarrow> v = JInt i \<and> m \<le> i"
  by (cases v) (auto simp: au_int_from_def strict_int_def)

lemma load_json_object_Inr [res_simps]: "load_json_object p f = Inr d \<longleftrightarrow> f = Doc (JObj d)"
  by (auto simp: load_json_object_def split: file_doc.splits json.splits)

text \<open>Appending is idempotent: a replay finds its own document.\<close>

lemma append_new: "map_of fs n = None \<Longrightarrow> atomic_append_json n p fs = Inr (fs @ [(n, Doc (JObj p))])"
  by (simp add: atomic_append_json_def)

lemma append_keeps:
  assumes "atomic_append_json n p fs = Inr gs"
  shows "\<exists>d. map_of gs n = Some (Doc (JObj d)) \<and> (d = p \<or> py_eq (JObj d) (JObj p))"
    and "m \<noteq> n \<Longrightarrow> map_of gs m = map_of fs m"
    and "map_of fs m = Some f \<Longrightarrow> map_of gs m = Some f"
  using assms
  by (auto simp: atomic_append_json_def res_simps map_add_def split: option.splits if_splits)

end
