(* ===== verification/Book_Lease.thy ===== *)
theory Book_Lease
  imports Autonomy_Common
begin

text \<open>
  The single-writer lease of a book, \<open>core/autonomy/lease.py\<close>. A lease is a sealed record with a
  fencing generation and the hash of the lease before; every lease is appended to a history
  directory and then copied to \<open>current.json\<close>. \<open>BookLeaseStore\<close> is a map from the directory of a book
  to its files; its methods run under the store's locks, so each is one step of the model.
\<close>

section \<open>Leases\<close>

definition lease_fields_ok :: "dict \<Rightarrow> unit res" where
  "lease_fields_ok lease =
     rbind (rcheck (\<lambda>field. on_item lease field (\<lambda>v. rbind (safe_id field v) (\<lambda>_. Inr ())))
        [''book_id'', ''session_id'', ''plan_id'']) (\<lambda>_.
     rbind (on_item lease ''generation'' (au_int_from ''generation'' 1)) (\<lambda>_.
     rbind (on_item lease ''lease_hash'' (au_sha256 ''lease_hash'')) (\<lambda>_.
     rbind (on_item lease ''previous_lease_hash'' (au_optional_sha256 ''previous_lease_hash'')) (\<lambda>_.
     Inr ()))))"

definition lease_times_ok :: "host \<Rightarrow> dict \<Rightarrow> unit res" where
  "lease_times_ok h lease =
     rbind (on_item lease ''acquired_at'' (parse_utc h)) (\<lambda>acquired.
     rbind (on_item lease ''renewed_at'' (parse_utc h)) (\<lambda>renewed.
     rbind (on_item lease ''expires_at'' (parse_utc h)) (\<lambda>expires.
     if renewed < acquired \<or> expires < renewed
     then Inl (BookLeaseError ''book_lease_time_invalid'' ''lease timestamps must be monotonically ordered'')
     else on_item lease ''status'' (\<lambda>status.
       if status = JStr ''active'' \<and> expires = renewed
       then Inl (BookLeaseError ''book_lease_time_invalid'' ''active lease must have positive duration'')
       else Inr ()))))"

definition validate_book_lease :: "host \<Rightarrow> json \<Rightarrow> json res" where
  "validate_book_lease h value =
     rbind (au_validate_mapping h value ''book_lease.schema.json'' ''BookLease'') (\<lambda>lease.
     rbind (lease_fields_ok lease) (\<lambda>_.
     rbind (lease_times_ok h lease) (\<lambda>_.
     rbind (au_canonical_hash h [''lease_hash''] (JObj lease)) (\<lambda>expected.
     if dget lease ''lease_hash'' \<noteq> JStr expected
     then Inl (BookLeaseError ''book_lease_hash_mismatch'' ''BookLease content was modified'')
     else Inr (JObj lease)))))"

record lease_args =
  la_book_id :: json
  la_session_id :: json
  la_plan_id :: json
  la_generation :: int
  la_previous_lease_hash :: json
  la_acquired_at :: json
  la_renewed_at :: json
  la_expires_at :: json
  la_status :: string

definition lease_body :: "lease_args \<Rightarrow> dict res" where
  "lease_body a =
     rbind (safe_id ''book_id'' (la_book_id a)) (\<lambda>book.
     rbind (safe_id ''session_id'' (la_session_id a)) (\<lambda>session.
     rbind (safe_id ''plan_id'' (la_plan_id a)) (\<lambda>plan.
     rbind (au_int_from ''generation'' 1 (JInt (la_generation a))) (\<lambda>generation.
     rbind (au_optional_sha256 ''previous_lease_hash'' (la_previous_lease_hash a)) (\<lambda>previous.
     Inr [(''schema_version'', JStr ''1.0''), (''book_id'', JStr book), (''session_id'', JStr session),
          (''plan_id'', JStr plan), (''generation'', JInt generation), (''previous_lease_hash'', previous),
          (''status'', JStr (la_status a)), (''acquired_at'', la_acquired_at a),
          (''renewed_at'', la_renewed_at a), (''expires_at'', la_expires_at a)])))))"

definition build_book_lease :: "host \<Rightarrow> lease_args \<Rightarrow> dict res" where
  "build_book_lease h a =
     rbind (lease_body a) (\<lambda>lease.
     rbind (au_canonical_hash h [''lease_hash''] (JObj lease)) (\<lambda>hash.
     let sealed = dset ''lease_hash'' (JStr hash) lease in
     rbind (validate_book_lease h (JObj sealed)) (\<lambda>_. Inr sealed)))"

section \<open>The files of a book\<close>

record lease_dir =
  current_file :: "file_doc option"
  history_files :: files

type_synonym lease_store = "string \<Rightarrow> lease_dir"

definition empty_store :: lease_store where
  "empty_store = (\<lambda>_. \<lparr>current_file = None, history_files = []\<rparr>)"

definition book_directory :: "host \<Rightarrow> string \<Rightarrow> string res" where
  "book_directory h book =
     rbind (safe_id ''book_id'' (JStr book)) (\<lambda>b.
     rbind (au_canonical_hash h [] (JObj [(''book_id'', JStr b)])) (\<lambda>key.
     Inr (take 16 key)))"

text \<open>\<open>f''{int(generation):06d}-{lease_hash[:20]}.json''\<close>, of a validated lease.\<close>

definition lease_generation :: "dict \<Rightarrow> int" where
  "lease_generation lease = (case dget lease ''generation'' of JInt i \<Rightarrow> i | _ \<Rightarrow> 0)"

definition lease_text :: "dict \<Rightarrow> string \<Rightarrow> string" where
  "lease_text lease field = (case dget lease field of JStr s \<Rightarrow> s | _ \<Rightarrow> [])"

definition history_name :: "dict \<Rightarrow> string" where
  "history_name lease =
     show_06d (lease_generation lease) @ ''-'' @ take 20 (lease_text lease ''lease_hash'') @ ''.json''"

section \<open>Rebuilding the history\<close>

type_synonym generations = "(int \<times> dict) list"

definition collect_record :: "host \<Rightarrow> string \<Rightarrow> string \<times> file_doc \<Rightarrow> generations \<Rightarrow> generations res" where
  "collect_record h book file by_generation =
     rbind (load_json_object (fst file) (snd file)) (\<lambda>lease.
     rbind (validate_book_lease h (JObj lease)) (\<lambda>_.
     if dget lease ''book_id'' \<noteq> JStr book \<or> fst file \<noteq> history_name lease
     then Inl (BookLeaseError ''book_lease_history_invalid'' ''lease history path or book scope was modified'')
     else
       let generation = lease_generation lease in
       (case map_of by_generation generation of
          Some existing \<Rightarrow>
            if dget existing ''lease_hash'' \<noteq> dget lease ''lease_hash''
            then Inl (BookLeaseError ''book_lease_history_forked''
                   (''lease history has multiple generation '' @ show_int generation @ '' records''))
            else Inr (AList.update generation lease by_generation)
        | None \<Rightarrow> Inr (AList.update generation lease by_generation))))"

definition collect_history :: "host \<Rightarrow> string \<Rightarrow> files \<Rightarrow> generations res" where
  "collect_history h book fs = rfold (collect_record h book) (sort_key fst fs) []"

definition last_generation :: "generations \<Rightarrow> int" where
  "last_generation by_generation = Max (set (map fst by_generation))"

definition check_no_gap :: "generations \<Rightarrow> unit res" where
  "check_no_gap by_generation =
     (if set (map fst by_generation) \<noteq> set [1..last_generation by_generation]
      then Inl (BookLeaseError ''book_lease_history_invalid'' ''lease generation history has a gap'')
      else Inr ())"

text \<open>The records in order of generation, each checked to name the hash of the one before.\<close>

fun descend :: "generations \<Rightarrow> json \<Rightarrow> int list \<Rightarrow> dict list res" where
  "descend by_generation previous [] = Inr []"
| "descend by_generation previous (g # gs) =
     (case map_of by_generation g of
        None \<Rightarrow> Inl (KeyError (show_int g))
      | Some lease \<Rightarrow>
          if dget lease ''previous_lease_hash'' \<noteq> previous
          then Inl (BookLeaseError ''book_lease_history_forked''
                 ''lease generation does not descend from the preceding generation'')
          else rbind (descend by_generation (dget lease ''lease_hash'') gs) (\<lambda>rest. Inr (lease # rest)))"

text \<open>The chain of a history directory: \<open>[]\<close> when it has no files.\<close>

definition lease_chain :: "host \<Rightarrow> string \<Rightarrow> files \<Rightarrow> (generations \<times> dict list) res" where
  "lease_chain h book fs =
     rbind (collect_history h book fs) (\<lambda>by_generation.
     if by_generation = [] then Inr ([], [])
     else rbind (check_no_gap by_generation) (\<lambda>_.
          rbind (descend by_generation JNull [1..last_generation by_generation]) (\<lambda>chain.
          Inr (by_generation, chain))))"

section \<open>The store\<close>

definition check_current :: "host \<Rightarrow> generations \<Rightarrow> file_doc option \<Rightarrow> unit res" where
  "check_current h by_generation current =
     (case current of
        None \<Rightarrow> Inr ()
      | Some file \<Rightarrow>
          rbind (load_json_object ''current.json'' file) (\<lambda>lease.
          rbind (validate_book_lease h (JObj lease)) (\<lambda>_.
          case map_of by_generation (lease_generation lease) of
            None \<Rightarrow> Inl (BookLeaseError ''book_lease_history_forked'' ''current lease is not on the unique durable history chain'')
          | Some durable \<Rightarrow>
              if \<not> py_eq (JObj durable) (JObj lease)
              then Inl (BookLeaseError ''book_lease_history_forked'' ''current lease is not on the unique durable history chain'')
              else Inr ())))"

definition current_differs :: "dict \<Rightarrow> file_doc option \<Rightarrow> bool" where
  "current_differs head current =
     (case current of Some (Doc c) \<Rightarrow> \<not> py_eq c (JObj head) | _ \<Rightarrow> True)"

definition reconcile_history_head :: "host \<Rightarrow> string \<Rightarrow> bool \<Rightarrow> lease_dir \<Rightarrow> dict option res \<times> lease_dir" where
  "reconcile_history_head h book publish dir =
     (if history_files dir = []
      then (if current_file dir \<noteq> None
            then (Inl (BookLeaseError ''book_lease_history_missing'' ''current lease is not backed by append-only history''), dir)
            else (Inr None, dir))
      else
        (case rbind (lease_chain h book (history_files dir)) (\<lambda>(by_generation, chain).
              rbind (check_current h by_generation (current_file dir)) (\<lambda>_. Inr (last chain))) of
           Inl e \<Rightarrow> (Inl e, dir)
         | Inr head \<Rightarrow>
             if current_differs head (current_file dir)
             then (if \<not> publish
                   then (Inl (BookLeaseError ''book_lease_recovery_required''
                           ''lease history is ahead of current; acquire the remap fence to recover''), dir)
                   else (Inr (Some head), dir\<lparr>current_file := Some (Doc (JObj head))\<rparr>))
             else (Inr (Some head), dir)))"

text \<open>
  The two steps of \<open>_publish\<close>. A crash can fall between them: the history then is one lease ahead.
\<close>

definition publish_history :: "host \<Rightarrow> dict \<Rightarrow> lease_dir \<Rightarrow> lease_dir res" where
  "publish_history h lease dir =
     rbind (validate_book_lease h (JObj lease)) (\<lambda>_.
     rbind (atomic_append_json (history_name lease) lease (history_files dir)) (\<lambda>fs.
     Inr (dir\<lparr>history_files := fs\<rparr>)))"

definition publish_lease :: "host \<Rightarrow> dict \<Rightarrow> lease_dir \<Rightarrow> unit res \<times> lease_dir" where
  "publish_lease h lease dir =
     (case publish_history h lease dir of
        Inl e \<Rightarrow> (Inl e, dir)
      | Inr dir' \<Rightarrow> (Inr (), dir'\<lparr>current_file := Some (Doc (JObj lease))\<rparr>))"

definition lease_ttl :: "json \<Rightarrow> int res" where
  "lease_ttl value =
     rbind (au_int_from ''ttl_seconds'' 1 value) (\<lambda>ttl.
     if ttl > 86400 then Inl (BookLeaseError ''book_lease_ttl_invalid'' ''lease TTL may not exceed 24 hours'')
     else Inr ttl)"

definition is_active_at :: "host \<Rightarrow> dict \<Rightarrow> json \<Rightarrow> bool res" where
  "is_active_at h lease timestamp =
     (if dget lease ''status'' \<noteq> JStr ''active'' then Inr False
      else rbind (parse_utc h (dget lease ''expires_at'')) (\<lambda>expires.
           rbind (parse_utc h timestamp) (\<lambda>moment. Inr (expires > moment))))"

definition assert_owner :: "dict \<Rightarrow> json \<Rightarrow> json \<Rightarrow> unit res" where
  "assert_owner lease session_id plan_id =
     rbind (safe_id ''session_id'' session_id) (\<lambda>session.
     if dget lease ''session_id'' \<noteq> JStr session
     then Inl (BookLeaseError ''book_lease_owner_mismatch'' ''lease belongs to another session'')
     else rbind (safe_id ''plan_id'' plan_id) (\<lambda>plan.
       if dget lease ''plan_id'' \<noteq> JStr plan
       then Inl (BookLeaseError ''book_lease_owner_mismatch'' ''lease belongs to another session'')
       else Inr ()))"

section \<open>Methods\<close>

text \<open>A method that runs on the directory of a book.\<close>

definition on_directory :: "host \<Rightarrow> string \<Rightarrow> (lease_dir \<Rightarrow> 'a res \<times> lease_dir) \<Rightarrow> lease_store \<Rightarrow> 'a res \<times> lease_store" where
  "on_directory h book f store =
     (case book_directory h book of
        Inl e \<Rightarrow> (Inl e, store)
      | Inr key \<Rightarrow> let (r, dir) = f (store key) in (r, store(key := dir)))"

text \<open>Build a lease and publish it: the last lines of \<open>acquire\<close>, \<open>renew\<close> and \<open>release\<close>.\<close>

definition publish_new :: "host \<Rightarrow> lease_args res \<Rightarrow> lease_dir \<Rightarrow> dict res \<times> lease_dir" where
  "publish_new h args dir =
     (case rbind args (build_book_lease h) of
        Inl e \<Rightarrow> (Inl e, dir)
      | Inr lease \<Rightarrow> (case publish_lease h lease dir of
            (Inl e, dir') \<Rightarrow> (Inl e, dir')
          | (Inr _, dir') \<Rightarrow> (Inr lease, dir')))"

definition acquire_args :: "host \<Rightarrow> string \<Rightarrow> string \<Rightarrow> string \<Rightarrow> int \<Rightarrow> json \<Rightarrow> int \<Rightarrow> dict option \<Rightarrow> lease_args res" where
  "acquire_args h book session plan ttl timestamp moment current =
     rbind (after_seconds h moment ttl) (\<lambda>expires.
     Inr \<lparr>la_book_id = JStr book, la_session_id = JStr session, la_plan_id = JStr plan,
          la_generation = (case current of None \<Rightarrow> 1 | Some c \<Rightarrow> lease_generation c + 1),
          la_previous_lease_hash = (case current of None \<Rightarrow> JNull | Some c \<Rightarrow> dget c ''lease_hash''),
          la_acquired_at = timestamp, la_renewed_at = timestamp, la_expires_at = expires,
          la_status = ''active''\<rparr>)"

definition acquire_in :: "host \<Rightarrow> string \<Rightarrow> string \<Rightarrow> string \<Rightarrow> int \<Rightarrow> json \<Rightarrow> int \<Rightarrow> lease_dir \<Rightarrow> dict res \<times> lease_dir" where
  "acquire_in h book session plan ttl timestamp moment dir =
     (case reconcile_history_head h book True dir of
        (Inl e, dir') \<Rightarrow> (Inl e, dir')
      | (Inr None, dir') \<Rightarrow> publish_new h (acquire_args h book session plan ttl timestamp moment None) dir'
      | (Inr (Some c), dir') \<Rightarrow>
          (case is_active_at h c timestamp of
             Inl e \<Rightarrow> (Inl e, dir')
           | Inr True \<Rightarrow>
               if dget c ''session_id'' = JStr session \<and> dget c ''plan_id'' = JStr plan then (Inr c, dir')
               else (Inl (BookLeaseError ''book_lease_held''
                       (''book already has active writer session '' @ lease_text c ''session_id'')), dir')
           | Inr False \<Rightarrow> publish_new h (acquire_args h book session plan ttl timestamp moment (Some c)) dir'))"

definition acquire ::
  "host \<Rightarrow> string \<Rightarrow> json \<Rightarrow> json \<Rightarrow> json \<Rightarrow> json \<Rightarrow> json \<Rightarrow> lease_store \<Rightarrow> dict res \<times> lease_store" where
  "acquire h now book_id session_id plan_id ttl_seconds at_time store =
     (let timestamp = py_or at_time (JStr now) in
      case rbind (safe_id ''book_id'' book_id) (\<lambda>book.
           rbind (safe_id ''session_id'' session_id) (\<lambda>session.
           rbind (safe_id ''plan_id'' plan_id) (\<lambda>plan.
           rbind (lease_ttl ttl_seconds) (\<lambda>ttl.
           rbind (book_directory h book) (\<lambda>_.
           rbind (parse_utc h timestamp) (\<lambda>moment.
           Inr (book, session, plan, ttl, moment))))))) of
        Inl e \<Rightarrow> (Inl e, store)
      | Inr (book, session, plan, ttl, moment) \<Rightarrow>
          on_directory h book (acquire_in h book session plan ttl timestamp moment) store)"

definition successor_args :: "string \<Rightarrow> dict \<Rightarrow> json \<Rightarrow> json \<Rightarrow> string \<Rightarrow> lease_args" where
  "successor_args book c timestamp expires status =
     \<lparr>la_book_id = JStr book, la_session_id = dget c ''session_id'', la_plan_id = dget c ''plan_id'',
      la_generation = lease_generation c + 1, la_previous_lease_hash = dget c ''lease_hash'',
      la_acquired_at = dget c ''acquired_at'', la_renewed_at = timestamp, la_expires_at = expires,
      la_status = status\<rparr>"

definition check_expected_hash :: "json \<Rightarrow> dict \<Rightarrow> unit res" where
  "check_expected_hash expected_lease_hash c =
     rbind (au_sha256 ''expected_lease_hash'' expected_lease_hash) (\<lambda>expected.
     if dget c ''lease_hash'' \<noteq> expected
     then Inl (BookLeaseError ''book_lease_cas_failed'' ''lease generation changed'') else Inr ())"

definition renew_in ::
  "host \<Rightarrow> string \<Rightarrow> json \<Rightarrow> json \<Rightarrow> json \<Rightarrow> int \<Rightarrow> json \<Rightarrow> int \<Rightarrow> lease_dir \<Rightarrow> dict res \<times> lease_dir" where
  "renew_in h book session_id plan_id expected_lease_hash ttl timestamp moment dir =
     (case reconcile_history_head h book True dir of
        (Inl e, dir') \<Rightarrow> (Inl e, dir')
      | (Inr None, dir') \<Rightarrow> (Inl (BookLeaseError ''book_lease_missing'' ''book has no lease record''), dir')
      | (Inr (Some c), dir') \<Rightarrow>
          (case rbind (check_expected_hash expected_lease_hash c) (\<lambda>_.
                rbind (assert_owner c session_id plan_id) (\<lambda>_.
                rbind (is_active_at h c timestamp) (\<lambda>active.
                if \<not> active then Inl (BookLeaseError ''book_lease_expired'' ''expired lease cannot be renewed'')
                else Inr ()))) of
             Inl e \<Rightarrow> (Inl e, dir')
           | Inr _ \<Rightarrow> publish_new h (rbind (after_seconds h moment ttl)
                 (\<lambda>expires. Inr (successor_args book c timestamp expires ''active''))) dir'))"

definition renew ::
  "host \<Rightarrow> string \<Rightarrow> json \<Rightarrow> json \<Rightarrow> json \<Rightarrow> json \<Rightarrow> json \<Rightarrow> json \<Rightarrow> lease_store \<Rightarrow> dict res \<times> lease_store" where
  "renew h now book_id session_id plan_id expected_lease_hash ttl_seconds at_time store =
     (let timestamp = py_or at_time (JStr now) in
      case rbind (safe_id ''book_id'' book_id) (\<lambda>book.
           rbind (book_directory h book) (\<lambda>_.
           rbind (parse_utc h timestamp) (\<lambda>moment.
           rbind (lease_ttl ttl_seconds) (\<lambda>ttl.
           Inr (book, ttl, moment))))) of
        Inl e \<Rightarrow> (Inl e, store)
      | Inr (book, ttl, moment) \<Rightarrow>
          on_directory h book (renew_in h book session_id plan_id expected_lease_hash ttl timestamp moment) store)"

definition release_in :: "host \<Rightarrow> string \<Rightarrow> json \<Rightarrow> json \<Rightarrow> json \<Rightarrow> json \<Rightarrow> lease_dir \<Rightarrow> dict option res \<times> lease_dir" where
  "release_in h book session_id plan_id expected_lease_hash timestamp dir =
     (case reconcile_history_head h book True dir of
        (Inl e, dir') \<Rightarrow> (Inl e, dir')
      | (Inr None, dir') \<Rightarrow> (Inr None, dir')
      | (Inr (Some c), dir') \<Rightarrow>
          if dget c ''status'' = JStr ''released'' then (Inr (Some c), dir')
          else
            (case rbind (assert_owner c session_id plan_id) (\<lambda>_.
                  if expected_lease_hash = JNull then Inr () else check_expected_hash expected_lease_hash c) of
               Inl e \<Rightarrow> (Inl e, dir')
             | Inr _ \<Rightarrow>
                 (case publish_new h (Inr (successor_args book c timestamp timestamp ''released'')) dir' of
                    (Inl e, dir'') \<Rightarrow> (Inl e, dir'')
                  | (Inr lease, dir'') \<Rightarrow> (Inr (Some lease), dir''))))"

definition release ::
  "host \<Rightarrow> string \<Rightarrow> json \<Rightarrow> json \<Rightarrow> json \<Rightarrow> json \<Rightarrow> json \<Rightarrow> lease_store \<Rightarrow> dict option res \<times> lease_store" where
  "release h now book_id session_id plan_id expected_lease_hash at_time store =
     (case safe_id ''book_id'' book_id of
        Inl e \<Rightarrow> (Inl e, store)
      | Inr book \<Rightarrow>
          on_directory h book
            (release_in h book session_id plan_id expected_lease_hash (py_or at_time (JStr now))) store)"

definition assert_held_in :: "host \<Rightarrow> string \<Rightarrow> json \<Rightarrow> json \<Rightarrow> json \<Rightarrow> lease_dir \<Rightarrow> dict res" where
  "assert_held_in h book session_id plan_id timestamp dir =
     rbind (fst (reconcile_history_head h book False dir)) (\<lambda>current.
     case current of
       None \<Rightarrow> Inl (BookLeaseError ''book_lease_missing'' ''book has no lease record'')
     | Some c \<Rightarrow>
         rbind (assert_owner c session_id plan_id) (\<lambda>_.
         rbind (is_active_at h c timestamp) (\<lambda>active.
         if \<not> active then Inl (BookLeaseError ''book_lease_not_held'' ''outline provider call requires a live book lease'')
         else Inr c)))"

definition assert_held :: "host \<Rightarrow> string \<Rightarrow> json \<Rightarrow> json \<Rightarrow> json \<Rightarrow> json \<Rightarrow> lease_store \<Rightarrow> dict res" where
  "assert_held h now book_id session_id plan_id at_time store =
     rbind (safe_id ''book_id'' book_id) (\<lambda>book.
     rbind (book_directory h book) (\<lambda>key.
     assert_held_in h book session_id plan_id (py_or at_time (JStr now)) (store key)))"

definition reconcile :: "host \<Rightarrow> json \<Rightarrow> lease_store \<Rightarrow> dict option res \<times> lease_store" where
  "reconcile h book_id store =
     (case safe_id ''book_id'' book_id of
        Inl e \<Rightarrow> (Inl e, store)
      | Inr book \<Rightarrow> on_directory h book (reconcile_history_head h book True) store)"

definition load_lease :: "host \<Rightarrow> json \<Rightarrow> lease_store \<Rightarrow> dict res \<times> lease_store" where
  "load_lease h book_id store =
     (case reconcile h book_id store of
        (Inl e, store') \<Rightarrow> (Inl e, store')
      | (Inr None, store') \<Rightarrow> (Inl (BookLeaseError ''book_lease_missing'' ''book has no lease record''), store')
      | (Inr (Some c), store') \<Rightarrow> (Inr c, store'))"

text \<open>\<open>records[lease_hash] = record\<close> in the order of the chain.\<close>

definition index_by_hash :: "dict list \<Rightarrow> (string \<times> dict) list" where
  "index_by_hash chain = fold (\<lambda>r m. AList.update (lease_text r ''lease_hash'') r m) chain []"

definition load_history_index :: "host \<Rightarrow> json \<Rightarrow> lease_store \<Rightarrow> (string \<times> dict) list res" where
  "load_history_index h book_id store =
     rbind (safe_id ''book_id'' book_id) (\<lambda>book.
     rbind (book_directory h book) (\<lambda>key.
     rbind (lease_chain h book (history_files (store key))) (\<lambda>(by_generation, chain).
     Inr (index_by_hash chain))))"

definition find_record :: "(string \<times> dict) list \<Rightarrow> json \<Rightarrow> dict res" where
  "find_record records hash =
     (case hash of
        JStr x \<Rightarrow> (case map_of records x of
            None \<Rightarrow> Inl (BookLeaseError ''book_lease_history_missing'' ''fencing lease generation is not durable'')
          | Some r \<Rightarrow> Inr r)
      | _ \<Rightarrow> Inl (BookLeaseError ''book_lease_history_missing'' ''fencing lease generation is not durable''))"

definition load_history :: "host \<Rightarrow> json \<Rightarrow> json \<Rightarrow> lease_store \<Rightarrow> dict res" where
  "load_history h book_id lease_hash store =
     rbind (safe_id ''book_id'' book_id) (\<lambda>_.
     rbind (au_sha256 ''lease_hash'' lease_hash) (\<lambda>expected.
     rbind (load_history_index h book_id store) (\<lambda>records.
     find_record records expected)))"

text \<open>
  The \<open>while True\<close> loop of \<open>assert_descends_from\<close>, with a bound on its rounds: \<open>None\<close> means that the
  bound was reached.
\<close>

fun walk_back :: "nat \<Rightarrow> (string \<times> dict) list \<Rightarrow> json \<Rightarrow> json \<times> json \<Rightarrow> dict \<Rightarrow> unit res option" where
  "walk_back 0 records ancestor owner cursor = None"
| "walk_back (Suc n) records ancestor owner cursor =
     (if (dget cursor ''session_id'', dget cursor ''plan_id'') \<noteq> owner
      then Some (Inl (BookLeaseError ''book_lease_fence_owner_discontinuity''
             ''another writer generation intervened after the stage fence''))
      else if dget cursor ''lease_hash'' = ancestor then Some (Inr ())
      else case dget cursor ''previous_lease_hash'' of
          JStr previous \<Rightarrow>
            (case map_of records previous of
               None \<Rightarrow> Some (Inl (BookLeaseError ''book_lease_history_invalid'' ''lease generation chain is broken''))
             | Some predecessor \<Rightarrow> walk_back n records ancestor owner predecessor)
        | _ \<Rightarrow> Some (Inl (BookLeaseError ''book_lease_fence_not_ancestor''
               ''stage fencing generation is not in the current lease chain'')))"

definition assert_descends_from :: "nat \<Rightarrow> host \<Rightarrow> json \<Rightarrow> json \<Rightarrow> json \<Rightarrow> lease_store \<Rightarrow> unit res option" where
  "assert_descends_from fuel h book_id current_lease_hash ancestor_lease_hash store =
     (case rbind (au_sha256 ''ancestor_lease_hash'' ancestor_lease_hash) (\<lambda>ancestor.
           rbind (load_history_index h book_id store) (\<lambda>records.
           rbind (find_record records ancestor) (\<lambda>ancestor_record.
           rbind (au_sha256 ''current_lease_hash'' current_lease_hash) (\<lambda>current.
           rbind (find_record records current) (\<lambda>cursor.
           Inr (records, ancestor, (dget ancestor_record ''session_id'', dget ancestor_record ''plan_id''), cursor)))))) of
        Inl e \<Rightarrow> Some (Inl e)
      | Inr (records, ancestor, owner, cursor) \<Rightarrow> walk_back fuel records ancestor owner cursor)"

definition load_optional :: "host \<Rightarrow> string \<Rightarrow> lease_dir \<Rightarrow> dict option res" where
  "load_optional h book dir =
     (case current_file dir of
        None \<Rightarrow> Inr None
      | Some file \<Rightarrow>
          rbind (load_json_object ''current.json'' file) (\<lambda>current.
          rbind (validate_book_lease h (JObj current)) (\<lambda>_.
          case map_of (history_files dir) (history_name current) of
            None \<Rightarrow> Inl (BookLeaseError ''book_lease_history_missing'' ''current lease is not backed by append-only history'')
          | Some durable \<Rightarrow>
              rbind (load_json_object (history_name current) durable) (\<lambda>d.
              rbind (validate_book_lease h (JObj d)) (\<lambda>_.
              if \<not> py_eq (JObj d) (JObj current)
              then Inl (BookLeaseError ''book_lease_history_missing'' ''current lease is not backed by append-only history'')
              else Inr (Some current))))))"

section \<open>Leases are sealed records\<close>

lemma validate_book_lease_Inr:
  "validate_book_lease h v = Inr w \<longleftrightarrow>
     (\<exists>d x. v = JObj d \<and> w = v \<and> validate_schema h v ''book_lease.schema.json'' = Inr v \<and>
        lease_fields_ok d = Inr () \<and> lease_times_ok h d = Inr () \<and>
        canonical_json_hash h [''lease_hash''] True v = Inr x \<and> map_of d ''lease_hash'' = Some (JStr x))"
  by (simp add: validate_book_lease_def rbind_eq_Inr au_validate_mapping_Inr au_canonical_hash_def
      if_raise_eq_Inr dget_eq_JStr) blast

lemma validate_book_lease_id: "validate_book_lease h v = Inr w \<Longrightarrow> w = v"
  by (auto simp: validate_book_lease_Inr)

interpretation lease: hash_chain h "''lease_hash''" True "validate_book_lease h" "''previous_lease_hash''" for h
  by unfold_locales (auto simp: validate_book_lease_Inr dropped_def environment_field_names_def)

definition json_safe :: "json \<Rightarrow> bool" where
  "json_safe v \<longleftrightarrow> (\<exists>s. v = JStr s \<and> is_safe_id s)"

lemma validated_lease_fields:
  assumes "validate_book_lease h (JObj d) = Inr w"
  shows "json_safe (dget d ''book_id'')" and "json_safe (dget d ''session_id'')" and "json_safe (dget d ''plan_id'')"
    and "dget d ''generation'' = JInt (lease_generation d)" and "1 \<le> lease_generation d"
    and "dget d ''lease_hash'' = JStr (lease_text d ''lease_hash'')" and "is_sha256 (lease_text d ''lease_hash'')"
    and "digest_or_null (dget d ''previous_lease_hash'')"
proof -
  from assms have f: "lease_fields_ok d = Inr ()" by (simp add: validate_book_lease_Inr)
  from f show "json_safe (dget d ''book_id'')" "json_safe (dget d ''session_id'')" "json_safe (dget d ''plan_id'')"
    unfolding lease_fields_ok_def by (auto simp: res_simps dget_def json_safe_def)
  from f show "dget d ''generation'' = JInt (lease_generation d)" "1 \<le> lease_generation d"
    unfolding lease_fields_ok_def by (auto simp: res_simps dget_def lease_generation_def)
  from f show "dget d ''lease_hash'' = JStr (lease_text d ''lease_hash'')" "is_sha256 (lease_text d ''lease_hash'')"
    unfolding lease_fields_ok_def by (auto simp: res_simps dget_def lease_text_def dest!: json_sha256D)
  from f show "digest_or_null (dget d ''previous_lease_hash'')"
    unfolding lease_fields_ok_def by (auto simp: res_simps dget_def)
qed

section \<open>What a history directory that is accepted holds\<close>

text \<open>A lease of a book, by itself.\<close>

definition lease_of :: "host \<Rightarrow> string \<Rightarrow> dict \<Rightarrow> bool" where
  "lease_of h book r \<longleftrightarrow> validate_book_lease h (JObj r) = Inr (JObj r) \<and> dget r ''book_id'' = JStr book"

definition entry :: "dict \<Rightarrow> string \<times> file_doc" where
  "entry r = (history_name r, Doc (JObj r))"

text \<open>The abstract history: generations 1 to \<open>n\<close>, each naming the hash of the one before.\<close>

fun chain_from :: "host \<Rightarrow> string \<Rightarrow> int \<Rightarrow> json \<Rightarrow> dict list \<Rightarrow> bool" where
  "chain_from h book g previous [] = True"
| "chain_from h book g previous (r # rs) =
     (lease_of h book r \<and> lease_generation r = g \<and> dget r ''previous_lease_hash'' = previous \<and>
      chain_from h book (g + 1) (dget r ''lease_hash'') rs)"

definition chain_ok :: "host \<Rightarrow> string \<Rightarrow> dict list \<Rightarrow> bool" where
  "chain_ok h book chain = chain_from h book 1 JNull chain"

lemma chain_from_append:
  "chain_from h book g p (rs @ ts) \<longleftrightarrow> chain_from h book g p rs \<and>
     chain_from h book (g + int (length rs)) (head_hash ''lease_hash'' p (map JObj rs)) ts"
  by (induction rs arbitrary: g p) (auto simp: algebra_simps)

lemma chain_from_linked:
  "chain_from h book g p rs \<Longrightarrow> linked (validate_book_lease h) ''lease_hash'' ''previous_lease_hash'' p (map JObj rs)"
  by (induction rs arbitrary: g p) (auto simp: lease_of_def)

lemma chain_from_members:
  "chain_from h book g p rs \<Longrightarrow> r \<in> set rs \<Longrightarrow> lease_of h book r \<and> g \<le> lease_generation r \<and> lease_generation r < g + int (length rs)"
  by (induction rs arbitrary: g p) force+

lemma chain_from_generation:
  "chain_from h book g p rs \<Longrightarrow> i < length rs \<Longrightarrow> lease_generation (rs ! i) = g + int i"
proof (induction rs arbitrary: g p i)
  case (Cons r rs)
  then show ?case by (cases i) auto
qed simp

lemma chain_from_inj:
  assumes "chain_from h book g p rs" and "r \<in> set rs" and "q \<in> set rs" and "lease_generation r = lease_generation q"
  shows "r = q"
  using assms chain_from_generation [OF assms(1)] by (metis add_left_cancel in_set_conv_nth of_nat_eq_iff)

section \<open>Collecting the files\<close>

lemma ex_validate: "(\<exists>w. validate_book_lease h v = Inr w \<and> P) \<longleftrightarrow> validate_book_lease h v = Inr v \<and> P"
  using validate_book_lease_id by auto

lemma collect_record_Inr:
  "collect_record h book f acc = Inr bg \<longleftrightarrow>
     (\<exists>r. f = entry r \<and> lease_of h book r \<and>
        (\<forall>q. map_of acc (lease_generation r) = Some q \<longrightarrow> dget q ''lease_hash'' = dget r ''lease_hash'') \<and>
        bg = AList.update (lease_generation r) r acc)"
  by (cases f)
     (auto simp: collect_record_def rbind_eq_Inr load_json_object_Inr entry_def lease_of_def Let_def
       ex_validate split: option.splits if_splits; blast dest: validate_book_lease_id)

text \<open>What the loop has collected: leases of the book, from the files, under their generation.\<close>

definition collected :: "host \<Rightarrow> string \<Rightarrow> files \<Rightarrow> generations \<Rightarrow> bool" where
  "collected h book fs bg \<longleftrightarrow>
     (\<forall>g r. map_of bg g = Some r \<longrightarrow> lease_of h book r \<and> lease_generation r = g \<and> entry r \<in> set fs)"

lemma collect_sound:
  "rfold (collect_record h book) fs acc = Inr bg \<Longrightarrow> set fs \<subseteq> set all \<Longrightarrow> collected h book all acc \<Longrightarrow>
     collected h book all bg"
proof (induction fs arbitrary: acc)
  case (Cons f fs)
  from Cons.prems(1) obtain acc' where s: "collect_record h book f acc = Inr acc'"
    and rest: "rfold (collect_record h book) fs acc' = Inr bg" by (auto simp: rbind_eq_Inr)
  from s Cons.prems(2,3) have "collected h book all acc'"
    by (auto simp: collect_record_Inr collected_def update_conv' split: if_splits)
  with Cons.IH [OF rest] Cons.prems(2) show ?case by simp
qed simp

lemma collect_history_sound:
  "collect_history h book fs = Inr bg \<Longrightarrow> collected h book fs bg"
  using collect_sound [of h book "sort_key fst fs" "[]" bg fs]
  by (simp add: collect_history_def collected_def)

lemma collect_complete:
  assumes "\<And>f. f \<in> set fs \<Longrightarrow> \<exists>r. f = entry r \<and> lease_of h book r"
    and "distinct (map (\<lambda>f. case snd f of Doc (JObj r) \<Rightarrow> lease_generation r) fs)"
    and "\<And>r. entry r \<in> set fs \<Longrightarrow> map_of acc (lease_generation r) = None"
  shows "\<exists>bg. rfold (collect_record h book) fs acc = Inr bg \<and>
     (\<forall>g r. map_of bg g = Some r \<longleftrightarrow> map_of acc g = Some r \<or> (entry r \<in> set fs \<and> lease_generation r = g))"
  using assms
proof (induction fs arbitrary: acc)
  case (Cons f fs)
  from Cons.prems(1) [of f] obtain r where f: "f = entry r" and r: "lease_of h book r" by auto
  have none: "map_of acc (lease_generation r) = None"
    using Cons.prems(3) [of r] f by simp
  let ?acc = "AList.update (lease_generation r) r acc"
  have step: "collect_record h book f acc = Inr ?acc"
    using f r none by (auto simp: collect_record_Inr)
  have gen: "entry q \<in> set fs \<Longrightarrow> lease_generation q \<noteq> lease_generation r" for q
    using Cons.prems(2) f by (auto simp: entry_def image_iff)
  have "\<exists>bg. rfold (collect_record h book) fs ?acc = Inr bg \<and>
     (\<forall>g q. map_of bg g = Some q \<longleftrightarrow> map_of ?acc g = Some q \<or> (entry q \<in> set fs \<and> lease_generation q = g))"
  proof (rule Cons.IH)
    show "\<exists>r. x = entry r \<and> lease_of h book r" if "x \<in> set fs" for x using Cons.prems(1) that by simp
    show "distinct (map (\<lambda>f. case snd f of Doc (JObj r) \<Rightarrow> lease_generation r) fs)" using Cons.prems(2) by simp
    show "map_of ?acc (lease_generation q) = None" if "entry q \<in> set fs" for q
      using Cons.prems(3) [of q] that gen [OF that] by (simp add: update_conv')
  qed
  then show ?case
    using step none by (fastforce simp: f entry_def update_conv')
qed auto


lemma entry_inj: "entry r = entry q \<longleftrightarrow> r = q"
  by (auto simp: entry_def)

lemma collect_history_complete:
  assumes c: "chain_ok h book chain" and e: "set fs = entry ` set chain" and d: "distinct fs"
  shows "\<exists>bg. collect_history h book fs = Inr bg \<and>
     (\<forall>g r. map_of bg g = Some r \<longleftrightarrow> r \<in> set chain \<and> lease_generation r = g)"
proof -
  have inj: "x = y" if "x \<in> set fs" and "y \<in> set fs"
    and "(case snd x of Doc (JObj r) \<Rightarrow> lease_generation r) = (case snd y of Doc (JObj r) \<Rightarrow> lease_generation r)" for x y
  proof -
    from that(1,2) obtain r q where r: "r \<in> set chain" "x = entry r" and q: "q \<in> set chain" "y = entry q"
      unfolding e by blast
    with that(3) have "lease_generation r = lease_generation q" by (simp add: entry_def)
    with chain_from_inj [OF c [unfolded chain_ok_def] r(1) q(1)] r q show "x = y" by simp
  qed
  have "\<exists>bg. rfold (collect_record h book) (sort_key fst fs) [] = Inr bg \<and>
     (\<forall>g r. map_of bg g = Some r \<longleftrightarrow> map_of [] g = Some r \<or> (entry r \<in> set (sort_key fst fs) \<and> lease_generation r = g))"
  proof (rule collect_complete)
    show "\<exists>r. f = entry r \<and> lease_of h book r" if "f \<in> set (sort_key fst fs)" for f
      using that e c chain_from_members unfolding chain_ok_def by fastforce
    show "distinct (map (\<lambda>f. case snd f of Doc (JObj r) \<Rightarrow> lease_generation r) (sort_key fst fs))"
      using d inj by (auto simp: distinct_map intro!: inj_onI)
  qed simp
  then show ?thesis by (simp add: collect_history_def e image_iff entry_inj)
qed

section \<open>The chain of a directory\<close>

lemma descend_sound:
  "descend bg p [g..n] = Inr chain \<Longrightarrow> collected h book fs bg \<Longrightarrow>
     chain_from h book g p chain \<and> (\<forall>r \<in> set chain. map_of bg (lease_generation r) = Some r) \<and> length chain = nat (n + 1 - g)"
proof (induction g n arbitrary: p chain rule: upto.induct)
  case (1 g n)
  show ?case
  proof (cases "g \<le> n")
    case True
    with 1(2) obtain r rest where r: "map_of bg g = Some r" and p: "dget r ''previous_lease_hash'' = p"
      and d: "descend bg (dget r ''lease_hash'') [g + 1..n] = Inr rest" and ch: "chain = r # rest"
      by (subst (asm) upto.simps) (auto simp: rbind_eq_Inr split: option.splits if_splits)
    from 1(1) [OF True d 1(3)] r p ch 1(3) True show ?thesis
      by (auto simp: collected_def)
  qed (use 1(2) in simp)
qed

lemma descend_complete:
  "chain_from h book g p rs \<Longrightarrow> (\<And>r. r \<in> set rs \<Longrightarrow> map_of bg (lease_generation r) = Some r) \<Longrightarrow>
     descend bg p [g..g + int (length rs) - 1] = Inr rs"
proof (induction rs arbitrary: g p)
  case (Cons r rs)
  have "[g..g + int (length (r # rs)) - 1] = g # [g + 1..(g + 1) + int (length rs) - 1]"
    by (subst upto.simps) (auto simp: algebra_simps)
  moreover have "descend bg (dget r ''lease_hash'') [g + 1..(g + 1) + int (length rs) - 1] = Inr rs"
    using Cons.prems by (intro Cons.IH) auto
  ultimately show ?case using Cons.prems by (auto simp: rbind_eq_Inr)
qed simp

lemma bounded_by_Max: "set bg \<noteq> {} \<Longrightarrow> g \<in> set (map fst bg) \<Longrightarrow> g \<le> last_generation bg"
  by (auto simp: last_generation_def intro!: Max_ge)

text \<open>The chain that the code rebuilds is an abstract history, and its records are in the files.\<close>

lemma lease_chain_sound:
  assumes "lease_chain h book fs = Inr (bg, chain)"
  shows "chain_ok h book chain" and "\<forall>g r. map_of bg g = Some r \<longleftrightarrow> r \<in> set chain \<and> lease_generation r = g"
    and "entry ` set chain \<subseteq> set fs" and "chain = [] \<longleftrightarrow> bg = []"
proof -
  from assms obtain c: "collect_history h book fs = Inr bg"
    and cases: "bg = [] \<and> chain = [] \<or> bg \<noteq> [] \<and> check_no_gap bg = Inr () \<and> descend bg JNull [1..last_generation bg] = Inr chain"
    by (auto simp: lease_chain_def rbind_eq_Inr split: if_splits)
  from collect_history_sound [OF c] have col: "collected h book fs bg" .
  have all: "chain_ok h book chain \<and> (\<forall>g r. map_of bg g = Some r \<longleftrightarrow> r \<in> set chain \<and> lease_generation r = g) \<and> (chain = [] \<longleftrightarrow> bg = [])"
    using cases
  proof
    assume b: "bg \<noteq> [] \<and> check_no_gap bg = Inr () \<and> descend bg JNull [1..last_generation bg] = Inr chain"
    with descend_sound [OF _ col] have ch: "chain_from h book 1 JNull chain"
      and m: "\<forall>r \<in> set chain. map_of bg (lease_generation r) = Some r" and len: "length chain = nat (last_generation bg)"
      by force+
    from b have keys: "fst ` set bg = {1..last_generation bg}" and "bg \<noteq> []"
      by (auto simp: check_no_gap_def split: if_splits)
    then have "last_generation bg \<ge> 1" by (metis atLeastatMost_empty_iff image_is_empty set_empty)
    have onto: "r \<in> set chain" if r: "map_of bg g = Some r" for g r
    proof -
      from r keys have g: "1 \<le> g" "g \<le> last_generation bg" by (force dest: map_of_SomeD)+
      with len have i: "nat (g - 1) < length chain" by simp
      from chain_from_generation [OF ch i] g have "lease_generation (chain ! nat (g - 1)) = g" by simp
      with m i r show ?thesis by (metis nth_mem option.inject)
    qed
    have "chain \<noteq> []" using len \<open>last_generation bg \<ge> 1\<close> by auto
    with ch m onto b col show ?thesis unfolding chain_ok_def collected_def by blast
  qed (simp add: chain_ok_def)
  then show "chain_ok h book chain" "\<forall>g r. map_of bg g = Some r \<longleftrightarrow> r \<in> set chain \<and> lease_generation r = g"
    "chain = [] \<longleftrightarrow> bg = []" by simp_all
  then show "entry ` set chain \<subseteq> set fs" using col unfolding collected_def by blast
qed

lemma lease_chain_complete:
  assumes c: "chain_ok h book chain" and e: "set fs = entry ` set chain" and d: "distinct fs"
  shows "\<exists>bg. lease_chain h book fs = Inr (bg, chain) \<and> (\<forall>g r. map_of bg g = Some r \<longleftrightarrow> r \<in> set chain \<and> lease_generation r = g)"
proof -
  from collect_history_complete [OF c e d] obtain bg where bg: "collect_history h book fs = Inr bg"
    and m: "\<And>g r. map_of bg g = Some r \<longleftrightarrow> r \<in> set chain \<and> lease_generation r = g" by blast
  show ?thesis
  proof (cases "bg = []")
    case True
    then have "chain = []" using m by (cases chain) auto
    with True m bg show ?thesis by (simp add: lease_chain_def)
  next
    case False
    have keys: "fst ` set bg = {1..int (length chain)}"
    proof -
      have "g \<in> fst ` set bg \<longleftrightarrow> (\<exists>r \<in> set chain. lease_generation r = g)" for g
        using m [of g] by (metis domIff dom_map_of_conv_image_fst not_None_eq)
      moreover have "(\<exists>r \<in> set chain. lease_generation r = g) \<longleftrightarrow> 1 \<le> g \<and> g \<le> int (length chain)" for g
      proof
        assume g: "1 \<le> g \<and> g \<le> int (length chain)"
        then have "nat (g - 1) < length chain" by (simp add: nat_less_iff)
        with chain_from_generation [OF c [unfolded chain_ok_def] this] g
        show "\<exists>r \<in> set chain. lease_generation r = g" by (metis add_diff_cancel_left' nth_mem diff_ge_0_iff_ge nat_0_le diff_add_cancel add.commute)
      qed (use chain_from_members [OF c [unfolded chain_ok_def]] in fastforce)
      ultimately show ?thesis by (intro set_eqI) simp
    qed
    with False have "int (length chain) \<ge> 1" by (metis image_is_empty set_empty atLeastatMost_empty_iff)
    then have lst: "last_generation bg = int (length chain)"
      by (auto simp: last_generation_def keys intro!: Max_eqI)
    have "descend bg JNull [1..1 + int (length chain) - 1] = Inr chain"
      using c m by (intro descend_complete) (auto simp: chain_ok_def)
    with False bg keys lst m show ?thesis
      by (auto simp: lease_chain_def rbind_eq_Inr check_no_gap_def)
  qed
qed

section \<open>Directories that hold a chain\<close>

lemma read_show_06d: "0 \<le> i \<Longrightarrow> read_nat (show_06d i) = nat i"
  by (simp add: show_06d_def Let_def read_nat_zeros)

lemma show_06d_inj: "0 \<le> i \<Longrightarrow> 0 \<le> j \<Longrightarrow> show_06d i = show_06d j \<Longrightarrow> i = j"
  by (metis read_show_06d eq_nat_nat_iff)

lemma show_06d_digits: "0 \<le> i \<Longrightarrow> c \<in> set (show_06d i) \<Longrightarrow> is_digit c"
  by (auto simp: show_06d_def Let_def is_digit_def dest: show_nat_digits split: if_splits)

lemma history_name_generation:
  assumes "history_name r = history_name q" and "1 \<le> lease_generation r" and "1 \<le> lease_generation q"
  shows "lease_generation r = lease_generation q"
proof -
  have "takeWhile is_digit (history_name p) = show_06d (lease_generation p)" if "1 \<le> lease_generation p" for p
    using that show_06d_digits [of "lease_generation p"]
    by (simp add: history_name_def takeWhile_append is_digit_def)
  with assms have "show_06d (lease_generation r) = show_06d (lease_generation q)" by metis
  with assms(2,3) show ?thesis by (intro show_06d_inj) simp_all
qed

text \<open>
  The abstraction relation: the history files are the leases of a chain, and \<open>current.json\<close>, where
  there is one, is a lease of it. After a crash in the middle of a publication it is not the last.
\<close>

definition dir_chain :: "host \<Rightarrow> string \<Rightarrow> dict list \<Rightarrow> lease_dir \<Rightarrow> bool" where
  "dir_chain h book chain dir \<longleftrightarrow>
     chain_ok h book chain \<and> (\<forall>r \<in> set chain. py_eq (JObj r) (JObj r)) \<and>
     set (history_files dir) = entry ` set chain \<and> distinct (map fst (history_files dir)) \<and>
     (case current_file dir of None \<Rightarrow> True | Some f \<Rightarrow> \<exists>c \<in> set chain. f = Doc (JObj c))"

definition settled :: "dict list \<Rightarrow> lease_dir \<Rightarrow> bool" where
  "settled chain dir \<longleftrightarrow> chain = [] \<or> \<not> current_differs (last chain) (current_file dir)"

lemma dir_chain_empty [simp]: "dir_chain h book [] \<lparr>current_file = None, history_files = []\<rparr>"
  by (simp add: dir_chain_def chain_ok_def)

lemma check_current_dir:
  assumes "dir_chain h book chain dir"
    and m: "\<And>g r. map_of bg g = Some r \<longleftrightarrow> r \<in> set chain \<and> lease_generation r = g"
  shows "check_current h bg (current_file dir) = Inr ()"
proof (cases "current_file dir")
  case (Some f)
  with assms(1) obtain c where f: "f = Doc (JObj c)" and c: "c \<in> set chain" and e: "py_eq (JObj c) (JObj c)"
    and v: "validate_book_lease h (JObj c) = Inr (JObj c)"
    using chain_from_members unfolding dir_chain_def chain_ok_def lease_of_def by fastforce
  from m c have "map_of bg (lease_generation c) = Some c" by blast
  with Some f e v show ?thesis by (simp add: check_current_def load_json_object_def)
qed (simp add: check_current_def)

definition rolled_forward :: "dict list \<Rightarrow> lease_dir \<Rightarrow> lease_dir" where
  "rolled_forward chain dir =
     (if settled chain dir then dir else dir\<lparr>current_file := Some (Doc (JObj (last chain)))\<rparr>)"

lemma reconcile_dir:
  assumes d: "dir_chain h book chain dir"
  shows "reconcile_history_head h book publish dir =
     (if settled chain dir \<or> publish
      then (Inr (if chain = [] then None else Some (last chain)), rolled_forward chain dir)
      else (Inl (BookLeaseError ''book_lease_recovery_required''
              ''lease history is ahead of current; acquire the remap fence to recover''), dir))"
proof (cases "chain = []")
  case True
  with d show ?thesis
    by (auto simp: reconcile_history_head_def dir_chain_def settled_def rolled_forward_def split: option.splits)
next
  case False
  from d have "chain_ok h book chain" "set (history_files dir) = entry ` set chain" "distinct (history_files dir)"
    by (simp_all add: dir_chain_def distinct_map)
  from lease_chain_complete [OF this] obtain bg where l: "lease_chain h book (history_files dir) = Inr (bg, chain)"
    and m: "\<And>g r. map_of bg g = Some r \<longleftrightarrow> r \<in> set chain \<and> lease_generation r = g" by blast
  from False d have "history_files dir \<noteq> []" by (auto simp: dir_chain_def)
  with False l check_current_dir [OF d m] show ?thesis
    by (simp add: reconcile_history_head_def settled_def rolled_forward_def)
qed

lemma rolled_forward_dir:
  assumes "dir_chain h book chain dir"
  shows "dir_chain h book chain (rolled_forward chain dir)" and "settled chain (rolled_forward chain dir)"
  using assms by (auto simp: rolled_forward_def dir_chain_def settled_def current_differs_def)

section \<open>Publishing the next generation\<close>

definition next_lease :: "host \<Rightarrow> string \<Rightarrow> dict list \<Rightarrow> dict \<Rightarrow> bool" where
  "next_lease h book chain r \<longleftrightarrow>
     lease_of h book r \<and> py_eq (JObj r) (JObj r) \<and> lease_generation r = int (length chain) + 1 \<and>
     dget r ''previous_lease_hash'' = (if chain = [] then JNull else dget (last chain) ''lease_hash'')"

lemma chain_ok_snoc: "chain_ok h book chain \<Longrightarrow> next_lease h book chain r \<Longrightarrow> chain_ok h book (chain @ [r])"
  by (auto simp: chain_ok_def next_lease_def chain_from_append head_hash_def last_map split: if_splits)

lemma publish_history_dir:
  assumes d: "dir_chain h book chain dir" and n: "next_lease h book chain r"
  shows "\<exists>dir'. publish_history h r dir = Inr dir' \<and> dir_chain h book (chain @ [r]) dir' \<and>
     current_file dir' = current_file dir"
proof -
  have c: "chain_from h book 1 JNull chain" using d by (simp add: dir_chain_def chain_ok_def)
  have "history_name q \<noteq> history_name r" if "q \<in> set chain" for q
  proof
    assume "history_name q = history_name r"
    moreover from chain_from_members [OF c that] have "1 \<le> lease_generation q" "lease_generation q \<le> int (length chain)" by simp_all
    moreover have "lease_generation r = int (length chain) + 1" using n by (simp add: next_lease_def)
    ultimately show False using history_name_generation by fastforce
  qed
  then have fresh: "history_name r \<notin> fst ` set (history_files dir)"
    using d by (fastforce simp: dir_chain_def entry_def)
  then have "atomic_append_json (history_name r) r (history_files dir) = Inr (history_files dir @ [entry r])"
    by (simp add: append_new map_of_eq_None_iff entry_def)
  moreover have "validate_book_lease h (JObj r) = Inr (JObj r)" using n by (simp add: next_lease_def lease_of_def)
  ultimately have "publish_history h r dir = Inr (dir\<lparr>history_files := history_files dir @ [entry r]\<rparr>)"
    by (simp add: publish_history_def)
  moreover have "dir_chain h book (chain @ [r]) (dir\<lparr>history_files := history_files dir @ [entry r]\<rparr>)"
    using d n fresh chain_ok_snoc by (auto simp: dir_chain_def next_lease_def entry_def split: option.splits)
  ultimately show ?thesis by simp
qed

lemma publish_lease_dir:
  assumes d: "dir_chain h book chain dir" and n: "next_lease h book chain r"
  shows "\<exists>dir'. publish_lease h r dir = (Inr (), dir') \<and> dir_chain h book (chain @ [r]) dir' \<and> settled (chain @ [r]) dir'"
proof -
  from publish_history_dir [OF d n] obtain dir' where "publish_history h r dir = Inr dir'"
    and "dir_chain h book (chain @ [r]) dir'" by blast
  then show ?thesis using n
    by (auto simp: publish_lease_def dir_chain_def settled_def current_differs_def next_lease_def)
qed

section \<open>Built leases\<close>

lemma build_book_lease_fields:
  assumes "build_book_lease h a = Inr r"
  shows "validate_book_lease h (JObj r) = Inr (JObj r)"
    and "dget r ''book_id'' = la_book_id a" and "dget r ''session_id'' = la_session_id a"
    and "dget r ''plan_id'' = la_plan_id a" and "dget r ''previous_lease_hash'' = la_previous_lease_hash a"
    and "lease_generation r = la_generation a" and "dget r ''status'' = JStr (la_status a)"
    and "dget r ''expires_at'' = la_expires_at a" and "dget r ''renewed_at'' = la_renewed_at a"
    and "dget r ''acquired_at'' = la_acquired_at a"
proof -
  from assms obtain body x where b: "lease_body a = Inr body" and r: "r = dset ''lease_hash'' (JStr x) body"
    and v: "\<exists>w. validate_book_lease h (JObj r) = Inr w"
    by (auto simp: build_book_lease_def rbind_eq_Inr Let_def)
  from v show "validate_book_lease h (JObj r) = Inr (JObj r)" using validate_book_lease_id by blast
  from b show "dget r ''book_id'' = la_book_id a" "dget r ''session_id'' = la_session_id a"
    "dget r ''plan_id'' = la_plan_id a" "dget r ''previous_lease_hash'' = la_previous_lease_hash a"
    "lease_generation r = la_generation a" "dget r ''status'' = JStr (la_status a)"
    "dget r ''expires_at'' = la_expires_at a" "dget r ''renewed_at'' = la_renewed_at a"
    "dget r ''acquired_at'' = la_acquired_at a"
    unfolding lease_body_def r by (auto simp: res_simps dget_def lease_generation_def)
qed

lemma parse_utc_text: "parse_utc h v = Inr t \<Longrightarrow> \<exists>s. v = JStr s"
  by (cases v) (auto simp: parse_utc_def rbind_eq_Inr au_required_text_def)

lemma lease_times_text:
  "lease_times_ok h d = Inr () \<Longrightarrow> f \<in> {''acquired_at'', ''renewed_at'', ''expires_at''} \<Longrightarrow> \<exists>s. dget d f = JStr s"
  by (auto simp: lease_times_ok_def rbind_eq_Inr on_item_eq_Inr dget_def dest!: parse_utc_text)

lemma build_book_lease_self:
  assumes "build_book_lease h a = Inr r"
  shows "py_eq (JObj r) (JObj r)"
proof -
  from assms obtain body x where b: "lease_body a = Inr body" and r: "r = dset ''lease_hash'' (JStr x) body"
    by (auto simp: build_book_lease_def rbind_eq_Inr Let_def)
  have "lease_times_ok h r = Inr ()"
    using build_book_lease_fields(1) [OF assms] by (simp add: validate_book_lease_Inr)
  then obtain s t u where "la_acquired_at a = JStr s" "la_renewed_at a = JStr t" "la_expires_at a = JStr u"
    using lease_times_text [of h r] build_book_lease_fields(8,9,10) [OF assms] by (metis insertCI)
  moreover have "\<exists>w. la_previous_lease_hash a = JStr w \<or> la_previous_lease_hash a = JNull"
    using b by (auto simp: lease_body_def res_simps digest_or_null_def dest!: json_sha256D)
  ultimately show ?thesis
    using b by (auto simp: r lease_body_def res_simps dset_def as_float_def float_eq_def)
qed


text \<open>What building the successor of the head leaves: the next lease of the chain, or an error.\<close>

lemma publish_new_dir:
  assumes d: "dir_chain h book chain dir" and s: "settled chain dir"
    and a: "\<And>a. args = Inr a \<Longrightarrow> la_book_id a = JStr book \<and> la_generation a = int (length chain) + 1 \<and>
       la_previous_lease_hash a = (if chain = [] then JNull else dget (last chain) ''lease_hash'')"
    and p: "publish_new h args dir = (out, dir')"
  shows "case out of
      Inl e \<Rightarrow> dir' = dir
    | Inr r \<Rightarrow> next_lease h book chain r \<and> (\<exists>a. args = Inr a \<and> build_book_lease h a = Inr r) \<and>
        dir_chain h book (chain @ [r]) dir' \<and> settled (chain @ [r]) dir'"
proof (cases "rbind args (build_book_lease h)")
  case (Inl e)
  with p have "out = Inl e" and "dir' = dir" by (simp_all add: publish_new_def)
  then show ?thesis by simp
next
  case (Inr r)
  then obtain a where ar: "args = Inr a" and b: "build_book_lease h a = Inr r" by (auto simp: rbind_eq_Inr)
  with a have n: "next_lease h book chain r"
    using build_book_lease_fields [OF b] build_book_lease_self [OF b] by (simp add: next_lease_def lease_of_def)
  from publish_lease_dir [OF d n] Inr p ar b n show ?thesis by (auto simp: publish_new_def)
qed

lemma chain_ok_last:
  assumes "chain_ok h book chain" and "chain \<noteq> []"
  shows "lease_of h book (last chain)" and "lease_generation (last chain) = int (length chain)"
proof -
  have c: "chain_from h book 1 JNull chain" using assms(1) by (simp add: chain_ok_def)
  show "lease_of h book (last chain)" using chain_from_members [OF c] assms(2) by simp
  show "lease_generation (last chain) = int (length chain)"
    using chain_from_generation [OF c, of "length chain - 1"] assms(2) by (simp add: last_conv_nth Suc_leI)
qed

section \<open>The methods on a directory that holds a chain\<close>

lemma acquire_in_dir:
  assumes d: "dir_chain h book chain dir"
    and o: "acquire_in h book session plan ttl timestamp moment dir = (out, dir')"
  shows "case out of
      Inl e \<Rightarrow> dir' = rolled_forward chain dir
    | Inr r \<Rightarrow> dget r ''session_id'' = JStr session \<and> dget r ''plan_id'' = JStr plan \<and>
        (if chain \<noteq> [] \<and> is_active_at h (last chain) timestamp = Inr True
         then r = last chain \<and> dir' = rolled_forward chain dir
         else next_lease h book chain r \<and> dir_chain h book (chain @ [r]) dir' \<and> settled (chain @ [r]) dir' \<and>
           (chain = [] \<or> is_active_at h (last chain) timestamp = Inr False))"
proof -
  note rd = rolled_forward_dir [OF d]
  have pub: "case out of Inl e \<Rightarrow> dir' = rolled_forward chain dir
    | Inr r \<Rightarrow> dget r ''session_id'' = JStr session \<and> dget r ''plan_id'' = JStr plan \<and>
        next_lease h book chain r \<and> dir_chain h book (chain @ [r]) dir' \<and> settled (chain @ [r]) dir'"
    if p: "publish_new h (acquire_args h book session plan ttl timestamp moment
             (if chain = [] then None else Some (last chain))) (rolled_forward chain dir) = (out, dir')"
  proof -
    note pn = publish_new_dir [OF rd _ p]
    have a: "la_book_id a = JStr book \<and> la_generation a = int (length chain) + 1 \<and>
       la_previous_lease_hash a = (if chain = [] then JNull else dget (last chain) ''lease_hash'') \<and>
       la_session_id a = JStr session \<and> la_plan_id a = JStr plan"
      if "acquire_args h book session plan ttl timestamp moment (if chain = [] then None else Some (last chain)) = Inr a" for a
      using that chain_ok_last(2) [of h book chain] d
      by (auto simp: acquire_args_def rbind_eq_Inr dir_chain_def split: if_splits)
    show ?thesis
    proof (cases out)
      case (Inr r)
      with pn a show ?thesis using build_book_lease_fields(3,4) by fastforce
    qed (use pn a in simp)
  qed
  show ?thesis
  proof (cases "chain = []")
    case True
    with o pub show ?thesis by (simp add: acquire_in_def reconcile_dir [OF d] split: sum.splits)
  next
    case False
    show ?thesis
    proof (cases "is_active_at h (last chain) timestamp = Inr False")
      case True
      with False o pub show ?thesis by (simp add: acquire_in_def reconcile_dir [OF d] split: sum.splits)
    next
      case active: False
      with False o show ?thesis
        by (auto simp: acquire_in_def reconcile_dir [OF d] split: sum.splits bool.splits if_splits)
    qed
  qed
qed

lemma renew_in_dir:
  assumes d: "dir_chain h book chain dir"
    and o: "renew_in h book session_id plan_id expected ttl timestamp moment dir = (out, dir')"
  shows "case out of
      Inl e \<Rightarrow> dir' = rolled_forward chain dir
    | Inr r \<Rightarrow> chain \<noteq> [] \<and> dget (last chain) ''lease_hash'' = expected \<and> is_active_at h (last chain) timestamp = Inr True \<and>
        dget (last chain) ''session_id'' = session_id \<and> dget (last chain) ''plan_id'' = plan_id \<and>
        dget r ''session_id'' = session_id \<and> dget r ''plan_id'' = plan_id \<and>
        next_lease h book chain r \<and> dir_chain h book (chain @ [r]) dir' \<and> settled (chain @ [r]) dir'"
proof (cases "chain = []")
  case True
  with o show ?thesis by (auto simp: renew_in_def reconcile_dir [OF d])
next
  case False
  note rd = rolled_forward_dir [OF d]
  let ?args = "rbind (after_seconds h moment ttl) (\<lambda>expires. Inr (successor_args book (last chain) timestamp expires ''active''))"
  let ?guard = "rbind (check_expected_hash expected (last chain)) (\<lambda>_.
                rbind (assert_owner (last chain) session_id plan_id) (\<lambda>_.
                rbind (is_active_at h (last chain) timestamp) (\<lambda>active.
                if \<not> active then Inl (BookLeaseError ''book_lease_expired'' ''expired lease cannot be renewed'')
                else Inr ())))"
  show ?thesis
  proof (cases ?guard)
    case (Inl e)
    with o False show ?thesis by (auto simp: renew_in_def reconcile_dir [OF d])
  next
    case (Inr u)
    with o False have p: "publish_new h ?args (rolled_forward chain dir) = (out, dir')"
      by (simp add: renew_in_def reconcile_dir [OF d])
    from Inr have "dget (last chain) ''lease_hash'' = expected" "is_active_at h (last chain) timestamp = Inr True"
      "dget (last chain) ''session_id'' = session_id" "dget (last chain) ''plan_id'' = plan_id"
      by (auto simp: check_expected_hash_def assert_owner_def res_simps split: if_splits)
    note guards = this
    note pn = publish_new_dir [OF rd _ p]
    have a: "la_book_id a = JStr book \<and> la_generation a = int (length chain) + 1 \<and>
       la_previous_lease_hash a = (if chain = [] then JNull else dget (last chain) ''lease_hash'') \<and>
       la_session_id a = session_id \<and> la_plan_id a = plan_id" if "?args = Inr a" for a
      using that guards chain_ok_last(2) [of h book chain] d False
      by (auto simp: successor_args_def rbind_eq_Inr dir_chain_def)
    show ?thesis
    proof (cases out)
      case (Inr r)
      with pn a have "next_lease h book chain r \<and> dir_chain h book (chain @ [r]) dir' \<and> settled (chain @ [r]) dir'"
        and "\<exists>a. ?args = Inr a \<and> build_book_lease h a = Inr r" by simp_all
      with a guards False Inr show ?thesis using build_book_lease_fields(3,4) by fastforce
    qed (use pn a in simp)
  qed
qed

lemma release_in_dir:
  assumes d: "dir_chain h book chain dir"
    and o: "release_in h book session_id plan_id expected timestamp dir = (out, dir')"
  shows "case out of
      Inl e \<Rightarrow> dir' = rolled_forward chain dir
    | Inr None \<Rightarrow> chain = [] \<and> dir' = rolled_forward chain dir
    | Inr (Some r) \<Rightarrow> chain \<noteq> [] \<and>
        (if dget (last chain) ''status'' = JStr ''released'' then r = last chain \<and> dir' = rolled_forward chain dir
         else dget (last chain) ''session_id'' = session_id \<and> dget (last chain) ''plan_id'' = plan_id \<and>
           (expected = JNull \<or> dget (last chain) ''lease_hash'' = expected) \<and>
           dget r ''status'' = JStr ''released'' \<and>
           next_lease h book chain r \<and> dir_chain h book (chain @ [r]) dir' \<and> settled (chain @ [r]) dir')"
proof (cases "chain = []")
  case True
  with o show ?thesis by (auto simp: release_in_def reconcile_dir [OF d])
next
  case False
  note rd = rolled_forward_dir [OF d]
  let ?args = "Inr (successor_args book (last chain) timestamp timestamp ''released'')"
  let ?guard = "rbind (assert_owner (last chain) session_id plan_id) (\<lambda>_.
                  if expected = JNull then Inr () else check_expected_hash expected (last chain))"
  show ?thesis
  proof (cases "dget (last chain) ''status'' = JStr ''released''")
    case True
    with o False show ?thesis by (auto simp: release_in_def reconcile_dir [OF d])
  next
    case live: False
    show ?thesis
    proof (cases ?guard)
      case (Inl e)
      with o False live show ?thesis by (auto simp: release_in_def reconcile_dir [OF d])
    next
      case (Inr u)
      obtain out2 dir2 where p: "publish_new h ?args (rolled_forward chain dir) = (out2, dir2)" by force
      with o False live Inr have out: "out = map_sum id Some out2" "dir' = dir2"
        by (auto simp: release_in_def reconcile_dir [OF d] split: sum.splits)
      from Inr have "dget (last chain) ''session_id'' = session_id" "dget (last chain) ''plan_id'' = plan_id"
        "expected = JNull \<or> dget (last chain) ''lease_hash'' = expected"
        by (auto simp: check_expected_hash_def assert_owner_def res_simps split: if_splits)
      note guards = this
      note pn = publish_new_dir [OF rd _ p]
      have a: "la_book_id a = JStr book \<and> la_generation a = int (length chain) + 1 \<and>
         la_previous_lease_hash a = (if chain = [] then JNull else dget (last chain) ''lease_hash'') \<and>
         la_status a = ''released''" if "?args = Inr a" for a
        using that chain_ok_last(2) [of h book chain] d False
        by (auto simp: successor_args_def dir_chain_def)
      show ?thesis
      proof (cases out2)
        case (Inr r)
        with pn a have "next_lease h book chain r \<and> dir_chain h book (chain @ [r]) dir2 \<and> settled (chain @ [r]) dir2"
          and "\<exists>a. ?args = Inr a \<and> build_book_lease h a = Inr r" by simp_all
        with a guards False live Inr out show ?thesis using build_book_lease_fields(7) by fastforce
      qed (use pn a out in simp)
    qed
  qed
qed

section \<open>Runs\<close>

text \<open>A lease that comes right after the head: what \<open>acquire\<close>, \<open>renew\<close> and \<open>release\<close> build.\<close>

definition follows_head :: "string \<Rightarrow> dict option \<Rightarrow> lease_args \<Rightarrow> bool" where
  "follows_head book head a \<longleftrightarrow>
     la_book_id a = JStr book \<and>
     la_generation a = (case head of None \<Rightarrow> 1 | Some c \<Rightarrow> lease_generation c + 1) \<and>
     la_previous_lease_hash a = (case head of None \<Rightarrow> JNull | Some c \<Rightarrow> dget c ''lease_hash'')"

lemma acquire_follows: "acquire_args h book session plan ttl timestamp moment head = Inr a \<Longrightarrow> follows_head book head a"
  by (auto simp: acquire_args_def follows_head_def rbind_eq_Inr)

lemma successor_follows: "follows_head book (Some c) (successor_args book c timestamp expires status)"
  by (simp add: successor_args_def follows_head_def)

text \<open>
  One operation on the directory of a book, by any session, at any time; or an operation that stops
  after it has published to the history and before it replaces \<open>current.json\<close>.
\<close>

inductive lease_step :: "host \<Rightarrow> string \<Rightarrow> lease_dir \<Rightarrow> lease_dir \<Rightarrow> bool" for h book where
  acquiring: "acquire_in h book session plan ttl timestamp moment dir = (out, dir') \<Longrightarrow> lease_step h book dir dir'"
| renewing: "renew_in h book session_id plan_id expected ttl timestamp moment dir = (out, dir') \<Longrightarrow> lease_step h book dir dir'"
| releasing: "release_in h book session_id plan_id expected timestamp dir = (out', dir') \<Longrightarrow> lease_step h book dir dir'"
| reconciling: "reconcile_history_head h book publish dir = (out', dir') \<Longrightarrow> lease_step h book dir dir'"
| interrupted: "reconcile_history_head h book True dir = (Inr head, dir1) \<Longrightarrow> follows_head book head a \<Longrightarrow>
    build_book_lease h a = Inr r \<Longrightarrow> publish_history h r dir1 = Inr dir' \<Longrightarrow> lease_step h book dir dir'"

definition lease_run :: "host \<Rightarrow> string \<Rightarrow> lease_dir \<Rightarrow> bool" where
  "lease_run h book = (lease_step h book)\<^sup>*\<^sup>* \<lparr>current_file = None, history_files = []\<rparr>"

lemma follows_next:
  assumes "chain_ok h book chain" and "follows_head book (if chain = [] then None else Some (last chain)) a"
    and "build_book_lease h a = Inr r"
  shows "next_lease h book chain r"
  using assms(2) chain_ok_last [OF assms(1)] build_book_lease_fields [OF assms(3)] build_book_lease_self [OF assms(3)]
  by (auto simp: follows_head_def next_lease_def lease_of_def split: if_splits)

text \<open>The simulation: a step leaves the chain as it is or appends one lease to it.\<close>

lemma lease_step_simulation:
  assumes "lease_step h book dir dir'" and d: "dir_chain h book chain dir"
  shows "\<exists>new. length new \<le> 1 \<and> dir_chain h book (chain @ new) dir'"
  using assms(1)
proof cases
  case (acquiring session plan ttl timestamp moment out)
  from acquire_in_dir [OF d this] rolled_forward_dir [OF d] show ?thesis
    by (cases out) (auto intro: exI [of _ "[]"] exI [of _ "[r]" for r] split: if_splits)
next
  case (renewing session_id plan_id expected ttl timestamp moment out)
  from renew_in_dir [OF d this] rolled_forward_dir [OF d] show ?thesis
    by (cases out) (auto intro: exI [of _ "[]"] exI [of _ "[r]" for r])
next
  case (releasing session_id plan_id expected timestamp out)
  from release_in_dir [OF d this] rolled_forward_dir [OF d] show ?thesis
    by (auto intro: exI [of _ "[]"] exI [of _ "[r]" for r] split: sum.splits option.splits if_splits)
next
  case (reconciling publish out)
  with reconcile_dir [OF d, of publish] rolled_forward_dir [OF d] d show ?thesis
    by (auto intro: exI [of _ "[]"] split: if_splits)
next
  case (interrupted head dir1 a r)
  from interrupted(1) have h: "head = (if chain = [] then None else Some (last chain))" and d1: "dir_chain h book chain dir1"
    using reconcile_dir [OF d, of True] rolled_forward_dir [OF d] by (auto split: if_splits)
  have "next_lease h book chain r"
    using follows_next [OF _ interrupted(2)[unfolded h] interrupted(3)] d by (simp add: dir_chain_def)
  from publish_history_dir [OF d1 this] interrupted(4) show ?thesis by (auto intro: exI [of _ "[r]"])
qed

lemma lease_run_chain:
  assumes "lease_run h book dir"
  obtains chain where "dir_chain h book chain dir"
proof -
  from assms have "\<exists>chain. dir_chain h book chain dir" unfolding lease_run_def
  proof (induction rule: rtranclp_induct)
    case base
    show ?case using dir_chain_empty by blast
  next
    case (step dir dir')
    then show ?case using lease_step_simulation by blast
  qed
  with that show thesis by blast
qed

lemma lease_run_step: "lease_run h book dir \<Longrightarrow> lease_step h book dir dir' \<Longrightarrow> lease_run h book dir'"
  unfolding lease_run_def by (rule rtranclp.rtrancl_into_rtrancl)

lemma dir_chain_unique:
  assumes d: "dir_chain h book chain dir" and "dir_chain h book chain' dir"
  shows "chain' = chain"
proof -
  have "\<exists>bg. lease_chain h book (history_files dir) = Inr (bg, c)" if "dir_chain h book c dir" for c
    using lease_chain_complete [of h book c "history_files dir"] that by (auto simp: dir_chain_def distinct_map)
  from this [OF assms(1)] this [OF assms(2)] show ?thesis by auto
qed

lemma assert_held_dir:
  assumes d: "dir_chain h book chain dir" and a: "assert_held_in h book session_id plan_id timestamp dir = Inr r"
  shows "chain \<noteq> []" and "r = last chain" and "settled chain dir"
    and "is_active_at h r timestamp = Inr True" and "dget r ''session_id'' = session_id" and "dget r ''plan_id'' = plan_id"
  using a by (auto simp: assert_held_in_def reconcile_dir [OF d] assert_owner_def res_simps split: if_splits option.splits)

section \<open>The fence\<close>

lemma fold_update_append: "fold (\<lambda>r m. AList.update (f r) r m) (xs @ [x]) m = AList.update (f x) x (fold (\<lambda>r m. AList.update (f r) r m) xs m)"
  by simp

lemma index_lookup:
  "distinct (map (\<lambda>r. lease_text r ''lease_hash'') chain) \<Longrightarrow>
   map_of (index_by_hash chain) x = Some r \<longleftrightarrow> r \<in> set chain \<and> lease_text r ''lease_hash'' = x"
proof (induction chain rule: rev_induct)
  case (snoc c chain)
  have "map_of (index_by_hash (chain @ [c])) x =
      (if x = lease_text c ''lease_hash'' then Some c else map_of (index_by_hash chain) x)"
    by (simp add: index_by_hash_def update_conv')
  with snoc show ?case by (cases "x = lease_text c ''lease_hash''") (auto simp: image_iff)
qed (simp add: index_by_hash_def)

definition lease_owner :: "dict \<Rightarrow> json \<times> json" where
  "lease_owner r = (dget r ''session_id'', dget r ''plan_id'')"

text \<open>The walk from a lease down to the first one, without the index.\<close>

fun fence_scan :: "json \<Rightarrow> json \<times> json \<Rightarrow> dict list \<Rightarrow> unit res" where
  "fence_scan ancestor owner [] =
     Inl (BookLeaseError ''book_lease_fence_not_ancestor'' ''stage fencing generation is not in the current lease chain'')"
| "fence_scan ancestor owner (r # rs) =
     (if lease_owner r \<noteq> owner
      then Inl (BookLeaseError ''book_lease_fence_owner_discontinuity''
             ''another writer generation intervened after the stage fence'')
      else if dget r ''lease_hash'' = ancestor then Inr () else fence_scan ancestor owner rs)"

lemma chain_hash_text:
  assumes "chain_ok h book chain" and "r \<in> set chain"
  shows "dget r ''lease_hash'' = JStr (lease_text r ''lease_hash'')"
  using assms chain_from_members validated_lease_fields(6) unfolding chain_ok_def lease_of_def by blast

lemma chain_previous:
  assumes "chain_ok h book chain" and "i < length chain"
  shows "dget (chain ! i) ''previous_lease_hash'' = (if i = 0 then JNull else dget (chain ! (i - 1)) ''lease_hash'')"
proof -
  have "chain_from h book g p rs \<Longrightarrow> i < length rs \<Longrightarrow>
    dget (rs ! i) ''previous_lease_hash'' = (if i = 0 then p else dget (rs ! (i - 1)) ''lease_hash'')" for g p rs i
  proof (induction rs arbitrary: g p i)
    case (Cons r rs)
    then show ?case by (cases i) (auto simp: nth_Cons')
  qed simp
  with assms show ?thesis unfolding chain_ok_def by blast
qed

lemma walk_back_scan:
  assumes c: "chain_ok h book chain" and d: "distinct (map (\<lambda>r. lease_text r ''lease_hash'') chain)"
  shows "i < length chain \<Longrightarrow> i < n \<Longrightarrow>
     walk_back n (index_by_hash chain) ancestor owner (chain ! i) = Some (fence_scan ancestor owner (rev (take (Suc i) chain)))"
proof (induction i arbitrary: n)
  case 0
  then obtain m where "n = Suc m" by (cases n) auto
  with 0 show ?case using chain_previous [OF c, of 0] by (cases chain) (auto simp: lease_owner_def)
next
  case (Suc i)
  then obtain m where n: "n = Suc m" by (cases n) auto
  have i: "i < length chain" using Suc.prems(1) by simp
  have prev: "dget (chain ! Suc i) ''previous_lease_hash'' = JStr (lease_text (chain ! i) ''lease_hash'')"
    using chain_previous [OF c Suc.prems(1)] chain_hash_text [OF c] i by simp
  have look: "map_of (index_by_hash chain) (lease_text (chain ! i) ''lease_hash'') = Some (chain ! i)"
    using index_lookup [OF d] i by simp
  have "walk_back m (index_by_hash chain) ancestor owner (chain ! i) = Some (fence_scan ancestor owner (rev (take (Suc i) chain)))"
    using Suc.IH [OF i, of m] Suc.prems(2) n by simp
  then show ?case using n prev look Suc.prems(1) by (simp add: take_Suc_conv_app_nth lease_owner_def)
qed

lemma fence_scan_passes:
  "fence_scan ancestor owner rs = Inr () \<longleftrightarrow>
     (\<exists>j < length rs. dget (rs ! j) ''lease_hash'' = ancestor \<and>
        (\<forall>k \<le> j. lease_owner (rs ! k) = owner))"
proof (induction rs)
  case (Cons r rs)
  have all: "(\<forall>k \<le> Suc j. Q k) \<longleftrightarrow> Q 0 \<and> (\<forall>k \<le> j. Q (Suc k))" for j and Q :: "nat \<Rightarrow> bool"
    by (metis Suc_le_mono le0 not0_implies_Suc)
  show ?case
    by (simp only: length_Cons Ex_less_Suc2 all nth_Cons_0 nth_Cons_Suc fence_scan.simps if_raise_eq_Inr)
       (simp add: Cons.IH, blast)
qed simp

lemma load_history_index_chain:
  assumes "book_directory h book = Inr key" and "lease_chain h book (history_files (store key)) = Inr (bg, chain)"
  shows "load_history_index h (JStr book) store = Inr (index_by_hash chain)"
proof -
  from assms(1) have "is_safe_id book" by (auto simp: book_directory_def rbind_eq_Inr safe_id_Inr)
  then show ?thesis by (simp add: load_history_index_def safe_id_def assms)
qed

lemma find_record_Inr:
  "find_record records v = Inr r \<longleftrightarrow> (\<exists>x. v = JStr x \<and> map_of records x = Some r)"
  by (auto simp: find_record_def split: json.splits option.splits)

text \<open>Once the arguments are checked, \<open>assert_descends_from\<close> is the walk over the chain.\<close>

lemma assert_descends_cases:
  assumes k: "book_directory h book = Inr key" and l: "lease_chain h book (history_files (store key)) = Inr (bg, chain)"
    and d: "distinct (map (\<lambda>r. lease_text r ''lease_hash'') chain)" and n: "length chain \<le> fuel"
  shows "(\<exists>e. assert_descends_from fuel h (JStr book) current ancestor store = Some (Inl e) \<and>
            (\<forall>i < length chain. \<forall>j < length chain.
               \<not> (current = dget (chain ! i) ''lease_hash'' \<and> ancestor = dget (chain ! j) ''lease_hash''))) \<or>
         (\<exists>i < length chain. \<exists>j < length chain. current = dget (chain ! i) ''lease_hash'' \<and> ancestor = dget (chain ! j) ''lease_hash'' \<and>
            assert_descends_from fuel h (JStr book) current ancestor store =
              Some (fence_scan ancestor (lease_owner (chain ! j)) (rev (take (Suc i) chain))))"
proof -
  have c: "chain_ok h book chain" by (rule lease_chain_sound(1) [OF l])
  have sha: "json_sha256 (dget (chain ! i) ''lease_hash'')" if "i < length chain" for i
    using c that chain_from_members validated_lease_fields(6,7) nth_mem [OF that]
    unfolding chain_ok_def lease_of_def by (metis json_sha256_JStr)
  let ?args = "rbind (au_sha256 ''ancestor_lease_hash'' ancestor) (\<lambda>anc.
           rbind (load_history_index h (JStr book) store) (\<lambda>records.
           rbind (find_record records anc) (\<lambda>r.
           rbind (au_sha256 ''current_lease_hash'' current) (\<lambda>cur.
           rbind (find_record records cur) (\<lambda>cursor.
           Inr (records, anc, (dget r ''session_id'', dget r ''plan_id''), cursor))))))"
  have found: "\<exists>i < length chain. r = chain ! i \<and> v = dget (chain ! i) ''lease_hash''"
    if "find_record (index_by_hash chain) v = Inr r" for v r
  proof -
    from that have "r \<in> set chain" and "v = JStr (lease_text r ''lease_hash'')"
      by (auto simp: find_record_Inr index_lookup [OF d])
    with chain_hash_text [OF c] show ?thesis by (metis in_set_conv_nth)
  qed
  have find: "find_record (index_by_hash chain) (dget (chain ! i) ''lease_hash'') = Inr (chain ! i)"
    if "i < length chain" for i
    using that c by (auto simp: find_record_Inr index_lookup [OF d] chain_hash_text)
  show ?thesis
  proof (cases ?args)
    case (Inl e)
    then have "assert_descends_from fuel h (JStr book) current ancestor store = Some (Inl e)"
      by (simp add: assert_descends_from_def)
    moreover have "\<not> (current = dget (chain ! i) ''lease_hash'' \<and> ancestor = dget (chain ! j) ''lease_hash'')"
      if "i < length chain" "j < length chain" for i j
      using Inl that load_history_index_chain [of h book key store, OF k l] find sha by (auto simp: au_sha256_def)
    ultimately show ?thesis by blast
  next
    case (Inr t)
    then obtain r cursor where "find_record (index_by_hash chain) ancestor = Inr r"
      "find_record (index_by_hash chain) current = Inr cursor"
      and t: "t = (index_by_hash chain, ancestor, lease_owner r, cursor)"
      using load_history_index_chain [of h book key store, OF k l]
      by (auto simp: rbind_eq_Inr au_sha256_Inr lease_owner_def)
    then obtain i j where i: "i < length chain" "cursor = chain ! i" "current = dget (chain ! i) ''lease_hash''"
      and j: "j < length chain" "r = chain ! j" "ancestor = dget (chain ! j) ''lease_hash''"
      using found by metis
    have "assert_descends_from fuel h (JStr book) current ancestor store =
        walk_back fuel (index_by_hash chain) ancestor (lease_owner (chain ! j)) (chain ! i)"
      using Inr t i j by (simp add: assert_descends_from_def)
    also have "\<dots> = Some (fence_scan ancestor (lease_owner (chain ! j)) (rev (take (Suc i) chain)))"
      using walk_back_scan [OF c d i(1)] n i(1) by simp
    finally show ?thesis using i j by blast
  qed
qed

section \<open>Properties\<close>

text \<open>
  C2: the lease store refines an append-only history. Whatever the sessions do, and wherever a
  publication is cut short, the files of a book always stand for one chain of leases, generations 1
  to n, each naming the hash of the one before; a step either leaves the chain as it is or appends
  one lease to it, and nothing is ever removed or rewritten.
\<close>

theorem lease_steps_refine_history:
  assumes "lease_run h book dir" and "lease_step h book dir dir'"
  shows "\<exists>chain new. dir_chain h book chain dir \<and> dir_chain h book (chain @ new) dir' \<and> length new \<le> 1"
  by (rule lease_run_chain [OF assms(1)]) (use lease_step_simulation [OF assms(2)] in blast)

text \<open>
  C33: a crash between the history and \<open>current.json\<close> is always recovered. Whatever the run, \<open>reconcile\<close>
  succeeds; it returns the lease with the highest generation of the history (none exactly when the
  history is empty), loses no file, and after it the check that does not publish agrees.
\<close>

theorem lease_reconcile_recovers:
  assumes "lease_run h book dir"
  shows "\<exists>head dir'. reconcile_history_head h book True dir = (Inr head, dir') \<and>
     reconcile_history_head h book False dir' = (Inr head, dir') \<and> history_files dir' = history_files dir \<and>
     (case head of None \<Rightarrow> history_files dir = []
      | Some r \<Rightarrow> entry r \<in> set (history_files dir) \<and>
          (\<forall>q. entry q \<in> set (history_files dir) \<longrightarrow> lease_generation q \<le> lease_generation r))"
proof (rule lease_run_chain [OF assms])
  fix chain assume d: "dir_chain h book chain dir"
  note rd = rolled_forward_dir [OF d]
  have top: "lease_generation q \<le> lease_generation (last chain)"
    if "entry q \<in> set (history_files dir)" "chain \<noteq> []" for q
    using that d chain_from_members chain_ok_last(2) unfolding dir_chain_def chain_ok_def
    by (force simp: entry_inj image_iff)
  have "history_files (rolled_forward chain dir) = history_files dir" by (simp add: rolled_forward_def)
  moreover have "chain = [] \<longleftrightarrow> history_files dir = []" and "chain \<noteq> [] \<Longrightarrow> entry (last chain) \<in> set (history_files dir)"
    using d by (auto simp: dir_chain_def)
  moreover have "rolled_forward chain (rolled_forward chain dir) = rolled_forward chain dir"
    using rd(2) by (simp add: rolled_forward_def)
  ultimately show ?thesis
    using top by (simp add: reconcile_dir [OF d] reconcile_dir [OF rd(1)] rd(2))
qed

text \<open>
  C32: a book has one writer. While the lease check of one session and plan passes, at that moment the
  check fails for every other session or plan, and nobody else can acquire the book: \<open>acquire\<close> raises
  \<open>book_lease_held\<close> and leaves the files alone.
\<close>

theorem held_lease_excludes_others:
  assumes "lease_run h book dir" and "assert_held_in h book (JStr s) (JStr p) t dir = Inr r" and "(s', p') \<noteq> (s, p)"
  shows "(\<exists>e. assert_held_in h book (JStr s') (JStr p') t dir = Inl e) \<and>
     acquire_in h book s' p' ttl t moment dir =
      (Inl (BookLeaseError ''book_lease_held'' (''book already has active writer session '' @ s)), dir)"
proof (rule conjI)
  from lease_run_chain [OF assms(1)] obtain chain where d: "dir_chain h book chain dir" .
  note a = assert_held_dir [OF d assms(2)]
  show "\<exists>e. assert_held_in h book (JStr s') (JStr p') t dir = Inl e"
    using assert_held_dir [OF d, of "JStr s'" "JStr p'" t] a assms(3)
    by (cases "assert_held_in h book (JStr s') (JStr p') t dir") auto
  show "acquire_in h book s' p' ttl t moment dir =
      (Inl (BookLeaseError ''book_lease_held'' (''book already has active writer session '' @ s)), dir)"
    using a assms(3) by (auto simp: acquire_in_def reconcile_dir [OF d] rolled_forward_def lease_text_def)
qed

text \<open>
  Renewal is a compare-and-swap. A renewal that succeeds names the hash of the newest lease, was
  made by its owner while it was live, and publishes the next generation, which names that hash; one
  that fails adds nothing to the history.
\<close>

lemma renewal_is_fenced:
  assumes "lease_run h book dir" and "renew_in h book sid pid expected ttl t moment dir = (out, dir')"
  shows "case out of
      Inl e \<Rightarrow> history_files dir' = history_files dir
    | Inr r \<Rightarrow> dget r ''previous_lease_hash'' = expected \<and> lease_owner r = (sid, pid) \<and>
        set (history_files dir') = insert (entry r) (set (history_files dir)) \<and>
        (\<exists>c. entry c \<in> set (history_files dir) \<and> dget c ''lease_hash'' = expected \<and> lease_owner c = (sid, pid) \<and>
           is_active_at h c t = Inr True) \<and>
        (\<forall>q. entry q \<in> set (history_files dir) \<longrightarrow> lease_generation q < lease_generation r)"
proof -
  from lease_run_chain [OF assms(1)] obtain chain where d: "dir_chain h book chain dir" .
  note r = renew_in_dir [OF d assms(2)]
  show ?thesis
  proof (cases out)
    case (Inl e)
    with r show ?thesis by (simp add: rolled_forward_def)
  next
    case (Inr l)
    have gens: "lease_generation q < lease_generation l" if "entry q \<in> set (history_files dir)" for q
      using that d r Inr chain_from_members unfolding dir_chain_def chain_ok_def next_lease_def
      by (fastforce simp: entry_inj image_iff)
    have "entry (last chain) \<in> set (history_files dir)" using d r Inr by (simp add: dir_chain_def)
    moreover have "set (history_files dir') = insert (entry l) (set (history_files dir))"
      using d r Inr by (simp add: dir_chain_def)
    ultimately show ?thesis using r Inr gens by (auto simp: next_lease_def lease_owner_def)
  qed
qed

text \<open>
  The fence check returns. The loop of \<open>assert_descends_from\<close> needs at most one round per lease of
  the book, as long as no two leases of the history have one hash.
\<close>

lemma fence_walk_terminates:
  assumes "book_directory h book = Inr key" and "lease_chain h book (history_files (store key)) = Inr (bg, chain)"
    and "distinct (map (\<lambda>r. lease_text r ''lease_hash'') chain)" and "length chain \<le> fuel"
  shows "\<exists>out. assert_descends_from fuel h (JStr book) current ancestor store = Some out"
  using assert_descends_cases [where store = store, OF assms] by blast

text \<open>
  The fence check means what it says: the lease \<open>c\<close> descends from the lease \<open>a\<close> exactly when \<open>a\<close> is
  not newer and every lease from \<open>a\<close> to \<open>c\<close> has the session and plan of \<open>a\<close>.
\<close>

lemma fence_passes_iff:
  assumes "book_directory h book = Inr key" and "lease_chain h book (history_files (store key)) = Inr (bg, chain)"
    and "distinct (map (\<lambda>r. lease_text r ''lease_hash'') chain)" and "length chain \<le> fuel"
    and "c < length chain" and "a < length chain"
  shows "assert_descends_from fuel h (JStr book) (dget (chain ! c) ''lease_hash'') (dget (chain ! a) ''lease_hash'') store =
           Some (Inr ()) \<longleftrightarrow> a \<le> c \<and> (\<forall>k. a \<le> k \<longrightarrow> k \<le> c \<longrightarrow> lease_owner (chain ! k) = lease_owner (chain ! a))"
proof -
  have ok: "chain_ok h book chain" by (rule lease_chain_sound(1) [OF assms(2)])
  have inj: "i = j" if "i < length chain" "j < length chain" "dget (chain ! i) ''lease_hash'' = dget (chain ! j) ''lease_hash''" for i j
    using that assms(3) chain_hash_text [OF ok] nth_eq_iff_index_eq [OF assms(3)] by simp
  let ?hash = "\<lambda>i. dget (chain ! i) ''lease_hash''"
  consider "\<not> (?hash c = ?hash c \<and> ?hash a = ?hash a)"
    | i j where "i < length chain" "j < length chain" "?hash c = ?hash i" "?hash a = ?hash j"
        "assert_descends_from fuel h (JStr book) (?hash c) (?hash a) store =
          Some (fence_scan (?hash a) (lease_owner (chain ! j)) (rev (take (Suc i) chain)))"
    using assert_descends_cases [where store = store and current = "?hash c" and ancestor = "?hash a", OF assms(1-4)] assms(5,6)
    by (elim disjE exE conjE) blast+
  then have "assert_descends_from fuel h (JStr book) (dget (chain ! c) ''lease_hash'') (dget (chain ! a) ''lease_hash'') store =
      Some (fence_scan (dget (chain ! a) ''lease_hash'') (lease_owner (chain ! a)) (rev (take (Suc c) chain)))"
  proof cases
    case (2 i j)
    with inj [of c i] inj [of a j] assms(5,6) show ?thesis by simp
  qed simp
  moreover have "rev (take (Suc c) chain) ! j = chain ! (c - j)" if "j < Suc c" for j
    using that assms(5) by (simp add: rev_nth)
  ultimately have eq: "assert_descends_from fuel h (JStr book) (dget (chain ! c) ''lease_hash'') (dget (chain ! a) ''lease_hash'') store =
      Some (Inr ()) \<longleftrightarrow> (\<exists>j < Suc c. dget (chain ! (c - j)) ''lease_hash'' = dget (chain ! a) ''lease_hash'' \<and>
        (\<forall>k \<le> j. lease_owner (chain ! (c - k)) = lease_owner (chain ! a)))"
    using assms(5) by (simp add: fence_scan_passes cong: conj_cong)
  show ?thesis unfolding eq
  proof
    assume "\<exists>j < Suc c. dget (chain ! (c - j)) ''lease_hash'' = dget (chain ! a) ''lease_hash'' \<and>
        (\<forall>k \<le> j. lease_owner (chain ! (c - k)) = lease_owner (chain ! a))"
    then obtain j where j: "j < Suc c" and e: "dget (chain ! (c - j)) ''lease_hash'' = dget (chain ! a) ''lease_hash''"
      and o: "\<And>k. k \<le> j \<Longrightarrow> lease_owner (chain ! (c - k)) = lease_owner (chain ! a)" by blast
    have a: "c - j = a" by (rule inj [OF _ assms(6) e]) (use assms(5) in simp)
    have "lease_owner (chain ! k) = lease_owner (chain ! a)" if "a \<le> k" "k \<le> c" for k
    proof -
      have "c - k \<le> j" and "c - (c - k) = k" using that a j by linarith+
      with o [of "c - k"] show ?thesis by simp
    qed
    moreover have "a \<le> c" using a by linarith
    ultimately show "a \<le> c \<and> (\<forall>k. a \<le> k \<longrightarrow> k \<le> c \<longrightarrow> lease_owner (chain ! k) = lease_owner (chain ! a))" by blast
  next
    assume r: "a \<le> c \<and> (\<forall>k. a \<le> k \<longrightarrow> k \<le> c \<longrightarrow> lease_owner (chain ! k) = lease_owner (chain ! a))"
    have "lease_owner (chain ! (c - k)) = lease_owner (chain ! a)" if "k \<le> c - a" for k
    proof -
      have "a \<le> c - k" and "c - k \<le> c" using r that by linarith+
      with r show ?thesis by blast
    qed
    moreover have "c - a < Suc c" and "c - (c - a) = a" using r by linarith+
    ultimately show "\<exists>j < Suc c. dget (chain ! (c - j)) ''lease_hash'' = dget (chain ! a) ''lease_hash'' \<and>
        (\<forall>k \<le> j. lease_owner (chain ! (c - k)) = lease_owner (chain ! a))"
      by (intro exI [of _ "c - a"]) simp
  qed
qed

definition no_files :: lease_dir where
  "no_files = \<lparr>current_file = None, history_files = []\<rparr>"

definition acquired_files :: lease_dir where
  "acquired_files = snd (acquire_in measured_host ''b'' ''s'' ''p'' 60 (JStr ''0'') 0 no_files)"

definition acquired_hash :: json where
  "acquired_hash = (case fst (acquire_in measured_host ''b'' ''s'' ''p'' 60 (JStr ''0'') 0 no_files) of
     Inr r \<Rightarrow> dget r ''lease_hash'' | Inl _ \<Rightarrow> JNull)"

definition renewed_files :: lease_dir where
  "renewed_files = snd (renew_in measured_host ''b'' (JStr ''s'') (JStr ''p'') acquired_hash 60 (JStr ''10'') 10000000 acquired_files)"

lemma acquired_run: "lease_run measured_host ''b'' acquired_files"
proof -
  have "lease_step measured_host ''b'' no_files acquired_files"
    unfolding acquired_files_def by (rule lease_step.acquiring, rule prod.collapse [symmetric])
  then show ?thesis unfolding lease_run_def no_files_def by (rule r_into_rtranclp)
qed

lemma renewed_step: "lease_step measured_host ''b'' acquired_files renewed_files"
  unfolding renewed_files_def by (rule lease_step.renewing, rule prod.collapse [symmetric])

lemma renewed_out: "\<exists>r. renew_in measured_host ''b'' (JStr ''s'') (JStr ''p'') acquired_hash 60 (JStr ''10'') 10000000 acquired_files = (Inr r, renewed_files)"
proof -
  have "\<not> isl (fst (renew_in measured_host ''b'' (JStr ''s'') (JStr ''p'') acquired_hash 60 (JStr ''10'') 10000000 acquired_files))"
    by code_simp
  then show ?thesis
    unfolding renewed_files_def by (metis isl_def sum.exhaust prod.collapse)
qed

lemma acquired_held: "\<exists>r. assert_held_in measured_host ''b'' (JStr ''s'') (JStr ''p'') (JStr ''20'') acquired_files = Inr r"
proof -
  have "\<not> isl (assert_held_in measured_host ''b'' (JStr ''s'') (JStr ''p'') (JStr ''20'') acquired_files)"
    by code_simp
  then show ?thesis by (metis isl_def sum.exhaust)
qed

lemma two_leases:
  obtains key bg chain where "book_directory measured_host ''b'' = Inr key"
    and "lease_chain measured_host ''b'' (history_files renewed_files) = Inr (bg, chain)" and "length chain = 2"
    and "distinct (map (\<lambda>r. lease_text r ''lease_hash'') chain)" and "lease_owner (chain ! 0) = lease_owner (chain ! 1)"
proof -
  have "\<not> isl (book_directory measured_host ''b'')" by code_simp
  moreover have "case lease_chain measured_host ''b'' (history_files renewed_files) of
     Inl e \<Rightarrow> False
   | Inr (bg, chain) \<Rightarrow> length chain = 2 \<and> distinct (map (\<lambda>r. lease_text r ''lease_hash'') chain) \<and>
       lease_owner (chain ! 0) = lease_owner (chain ! 1)"
    by code_simp
  ultimately show thesis
    using that by (cases "book_directory measured_host ''b''"; cases "lease_chain measured_host ''b'' (history_files renewed_files)") auto
qed


lemma lease_steps_refine_history_witness:
  "\<exists>chain new. dir_chain measured_host ''b'' chain acquired_files \<and>
     dir_chain measured_host ''b'' (chain @ new) renewed_files \<and> length new \<le> 1"
  by (rule lease_steps_refine_history [OF acquired_run renewed_step])

lemma lease_reconcile_recovers_witness:
  "\<exists>head dir'. reconcile_history_head measured_host ''b'' True acquired_files = (Inr head, dir') \<and>
     reconcile_history_head measured_host ''b'' False dir' = (Inr head, dir')"
  using lease_reconcile_recovers [OF acquired_run] by blast

lemma held_lease_excludes_others_witness:
  "acquire_in measured_host ''b'' ''s2'' ''p'' 60 (JStr ''20'') 20000000 acquired_files =
     (Inl (BookLeaseError ''book_lease_held'' (''book already has active writer session '' @ ''s'')), acquired_files)"
  using acquired_held by (elim exE) (rule held_lease_excludes_others [OF acquired_run, THEN conjunct2], assumption, simp)

lemma renewal_is_fenced_witness:
  "\<exists>r. renew_in measured_host ''b'' (JStr ''s'') (JStr ''p'') acquired_hash 60 (JStr ''10'') 10000000 acquired_files = (Inr r, renewed_files) \<and>
     dget r ''previous_lease_hash'' = acquired_hash \<and>
     set (history_files renewed_files) = insert (entry r) (set (history_files acquired_files))"
  using renewed_out by (elim exE) (use renewal_is_fenced [OF acquired_run] in fastforce)

lemma fence_walk_terminates_witness:
  "\<exists>store out. assert_descends_from 2 measured_host (JStr ''b'') acquired_hash acquired_hash store = Some out"
proof (rule two_leases)
  fix key bg chain
  assume k: "book_directory measured_host ''b'' = Inr key"
    and l: "lease_chain measured_host ''b'' (history_files renewed_files) = Inr (bg, chain)" and "length chain = 2"
    and d: "distinct (map (\<lambda>r. lease_text r ''lease_hash'') chain)"
  then show ?thesis
    using fence_walk_terminates [where store = "\<lambda>_. renewed_files", OF k l d, of 2 acquired_hash acquired_hash] by auto
qed

lemma fence_passes_iff_witness:
  "\<exists>store current ancestor. current \<noteq> ancestor \<and>
     assert_descends_from 2 measured_host (JStr ''b'') current ancestor store = Some (Inr ())"
proof (rule two_leases)
  fix key bg chain
  assume k: "book_directory measured_host ''b'' = Inr key"
    and l: "lease_chain measured_host ''b'' (history_files renewed_files) = Inr (bg, chain)" and n: "length chain = 2"
    and d: "distinct (map (\<lambda>r. lease_text r ''lease_hash'') chain)" and o: "lease_owner (chain ! 0) = lease_owner (chain ! 1)"
  have ok: "chain_ok measured_host ''b'' chain" by (rule lease_chain_sound(1) [OF l])
  have "dget (chain ! 1) ''lease_hash'' \<noteq> dget (chain ! 0) ''lease_hash''"
    using d n chain_hash_text [OF ok, of "chain ! 0"] chain_hash_text [OF ok, of "chain ! 1"]
      nth_eq_iff_index_eq [OF d, of 1 0] by simp
  moreover have "lease_owner (chain ! k) = lease_owner (chain ! 0)" if "k \<le> 1" for k
    using that o by (cases k) auto
  moreover have "assert_descends_from 2 measured_host (JStr ''b'') (dget (chain ! 1) ''lease_hash'')
      (dget (chain ! 0) ''lease_hash'') (\<lambda>_. renewed_files) = Some (Inr ())"
  proof (rule iffD2 [OF fence_passes_iff [where store = "\<lambda>_. renewed_files", OF k l d]])
    show "(0::nat) \<le> 1 \<and> (\<forall>k. 0 \<le> k \<longrightarrow> k \<le> 1 \<longrightarrow> lease_owner (chain ! k) = lease_owner (chain ! 0))"
      using calculation(2) by blast
  qed (use n in simp_all)
  ultimately show ?thesis by blast
qed

end
