(* ===== verification/File_Names.thy ===== *)
theory File_Names
  imports Autonomy_Common
begin

text \<open>
  Directories that hold a sequence of files with numbered names, \<open>0001-....json\<close>: the names, the files that a
  \<open>glob\<close> of them finds in their order, and why a file with the next number comes last.
\<close>

section \<open>Names\<close>

text \<open>\<open>f''{i:0wd}''\<close> of a number that is not negative.\<close>

definition show_padded :: "nat \<Rightarrow> int \<Rightarrow> string" where
  "show_padded w i = (let ds = show_nat (nat i) in replicate (w - length ds) (CHR ''0'') @ ds)"

definition ends_with :: "string \<Rightarrow> string \<Rightarrow> bool" where
  "ends_with suffix s \<longleftrightarrow> length suffix \<le> length s \<and> drop (length s - length suffix) s = suffix"

definition starts_with :: "string \<Rightarrow> string \<Rightarrow> bool" where
  "starts_with prefix s \<longleftrightarrow> take (length prefix) s = prefix"

definition numbered_name :: "nat \<Rightarrow> string \<Rightarrow> bool" where
  "numbered_name n name \<longleftrightarrow>
     n < length name \<and> list_all is_digit (take n name) \<and> name ! n = CHR ''-'' \<and> ends_with ''.json'' (drop (n + 1) name)"

definition json_name :: "string \<Rightarrow> string" where
  "json_name stem = stem @ ''.json''"

text \<open>\<open>sorted(directory.glob(''[0-9]...-*.json''))\<close>.\<close>

definition numbered_files :: "nat \<Rightarrow> files \<Rightarrow> files" where
  "numbered_files w fs = sort_key fst (filter (\<lambda>f. numbered_name w (fst f)) fs)"

text \<open>\<open>load_json_object\<close> of a path: a missing file is an error of the platform.\<close>

definition load_named :: "string \<Rightarrow> files \<Rightarrow> dict res" where
  "load_named name fs =
     (case map_of fs name of
        None \<Rightarrow> Inl (AutonomyContractError ''autonomy_artifact_unreadable'' (''could not read '' @ name))
      | Some file \<Rightarrow> load_json_object name file)"

lemma json_name_inj [simp]: "json_name a = json_name b \<longleftrightarrow> a = b"
  by (simp add: json_name_def)

lemma ends_with_json [simp]: "ends_with ''.json'' (json_name x)"
  by (simp add: ends_with_def json_name_def)

lemma ends_with_append: "ends_with s t \<Longrightarrow> ends_with s (p @ t)"
  by (auto simp: ends_with_def)

lemma starts_with_iff: "starts_with p s \<longleftrightarrow> (\<exists>t. s = p @ t)"
  by (metis starts_with_def append_eq_conv_conj append_take_drop_id)

lemma load_named_Inr: "load_named n fs = Inr d \<longleftrightarrow> map_of fs n = Some (Doc (JObj d))"
  by (auto simp: load_named_def load_json_object_Inr split: option.splits)

lemma load_named_mono: "map_of fs \<subseteq>\<^sub>m map_of gs \<Longrightarrow> load_named n fs = Inr d \<Longrightarrow> load_named n gs = Inr d"
  by (auto simp: load_named_def map_le_def dom_def split: option.splits)

section \<open>Their order\<close>

lemma foldl_read: "foldl (\<lambda>a c. 10 * a + digit_val c) n s = n * 10 ^ length s + read_nat s"
proof (induction s arbitrary: n)
  case (Cons c s)
  show ?case
    using Cons [of "10 * n + digit_val c"] Cons [of "digit_val c"] by (simp add: read_nat_def algebra_simps)
qed (simp add: read_nat_def)

lemma read_nat_Cons: "read_nat (c # s) = digit_val c * 10 ^ length s + read_nat s"
  using foldl_read [of "digit_val c" s] by (simp add: read_nat_def)

lemma digit_val_less: "is_digit c \<Longrightarrow> digit_val c < 10"
  unfolding is_digit_def digit_val_def by arith

lemma read_nat_less: "list_all is_digit s \<Longrightarrow> read_nat s < 10 ^ length s"
proof (induction s)
  case (Cons c s)
  then have "read_nat s < 10 ^ length s" "digit_val c \<le> 9" using digit_val_less [of c] by auto
  then have "digit_val c * 10 ^ length s + read_nat s < 9 * 10 ^ length s + 10 ^ length s"
    by (intro add_le_less_mono mult_le_mono1)
  then show ?case by (simp add: read_nat_Cons)
qed (simp add: read_nat_def)

lemma digit_val_mono: "is_digit c \<Longrightarrow> is_digit d \<Longrightarrow> digit_val c < digit_val d \<Longrightarrow> c < d"
  by (simp add: digit_val_def is_digit_def less_char_def)

lemma digit_val_inj: "is_digit c \<Longrightarrow> is_digit d \<Longrightarrow> digit_val c = digit_val d \<Longrightarrow> c = d"
  by (metis digit_val_mono is_digit_def digit_val_def of_char_eq_iff diff_diff_cancel eq_diff_iff)

text \<open>Numbers of one width are in the order of their texts, whatever follows them.\<close>

lemma digits_order:
  "length s = length t \<Longrightarrow> list_all is_digit s \<Longrightarrow> list_all is_digit t \<Longrightarrow> read_nat s < read_nat t \<Longrightarrow> s @ u < t @ v"
proof (induction s t rule: list_induct2)
  case (Cons c s d t)
  have "digit_val c \<le> digit_val d"
  proof (rule ccontr)
    assume "\<not> digit_val c \<le> digit_val d"
    then have "Suc (digit_val d) * 10 ^ length t \<le> digit_val c * 10 ^ length s"
      using Cons.hyps by (intro mult_le_mono) auto
    moreover have "read_nat t < 10 ^ length t" using Cons.prems by (intro read_nat_less) simp
    ultimately show False using Cons.prems(3) by (simp add: read_nat_Cons)
  qed
  then consider "digit_val c < digit_val d" | "digit_val c = digit_val d" by linarith
  then show ?case
  proof cases
    case 1
    with Cons.prems have "c < d" by (intro digit_val_mono) auto
    then show ?thesis by simp
  next
    case 2
    with Cons.prems have "c = d" by (intro digit_val_inj) auto
    with Cons show ?thesis by (simp add: read_nat_Cons)
  qed
qed (simp add: read_nat_def)

lemma show_nat_length: "0 < w \<Longrightarrow> n < 10 ^ w \<Longrightarrow> length (show_nat n) \<le> w"
proof (induction n arbitrary: w rule: show_nat.induct)
  case (1 n)
  show ?case
  proof (cases "n < 10")
    case True
    with 1 show ?thesis by (simp add: show_nat.simps [of n])
  next
    case False
    obtain v where w: "w = Suc v" using 1 by (cases w) auto
    moreover from 1 False w have "0 < v" by (cases v) auto
    moreover from 1 w have "n div 10 < 10 ^ v" by (simp add: less_mult_imp_div_less mult.commute)
    ultimately show ?thesis using 1 False by (simp add: show_nat.simps [of n])
  qed
qed

lemma show_padded_length: "0 < w \<Longrightarrow> nat i < 10 ^ w \<Longrightarrow> length (show_padded w i) = w"
  by (simp add: show_padded_def Let_def show_nat_length)

lemma show_padded_digits: "list_all is_digit (show_padded w i)"
  by (auto simp: show_padded_def Let_def list_all_iff is_digit_def dest: show_nat_digits)

lemma read_show_padded: "read_nat (show_padded w i) = nat i"
  by (simp add: show_padded_def Let_def read_nat_zeros)

lemma sequence_order:
  assumes "0 \<le> i" and "i < j" and "0 < w" and "nat j < 10 ^ w"
  shows "show_padded w i @ u < show_padded w j @ v"
  using assms by (intro digits_order) (simp_all add: show_padded_length show_padded_digits read_show_padded)

lemma padded_numbered:
  "0 < w \<Longrightarrow> nat i < 10 ^ w \<Longrightarrow> ends_with ''.json'' t \<Longrightarrow> numbered_name w (show_padded w i @ CHR ''-'' # t)"
  by (simp add: numbered_name_def show_padded_length show_padded_digits nth_append)

section \<open>The next file comes last\<close>

lemma sort_key_snoc: "(\<And>y. y \<in> set xs \<Longrightarrow> f y \<le> f x) \<Longrightarrow> sort_key f (xs @ [x]) = sort_key f xs @ [x]"
proof (induction xs)
  case (Cons a xs)
  have "insort_key f a (ys @ [x]) = insort_key f a ys @ [x]" if "f a \<le> f x" for ys
    using that by (induction ys) auto
  with Cons show ?case by simp
qed simp

text \<open>The names of a directory count up from one.\<close>

definition counted :: "nat \<Rightarrow> files \<Rightarrow> bool" where
  "counted w fs \<longleftrightarrow> (\<forall>i < length (numbered_files w fs).
     starts_with (show_padded w (int i + 1) @ ''-'') (fst (numbered_files w fs ! i)))"

lemma numbered_files_snoc:
  assumes names: "counted w fs" and w: "0 < w" and n: "Suc (length (numbered_files w fs)) < 10 ^ w"
    and new: "new = show_padded w (int (length (numbered_files w fs)) + 1) @ CHR ''-'' # t" and t: "ends_with ''.json'' t"
  shows "numbered_files w (fs @ [(new, f)]) = numbered_files w fs @ [(new, f)]" and "map_of fs new = None"
proof -
  let ?fs = "filter (\<lambda>f. numbered_name w (fst f)) fs"
  have num: "numbered_name w new" using n w t unfolding new by (intro padded_numbered) (auto simp: nat_add_distrib)
  have less: "fst y < new" if y: "y \<in> set ?fs" for y
  proof -
    from y have "y \<in> set (numbered_files w fs)" by (simp add: numbered_files_def)
    then obtain i where i: "i < length (numbered_files w fs)" "numbered_files w fs ! i = y" by (auto simp: in_set_conv_nth)
    with names obtain u where "fst y = show_padded w (int i + 1) @ ''-'' @ u" by (force simp: counted_def starts_with_iff)
    with i n w show ?thesis unfolding new by (auto intro!: sequence_order simp: nat_add_distrib)
  qed
  have "sort_key fst (?fs @ [(new, f)]) = sort_key fst ?fs @ [(new, f)]"
    by (rule sort_key_snoc) (use less in \<open>auto intro: less_imp_le\<close>)
  with num show "numbered_files w (fs @ [(new, f)]) = numbered_files w fs @ [(new, f)]" by (simp add: numbered_files_def)
  show "map_of fs new = None"
  proof (rule ccontr)
    assume "map_of fs new \<noteq> None"
    then obtain g where "(new, g) \<in> set fs" by (auto dest: map_of_SomeD)
    with num less [of "(new, g)"] show False by simp
  qed
qed

section \<open>Writes that only add files\<close>

definition fresh_or_same :: "string \<Rightarrow> dict \<Rightarrow> files \<Rightarrow> bool" where
  "fresh_or_same name d fs \<longleftrightarrow> map_of fs name = None \<or> map_of fs name = Some (Doc (JObj d))"

lemma append_adds:
  assumes "atomic_append_json n p fs = Inr gs" and "fresh_or_same n p fs"
  shows "map_of gs n = Some (Doc (JObj p))" and "m \<noteq> n \<Longrightarrow> map_of gs m = map_of fs m" and "map_of fs \<subseteq>\<^sub>m map_of gs"
  using assms
  by (auto simp: atomic_append_json_def fresh_or_same_def load_json_object_def map_le_def map_add_def
      split: option.splits if_splits)

end
