(* ===== verification/Stage_Receipts.thy ===== *)
theory Stage_Receipts
  imports Book_Lease Stage_Control File_Names
begin

text \<open>
  The receipts of an autonomous run, \<open>StageReceiptStore\<close> of \<open>core/autonomy/receipts.py\<close>. A chapter of a
  session has a directory with the chain of its stage receipts, the authorization and the lease fence of each
  receipt, staged copies and commit markers. A receipt is published in five steps: authorization, fence,
  staged copy, marker, receipt; the marker is the point from which recovery publishes the receipt itself.
\<close>

section \<open>Fences\<close>

abbreviation receipt_error :: "string \<Rightarrow> string \<Rightarrow> 'a res" where
  "receipt_error tag message \<equiv> Inl (AutonomyReceiptError tag message)"

definition validate_stage_lease_fence :: "host \<Rightarrow> json \<Rightarrow> dict res" where
  "validate_stage_lease_fence h value =
     rbind (au_validate_mapping h value ''stage_lease_fence.schema.json'' ''StageLeaseFence'') (\<lambda>fence.
     rbind (rcheck (\<lambda>field. on_item fence field (\<lambda>v. rbind (safe_id field v) (\<lambda>_. Inr ())))
              [''book_id'', ''session_id'', ''plan_id'']) (\<lambda>_.
     rbind (on_item fence ''chapter_index'' (au_int_from ''chapter_index'' 1)) (\<lambda>_.
     rbind (on_item fence ''lease_generation'' (au_int_from ''lease_generation'' 1)) (\<lambda>_.
     rbind (rcheck (\<lambda>field. on_item fence field (\<lambda>v. rbind (au_sha256 field v) (\<lambda>_. Inr ())))
              [''fence_hash'', ''receipt_hash'', ''authorization_hash'', ''lease_hash'']) (\<lambda>_.
     rbind (au_canonical_hash h [''fence_hash''] (JObj fence)) (\<lambda>expected.
     if dget fence ''fence_hash'' \<noteq> JStr expected
     then receipt_error ''stage_receipt_fence_hash_mismatch'' ''StageReceipt lease fence was modified''
     else Inr fence))))))"

definition build_stage_lease_fence :: "host \<Rightarrow> string \<Rightarrow> dict \<Rightarrow> dict \<Rightarrow> dict \<Rightarrow> json \<Rightarrow> dict res" where
  "build_stage_lease_fence h now receipt authorization lease fenced_at =
     rbind (validate_stage_receipt h (JObj receipt)) (\<lambda>_.
     rbind (validate_stage_authorization h (JObj authorization)) (\<lambda>_.
     rbind (validate_book_lease h (JObj lease)) (\<lambda>_.
     rbind (assert_receipt_matches_authorization h receipt authorization) (\<lambda>_.
     if (dget receipt ''book_id'', dget receipt ''session_id'', dget receipt ''plan_id'') \<noteq>
        (dget lease ''book_id'', dget lease ''session_id'', dget lease ''plan_id'')
     then receipt_error ''stage_receipt_lease_scope_mismatch'' ''lease belongs to another stage scope''
     else
       let fence = [(''schema_version'', JStr ''1.0''), (''receipt_hash'', dget receipt ''receipt_hash''),
             (''authorization_hash'', dget authorization ''authorization_hash''), (''book_id'', dget receipt ''book_id''),
             (''session_id'', dget receipt ''session_id''), (''plan_id'', dget receipt ''plan_id''),
             (''chapter_index'', dget receipt ''chapter_index''), (''lease_hash'', dget lease ''lease_hash''),
             (''lease_generation'', dget lease ''generation''), (''fenced_at'', py_or fenced_at (JStr now))]
       in rbind (au_canonical_hash h [''fence_hash''] (JObj fence)) (\<lambda>digest.
          validate_stage_lease_fence h (JObj (dset ''fence_hash'' (JStr digest) fence)))))))"

section \<open>The order of the stages\<close>

definition allowed_next :: "(string \<times> string) list" where
  "allowed_next = [(''outline'', ''scene_plan''), (''scene_plan'', ''draft''), (''draft'', ''polish''),
     (''polish'', ''validator''), (''validator'', ''repair''), (''repair'', ''validator'')]"

fun stage_order_loop :: "dict \<Rightarrow> dict list \<Rightarrow> unit res" where
  "stage_order_loop previous [] = Inr ()"
| "stage_order_loop previous (receipt # rest) =
     (if dget receipt ''status'' \<noteq> JStr ''succeeded'' \<and> rest \<noteq> []
      then receipt_error ''stage_receipt_terminal_failure''
             ''failed, uncertain, rejected, or cancelled stage terminates its chain''
      else if dget previous ''status'' \<noteq> JStr ''succeeded''
      then receipt_error ''stage_receipt_terminal_failure'' ''terminal stage cannot be retried in-place''
      else case map_of allowed_next (doc_text previous ''stage'') of
          None \<Rightarrow> Inl (KeyError (doc_text previous ''stage''))
        | Some following \<Rightarrow>
            if dget receipt ''stage'' \<noteq> JStr following
            then receipt_error ''stage_receipt_sequence_invalid''
                   (doc_text previous ''stage'' @ '' cannot advance directly to '' @ doc_text receipt ''stage'')
            else stage_order_loop receipt rest)"

definition validate_autonomy_stage_chain :: "dict list \<Rightarrow> unit res" where
  "validate_autonomy_stage_chain receipts =
     (case receipts of
        [] \<Rightarrow> Inr ()
      | receipt # rest \<Rightarrow>
          if dget receipt ''stage'' \<noteq> JStr ''outline''
          then receipt_error ''stage_receipt_sequence_invalid'' ''autonomy stage chain must begin with outline''
          else if dget receipt ''status'' \<noteq> JStr ''succeeded'' \<and> rest \<noteq> []
          then receipt_error ''stage_receipt_terminal_failure''
                 ''failed, uncertain, rejected, or cancelled stage terminates its chain''
          else stage_order_loop receipt rest)"

section \<open>The directory of a chapter\<close>

record stage_dir =
  sd_receipts :: files
  sd_authorizations :: files
  sd_fences :: files
  sd_staged :: files
  sd_markers :: files

definition empty_stage_dir :: stage_dir where
  "empty_stage_dir = \<lparr>sd_receipts = [], sd_authorizations = [], sd_fences = [], sd_staged = [], sd_markers = []\<rparr>"

text \<open>The directory of a chapter: the key of the session and the number of the chapter.\<close>

definition stage_directory :: "host \<Rightarrow> json \<Rightarrow> json \<Rightarrow> (string \<times> int) res" where
  "stage_directory h session_id chapter_index =
     rbind (safe_id ''session_id'' session_id) (\<lambda>session.
     rbind (au_canonical_hash h [] (JObj [(''session_id'', JStr session)])) (\<lambda>digest.
     rbind (au_int_from ''chapter_index'' 1 chapter_index) (\<lambda>chapter.
     Inr (take 16 digest, chapter))))"

definition receipt_name :: "int \<Rightarrow> string \<Rightarrow> string" where
  "receipt_name sequence receipt_hash = show_padded 4 sequence @ ''-'' @ take 20 receipt_hash @ ''.json''"

text \<open>The receipt files of a directory, in the order of their names.\<close>

definition receipt_files :: "stage_dir \<Rightarrow> files" where
  "receipt_files dir = numbered_files 4 (sd_receipts dir)"

definition assert_stage_store_scope :: "dict \<Rightarrow> string \<Rightarrow> int \<Rightarrow> unit res" where
  "assert_stage_store_scope d session chapter =
     (if dget d ''session_id'' \<noteq> JStr session \<or> \<not> py_eq (dget d ''chapter_index'') (JInt chapter)
      then receipt_error ''stage_receipt_store_scope_mismatch''
             ''stage recovery evidence belongs to another session or chapter''
      else Inr ())"

definition load_stage_receipt :: "host \<Rightarrow> string \<Rightarrow> file_doc \<Rightarrow> dict res" where
  "load_stage_receipt h name file =
     rbind (load_json_object name file) (\<lambda>d. rbind (validate_stage_receipt h (JObj d)) (\<lambda>_. Inr d))"

definition authorization_in :: "host \<Rightarrow> stage_dir \<Rightarrow> dict \<Rightarrow> dict res" where
  "authorization_in h dir receipt =
     rbind (load_named (json_name (take 20 (doc_text receipt ''authorization_hash''))) (sd_authorizations dir)) (\<lambda>a.
     rbind (validate_stage_authorization h (JObj a)) (\<lambda>_.
     rbind (assert_receipt_matches_authorization h receipt a) (\<lambda>_. Inr a)))"

definition fence_in :: "host \<Rightarrow> lease_store \<Rightarrow> stage_dir \<Rightarrow> dict \<Rightarrow> dict res" where
  "fence_in h leases dir receipt =
     rbind (validate_stage_receipt h (JObj receipt)) (\<lambda>_.
     rbind (authorization_in h dir receipt) (\<lambda>authorization.
     rbind (load_named (json_name (take 20 (doc_text receipt ''receipt_hash''))) (sd_fences dir)) (\<lambda>d.
     rbind (validate_stage_lease_fence h (JObj d)) (\<lambda>fence.
     if dget fence ''receipt_hash'' \<noteq> dget receipt ''receipt_hash'' \<or>
        dget fence ''authorization_hash'' \<noteq> dget authorization ''authorization_hash''
     then receipt_error ''stage_receipt_fence_mismatch'' ''StageReceipt fence binding changed''
     else rbind (load_history h (dget receipt ''book_id'') (dget fence ''lease_hash'') leases) (\<lambda>_. Inr fence)))))"

section \<open>Markers\<close>

definition as_marker_error :: "json res \<Rightarrow> dict res" where
  "as_marker_error r =
     (case r of
        Inl (RecoveryProtocolError message) \<Rightarrow> receipt_error ''stage_receipt_marker_invalid'' message
      | Inl e \<Rightarrow> Inl e
      | Inr (JObj d) \<Rightarrow> Inr d
      | Inr _ \<Rightarrow> Inl TypeError)"

definition marker_metadata_fields :: "string list" where
  "marker_metadata_fields = [''session_id'', ''chapter_index'', ''sequence'', ''authorization_hash'', ''target_name'']"

definition marker_metadata :: "dict \<Rightarrow> dict" where
  "marker_metadata marker = (case dget marker ''metadata'' of JObj d \<Rightarrow> d | _ \<Rightarrow> [])"

text \<open>What a stage marker binds: the hash of the receipt and the name of its file.\<close>

definition stage_marker_target :: "dict \<Rightarrow> string \<Rightarrow> int \<Rightarrow> (string \<times> string) res" where
  "stage_marker_target marker session chapter =
     (let metadata = marker_metadata marker in
      if dget marker ''evidence_kind'' \<noteq> JStr ''stage_receipt'' \<or> \<not> same_keys metadata marker_metadata_fields
      then receipt_error ''stage_receipt_marker_invalid'' ''stage marker scope is malformed''
      else if dget metadata ''session_id'' \<noteq> JStr session \<or> \<not> py_eq (dget metadata ''chapter_index'') (JInt chapter)
      then receipt_error ''stage_receipt_store_scope_mismatch'' ''stage marker belongs to another session or chapter''
      else rbind (au_sha256 ''receipt_hash'' (dget marker ''evidence_hash'')) (\<lambda>_.
      rbind (au_sha256 ''authorization_hash'' (dget metadata ''authorization_hash'')) (\<lambda>authorization_hash.
      if dget marker ''intent_hash'' \<noteq> authorization_hash
      then receipt_error ''stage_receipt_marker_invalid'' ''stage marker authorization changed''
      else rbind (au_int_from ''sequence'' 1 (dget metadata ''sequence'')) (\<lambda>sequence.
      let receipt_hash = doc_text marker ''evidence_hash''; name = receipt_name sequence receipt_hash in
      if dget metadata ''target_name'' \<noteq> JStr name
      then receipt_error ''stage_receipt_marker_invalid'' ''stage marker target path changed''
      else Inr (receipt_hash, name)))))"

definition staged_receipt :: "host \<Rightarrow> stage_dir \<Rightarrow> dict \<Rightarrow> string \<Rightarrow> string \<Rightarrow> int \<Rightarrow> dict res" where
  "staged_receipt h dir marker receipt_hash session chapter =
     (case map_of (sd_staged dir) (json_name receipt_hash) of
        None \<Rightarrow> receipt_error ''stage_receipt_staged_missing'' ''stage marker exists without its staged receipt evidence''
      | Some file \<Rightarrow>
          rbind (load_stage_receipt h (json_name receipt_hash) file) (\<lambda>staged.
          rbind (assert_stage_store_scope staged session chapter) (\<lambda>_.
          rbind (py_int (dget staged ''chapter_index'')) (\<lambda>staged_chapter.
          rbind (py_int (dget (marker_metadata marker) ''chapter_index'')) (\<lambda>marker_chapter.
          if dget staged ''receipt_hash'' \<noteq> JStr receipt_hash \<or>
             dget staged ''authorization_hash'' \<noteq> dget (marker_metadata marker) ''authorization_hash'' \<or>
             dget staged ''session_id'' \<noteq> dget (marker_metadata marker) ''session_id'' \<or> staged_chapter \<noteq> marker_chapter
          then receipt_error ''stage_receipt_marker_mismatch'' ''stage marker does not bind the staged receipt''
          else Inr staged)))))"

definition publish_receipt :: "string \<Rightarrow> dict \<Rightarrow> stage_dir \<Rightarrow> dict res \<times> stage_dir" where
  "publish_receipt name staged dir =
     (case atomic_append_json name staged (sd_receipts dir) of
        Inl e \<Rightarrow> (Inl e, dir)
      | Inr fs \<Rightarrow> (Inr staged, dir\<lparr>sd_receipts := fs\<rparr>))"

definition completed_receipt :: "host \<Rightarrow> string \<Rightarrow> dict \<Rightarrow> stage_dir \<Rightarrow> dict res \<times> stage_dir" where
  "completed_receipt h name staged dir =
     (rbind (load_named name (sd_receipts dir)) (\<lambda>existing.
      rbind (validate_stage_receipt h (JObj existing)) (\<lambda>_.
      if \<not> py_eq (JObj existing) (JObj staged)
      then receipt_error ''stage_receipt_replay_conflict'' ''completed checkpoint has different immutable bytes''
      else Inr existing)), dir)"

definition publish_stage_marker :: "host \<Rightarrow> string \<Rightarrow> int \<Rightarrow> json \<Rightarrow> stage_dir \<Rightarrow> dict res \<times> stage_dir" where
  "publish_stage_marker h session chapter marker dir =
     (case rbind (as_marker_error (validate_marker_envelope h marker)) (\<lambda>committed.
           rbind (stage_marker_target committed session chapter) (\<lambda>(receipt_hash, name).
           rbind (staged_receipt h dir committed receipt_hash session chapter) (\<lambda>staged.
           Inr (name, staged)))) of
        Inl e \<Rightarrow> (Inl e, dir)
      | Inr (name, staged) \<Rightarrow>
          reconcile_marker_transaction True (map_of (sd_receipts dir) name \<noteq> None)
            (\<lambda>d. (receipt_error ''stage_receipt_marker_invalid''
                    ''a durable stage marker cannot take the pre-marker rollback path'', d))
            (publish_receipt name staged) (completed_receipt h name staged) dir)"

definition load_marker :: "host \<Rightarrow> string \<times> file_doc \<Rightarrow> dict res" where
  "load_marker h file =
     rbind (load_json_object (fst file) (snd file)) (\<lambda>d.
     rbind (as_marker_error (validate_marker_envelope h (JObj d))) (\<lambda>marker.
     if dget marker ''evidence_kind'' \<noteq> JStr ''stage_receipt''
     then receipt_error ''stage_receipt_marker_invalid'' ''stage marker evidence kind changed''
     else Inr marker))"

fun publish_markers :: "host \<Rightarrow> string \<Rightarrow> int \<Rightarrow> dict list \<Rightarrow> stage_dir \<Rightarrow> unit res \<times> stage_dir" where
  "publish_markers h session chapter [] dir = (Inr (), dir)"
| "publish_markers h session chapter (m # ms) dir =
     (case publish_stage_marker h session chapter (JObj m) dir of
        (Inl e, dir') \<Rightarrow> (Inl e, dir')
      | (Inr _, dir') \<Rightarrow> publish_markers h session chapter ms dir')"

text \<open>\<open>_reconcile_stage_markers\<close>: the hashes of the receipts that a marker commits.\<close>

definition reconcile_stage_markers :: "host \<Rightarrow> string \<Rightarrow> int \<Rightarrow> stage_dir \<Rightarrow> string list res \<times> stage_dir" where
  "reconcile_stage_markers h session chapter dir =
     (case rmap (load_marker h) (sort_key fst (filter (\<lambda>f. ends_with ''.json'' (fst f)) (sd_markers dir))) of
        Inl e \<Rightarrow> (Inl e, dir)
      | Inr markers \<Rightarrow>
          (case publish_markers h session chapter markers dir of
             (Inl e, dir') \<Rightarrow> (Inl e, dir')
           | (Inr _, dir') \<Rightarrow> (Inr (map (\<lambda>m. doc_text m ''evidence_hash'') markers), dir')))"

section \<open>Loading a chain\<close>

definition check_receipt_names :: "files \<Rightarrow> unit res" where
  "check_receipt_names fs =
     rcheck (\<lambda>(i, name). if \<not> starts_with (show_padded 4 (int i) @ ''-'') name
                         then receipt_error ''stage_receipt_sequence_broken'' ''StageReceipt filenames are not contiguous''
                         else Inr ())
       (zip [1..<length fs + 1] (map fst fs))"

definition check_stored_receipt ::
  "host \<Rightarrow> lease_store \<Rightarrow> string \<Rightarrow> int \<Rightarrow> string list \<Rightarrow> stage_dir \<Rightarrow> dict \<Rightarrow> unit res" where
  "check_stored_receipt h leases session chapter marked dir receipt =
     rbind (assert_stage_store_scope receipt session chapter) (\<lambda>_.
     let receipt_hash = doc_text receipt ''receipt_hash'';
         staged_file = map_of (sd_staged dir) (json_name receipt_hash);
         marker_backed = dget receipt ''recovery_protocol'' = JStr MARKER_RECOVERY_PROTOCOL in
     if marker_backed \<and> receipt_hash \<notin> set marked
     then receipt_error ''stage_receipt_marker_missing'' ''completed staged receipt exists without its durable commit marker''
     else if marker_backed \<and> staged_file = None
     then receipt_error ''stage_receipt_staged_missing'' ''marker-backed StageReceipt exists without its staged evidence''
     else rbind (case staged_file of
           None \<Rightarrow> Inr ()
         | Some file \<Rightarrow>
             rbind (load_stage_receipt h (json_name receipt_hash) file) (\<lambda>staged.
             rbind (assert_stage_store_scope staged session chapter) (\<lambda>_.
             if \<not> py_eq (JObj staged) (JObj receipt)
             then receipt_error ''stage_receipt_staged_mismatch'' ''completed StageReceipt differs from its staged evidence''
             else if receipt_hash \<notin> set marked
             then receipt_error ''stage_receipt_marker_missing'' ''completed staged receipt exists without its durable commit marker''
             else Inr ()))) (\<lambda>_.
     rbind (fence_in h leases dir receipt) (\<lambda>_. Inr ())))"

definition load_receipts :: "host \<Rightarrow> lease_store \<Rightarrow> string \<Rightarrow> int \<Rightarrow> string list \<Rightarrow> stage_dir \<Rightarrow> dict list res" where
  "load_receipts h leases session chapter marked dir =
     rbind (rmap (\<lambda>f. load_stage_receipt h (fst f) (snd f)) (receipt_files dir)) (\<lambda>receipts.
     rbind (validate_stage_receipt_chain h receipts) (\<lambda>_.
     rbind (validate_autonomy_stage_chain receipts) (\<lambda>_.
     rbind (check_receipt_names (receipt_files dir)) (\<lambda>_.
     rbind (rcheck (check_stored_receipt h leases session chapter marked dir) receipts) (\<lambda>_.
     Inr receipts)))))"

definition load_chain_in :: "host \<Rightarrow> lease_store \<Rightarrow> string \<Rightarrow> int \<Rightarrow> stage_dir \<Rightarrow> dict list res \<times> stage_dir" where
  "load_chain_in h leases session chapter dir =
     (case reconcile_stage_markers h session chapter dir of
        (Inl e, dir') \<Rightarrow> (Inl e, dir')
      | (Inr marked, dir') \<Rightarrow> (load_receipts h leases session chapter marked dir', dir'))"

section \<open>Appending a receipt\<close>

definition put_authorization :: "dict \<Rightarrow> stage_dir \<Rightarrow> stage_dir res" where
  "put_authorization authorization dir =
     rbind (atomic_append_json (json_name (take 20 (doc_text authorization ''authorization_hash''))) authorization
              (sd_authorizations dir)) (\<lambda>fs. Inr (dir\<lparr>sd_authorizations := fs\<rparr>))"

definition put_fence :: "string \<Rightarrow> dict \<Rightarrow> stage_dir \<Rightarrow> stage_dir res" where
  "put_fence receipt_hash fence dir =
     rbind (atomic_append_json (json_name (take 20 receipt_hash)) fence (sd_fences dir)) (\<lambda>fs. Inr (dir\<lparr>sd_fences := fs\<rparr>))"

definition put_staged :: "string \<Rightarrow> dict \<Rightarrow> stage_dir \<Rightarrow> stage_dir res" where
  "put_staged receipt_hash receipt dir =
     rbind (atomic_append_json (json_name receipt_hash) receipt (sd_staged dir)) (\<lambda>fs. Inr (dir\<lparr>sd_staged := fs\<rparr>))"

definition put_marker :: "string \<Rightarrow> dict \<Rightarrow> stage_dir \<Rightarrow> stage_dir res" where
  "put_marker receipt_hash marker dir =
     rbind (atomic_append_json (json_name receipt_hash) marker (sd_markers dir)) (\<lambda>fs. Inr (dir\<lparr>sd_markers := fs\<rparr>))"

definition build_stage_marker :: "host \<Rightarrow> dict \<Rightarrow> dict \<Rightarrow> int \<Rightarrow> dict res" where
  "build_stage_marker h receipt authorization sequence =
     (let receipt_hash = doc_text receipt ''receipt_hash'' in
      rbind (build_marker_envelope h (JStr (''stage_'' @ receipt_hash)) (dget authorization ''authorization_hash'')
        (JStr ''stage_receipt'') (dget receipt ''receipt_hash'')
        (Some [(''session_id'', dget receipt ''session_id''), (''chapter_index'', dget receipt ''chapter_index''),
               (''sequence'', JInt sequence), (''authorization_hash'', dget authorization ''authorization_hash''),
               (''target_name'', JStr (receipt_name sequence receipt_hash))])) (\<lambda>marker.
      case marker of JObj m \<Rightarrow> Inr m | _ \<Rightarrow> Inl TypeError))"

text \<open>What \<open>append\<close> decides before it writes: a receipt that is there already, or a fence and a place.\<close>

datatype append_plan = Replay dict | Publish int dict

fun find_replay :: "dict \<Rightarrow> dict list \<Rightarrow> dict option res" where
  "find_replay receipt [] = Inr None"
| "find_replay receipt (item # rest) =
     (if dget item ''receipt_hash'' = dget receipt ''receipt_hash''
      then (if \<not> py_eq (JObj item) (JObj receipt)
            then receipt_error ''stage_receipt_replay_conflict'' ''receipt hash replay has different content''
            else Inr (Some item))
      else find_replay receipt rest)"

definition fence_scope :: "dict \<Rightarrow> dict \<Rightarrow> dict \<Rightarrow> json list" where
  "fence_scope receipt authorization lease =
     [dget receipt ''receipt_hash'', dget authorization ''authorization_hash'', dget receipt ''book_id'',
      dget receipt ''session_id'', dget receipt ''plan_id'', dget receipt ''chapter_index'',
      dget lease ''lease_hash'', dget lease ''generation'']"

definition fence_scope_fields :: "string list" where
  "fence_scope_fields = [''receipt_hash'', ''authorization_hash'', ''book_id'', ''session_id'', ''plan_id'',
     ''chapter_index'', ''lease_hash'', ''lease_generation'']"

definition append_fence :: "host \<Rightarrow> string \<Rightarrow> dict \<Rightarrow> dict \<Rightarrow> dict \<Rightarrow> json \<Rightarrow> stage_dir \<Rightarrow> dict res" where
  "append_fence h now receipt authorization lease at_time dir =
     (case map_of (sd_fences dir) (json_name (take 20 (doc_text receipt ''receipt_hash''))) of
        Some file \<Rightarrow>
          rbind (load_json_object ''fence'' file) (\<lambda>d.
          rbind (validate_stage_lease_fence h (JObj d)) (\<lambda>fence.
          if \<not> py_eq (JList (map (dget fence) fence_scope_fields)) (JList (fence_scope receipt authorization lease))
          then receipt_error ''stage_receipt_fence_conflict'' ''orphan StageReceipt fence belongs to different evidence''
          else Inr fence))
      | None \<Rightarrow> build_stage_lease_fence h now receipt authorization lease at_time)"

text \<open>
  The fuel bounds the walk of \<open>assert_descends_from\<close>; \<open>None\<close> means that it was too little.
\<close>

definition check_descent :: "nat \<Rightarrow> host \<Rightarrow> lease_store \<Rightarrow> stage_dir \<Rightarrow> dict \<Rightarrow> dict \<Rightarrow> dict list \<Rightarrow> unit res option" where
  "check_descent fuel h leases dir receipt lease existing =
     (if existing = [] then Some (Inr ())
      else case fence_in h leases dir (last existing) of
          Inl e \<Rightarrow> Some (Inl e)
        | Inr previous_fence \<Rightarrow>
            assert_descends_from fuel h (dget receipt ''book_id'') (dget lease ''lease_hash'') (dget previous_fence ''lease_hash'') leases)"

definition plan_publication ::
  "host \<Rightarrow> string \<Rightarrow> dict \<Rightarrow> dict \<Rightarrow> dict \<Rightarrow> json \<Rightarrow> dict list \<Rightarrow> stage_dir \<Rightarrow> append_plan res" where
  "plan_publication h now receipt authorization lease at_time existing dir =
     rbind (find_replay receipt existing) (\<lambda>found.
     case found of
       Some item \<Rightarrow> Inr (Replay item)
     | None \<Rightarrow>
         if dget receipt ''recovery_protocol'' \<noteq> JStr MARKER_RECOVERY_PROTOCOL
         then receipt_error ''stage_receipt_recovery_protocol_missing'' ''new StageReceipts require marker-backed publication''
         else
           let candidate = existing @ [receipt] in
           rbind (validate_stage_receipt_chain h candidate) (\<lambda>_.
           rbind (validate_autonomy_stage_chain candidate) (\<lambda>_.
           rbind (append_fence h now receipt authorization lease at_time dir) (\<lambda>fence.
           Inr (Publish (int (length existing) + 1) fence)))))"

definition append_lease ::
  "host \<Rightarrow> string \<Rightarrow> lease_store \<Rightarrow> dict \<Rightarrow> json \<Rightarrow> json \<Rightarrow> dict res" where
  "append_lease h now leases receipt expected_lease_hash at_time =
     rbind (assert_held h now (dget receipt ''book_id'') (dget receipt ''session_id'') (dget receipt ''plan_id'')
              at_time leases) (\<lambda>lease.
     rbind (au_sha256 ''expected_lease_hash'' expected_lease_hash) (\<lambda>expected.
     if dget lease ''lease_hash'' \<noteq> expected
     then receipt_error ''stage_receipt_lease_fence_stale'' ''book lease generation changed''
     else Inr lease))"

text \<open>The writes before the receipt itself, in their order; the process can end after each of them.\<close>

definition append_writes :: "host \<Rightarrow> dict \<Rightarrow> dict \<Rightarrow> dict \<Rightarrow> int \<Rightarrow> (stage_dir \<Rightarrow> stage_dir res) list" where
  "append_writes h receipt authorization fence sequence =
     (let receipt_hash = doc_text receipt ''receipt_hash'' in
      [put_authorization authorization, put_fence receipt_hash fence, put_staged receipt_hash receipt,
       (\<lambda>dir. rbind (build_stage_marker h receipt authorization sequence) (\<lambda>marker. put_marker receipt_hash marker dir))])"

fun run_writes :: "('s \<Rightarrow> 's res) list \<Rightarrow> 's \<Rightarrow> unit res \<times> 's" where
  "run_writes [] dir = (Inr (), dir)"
| "run_writes (w # ws) dir = (case w dir of Inl e \<Rightarrow> (Inl e, dir) | Inr dir' \<Rightarrow> run_writes ws dir')"

definition publish_new_receipt ::
  "host \<Rightarrow> string \<Rightarrow> int \<Rightarrow> dict \<Rightarrow> dict \<Rightarrow> dict \<Rightarrow> int \<Rightarrow> stage_dir \<Rightarrow> dict res \<times> stage_dir" where
  "publish_new_receipt h session chapter receipt authorization fence sequence dir =
     (case run_writes (append_writes h receipt authorization fence sequence) dir of
        (Inl e, dir') \<Rightarrow> (Inl e, dir')
      | (Inr _, dir') \<Rightarrow>
          (case build_stage_marker h receipt authorization sequence of
             Inl e \<Rightarrow> (Inl e, dir')
           | Inr marker \<Rightarrow> publish_stage_marker h session chapter (JObj marker) dir'))"

definition append_in ::
  "nat \<Rightarrow> host \<Rightarrow> string \<Rightarrow> lease_store \<Rightarrow> string \<Rightarrow> int \<Rightarrow> dict \<Rightarrow> dict \<Rightarrow> json \<Rightarrow> json \<Rightarrow> stage_dir \<Rightarrow> (dict res \<times> stage_dir) option" where
  "append_in fuel h now leases session chapter receipt authorization expected_lease_hash at_time dir =
     (case append_lease h now leases receipt expected_lease_hash at_time of
        Inl e \<Rightarrow> Some (Inl e, dir)
      | Inr lease \<Rightarrow>
          (case load_chain_in h leases session chapter dir of
             (Inl e, dir') \<Rightarrow> Some (Inl e, dir')
           | (Inr existing, dir') \<Rightarrow>
               (case check_descent fuel h leases dir' receipt lease existing of
                  None \<Rightarrow> None
                | Some (Inl e) \<Rightarrow> Some (Inl e, dir')
                | Some (Inr _) \<Rightarrow>
                    (case plan_publication h now receipt authorization lease at_time existing dir' of
                       Inl e \<Rightarrow> Some (Inl e, dir')
                     | Inr (Replay item) \<Rightarrow> Some (Inr item, dir')
                     | Inr (Publish sequence fence) \<Rightarrow>
                         Some (publish_new_receipt h session chapter receipt authorization fence sequence dir')))))"

section \<open>The store\<close>

type_synonym stage_store = "string \<times> int \<Rightarrow> stage_dir"

definition append_receipt ::
  "nat \<Rightarrow> host \<Rightarrow> string \<Rightarrow> lease_store \<Rightarrow> dict \<Rightarrow> dict \<Rightarrow> json \<Rightarrow> json \<Rightarrow> stage_store \<Rightarrow> (dict res \<times> stage_store) option" where
  "append_receipt fuel h now leases receipt authorization expected_lease_hash at_time store =
     (case rbind (validate_stage_receipt h (JObj receipt)) (\<lambda>_.
           rbind (validate_stage_authorization h (JObj authorization)) (\<lambda>_.
           rbind (assert_receipt_matches_authorization h receipt authorization) (\<lambda>_.
           stage_directory h (dget receipt ''session_id'') (dget receipt ''chapter_index'')))) of
        Inl e \<Rightarrow> Some (Inl e, store)
      | Inr key \<Rightarrow>
          map_option (\<lambda>(r, dir). (r, store(key := dir)))
            (append_in fuel h now leases (doc_text receipt ''session_id'') (snd key) receipt authorization
               expected_lease_hash at_time (store key)))"

definition load_stage_chain :: "host \<Rightarrow> lease_store \<Rightarrow> json \<Rightarrow> json \<Rightarrow> stage_store \<Rightarrow> dict list res \<times> stage_store" where
  "load_stage_chain h leases session_id chapter_index store =
     (case rbind (safe_id ''session_id'' session_id) (\<lambda>session.
           rbind (au_int_from ''chapter_index'' 1 chapter_index) (\<lambda>chapter.
           rbind (stage_directory h session_id chapter_index) (\<lambda>key. Inr (session, chapter, key)))) of
        Inl e \<Rightarrow> (Inl e, store)
      | Inr (session, chapter, key) \<Rightarrow>
          (let (r, dir) = load_chain_in h leases session chapter (store key) in (r, store(key := dir))))"

definition fence_for :: "host \<Rightarrow> lease_store \<Rightarrow> dict \<Rightarrow> stage_store \<Rightarrow> dict res" where
  "fence_for h leases receipt store =
     rbind (validate_stage_receipt h (JObj receipt)) (\<lambda>_.
     rbind (stage_directory h (dget receipt ''session_id'') (dget receipt ''chapter_index'')) (\<lambda>key.
     fence_in h leases (store key) receipt))"

definition authorization_for :: "host \<Rightarrow> dict \<Rightarrow> stage_store \<Rightarrow> dict res" where
  "authorization_for h receipt store =
     rbind (validate_stage_receipt h (JObj receipt)) (\<lambda>_.
     rbind (stage_directory h (dget receipt ''session_id'') (dget receipt ''chapter_index'')) (\<lambda>key.
     authorization_in h (store key) receipt))"

definition contains_receipt :: "host \<Rightarrow> lease_store \<Rightarrow> dict \<Rightarrow> stage_store \<Rightarrow> bool res \<times> stage_store" where
  "contains_receipt h leases receipt store =
     (case validate_stage_receipt h (JObj receipt) of
        Inl e \<Rightarrow> (Inl e, store)
      | Inr _ \<Rightarrow>
          (case load_stage_chain h leases (dget receipt ''session_id'') (dget receipt ''chapter_index'') store of
             (Inl e, store') \<Rightarrow> (Inl e, store')
           | (Inr chain, store') \<Rightarrow> (Inr (\<exists>item \<in> set chain. py_eq (JObj item) (JObj receipt)), store')))"

text \<open>The new receipt comes last.\<close>

lemma receipt_names_counted: "check_receipt_names (numbered_files 4 fs) = Inr () \<Longrightarrow> counted 4 fs"
proof -
  let ?nf = "numbered_files 4 fs"
  assume "check_receipt_names ?nf = Inr ()"
  then have "\<forall>p \<in> set (zip [1..<length ?nf + 1] (map fst ?nf)). starts_with (show_padded 4 (int (fst p)) @ ''-'') (snd p)"
    by (auto simp: check_receipt_names_def rcheck_Inr_iff split: if_splits)
  moreover have "(Suc i, fst (?nf ! i)) \<in> set (zip [1..<length ?nf + 1] (map fst ?nf))" if "i < length ?nf" for i
    using that by (auto simp: set_zip simp del: upt_Suc intro!: exI [of _ i])
  ultimately show ?thesis unfolding counted_def by (fastforce simp: add.commute)
qed

lemma receipt_files_snoc:
  assumes names: "check_receipt_names (receipt_files dir) = Inr ()" and n: "length (receipt_files dir) < 9999"
    and d: "dir' = dir\<lparr>sd_receipts := sd_receipts dir @ [(receipt_name (int (length (receipt_files dir)) + 1) x, f)]\<rparr>"
  shows "receipt_files dir' = receipt_files dir @ [(receipt_name (int (length (receipt_files dir)) + 1) x, f)]"
    and "map_of (sd_receipts dir) (receipt_name (int (length (receipt_files dir)) + 1) x) = None"
  using numbered_files_snoc [OF receipt_names_counted [OF names [unfolded receipt_files_def]],
      where new = "receipt_name (int (length (receipt_files dir)) + 1) x" and t = "take 20 x @ ''.json''"] n
  by (simp_all add: receipt_files_def d receipt_name_def ends_with_def)

section \<open>The lease behind a fence\<close>

lemma collected_nonempty: "rfold (collect_record h book) fs acc = Inr bg \<Longrightarrow> acc \<noteq> [] \<or> fs \<noteq> [] \<Longrightarrow> bg \<noteq> []"
proof (induction fs arbitrary: acc)
  case (Cons f fs)
  then obtain acc' where s: "collect_record h book f acc = Inr acc'" and rest: "rfold (collect_record h book) fs acc' = Inr bg"
    by (auto simp: rbind_eq_Inr)
  have "AList.update k v xs \<noteq> []" for k :: int and v :: dict and xs by (cases xs) auto
  with s have "acc' \<noteq> []" by (auto simp: collect_record_Inr)
  with Cons.IH [OF rest] show ?case by simp
qed simp

lemma indexed_last: "chain \<noteq> [] \<Longrightarrow> map_of (index_by_hash chain) (lease_text (last chain) ''lease_hash'') = Some (last chain)"
  by (cases chain rule: rev_cases) (simp_all add: index_by_hash_def update_conv')

text \<open>The head of a history is the last lease of its chain.\<close>

lemma reconciled_head:
  assumes "reconcile_history_head h book publish dir = (Inr (Some lease), dir')"
  obtains bg chain where "lease_chain h book (history_files dir) = Inr (bg, chain)" and "chain \<noteq> []" and "lease = last chain"
    and "chain_ok h book chain" and "validate_book_lease h (JObj lease) = Inr (JObj lease)"
proof -
  from assms have ne: "history_files dir \<noteq> []" by (auto simp: reconcile_history_head_def split: if_splits)
  obtain head where head: "rbind (lease_chain h book (history_files dir)) (\<lambda>(by_generation, chain).
       rbind (check_current h by_generation (current_file dir)) (\<lambda>_. Inr (last chain))) = Inr head"
    using assms ne by (cases "rbind (lease_chain h book (history_files dir)) (\<lambda>(by_generation, chain).
       rbind (check_current h by_generation (current_file dir)) (\<lambda>_. Inr (last chain)))")
      (simp_all add: reconcile_history_head_def)
  from head obtain bg chain where l: "lease_chain h book (history_files dir) = Inr (bg, chain)" and hd: "head = last chain"
    by (auto simp: rbind_eq_Inr)
  have lease: "lease = last chain"
    using assms ne head hd by (auto simp: reconcile_history_head_def split: if_splits)
  have "sort_key fst (history_files dir) \<noteq> []" using ne by (metis set_empty set_sort)
  with l have "bg \<noteq> []"
    by (auto simp: lease_chain_def rbind_eq_Inr collect_history_def dest!: collected_nonempty split: if_splits)
  with lease_chain_sound [OF l] have ok: "chain_ok h book chain" and ne': "chain \<noteq> []" by simp_all
  then have "lease \<in> set chain" by (simp add: lease)
  with chain_from_members [OF ok [unfolded chain_ok_def]] have "validate_book_lease h (JObj lease) = Inr (JObj lease)"
    by (simp add: lease_of_def)
  with l ne' lease ok that show thesis by blast
qed

text \<open>The lease that is held is in the index of the history, under its own hash.\<close>

lemma held_is_indexed:
  assumes "assert_held h now book_id session_id plan_id at_time leases = Inr lease"
  shows "\<exists>records x. load_history_index h book_id leases = Inr records \<and> dget lease ''lease_hash'' = JStr x \<and>
    map_of records x = Some lease \<and> validate_book_lease h (JObj lease) = Inr (JObj lease)"
proof -
  from assms obtain book key where b: "book_id = JStr book" and k: "book_directory h book = Inr key"
    and a: "assert_held_in h book session_id plan_id (py_or at_time (JStr now)) (leases key) = Inr lease"
    by (auto simp: assert_held_def rbind_eq_Inr safe_id_Inr)
  from a obtain dir' where "reconcile_history_head h book False (leases key) = (Inr (Some lease), dir')"
    by (cases "reconcile_history_head h book False (leases key)") (auto simp: assert_held_in_def rbind_eq_Inr split: option.splits if_splits)
  then obtain bg chain where l: "lease_chain h book (history_files (leases key)) = Inr (bg, chain)" and ne: "chain \<noteq> []"
    and lease: "lease = last chain" and v: "validate_book_lease h (JObj lease) = Inr (JObj lease)" by (rule reconciled_head)
  have "dget lease ''lease_hash'' = JStr (lease_text lease ''lease_hash'')" by (rule validated_lease_fields(6) [OF v])
  with indexed_last [OF ne] lease v load_history_index_chain [where store = leases, OF k l] show ?thesis by (auto simp: b)
qed

lemma held_is_durable:
  assumes "assert_held h now book_id session_id plan_id at_time leases = Inr lease"
  shows "load_history h book_id (dget lease ''lease_hash'') leases = Inr lease"
proof -
  from held_is_indexed [OF assms] obtain records x where i: "load_history_index h book_id leases = Inr records"
    and x: "dget lease ''lease_hash'' = JStr x" "map_of records x = Some lease"
    and v: "validate_book_lease h (JObj lease) = Inr (JObj lease)" by blast
  from validated_lease_fields(7) [OF v] x have "json_sha256 (JStr x)" by (simp add: lease_text_def json_sha256_def)
  with i x show ?thesis
    by (auto simp: load_history_def load_history_index_def rbind_eq_Inr safe_id_Inr au_sha256_Inr find_record_def)
qed

section \<open>Writes only add files\<close>

text \<open>
  A directory that has the receipts and markers of another one, and all its other files.
\<close>

definition extends :: "stage_dir \<Rightarrow> stage_dir \<Rightarrow> bool" where
  "extends dir dir' \<longleftrightarrow> sd_markers dir' = sd_markers dir \<and> sd_receipts dir' = sd_receipts dir \<and>
     map_of (sd_authorizations dir) \<subseteq>\<^sub>m map_of (sd_authorizations dir') \<and>
     map_of (sd_fences dir) \<subseteq>\<^sub>m map_of (sd_fences dir') \<and> map_of (sd_staged dir) \<subseteq>\<^sub>m map_of (sd_staged dir')"

lemma fence_in_mono:
  assumes "fence_in h leases dir r = Inr f" and "map_of (sd_authorizations dir) \<subseteq>\<^sub>m map_of (sd_authorizations dir')"
    and "map_of (sd_fences dir) \<subseteq>\<^sub>m map_of (sd_fences dir')"
  shows "fence_in h leases dir' r = Inr f"
  using assms load_named_mono unfolding fence_in_def authorization_in_def by (fastforce simp: rbind_eq_Inr)

lemma check_stored_mono:
  assumes "check_stored_receipt h leases s c marked dir r = Inr ()"
    and "map_of (sd_authorizations dir) \<subseteq>\<^sub>m map_of (sd_authorizations dir')" and "map_of (sd_fences dir) \<subseteq>\<^sub>m map_of (sd_fences dir')"
    and st: "map_of (sd_staged dir') (json_name (doc_text r ''receipt_hash'')) = map_of (sd_staged dir) (json_name (doc_text r ''receipt_hash''))"
    and mk: "set marked \<subseteq> set marked'"
  shows "check_stored_receipt h leases s c marked' dir' r = Inr ()"
proof -
  from assms(1) obtain f where f: "fence_in h leases dir r = Inr f"
    by (auto simp: check_stored_receipt_def Let_def rbind_eq_Inr split: if_splits)
  note g = fence_in_mono [OF f assms(2,3)]
  show ?thesis
  proof (cases "map_of (sd_staged dir) (json_name (doc_text r ''receipt_hash''))")
    case None
    with assms(1) g mk st show ?thesis by (auto simp: check_stored_receipt_def Let_def rbind_eq_Inr)
  next
    case (Some f0)
    with assms(1) g mk st show ?thesis by (auto simp: check_stored_receipt_def Let_def rbind_eq_Inr)
  qed
qed

lemma staged_receipt_mono:
  assumes "staged_receipt h dir m x s c = Inr r" and "map_of (sd_staged dir) \<subseteq>\<^sub>m map_of (sd_staged dir')"
  shows "staged_receipt h dir' m x s c = Inr r"
  using assms by (auto simp: staged_receipt_def map_le_def dom_def split: option.splits)

section \<open>Publishing markers again\<close>

text \<open>A marker whose receipt is there: publishing it changes nothing.\<close>

definition published :: "host \<Rightarrow> string \<Rightarrow> int \<Rightarrow> stage_dir \<Rightarrow> dict \<Rightarrow> bool" where
  "published h s c dir m \<longleftrightarrow> (\<exists>committed x name staged existing.
     as_marker_error (validate_marker_envelope h (JObj m)) = Inr committed \<and>
     stage_marker_target committed s c = Inr (x, name) \<and> staged_receipt h dir committed x s c = Inr staged \<and>
     map_of (sd_receipts dir) name = Some (Doc (JObj existing)) \<and>
     completed_receipt h name staged dir = (Inr existing, dir))"

lemma completed_receipt_Inr:
  "completed_receipt h name staged dir = (Inr existing, dir) \<longleftrightarrow>
     map_of (sd_receipts dir) name = Some (Doc (JObj existing)) \<and>
     (\<exists>w. validate_stage_receipt h (JObj existing) = Inr w) \<and> py_eq (JObj existing) (JObj staged)"
  by (auto simp: completed_receipt_def rbind_eq_Inr load_named_Inr)

lemma published_publish: "published h s c dir m \<Longrightarrow> \<exists>r. publish_stage_marker h s c (JObj m) dir = (Inr r, dir)"
  by (auto simp: published_def publish_stage_marker_def reconcile_marker_transaction_def decide_marker_recovery_def)

lemma published_mono:
  assumes "published h s c dir m" and "map_of (sd_staged dir) \<subseteq>\<^sub>m map_of (sd_staged dir')"
    and "map_of (sd_receipts dir) \<subseteq>\<^sub>m map_of (sd_receipts dir')"
  shows "published h s c dir' m"
proof -
  from assms(1) obtain committed x name staged existing where p:
    "as_marker_error (validate_marker_envelope h (JObj m)) = Inr committed"
    "stage_marker_target committed s c = Inr (x, name)" "staged_receipt h dir committed x s c = Inr staged"
    "map_of (sd_receipts dir) name = Some (Doc (JObj existing))" "completed_receipt h name staged dir = (Inr existing, dir)"
    by (auto simp: published_def)
  from p(4) assms(3) have r: "map_of (sd_receipts dir') name = Some (Doc (JObj existing))"
    by (auto simp: map_le_def dom_def)
  with p(5) have "completed_receipt h name staged dir' = (Inr existing, dir')" by (simp add: completed_receipt_Inr)
  with p r staged_receipt_mono [OF p(3) assms(2)] show ?thesis unfolding published_def by blast
qed

text \<open>Publishing either finds the receipt or adds it.\<close>

lemma publish_cases:
  assumes "publish_stage_marker h s c (JObj m) dir = (Inr r, dir')"
  shows "(dir' = dir \<and> published h s c dir m) \<or> length (sd_receipts dir') = Suc (length (sd_receipts dir))"
proof -
  from assms obtain committed x name staged where p:
    "as_marker_error (validate_marker_envelope h (JObj m)) = Inr committed"
    "stage_marker_target committed s c = Inr (x, name)" "staged_receipt h dir committed x s c = Inr staged"
    by (auto simp: publish_stage_marker_def rbind_eq_Inr split: sum.splits)
  show ?thesis
  proof (cases "map_of (sd_receipts dir) name")
    case None
    with assms p have "publish_receipt name staged dir = (Inr r, dir')"
      by (simp add: publish_stage_marker_def reconcile_marker_transaction_def decide_marker_recovery_def)
    with None show ?thesis by (auto simp: publish_receipt_def append_new)
  next
    case (Some f)
    with assms p have "completed_receipt h name staged dir = (Inr r, dir')"
      by (simp add: publish_stage_marker_def reconcile_marker_transaction_def decide_marker_recovery_def)
    moreover then have "dir' = dir" by (simp add: completed_receipt_def)
    ultimately show ?thesis using p unfolding published_def by (auto simp: completed_receipt_Inr)
  qed
qed

lemma publish_markers_settled:
  assumes "publish_markers h s c ms dir = (Inr u, dir')"
  shows "length (sd_receipts dir) \<le> length (sd_receipts dir')"
    and "length (sd_receipts dir') = length (sd_receipts dir) \<Longrightarrow> dir' = dir \<and> (\<forall>m \<in> set ms. published h s c dir m)"
proof -
  have "length (sd_receipts dir) \<le> length (sd_receipts dir') \<and>
    (length (sd_receipts dir') = length (sd_receipts dir) \<longrightarrow> dir' = dir \<and> (\<forall>m \<in> set ms. published h s c dir m))"
    using assms
  proof (induction ms arbitrary: dir)
    case (Cons m ms)
    then obtain r i where s: "publish_stage_marker h s c (JObj m) dir = (Inr r, i)"
      and rest: "publish_markers h s c ms i = (Inr u, dir')" by (auto split: prod.splits sum.splits)
    from publish_cases [OF s] Cons.IH [OF rest] show ?case by auto
  qed simp
  then show "length (sd_receipts dir) \<le> length (sd_receipts dir')"
    "length (sd_receipts dir') = length (sd_receipts dir) \<Longrightarrow> dir' = dir \<and> (\<forall>m \<in> set ms. published h s c dir m)" by auto
qed

lemma publish_markers_all: "(\<forall>m \<in> set ms. published h s c dir m) \<Longrightarrow> publish_markers h s c ms dir = (Inr (), dir)"
  by (induction ms) (auto dest!: published_publish)

text \<open>One new marker among published ones adds its receipt, wherever it stands.\<close>

lemma publish_markers_one:
  assumes "\<forall>m \<in> set ms. m = new \<or> published h s c dir m"
    and step: "publish_stage_marker h s c (JObj new) dir = (Inr r, dir')"
    and after: "published h s c dir' new" "\<And>m. published h s c dir m \<Longrightarrow> published h s c dir' m"
  shows "publish_markers h s c ms dir = (Inr (), if new \<in> set ms then dir' else dir)"
  using assms(1)
proof (induction ms)
  case (Cons m ms)
  show ?case
  proof (cases "m = new")
    case True
    have "\<forall>m \<in> set ms. published h s c dir' m" using Cons.prems after by auto
    from publish_markers_all [OF this] True step show ?thesis by simp
  next
    case False
    with Cons.prems published_publish obtain q where "publish_stage_marker h s c (JObj m) dir = (Inr q, dir)" by fastforce
    with Cons False show ?thesis by auto
  qed
qed simp

lemma settled_markers:
  assumes "reconcile_stage_markers h s c dir = (Inr marked, dir)"
  obtains ms where "rmap (load_marker h) (sort_key fst (filter (\<lambda>f. ends_with ''.json'' (fst f)) (sd_markers dir))) = Inr ms"
    and "\<forall>m \<in> set ms. published h s c dir m" and "marked = map (\<lambda>m. doc_text m ''evidence_hash'') ms"
proof -
  from assms obtain ms u where "rmap (load_marker h) (sort_key fst (filter (\<lambda>f. ends_with ''.json'' (fst f)) (sd_markers dir))) = Inr ms"
    and p: "publish_markers h s c ms dir = (Inr u, dir)" and "marked = map (\<lambda>m. doc_text m ''evidence_hash'') ms"
    by (auto simp: reconcile_stage_markers_def split: sum.splits prod.splits)
  with publish_markers_settled(2) [OF p] that show ?thesis by blast
qed

section \<open>The evidence of a receipt\<close>

text \<open>The directory after the first writes, up to the staged copy.\<close>

definition evidence :: "string \<Rightarrow> stage_dir \<Rightarrow> stage_dir \<Rightarrow> bool" where
  "evidence x dir dir' \<longleftrightarrow> extends dir dir' \<and>
     (\<forall>n. n \<noteq> json_name x \<longrightarrow> map_of (sd_staged dir') n = map_of (sd_staged dir) n)"

lemma put_authorization_evidence:
  assumes "put_authorization a dir = Inr dir'" and "fresh_or_same (json_name (take 20 (doc_text a ''authorization_hash''))) a (sd_authorizations dir)"
  shows "evidence x dir dir'" and "map_of (sd_authorizations dir') (json_name (take 20 (doc_text a ''authorization_hash''))) = Some (Doc (JObj a))"
    and "sd_fences dir' = sd_fences dir" and "sd_staged dir' = sd_staged dir"
  using assms append_adds
  by (auto simp: put_authorization_def rbind_eq_Inr evidence_def extends_def)

lemma put_fence_evidence:
  assumes "put_fence x f dir = Inr dir'" and "fresh_or_same (json_name (take 20 x)) f (sd_fences dir)"
  shows "evidence y dir dir'" and "map_of (sd_fences dir') (json_name (take 20 x)) = Some (Doc (JObj f))"
    and "sd_authorizations dir' = sd_authorizations dir" and "sd_staged dir' = sd_staged dir"
  using assms append_adds by (auto simp: put_fence_def rbind_eq_Inr evidence_def extends_def)

lemma put_staged_evidence:
  assumes "put_staged x r dir = Inr dir'" and "fresh_or_same (json_name x) r (sd_staged dir)"
  shows "evidence x dir dir'" and "map_of (sd_staged dir') (json_name x) = Some (Doc (JObj r))"
    and "sd_authorizations dir' = sd_authorizations dir" and "sd_fences dir' = sd_fences dir"
  using assms append_adds by (auto simp: put_staged_def rbind_eq_Inr evidence_def extends_def)

lemma evidence_refl: "evidence x dir dir"
  by (simp add: evidence_def extends_def map_le_def)

lemma evidence_trans: "evidence x a b \<Longrightarrow> evidence x b c \<Longrightarrow> evidence x a c"
  by (auto simp: evidence_def extends_def intro: map_le_trans)

lemma run_writes_Cons: "run_writes (w # ws) dir = (Inr (), dir') \<longleftrightarrow> (\<exists>d. w dir = Inr d \<and> run_writes ws d = (Inr (), dir'))"
  by (auto split: sum.splits)

lemma four_cases: "k \<le> 4 \<Longrightarrow> k = 0 \<or> k = 1 \<or> k = 2 \<or> k = 3 \<or> k = (4::nat)"
  by arith

text \<open>What a crash after \<open>k\<close> of the writes leaves.\<close>

lemma crash_states:
  assumes run: "run_writes (take k (append_writes h r a f q)) dir = (Inr (), dir')" and k: "k \<le> 4"
    and x: "x = doc_text r ''receipt_hash''"
    and fa: "fresh_or_same (json_name (take 20 (doc_text a ''authorization_hash''))) a (sd_authorizations dir)"
    and ff: "fresh_or_same (json_name (take 20 x)) f (sd_fences dir)"
    and fs: "fresh_or_same (json_name x) r (sd_staged dir)"
    and fm: "map_of (sd_markers dir) (json_name x) = None"
  shows "k < 4 \<Longrightarrow> evidence x dir dir'"
    and "k = 4 \<Longrightarrow> \<exists>mk d. build_stage_marker h r a q = Inr mk \<and> evidence x dir d \<and>
      dir' = d\<lparr>sd_markers := sd_markers dir @ [(json_name x, Doc (JObj mk))]\<rparr> \<and>
      map_of (sd_authorizations d) (json_name (take 20 (doc_text a ''authorization_hash''))) = Some (Doc (JObj a)) \<and>
      map_of (sd_fences d) (json_name (take 20 x)) = Some (Doc (JObj f)) \<and> map_of (sd_staged d) (json_name x) = Some (Doc (JObj r))"
proof -
  note writes = append_writes_def Let_def x [symmetric] run_writes_Cons
  have one: "evidence x dir d1" "fresh_or_same (json_name (take 20 x)) f (sd_fences d1)" "fresh_or_same (json_name x) r (sd_staged d1)"
    if "put_authorization a dir = Inr d1" for d1
    using put_authorization_evidence(1) [OF that fa, where x = x] put_authorization_evidence(2-4) [OF that fa] ff fs by simp_all
  have two: "evidence x dir d2" "fresh_or_same (json_name x) r (sd_staged d2)"
    if "put_authorization a dir = Inr d1" "put_fence x f d1 = Inr d2" for d1 d2
    using put_fence_evidence(1) [OF that(2) one(2) [OF that(1)], where y = x] put_fence_evidence(2-4) [OF that(2) one(2) [OF that(1)]]
      one(1,3) [OF that(1)] evidence_trans by auto
  have three: "evidence x dir d3 \<and>
      map_of (sd_authorizations d3) (json_name (take 20 (doc_text a ''authorization_hash''))) = Some (Doc (JObj a)) \<and>
      map_of (sd_fences d3) (json_name (take 20 x)) = Some (Doc (JObj f)) \<and> map_of (sd_staged d3) (json_name x) = Some (Doc (JObj r))"
    if "put_authorization a dir = Inr d1" "put_fence x f d1 = Inr d2" "put_staged x r d2 = Inr d3" for d1 d2 d3
    using put_staged_evidence [OF that(3) two(2) [OF that(1,2)]] two(1) [OF that(1,2)]
      put_fence_evidence(2-4) [OF that(2) one(2) [OF that(1)]] put_authorization_evidence(2) [OF that(1) fa] evidence_trans by auto
  show "evidence x dir dir'" if "k < 4"
    using four_cases [OF k] run that
    by (elim disjE) (auto simp: writes numeral_2_eq_2 numeral_3_eq_3 evidence_refl simp del: run_writes.simps(2) dest: one(1) two(1) three)
  show "\<exists>mk d. build_stage_marker h r a q = Inr mk \<and> evidence x dir d \<and>
      dir' = d\<lparr>sd_markers := sd_markers dir @ [(json_name x, Doc (JObj mk))]\<rparr> \<and>
      map_of (sd_authorizations d) (json_name (take 20 (doc_text a ''authorization_hash''))) = Some (Doc (JObj a)) \<and>
      map_of (sd_fences d) (json_name (take 20 x)) = Some (Doc (JObj f)) \<and> map_of (sd_staged d) (json_name x) = Some (Doc (JObj r))"
    if "k = 4"
  proof -
    from run that obtain d1 d2 d3 mk where w: "put_authorization a dir = Inr d1" "put_fence x f d1 = Inr d2" "put_staged x r d2 = Inr d3"
      and b: "build_stage_marker h r a q = Inr mk" and m: "put_marker x mk d3 = Inr dir'"
      by (auto simp: writes rbind_eq_Inr simp del: run_writes.simps(2))
    note e = three [OF w]
    then have "sd_markers d3 = sd_markers dir" by (simp add: evidence_def extends_def)
    with m fm have "dir' = d3\<lparr>sd_markers := sd_markers dir @ [(json_name x, Doc (JObj mk))]\<rparr>"
      by (simp add: put_marker_def append_new)
    with e b show ?thesis by blast
  qed
qed

section \<open>Recovery after a crash\<close>

lemma load_receipts_Inr:
  "load_receipts h leases s c marked dir = Inr chain \<longleftrightarrow>
     rmap (\<lambda>f. load_stage_receipt h (fst f) (snd f)) (receipt_files dir) = Inr chain \<and>
     (\<exists>vs. validate_stage_receipt_chain h chain = Inr vs) \<and> validate_autonomy_stage_chain chain = Inr () \<and>
     check_receipt_names (receipt_files dir) = Inr () \<and>
     (\<forall>r \<in> set chain. check_stored_receipt h leases s c marked dir r = Inr ())"
  by (auto simp: load_receipts_def rbind_eq_Inr rcheck_Inr_iff)

lemma evidence_published: "evidence x dir d \<Longrightarrow> published h s c dir m \<Longrightarrow> published h s c d m"
  by (erule published_mono) (simp_all add: evidence_def extends_def)

text \<open>Before the marker the loaded chain is the old one.\<close>

lemma load_before_marker:
  assumes load: "load_chain_in h leases s c dir = (Inr chain, dir)" and e: "evidence x dir d"
    and new: "\<And>r. r \<in> set chain \<Longrightarrow> doc_text r ''receipt_hash'' \<noteq> x"
  shows "load_chain_in h leases s c d = (Inr chain, d)"
proof -
  from load obtain marked where m: "reconcile_stage_markers h s c dir = (Inr marked, dir)"
    and l: "load_receipts h leases s c marked dir = Inr chain"
    by (auto simp: load_chain_in_def split: prod.splits sum.splits)
  from m obtain ms where ms: "rmap (load_marker h) (sort_key fst (filter (\<lambda>f. ends_with ''.json'' (fst f)) (sd_markers dir))) = Inr ms"
    and p: "\<forall>m \<in> set ms. published h s c dir m" and marked: "marked = map (\<lambda>m. doc_text m ''evidence_hash'') ms"
    by (rule settled_markers)
  from e have same: "sd_markers d = sd_markers dir" "receipt_files d = receipt_files dir"
    by (simp_all add: evidence_def extends_def receipt_files_def)
  from p evidence_published [OF e] have "\<forall>m \<in> set ms. published h s c d m" by blast
  from publish_markers_all [OF this] ms have "reconcile_stage_markers h s c d = (Inr marked, d)"
    by (simp add: reconcile_stage_markers_def same marked)
  moreover have "load_receipts h leases s c marked d = Inr chain"
    unfolding load_receipts_Inr same
  proof (intro conjI ballI)
    fix r assume r: "r \<in> set chain"
    with l have "check_stored_receipt h leases s c marked dir r = Inr ()" by (simp add: load_receipts_Inr)
    then show "check_stored_receipt h leases s c marked d r = Inr ()"
      by (rule check_stored_mono) (use e new [OF r] in \<open>simp_all add: evidence_def extends_def\<close>)
  qed (use l in \<open>simp_all add: load_receipts_Inr\<close>)
  ultimately show ?thesis by (simp add: load_chain_in_def)
qed

text \<open>What the marker of a receipt says.\<close>

lemma build_stage_marker_Inr:
  assumes b: "build_stage_marker h r a q = Inr mk" and v: "validate_stage_receipt h (JObj r) = Inr (JObj r)"
    and a: "validate_stage_authorization h (JObj a) = Inr (JObj a)" and m: "dget r ''authorization_hash'' = dget a ''authorization_hash''"
    and sc: "assert_stage_store_scope r s c = Inr ()" and q: "1 \<le> q"
  shows "load_marker h (n, Doc (JObj mk)) = Inr mk" and "doc_text mk ''evidence_hash'' = doc_text r ''receipt_hash''"
    and "as_marker_error (validate_marker_envelope h (JObj mk)) = Inr mk"
    and "stage_marker_target mk s c = Inr (doc_text r ''receipt_hash'', receipt_name q (doc_text r ''receipt_hash''))"
    and "map_of (sd_staged dir) (json_name (doc_text r ''receipt_hash'')) = Some (Doc (JObj r)) \<Longrightarrow>
      staged_receipt h dir mk (doc_text r ''receipt_hash'') s c = Inr r"
proof -
  from validated_receipt_scope(3) [OF v] obtain x where x: "dget r ''receipt_hash'' = JStr x" "is_sha256 x"
    by (auto dest: json_sha256D)
  then have xt: "doc_text r ''receipt_hash'' = x" by (simp add: doc_text_def)
  from validated_receipt_scope(1) [OF v] obtain i where i: "dget r ''chapter_index'' = JInt i" by (auto simp: scope_ok_def pos_int_def)
  with sc have ci: "i = c" and sid: "dget r ''session_id'' = JStr s" by (auto simp: assert_stage_store_scope_def split: if_splits)
  obtain y where "map_of a ''authorization_hash'' = Some (JStr y)" using authorization.sealE [OF a] by blast
  then have y: "dget a ''authorization_hash'' = JStr y" by (simp add: dget_def)
  from b have bm: "build_marker_envelope h (JStr (''stage_'' @ x)) (JStr y) (JStr ''stage_receipt'') (JStr x)
        (Some [(''session_id'', JStr s), (''chapter_index'', JInt c), (''sequence'', JInt q), (''authorization_hash'', JStr y),
               (''target_name'', JStr (receipt_name q x))]) = Inr (JObj mk)"
    by (simp add: build_stage_marker_def Let_def rbind_eq_Inr case_obj_Inr x(1) y i ci sid)
  note f = build_marker_fields [OF bm]
  from f(1,3) have ysha: "is_sha256 y" by (simp add: validate_marker_iff)
  show c1: "as_marker_error (validate_marker_envelope h (JObj mk)) = Inr mk" by (simp add: as_marker_error_def f)
  show "load_marker h (n, Doc (JObj mk)) = Inr mk" 
    using c1 f(4) by (simp add: load_marker_def load_json_object_def)
  show "doc_text mk ''evidence_hash'' = doc_text r ''receipt_hash''" using f(5) by (simp add: xt)
  show "stage_marker_target mk s c = Inr (doc_text r ''receipt_hash'', receipt_name q (doc_text r ''receipt_hash''))"
    using f q x(2) ysha
    by (simp add: xt stage_marker_target_def marker_metadata_def same_keys_set dkeys_def marker_metadata_fields_def dget_def
        au_sha256_def au_int_from_def strict_int_def)
  show "staged_receipt h dir mk (doc_text r ''receipt_hash'') s c = Inr r" if "map_of (sd_staged dir) (json_name (doc_text r ''receipt_hash'')) = Some (Doc (JObj r))"
    using that v sc f x(1) i ci sid y m
    by (simp add: xt staged_receipt_def load_stage_receipt_def load_json_object_def marker_metadata_def dget_def)
qed


lemma receipt_names_snoc:
  assumes "check_receipt_names fs = Inr ()"
  shows "check_receipt_names (fs @ [(receipt_name (int (length fs) + 1) x, f)]) = Inr ()"
proof -
  have new: "starts_with (show_padded 4 (int (length fs + 1)) @ ''-'') (receipt_name (int (length fs) + 1) x)"
    by (simp add: starts_with_def receipt_name_def algebra_simps)
  have z: "zip [1..<length (fs @ [y]) + 1] (map fst (fs @ [y])) =
      zip [1..<length fs + 1] (map fst fs) @ [(length fs + 1, fst y)]" for y :: "string \<times> file_doc"
  proof -
    have "[1..<length (fs @ [y]) + 1] = [1..<length fs + 1] @ [length fs + 1]" by simp
    then show ?thesis by (simp only: map_append) (simp del: upt_Suc)
  qed
  show ?thesis
    using assms new unfolding check_receipt_names_def rcheck_Inr_iff z set_append
    by (simp del: upt_Suc of_nat_add)
qed

text \<open>The markers of a directory to which one is added, and the one publication that is due.\<close>

lemma reconcile_new_marker:
  assumes m: "reconcile_stage_markers h s c dir = (Inr marked, dir)" and e: "evidence x dir d"
    and d': "d' = d\<lparr>sd_markers := sd_markers dir @ [(json_name x, Doc (JObj mk))]\<rparr>"
    and load: "load_marker h (json_name x, Doc (JObj mk)) = Inr mk" and ev: "doc_text mk ''evidence_hash'' = x"
    and step: "publish_stage_marker h s c (JObj mk) d' = (Inr r, d'')" and after: "published h s c d'' mk"
    and stg: "sd_staged d'' = sd_staged d" and rec: "map_of (sd_receipts d) \<subseteq>\<^sub>m map_of (sd_receipts d'')"
  shows "\<exists>marked'. reconcile_stage_markers h s c d' = (Inr marked', d'') \<and> set marked' = insert x (set marked)"
proof -
  let ?sorted = "\<lambda>fs. sort_key fst (filter (\<lambda>f. ends_with ''.json'' (fst f)) fs)"
  let ?new = "(json_name x, Doc (JObj mk))"
  from m obtain ms where ms: "rmap (load_marker h) (?sorted (sd_markers dir)) = Inr ms"
    and p: "\<forall>m \<in> set ms. published h s c dir m" and marked: "marked = map (\<lambda>m. doc_text m ''evidence_hash'') ms"
    by (rule settled_markers)
  have files: "set (?sorted (sd_markers d')) = insert ?new (set (?sorted (sd_markers dir)))" by (simp add: d')
  have each: "\<exists>m. load_marker h f = Inr m" if "f \<in> set (?sorted (sd_markers d'))" for f
    using that rmap_members [OF ms, of f] load unfolding files by blast
  let ?ms = "map (projr \<circ> load_marker h) (?sorted (sd_markers d'))"
  have ms': "rmap (load_marker h) (?sorted (sd_markers d')) = Inr ?ms" by (rule rmap_total) (rule each)
  have old: "set (map (projr \<circ> load_marker h) (?sorted (sd_markers dir))) = set ms"
    using rmap_total [of "?sorted (sd_markers dir)" "load_marker h"] each ms unfolding files by fastforce
  have mem: "set ?ms = insert mk (set ms)"
    unfolding set_map files old [symmetric] by (simp add: load)
  have pub: "published h s c d' m" if "published h s c dir m" for m
    by (rule published_mono [OF evidence_published [OF e that]]) (simp_all add: d')
  have "publish_markers h s c ?ms d' = (Inr (), if mk \<in> set ?ms then d'' else d')"
  proof (rule publish_markers_one [OF _ step after])
    show "\<forall>m \<in> set ?ms. m = mk \<or> published h s c d' m" using p pub unfolding mem by blast
    show "published h s c d'' m" if "published h s c d' m" for m
      using that by (rule published_mono) (use rec in \<open>simp_all add: stg d'\<close>)
  qed
  then have "publish_markers h s c ?ms d' = (Inr (), d'')" using mem by simp
  then have "reconcile_stage_markers h s c d' = (Inr (map (\<lambda>m. doc_text m ''evidence_hash'') ?ms), d'')"
    unfolding reconcile_stage_markers_def ms' by simp
  moreover have "set (map (\<lambda>m. doc_text m ''evidence_hash'') ?ms) = insert x (set marked)"
    using mem ev marked by (simp only: set_map image_insert)
  ultimately show ?thesis by blast
qed


text \<open>From the marker on the loaded chain has the new receipt.\<close>

lemma load_after_marker:
  assumes load: "load_chain_in h leases s c dir = (Inr chain, dir)" and e: "evidence x dir d"
    and d': "d' = d\<lparr>sd_markers := sd_markers dir @ [(json_name x, Doc (JObj mk))]\<rparr>"
    and b: "build_stage_marker h r a (int (length chain) + 1) = Inr mk" and len: "length chain < 9999"
    and match: "assert_receipt_matches_authorization h r a = Inr ()" and self: "py_eq (JObj r) (JObj r)"
    and sc: "assert_stage_store_scope r s c = Inr ()" and x: "x = doc_text r ''receipt_hash''"
    and chain: "validate_stage_receipt_chain h (chain @ [r]) = Inr vs" "validate_autonomy_stage_chain (chain @ [r]) = Inr ()"
    and fence: "fence_in h leases d r = Inr f" and st: "map_of (sd_staged d) (json_name x) = Some (Doc (JObj r))"
    and new: "\<And>q. q \<in> set chain \<Longrightarrow> doc_text q ''receipt_hash'' \<noteq> x"
  shows "fst (load_chain_in h leases s c d') = Inr (chain @ [r])"
proof -
  let ?q = "int (length chain) + 1"
  let ?file = "(receipt_name ?q x, Doc (JObj r))"
  note v = matched_receipt [OF match]
  note mk = build_stage_marker_Inr [OF b v sc, folded x, simplified]
  define d'' where "d'' = d'\<lparr>sd_receipts := sd_receipts dir @ [?file]\<rparr>"
  from e have rec: "sd_receipts d = sd_receipts dir" by (simp add: evidence_def extends_def)
  from load obtain marked where m: "reconcile_stage_markers h s c dir = (Inr marked, dir)"
    and l: "load_receipts h leases s c marked dir = Inr chain"
    by (auto simp: load_chain_in_def split: prod.splits sum.splits)
  note l' = l [unfolded load_receipts_Inr]
  from l' have n: "length (receipt_files dir) = length chain" by (auto dest: rmap_length)
  note snoc = receipt_files_snoc [where dir = dir and dir' = "dir\<lparr>sd_receipts := sd_receipts dir @ [?file]\<rparr>" and x = x and f = "Doc (JObj r)",
      unfolded n, OF _ len refl]
  from l' snoc have none: "map_of (sd_receipts dir) (receipt_name ?q x) = None" by blast
  from l' snoc have files: "receipt_files d'' = receipt_files dir @ [?file]" by (simp add: receipt_files_def d''_def)
  have stg: "sd_staged d'' = sd_staged d" "sd_staged d' = sd_staged d" by (simp_all add: d''_def d')
  have staged: "staged_receipt h dr mk x s c = Inr r" if "sd_staged dr = sd_staged d" for dr
    using mk(5) st that by simp
  have step: "publish_stage_marker h s c (JObj mk) d' = (Inr r, d'')"
    using mk(3,4) staged [OF stg(2)] none rec
    by (simp add: publish_stage_marker_def reconcile_marker_transaction_def decide_marker_recovery_def publish_receipt_def
        append_new d' d''_def)
  have "map_of (sd_receipts d'') (receipt_name ?q x) = Some (Doc (JObj r))" using none by (simp add: d''_def map_add_def)
  with mk(3,4) staged [OF stg(1)] v(1) self have after: "published h s c d'' mk"
    unfolding published_def completed_receipt_Inr by blast
  have "map_of (sd_receipts d) \<subseteq>\<^sub>m map_of (sd_receipts d'')"
    using none by (auto simp: rec d''_def map_le_def map_add_def)
  from reconcile_new_marker [OF m e d' mk(1,2) step after stg(1) this] obtain marked' where
    r: "reconcile_stage_markers h s c d' = (Inr marked', d'')" and mem: "set marked' = insert x (set marked)" by blast
  have same: "sd_authorizations d'' = sd_authorizations d" "sd_fences d'' = sd_fences d" by (simp_all add: d''_def d')
  have "load_receipts h leases s c marked' d'' = Inr (chain @ [r])"
    unfolding load_receipts_Inr files
  proof (intro conjI ballI)
    show "rmap (\<lambda>f. load_stage_receipt h (fst f) (snd f)) (receipt_files dir @ [?file]) = Inr (chain @ [r])"
      using l' v(1) by (intro rmap_snoc) (simp_all add: load_stage_receipt_def load_json_object_def)
    show "check_receipt_names (receipt_files dir @ [?file]) = Inr ()"
      using receipt_names_snoc [of "receipt_files dir"] l' n by simp
    fix q assume "q \<in> set (chain @ [r])"
    then consider "q \<in> set chain" | "q = r" by auto
    then show "check_stored_receipt h leases s c marked' d'' q = Inr ()"
    proof cases
      case 1
      with l' have "check_stored_receipt h leases s c marked dir q = Inr ()" by blast
      then show ?thesis
        by (rule check_stored_mono) (use e new [OF 1] mem in \<open>auto simp: evidence_def extends_def same stg\<close>)
    next
      case 2
      have "fence_in h leases d'' r = Inr f" by (rule fence_in_mono [OF fence]) (simp_all add: same)
      with 2 sc st v(1) self mem show ?thesis
        by (simp add: check_stored_receipt_def Let_def x [symmetric] stg load_stage_receipt_def load_json_object_def)
    qed
  qed (use chain in \<open>simp_all\<close>)
  then show ?thesis using r by (simp add: load_chain_in_def)
qed

section \<open>The fence of a new receipt\<close>

lemma validate_stage_lease_fence_id: "validate_stage_lease_fence h (JObj d) = Inr f \<Longrightarrow> f = d"
  by (auto simp: validate_stage_lease_fence_def rbind_eq_Inr au_validate_mapping_Inr split: if_splits)

lemma append_fence_Inr:
  assumes f: "append_fence h now r a lease t dir = Inr f" and rh: "dget r ''receipt_hash'' = JStr x"
    and ah: "dget a ''authorization_hash'' = JStr y" and lh: "dget lease ''lease_hash'' = JStr z"
  shows "validate_stage_lease_fence h (JObj f) = Inr f" and "fresh_or_same (json_name (take 20 x)) f (sd_fences dir)"
    and "dget f ''receipt_hash'' = JStr x" and "dget f ''authorization_hash'' = JStr y" and "dget f ''lease_hash'' = JStr z"
proof -
  have "validate_stage_lease_fence h (JObj f) = Inr f \<and> fresh_or_same (json_name (take 20 x)) f (sd_fences dir) \<and>
    dget f ''receipt_hash'' = JStr x \<and> dget f ''authorization_hash'' = JStr y \<and> dget f ''lease_hash'' = JStr z"
  proof (cases "map_of (sd_fences dir) (json_name (take 20 x))")
    case None
    with f rh obtain d where v: "validate_stage_lease_fence h (JObj d) = Inr f"
      and d: "dget d ''receipt_hash'' = JStr x" "dget d ''authorization_hash'' = JStr y" "dget d ''lease_hash'' = JStr z"
      apply (clarsimp simp: append_fence_def build_stage_lease_fence_def Let_def rbind_eq_Inr rh ah lh split: if_splits)
      apply (erule that)
        apply (simp_all add: dget_Cons)
      done
    with validate_stage_lease_fence_id [OF v] None show ?thesis by (simp add: fresh_or_same_def)
  next
    case (Some g)
    with f rh obtain d where l: "g = Doc (JObj d)" and v: "validate_stage_lease_fence h (JObj d) = Inr f"
      and e: "py_eq (JList (map (dget f) fence_scope_fields)) (JList (fence_scope r a lease))"
      by (auto simp: append_fence_def rbind_eq_Inr load_json_object_Inr split: if_splits)
    from e have "py_eq (dget f ''receipt_hash'') (JStr x)" "py_eq (dget f ''authorization_hash'') (JStr y)"
      "py_eq (dget f ''lease_hash'') (JStr z)"
      by (simp_all add: fence_scope_fields_def fence_scope_def rh ah lh)
    with v validate_stage_lease_fence_id [OF v] Some l show ?thesis by (auto simp: fresh_or_same_def dest: py_eq_text)
  qed
  then show "validate_stage_lease_fence h (JObj f) = Inr f" "fresh_or_same (json_name (take 20 x)) f (sd_fences dir)"
    "dget f ''receipt_hash'' = JStr x" "dget f ''authorization_hash'' = JStr y" "dget f ''lease_hash'' = JStr z" by blast+
qed

lemma append_lease_Inr:
  assumes "append_lease h now leases r e t = Inr lease"
  shows "\<exists>q. load_history h (dget r ''book_id'') (dget lease ''lease_hash'') leases = Inr q"
    and "\<exists>z. dget lease ''lease_hash'' = JStr z"
  using assms held_is_durable by (fastforce simp: append_lease_def rbind_eq_Inr au_sha256_Inr dest: json_sha256D split: if_splits)+

lemma find_replay_None: "find_replay r chain = Inr None \<Longrightarrow> q \<in> set chain \<Longrightarrow> dget q ''receipt_hash'' \<noteq> dget r ''receipt_hash''"
  by (induction chain) (auto split: if_splits)

text \<open>With the three documents of a receipt in place its fence is found.\<close>

lemma fence_found:
  assumes match: "assert_receipt_matches_authorization h r a = Inr ()"
    and rh: "dget r ''receipt_hash'' = JStr x" and ah: "dget a ''authorization_hash'' = JStr y"
    and fa: "map_of (sd_authorizations d) (json_name (take 20 y)) = Some (Doc (JObj a))"
    and ff: "map_of (sd_fences d) (json_name (take 20 x)) = Some (Doc (JObj f))"
    and v: "validate_stage_lease_fence h (JObj f) = Inr f" and b: "dget f ''receipt_hash'' = JStr x" "dget f ''authorization_hash'' = JStr y"
    and l: "load_history h (dget r ''book_id'') (dget f ''lease_hash'') leases = Inr q"
  shows "fence_in h leases d r = Inr f"
proof -
  note m = matched_receipt [OF match]
  have "dget r ''authorization_hash'' = JStr y" using m(3) ah by simp
  with assms m show ?thesis
    by (simp add: fence_in_def authorization_in_def load_named_def load_json_object_def)
qed

text \<open>What \<open>append\<close> has checked when it publishes.\<close>

lemma planned_publication:
  assumes "plan_publication h now r a lease t chain dir = Inr (Publish q f)"
  obtains vs where "find_replay r chain = Inr None" and "validate_stage_receipt_chain h (chain @ [r]) = Inr vs"
    and "validate_autonomy_stage_chain (chain @ [r]) = Inr ()" and "append_fence h now r a lease t dir = Inr f"
    and "q = int (length chain) + 1"
  using assms by (auto simp: plan_publication_def rbind_eq_Inr Let_def split: option.splits if_splits)

lemma new_receipt_hash:
  assumes load: "load_chain_in h leases s c dir = (Inr chain, dir)" and p: "find_replay r chain = Inr None"
    and x: "dget r ''receipt_hash'' = JStr x" and u: "u \<in> set chain"
  shows "doc_text u ''receipt_hash'' \<noteq> x"
proof -
  from load obtain marked where "load_receipts h leases s c marked dir = Inr chain"
    by (auto simp: load_chain_in_def split: prod.splits sum.splits)
  then have "rmap (\<lambda>f. load_stage_receipt h (fst f) (snd f)) (receipt_files dir) = Inr chain" by (simp add: load_receipts_Inr)
  with u obtain g where "load_stage_receipt h (fst g) (snd g) = Inr u" by (auto simp: rmap_Inr_iff in_set_conv_nth)
  then obtain w where "validate_stage_receipt h (JObj u) = Inr w" by (auto simp: load_stage_receipt_def rbind_eq_Inr)
  from validated_receipt_scope(3) [OF this] find_replay_None [OF p u] x show ?thesis by (auto dest!: json_sha256D)
qed

text \<open>
  C5: publishing a stage receipt is atomic under crashes. Let the directory of a chapter be settled (it loads to
  a chain and recovery has nothing to do), and let \<open>append\<close> hold the lease and plan a publication. If
  the process dies after \<open>k\<close> of the four writes that precede the receipt, the next load finds the old
  chain when the marker is not yet written, and the old chain with the new receipt at its end when it is;
  it never fails and never finds anything else.
\<close>

theorem receipt_publication_is_atomic:
  assumes settled: "load_chain_in h leases s c dir = (Inr chain, dir)" and lease: "append_lease h now leases r e t = Inr lease"
    and plan: "plan_publication h now r a lease t chain dir = Inr (Publish q f)"
    and match: "assert_receipt_matches_authorization h r a = Inr ()" and sc: "assert_stage_store_scope r s c = Inr ()"
    and self: "py_eq (JObj r) (JObj r)" and len: "length chain < 9999"
    and fa: "fresh_or_same (json_name (take 20 (doc_text a ''authorization_hash''))) a (sd_authorizations dir)"
    and fs: "fresh_or_same (json_name (doc_text r ''receipt_hash'')) r (sd_staged dir)"
    and fm: "map_of (sd_markers dir) (json_name (doc_text r ''receipt_hash'')) = None"
    and run: "run_writes (take k (append_writes h r a f q)) dir = (Inr (), dir')" and k: "k \<le> 4"
  shows "fst (load_chain_in h leases s c dir') = Inr (if k < 4 then chain else chain @ [r])"
proof -
  note m = matched_receipt [OF match]
  from validated_receipt_scope(3) [OF m(1)] obtain x where x: "dget r ''receipt_hash'' = JStr x" by (auto dest: json_sha256D)
  then have xt: "doc_text r ''receipt_hash'' = x" by simp
  obtain y where "map_of a ''authorization_hash'' = Some (JStr y)" using authorization.sealE [OF m(2)] by blast
  then have y: "dget a ''authorization_hash'' = JStr y" by (simp add: dget_def)
  from append_lease_Inr [OF lease] obtain z lq where z: "dget lease ''lease_hash'' = JStr z"
    and lh: "load_history h (dget r ''book_id'') (dget lease ''lease_hash'') leases = Inr lq" by blast
  from plan obtain vs where p: "find_replay r chain = Inr None" "validate_stage_receipt_chain h (chain @ [r]) = Inr vs"
    "validate_autonomy_stage_chain (chain @ [r]) = Inr ()" "append_fence h now r a lease t dir = Inr f" "q = int (length chain) + 1"
    by (rule planned_publication)
  note fence = append_fence_Inr [OF p(4) x y z] and new = new_receipt_hash [OF settled p(1) x]
  note crash = crash_states [OF run k xt [symmetric] fa fence(2) fs [unfolded xt] fm [unfolded xt]]
  show ?thesis
  proof (cases "k < 4")
    case True
    from load_before_marker [OF settled crash(1) [OF True] new] True show ?thesis by simp
  next
    case False
    with k have "k = 4" by simp
    from crash(2) [OF this] obtain mk d where b: "build_stage_marker h r a q = Inr mk" and e: "evidence x dir d"
      and d': "dir' = d\<lparr>sd_markers := sd_markers dir @ [(json_name x, Doc (JObj mk))]\<rparr>"
      and files: "map_of (sd_authorizations d) (json_name (take 20 y)) = Some (Doc (JObj a))"
        "map_of (sd_fences d) (json_name (take 20 x)) = Some (Doc (JObj f))" "map_of (sd_staged d) (json_name x) = Some (Doc (JObj r))"
      using y by auto
    have "fence_in h leases d r = Inr f"
      by (rule fence_found [OF match x y files(1,2) fence(1,3,4)]) (use lh z fence(5) in simp)
    from load_after_marker [OF settled e d' b [unfolded p(5)] len match self sc xt [symmetric] p(2,3) this files(3) new] False
    show ?thesis by simp
  qed
qed

definition example_files :: lease_dir where
  "example_files = snd (acquire_in example_host ''b'' ''s'' ''p'' 60 (JStr ''0'') 0 no_files)"

definition held_lease :: "dict res" where
  "held_lease = append_lease example_host ''20'' (\<lambda>_. example_files) example_receipt (JStr zero_digest) JNull"

definition held_plan :: "append_plan res" where
  "held_plan = rbind held_lease (\<lambda>lease.
     plan_publication example_host ''20'' example_receipt example_authorization lease JNull [] empty_stage_dir)"

definition held_run :: "unit res" where
  "held_run = rbind held_plan (\<lambda>plan. case plan of
       Replay d \<Rightarrow> Inl TypeError
     | Publish i fence \<Rightarrow> fst (run_writes (append_writes example_host example_receipt example_authorization fence i) empty_stage_dir))"

lemma held_run_passes: "\<not> isl held_run"
  by code_simp

lemma example_receipt_match: "assert_receipt_matches_authorization example_host example_receipt example_authorization = Inr ()"
  by code_simp

theorem receipt_publication_is_atomic_witness:
  "\<exists>dir'. fst (load_chain_in example_host (\<lambda>_. example_files) ''s'' 3 dir') = Inr [example_receipt]"
proof -
  let ?run = "\<lambda>plan. case plan of Replay d \<Rightarrow> Inl TypeError
     | Publish i fence \<Rightarrow> fst (run_writes (append_writes example_host example_receipt example_authorization fence i) empty_stage_dir)"
  obtain u where "held_run = Inr u" using held_run_passes by (metis isl_def sum.exhaust)
  then obtain plan where hp: "held_plan = Inr plan" and "?run plan = Inr u"
    unfolding held_run_def rbind_eq_Inr by blast
  then obtain i fence dir' where pl: "plan = Publish i fence"
    and run: "run_writes (append_writes example_host example_receipt example_authorization fence i) empty_stage_dir = (Inr (), dir')"
    by (cases plan) (auto simp: prod_eq_iff)
  from hp obtain lease where l: "held_lease = Inr lease"
    and p: "plan_publication example_host ''20'' example_receipt example_authorization lease JNull [] empty_stage_dir = Inr (Publish i fence)"
    unfolding held_plan_def rbind_eq_Inr pl by blast
  have empty: "load_chain_in example_host (\<lambda>_. example_files) ''s'' 3 empty_stage_dir = (Inr [], empty_stage_dir)"
    by (simp add: load_chain_in_def reconcile_stage_markers_def empty_stage_dir_def load_receipts_def receipt_files_def
        numbered_files_def check_receipt_names_def validate_autonomy_stage_chain_def validate_stage_receipt_chain_def)
  have "assert_stage_store_scope example_receipt ''s'' 3 = Inr ()" "py_eq (JObj example_receipt) (JObj example_receipt)"
    by code_simp+
  moreover have "take 4 (append_writes example_host example_receipt example_authorization fence i) =
      append_writes example_host example_receipt example_authorization fence i" by (simp add: append_writes_def Let_def)
  ultimately have "fst (load_chain_in example_host (\<lambda>_. example_files) ''s'' 3 dir') = Inr (if (4::nat) < 4 then [] else [] @ [example_receipt])"
    using run
    by (intro receipt_publication_is_atomic [OF empty l [unfolded held_lease_def] p example_receipt_match])
       (simp_all add: fresh_or_same_def empty_stage_dir_def)
  then show ?thesis by simp blast
qed

section \<open>The stages of an accepted chain\<close>

text \<open>The stage at a position: outline, scene plan, draft and polish, then validation and repair in turn.\<close>

definition stage_at :: "nat \<Rightarrow> string" where
  "stage_at i = (if i = 0 then ''outline'' else if i = 1 then ''scene_plan'' else if i = 2 then ''draft''
     else if i = 3 then ''polish'' else if even i then ''validator'' else ''repair'')"

lemma allowed_next_stage: "map_of allowed_next (stage_at i) = Some (stage_at (Suc i))"
  by (auto simp: stage_at_def allowed_next_def)

lemma stage_order_loop_iff:
  "dget p ''stage'' = JStr (stage_at n) \<Longrightarrow> stage_order_loop p rs = Inr () \<longleftrightarrow>
     (rs \<noteq> [] \<longrightarrow> dget p ''status'' = JStr ''succeeded'') \<and>
     (\<forall>i < length rs. dget (rs ! i) ''stage'' = JStr (stage_at (n + 1 + i)) \<and>
        (Suc i < length rs \<longrightarrow> dget (rs ! i) ''status'' = JStr ''succeeded''))"
proof (induction rs arbitrary: p n)
  case (Cons r rs)
  have split: "(\<forall>i < Suc m. P i) \<longleftrightarrow> P 0 \<and> (\<forall>i < m. P (Suc i))" for P and m :: nat
    by (auto simp: less_Suc_eq_0_disj)
  show ?case
  proof (cases "dget r ''stage'' = JStr (stage_at (Suc n))")
    case True
    note IH = Cons.IH [OF True]
    from Cons.prems True show ?thesis
      by (auto simp: allowed_next_stage IH split)
  next
    case False
    with Cons.prems show ?thesis by (auto simp: allowed_next_stage)
  qed
qed simp

text \<open>
  The stages of a chapter run in one order. A chain is accepted exactly when its receipts are outline,
  scene plan, draft and polish, followed by validator and repair in turn, cut off anywhere, and every
  receipt but the last one has succeeded.
\<close>

lemma stage_chain_accepted_iff:
  "validate_autonomy_stage_chain rs = Inr () \<longleftrightarrow>
     (\<forall>i < length rs. dget (rs ! i) ''stage'' = JStr (stage_at i) \<and>
        (Suc i < length rs \<longrightarrow> dget (rs ! i) ''status'' = JStr ''succeeded''))"
proof (cases rs)
  case (Cons r rest)
  have split: "(\<forall>i < Suc m. P i) \<longleftrightarrow> P 0 \<and> (\<forall>i < m. P (Suc i))" for P and m :: nat
    by (auto simp: less_Suc_eq_0_disj)
  show ?thesis
  proof (cases "dget r ''stage'' = JStr (stage_at 0)")
    case True
    have "stage_at 0 = ''outline''" by (simp add: stage_at_def)
    with True have "validate_autonomy_stage_chain (r # rest) = Inr () \<longleftrightarrow>
        (rest = [] \<or> dget r ''status'' = JStr ''succeeded'') \<and> stage_order_loop r rest = Inr ()"
      by (auto simp: validate_autonomy_stage_chain_def)
    with True show ?thesis by (auto simp: Cons stage_order_loop_iff [OF True] split)
  next
    case False
    then have "validate_autonomy_stage_chain rs \<noteq> Inr ()" by (simp add: validate_autonomy_stage_chain_def Cons stage_at_def)
    with False show ?thesis by (auto simp: Cons intro: exI [of _ 0])
  qed
qed (simp add: validate_autonomy_stage_chain_def)

theorem stage_chain_accepted_iff_witness:
  "validate_autonomy_stage_chain
     [[(''stage'', JStr ''outline''), (''status'', JStr ''succeeded'')],
      [(''stage'', JStr ''scene_plan''), (''status'', JStr ''failed'')]] = Inr ()"
proof -
  have "(i = 0 \<or> i = 1) = (i < (2::nat))" for i by arith
  then show ?thesis
    unfolding stage_chain_accepted_iff by (auto simp: stage_at_def dget_def less_Suc_eq)
qed

end
