(* ===== verification/Instruction_Plan.thy ===== *)
theory Instruction_Plan
  imports Autonomy_Common
begin

text \<open>
  The instruction plan of an autonomous run, \<open>core/autonomy/plans.py\<close>, with the trusted profiles of
  \<open>core/autonomy/profiles.py\<close> it selects from. A source snapshot states where the book stands; a plan
  asks for a contiguous range of chapters from there, within the profiles it names. Both are sealed.
  The compilation of a plan from free text is not modelled.
\<close>

section \<open>Source snapshots\<close>

abbreviation plan_error :: "string \<Rightarrow> string \<Rightarrow> 'a res" where
  "plan_error tag message \<equiv> Inl (AutonomyPlanError tag message)"

definition snapshot_fields_ok :: "dict \<Rightarrow> unit res" where
  "snapshot_fields_ok snapshot =
     rbind (on_item snapshot ''book_id'' (safe_id ''book_id'')) (\<lambda>_.
     rbind (on_item snapshot ''root_uuid'' (safe_id ''root_uuid'')) (\<lambda>_.
     rbind (on_item snapshot ''authority_epoch'' (au_int_from ''authority_epoch'' 0)) (\<lambda>_.
     rbind (on_item snapshot ''authority_head_event_hash'' (au_optional_sha256 ''authority_head_event_hash'')) (\<lambda>_.
     rbind (on_item snapshot ''canonical_next_chapter'' (au_int_from ''canonical_next_chapter'' 1)) (\<lambda>_.
     rbind (on_item snapshot ''source_digest'' (au_sha256 ''source_digest'')) (\<lambda>_.
     rbind (on_item snapshot ''snapshot_hash'' (au_sha256 ''snapshot_hash'')) (\<lambda>_. Inr ())))))))"

definition validate_source_snapshot :: "host \<Rightarrow> json \<Rightarrow> dict res" where
  "validate_source_snapshot h value =
     rbind (au_validate_mapping h value ''autonomy_source_snapshot.schema.json'' ''SourceSnapshot'') (\<lambda>snapshot.
     rbind (snapshot_fields_ok snapshot) (\<lambda>_.
     rbind (au_canonical_hash h [''captured_at'', ''snapshot_hash''] (JObj snapshot)) (\<lambda>expected.
     if dget snapshot ''snapshot_hash'' \<noteq> JStr expected
     then plan_error ''source_snapshot_hash_mismatch'' ''StoryProject source snapshot was modified''
     else Inr snapshot)))"

record snapshot_args =
  sa_book_id :: json
  sa_root_uuid :: json
  sa_authority_epoch :: json
  sa_authority_head_event_hash :: json
  sa_canonical_next_chapter :: json
  sa_source_digest :: json
  sa_captured_at :: json

definition build_source_snapshot :: "host \<Rightarrow> string \<Rightarrow> snapshot_args \<Rightarrow> dict res" where
  "build_source_snapshot h now a =
     rbind (safe_id ''book_id'' (sa_book_id a)) (\<lambda>book.
     rbind (safe_id ''root_uuid'' (sa_root_uuid a)) (\<lambda>root.
     rbind (au_int_from ''authority_epoch'' 0 (sa_authority_epoch a)) (\<lambda>epoch.
     rbind (au_optional_sha256 ''authority_head_event_hash'' (sa_authority_head_event_hash a)) (\<lambda>head.
     rbind (au_int_from ''canonical_next_chapter'' 1 (sa_canonical_next_chapter a)) (\<lambda>next_chapter.
     rbind (au_sha256 ''source_digest'' (sa_source_digest a)) (\<lambda>digest.
     let snapshot = [(''schema_version'', JStr ''1.0''), (''book_id'', JStr book), (''root_uuid'', JStr root),
           (''authority_epoch'', JInt epoch), (''authority_head_event_hash'', head),
           (''canonical_next_chapter'', JInt next_chapter), (''source_digest'', digest),
           (''captured_at'', py_or (sa_captured_at a) (JStr now))]
     in rbind (au_canonical_hash h [''captured_at'', ''snapshot_hash''] (JObj snapshot)) (\<lambda>hash.
        validate_source_snapshot h (JObj (dset ''snapshot_hash'' (JStr hash) snapshot)))))))))"

section \<open>Trusted profiles\<close>

text \<open>A \<open>TrustedProfiles\<close> value is the payload that its constructor has validated.\<close>

abbreviation profiles_error :: "string \<Rightarrow> string \<Rightarrow> 'a res" where
  "profiles_error tag message \<equiv> Inl (TrustedProfilesError tag message)"

definition profile_kinds :: "string list" where
  "profile_kinds = [''story_projects'', ''provider_models'', ''file_deliveries'', ''budgets'', ''quality_policies'']"

text \<open>\<open>_DEFAULT_FIELDS\<close>; the aliases of \<open>_profile_kind\<close> are its inverse.\<close>

definition default_fields :: "(string \<times> string) list" where
  "default_fields = [(''story_projects'', ''story_project''), (''provider_models'', ''provider_model''),
     (''file_deliveries'', ''file_delivery''), (''budgets'', ''budget''), (''quality_policies'', ''quality_policy'')]"

definition profile_kind :: "string \<Rightarrow> string res" where
  "profile_kind given =
     (let normalized = (case map_of (map (\<lambda>(a, b). (b, a)) default_fields) given of Some k \<Rightarrow> k | None \<Rightarrow> given) in
      if normalized \<notin> set profile_kinds
      then profiles_error ''trusted_profile_kind_invalid'' (''unsupported profile kind: '' @ given)
      else Inr normalized)"

definition profile_set_id :: "host \<Rightarrow> dict \<Rightarrow> string res" where
  "profile_set_id h payload = rbind (ditem payload ''profile_set_id'') (\<lambda>v. Inr (py_str h v))"

definition profile_set_hash :: "host \<Rightarrow> dict \<Rightarrow> string res" where
  "profile_set_hash h payload = au_canonical_hash h [] (JObj payload)"

definition default_profile_id :: "host \<Rightarrow> dict \<Rightarrow> string \<Rightarrow> string res" where
  "default_profile_id h payload given =
     rbind (profile_kind given) (\<lambda>normalized.
     rbind (ditem payload ''defaults'') (\<lambda>defaults.
     case map_of default_fields normalized of
       None \<Rightarrow> Inl (KeyError normalized)
     | Some field \<Rightarrow> rbind (jitem defaults field) (\<lambda>v. Inr (py_str h v))))"

fun find_profile :: "json \<Rightarrow> json list \<Rightarrow> json option res" where
  "find_profile selected [] = Inr None"
| "find_profile selected (p # ps) =
     rbind (jitem p ''profile_id'') (\<lambda>v. if py_eq v selected then Inr (Some p) else find_profile selected ps)"

definition get_profile :: "host \<Rightarrow> dict \<Rightarrow> string \<Rightarrow> json \<Rightarrow> dict res" where
  "get_profile h payload given profile_id =
     rbind (profile_kind given) (\<lambda>normalized.
     rbind (if truthy profile_id then Inr profile_id
            else rbind (default_profile_id h payload normalized) (\<lambda>s. Inr (JStr s))) (\<lambda>selected.
     rbind (ditem payload normalized) (\<lambda>members.
     rbind (py_iter members) (\<lambda>ps.
     rbind (find_profile selected ps) (\<lambda>found.
     case found of
       Some (JObj p) \<Rightarrow> Inr p
     | Some _ \<Rightarrow> Inl TypeError
     | None \<Rightarrow> profiles_error ''trusted_profile_unknown'' (''unknown '' @ normalized @ '' profile: '' @ py_repr h selected))))))"

definition public_snapshot :: "host \<Rightarrow> dict \<Rightarrow> string \<Rightarrow> json \<Rightarrow> dict res" where
  "public_snapshot h payload given profile_id =
     rbind (profile_kind given) (\<lambda>normalized.
     rbind (get_profile h payload normalized profile_id) (\<lambda>profile.
     rbind (au_canonical_hash h [] (JObj profile)) (\<lambda>hash.
     Inr (dset ''profile_hash'' (JStr hash) (dpop ''path_template'' profile)))))"

definition assert_snapshot :: "host \<Rightarrow> dict \<Rightarrow> string \<Rightarrow> json \<Rightarrow> dict res" where
  "assert_snapshot h payload given snapshot =
     rbind (profile_kind given) (\<lambda>normalized.
     case snapshot of
       JObj s \<Rightarrow>
         (let profile_id = py_str h (py_or (dget s ''profile_id'') (JStr [])) in
          rbind (public_snapshot h payload normalized (JStr profile_id)) (\<lambda>expected.
          if \<not> py_eq (JObj s) (JObj expected)
          then profiles_error ''trusted_profile_snapshot_drift''
                 (''trusted '' @ normalized @ '' profile changed after plan preview: '' @ repr_str profile_id)
          else Inr expected))
     | _ \<Rightarrow> profiles_error ''trusted_profile_snapshot_invalid'' (normalized @ '' snapshot must be an object''))"

section \<open>The story brief\<close>

text \<open>
  The regular expressions of the module. \<open>_FORBIDDEN_INSTRUCTION\<close> has further alternatives in Chinese, which
  no text over the characters below 256 can match.
\<close>

definition selector_pattern :: string where
  "selector_pattern =
     ''(?i)(?<![A-Za-z0-9_.-])(story|provider|delivery|budget|quality)'' @ [CHR 0x5C] @ ''s*='' @ [CHR 0x5C] @
     ''s*([A-Za-z0-9][A-Za-z0-9._:-]{0,159})''"

definition forbidden_pattern :: string where
  "forbidden_pattern =
     ''(?ix)(?:notion|authorization|bearer'' @ [CHR 0x5C] @ ''s+[a-z0-9._-]+|sk-[a-z0-9_-]{8,}|'' @
     ''api[_ -]?key|credential|password|secret|access[_ -]?token|env(?:ironment)?'' @ [CHR 0x5C] @ ''s+var(?:iable)?s?|file://|'' @
     ''(?:^|'' @ [CHR 0x5C] @ ''s)(?:env|path|root|directory|file)'' @ [CHR 0x5C] @ ''s*=|(?:[a-z]:['' @ [CHR 0x5C, CHR 0x5C] @ ''/])|'' @
     ''(?:'' @ [CHR 0x5C, CHR 0x5C, CHR 0x5C, CHR 0x5C] @ '')|(?:'' @ [CHR 0x5C] @ ''.'' @ [CHR 0x5C] @ ''.['' @ [CHR 0x5C, CHR 0x5C] @ ''/])|(?:~['' @
     [CHR 0x5C, CHR 0x5C] @ ''/])|(?:^|'' @ [CHR 0x5C] @ ''s)/(?:[^/'' @ [CHR 0x5C] @ ''s]+/)*[^/'' @ [CHR 0x5C] @ ''s]+|'' @
     ''(?:increase|raise|higher|larger).{0,8}budget|unlimited.{0,8}budget|max_(?:input|output|calls|wall)'' @ [CHR 0x5C] @ ''s*=)''"

definition STORY_BRIEF_MAX_CHARS :: nat where
  "STORY_BRIEF_MAX_CHARS = 240"

definition assert_instruction_safe :: "host \<Rightarrow> string \<Rightarrow> unit res" where
  "assert_instruction_safe h txt =
     (if re_search h forbidden_pattern txt
      then plan_error ''instruction_capability_forbidden''
             ''instruction may not authorize paths, Notion, environment/credentials, or higher budgets''
      else Inr ())"

definition validate_story_brief :: "host \<Rightarrow> json \<Rightarrow> string res" where
  "validate_story_brief h value =
     rbind (au_required_text ''story_brief'' value) (\<lambda>brief.
     if length brief > STORY_BRIEF_MAX_CHARS
     then plan_error ''instruction_story_brief_too_long''
            (''story brief must not exceed '' @ show_nat STORY_BRIEF_MAX_CHARS @ '' characters'')
     else if re_search h selector_pattern brief
     then plan_error ''instruction_story_brief_control_invalid''
            ''trusted profile selectors cannot become narrative story intent''
     else rbind (assert_instruction_safe h brief) (\<lambda>_. Inr brief))"

section \<open>Plans\<close>

text \<open>
  \<open>preview_chinese_output_compatibility\<close> with the arguments of its caller: 4500 characters of three
  bytes at a third of a token, and a margin of 15 per cent, make 5175 tokens.
\<close>

definition maximum_required_tokens :: int where
  "maximum_required_tokens = 5175"

definition output_shortfall :: "int \<Rightarrow> int res" where
  "output_shortfall max_output_tokens =
     (if max_output_tokens < 1
      then Inl (ContextBudgetError ''output_compatibility_invalid'' ''max_output_tokens must be a positive integer'')
      else Inr (max 0 (maximum_required_tokens - max_output_tokens)))"

definition check_output_compatibility :: "dict \<Rightarrow> unit res" where
  "check_output_compatibility plan =
     rbind (ditem plan ''selections'') (\<lambda>selections.
     rbind (jitem selections ''provider_model'') (\<lambda>model.
     rbind (jitem model ''max_output_tokens'') (\<lambda>v.
     rbind (py_int v) (\<lambda>limit.
     rbind (output_shortfall limit) (\<lambda>shortfall.
     if shortfall > 0
     then plan_error ''instruction_output_budget_incompatible''
            (''trusted provider output cap cannot cover the 3000-4500 Chinese-character target '' @
             ''with the calibrated safety margin; shortfall='' @ show_int shortfall @ '' tokens'')
     else Inr ())))))"

definition check_brief_version :: "host \<Rightarrow> dict \<Rightarrow> unit res" where
  "check_brief_version h plan =
     rbind (ditem plan ''schema_version'') (\<lambda>version.
     if version = JStr ''1.1'' \<and> \<not> dhas plan ''story_brief''
     then plan_error ''instruction_story_brief_missing''
            ''InstructionPlan 1.1 must retain a bounded narrative story brief''
     else if version = JStr ''1.0'' \<and> dhas plan ''story_brief''
     then plan_error ''instruction_story_brief_version_invalid''
            ''InstructionPlan 1.0 cannot contain the 1.1 story brief field''
     else if dhas plan ''story_brief''
     then rbind (validate_story_brief h (dget plan ''story_brief'')) (\<lambda>_. Inr ())
     else Inr ())"

definition plan_fields_ok :: "dict \<Rightarrow> unit res" where
  "plan_fields_ok plan =
     rbind (on_item plan ''plan_id'' (safe_id ''plan_id'')) (\<lambda>_.
     rbind (on_item plan ''plan_hash'' (au_sha256 ''plan_hash'')) (\<lambda>_.
     rbind (on_item plan ''instruction_digest'' (au_sha256 ''instruction_digest'')) (\<lambda>_.
     rbind (on_item plan ''profile_set_hash'' (au_sha256 ''profile_set_hash'')) (\<lambda>_. Inr ()))))"

definition plan_id_for :: "string \<Rightarrow> string" where
  "plan_id_for digest = ''plan_'' @ take 24 digest"

definition check_plan_hash :: "host \<Rightarrow> dict \<Rightarrow> unit res" where
  "check_plan_hash h plan =
     rbind (au_canonical_hash h [''plan_id'', ''plan_hash''] (JObj plan)) (\<lambda>expected.
     if dget plan ''plan_hash'' \<noteq> JStr expected \<or> dget plan ''plan_id'' \<noteq> JStr (plan_id_for expected)
     then plan_error ''instruction_plan_hash_mismatch'' ''InstructionPlan content was modified after preview''
     else Inr ())"

definition selection_kinds :: "(string \<times> string) list" where
  "selection_kinds = [(''story_project'', ''story_projects''), (''provider_model'', ''provider_models''),
     (''file_delivery'', ''file_deliveries''), (''budget'', ''budgets''), (''quality_policy'', ''quality_policies'')]"

definition check_profiles :: "host \<Rightarrow> dict \<Rightarrow> int \<Rightarrow> dict \<Rightarrow> unit res" where
  "check_profiles h plan chapters profiles =
     rbind (profile_set_id h profiles) (\<lambda>set_id.
     rbind (ditem plan ''profile_set_id'') (\<lambda>plan_set.
     if plan_set \<noteq> JStr set_id
     then plan_error ''instruction_profile_set_mismatch'' ''plan belongs to another trusted profile set''
     else rbind (profile_set_hash h profiles) (\<lambda>set_hash.
     if dget plan ''profile_set_hash'' \<noteq> JStr set_hash
     then plan_error ''instruction_profile_set_drift'' ''trusted profiles changed after plan preview''
     else rbind (ditem plan ''selections'') (\<lambda>selections.
     rbind (rcheck (\<lambda>(key, kinds). rbind (jitem selections key) (\<lambda>s. rbind (assert_snapshot h profiles kinds s) (\<lambda>_. Inr ())))
              selection_kinds) (\<lambda>_.
     rbind (jitem selections ''budget'') (\<lambda>budget.
     rbind (jitem budget ''max_chapters'') (\<lambda>v.
     rbind (py_int v) (\<lambda>limit.
     if chapters > limit
     then plan_error ''instruction_budget_escalation'' ''plan exceeds its trusted budget snapshot''
     else Inr ()))))))))"

definition check_current_source :: "host \<Rightarrow> dict \<Rightarrow> json \<Rightarrow> unit res" where
  "check_current_source h source current_source_snapshot =
     rbind (validate_source_snapshot h current_source_snapshot) (\<lambda>current.
     if dget current ''snapshot_hash'' \<noteq> dget source ''snapshot_hash''
     then plan_error ''instruction_source_snapshot_stale''
            ''StoryProject authority, canonical next chapter, or source bytes changed''
     else Inr ())"

definition validate_instruction_plan :: "host \<Rightarrow> json \<Rightarrow> dict option \<Rightarrow> json option \<Rightarrow> dict res" where
  "validate_instruction_plan h value trusted_profiles current_source_snapshot =
     rbind (au_validate_mapping h value ''instruction_plan.schema.json'' ''InstructionPlan'') (\<lambda>plan.
     rbind (plan_fields_ok plan) (\<lambda>_.
     rbind (check_brief_version h plan) (\<lambda>_.
     rbind (on_item plan ''source_snapshot'' (validate_source_snapshot h)) (\<lambda>source.
     rbind (check_plan_hash h plan) (\<lambda>_.
     rbind (on_item plan ''requested_chapter_count'' (au_int_from ''requested_chapter_count'' 1)) (\<lambda>chapters.
     rbind (on_item plan ''chapter_start'' (au_int_from ''chapter_start'' 1)) (\<lambda>first.
     rbind (on_item plan ''chapter_end'' (au_int_from ''chapter_end'' 1)) (\<lambda>final.
     rbind (check_output_compatibility plan) (\<lambda>_.
     if JInt first \<noteq> dget source ''canonical_next_chapter'' \<or> final \<noteq> first + chapters - 1
     then plan_error ''instruction_plan_range_invalid'' ''plan chapters must be one contiguous canonical-next range''
     else
       rbind (case trusted_profiles of None \<Rightarrow> Inr () | Some profiles \<Rightarrow> check_profiles h plan chapters profiles) (\<lambda>_.
       rbind (case current_source_snapshot of None \<Rightarrow> Inr () | Some current \<Rightarrow> check_current_source h source current) (\<lambda>_.
       Inr plan)))))))))))"

end
