(* ===== verification/Completion_Ledger.thy ===== *)
theory Completion_Ledger
  imports Stage_Receipts Instruction_Plan
begin

text \<open>
  The ledger of completed chapters, \<open>CompletionLedger\<close> of \<open>core/autonomy/receipts.py\<close>. A chapter is complete when its
  last stage receipt is a successful validation, its text is published, and a completion receipt links it to the
  chapter before. The verification of a publication is a callable of the ledger: it returns a document or
  raises, and then only the text of the error is used.
\<close>

section \<open>Completion receipts\<close>

definition completion_digests :: "string list" where
  "completion_digests = [''receipt_hash'', ''planned_target_hash'', ''chapter_body_hash'', ''final_stage_receipt_hash'',
     ''publication_receipt_hash'', ''lease_hash'']"

definition completion_fields_ok :: "dict \<Rightarrow> unit res" where
  "completion_fields_ok receipt =
     rbind (rcheck (\<lambda>field. on_item receipt field (\<lambda>v. rbind (safe_id field v) (\<lambda>_. Inr ())))
              [''book_id'', ''session_id'', ''plan_id'', ''arc_plan_id'']) (\<lambda>_.
     rbind (on_item receipt ''chapter_index'' (au_int_from ''chapter_index'' 1)) (\<lambda>_.
     rbind (rcheck (\<lambda>field. on_item receipt field (\<lambda>v. rbind (au_sha256 field v) (\<lambda>_. Inr ()))) completion_digests) (\<lambda>_.
     rbind (on_item receipt ''lease_generation'' (au_int_from ''lease_generation'' 1)) (\<lambda>_.
     rbind (on_item receipt ''previous_completion_receipt_hash'' (au_optional_sha256 ''previous_completion_receipt_hash'')) (\<lambda>_.
     Inr ())))))"

definition completion_source_ok :: "host \<Rightarrow> dict \<Rightarrow> unit res" where
  "completion_source_ok h receipt =
     rbind (on_item receipt ''source_snapshot_after'' (validate_source_snapshot h)) (\<lambda>after.
     rbind (py_int (dget receipt ''chapter_index'')) (\<lambda>chapter_index.
     if dget after ''book_id'' \<noteq> dget receipt ''book_id'' \<or> dget after ''canonical_next_chapter'' \<noteq> JInt (chapter_index + 1)
     then receipt_error ''chapter_completion_source_snapshot_invalid''
            ''post-publication source snapshot must advance exactly one chapter''
     else Inr ()))"

definition validate_chapter_completion_receipt :: "host \<Rightarrow> json \<Rightarrow> dict res" where
  "validate_chapter_completion_receipt h value =
     rbind (au_validate_mapping h value ''chapter_completion_receipt.schema.json'' ''ChapterCompletionReceipt'') (\<lambda>receipt.
     rbind (completion_fields_ok receipt) (\<lambda>_.
     rbind (completion_source_ok h receipt) (\<lambda>_.
     rbind (au_canonical_hash h [''receipt_hash''] (JObj receipt)) (\<lambda>expected.
     if dget receipt ''receipt_hash'' \<noteq> JStr expected
     then receipt_error ''chapter_completion_hash_mismatch'' ''ChapterCompletionReceipt was modified''
     else Inr receipt))))"

record completion_args =
  co_book_id :: json
  co_session_id :: json
  co_plan_id :: json
  co_arc_plan_id :: json
  co_chapter_index :: json
  co_planned_target_hash :: json
  co_chapter_body_hash :: json
  co_final_stage_receipt_hash :: json
  co_publication_receipt_hash :: json
  co_lease_hash :: json
  co_lease_generation :: json
  co_source_snapshot_after :: json
  co_previous_hash :: json
  co_status :: json
  co_created_at :: json

definition completion_body :: "host \<Rightarrow> string \<Rightarrow> completion_args \<Rightarrow> dict res" where
  "completion_body h now a =
     rbind (safe_id ''book_id'' (co_book_id a)) (\<lambda>book.
     rbind (safe_id ''session_id'' (co_session_id a)) (\<lambda>session.
     rbind (safe_id ''plan_id'' (co_plan_id a)) (\<lambda>plan.
     rbind (safe_id ''arc_plan_id'' (co_arc_plan_id a)) (\<lambda>arc.
     rbind (au_int_from ''chapter_index'' 1 (co_chapter_index a)) (\<lambda>chapter_index.
     rbind (au_sha256 ''planned_target_hash'' (co_planned_target_hash a)) (\<lambda>target.
     rbind (au_sha256 ''chapter_body_hash'' (co_chapter_body_hash a)) (\<lambda>body.
     rbind (au_sha256 ''final_stage_receipt_hash'' (co_final_stage_receipt_hash a)) (\<lambda>stage.
     rbind (au_sha256 ''publication_receipt_hash'' (co_publication_receipt_hash a)) (\<lambda>publication.
     rbind (au_sha256 ''lease_hash'' (co_lease_hash a)) (\<lambda>lease.
     rbind (au_int_from ''lease_generation'' 1 (co_lease_generation a)) (\<lambda>generation.
     rbind (validate_source_snapshot h (co_source_snapshot_after a)) (\<lambda>after.
     rbind (au_optional_sha256 ''previous_completion_receipt_hash'' (co_previous_hash a)) (\<lambda>previous.
     Inr [(''schema_version'', JStr ''1.0''), (''book_id'', JStr book), (''session_id'', JStr session), (''plan_id'', JStr plan),
       (''arc_plan_id'', JStr arc), (''chapter_index'', JInt chapter_index), (''planned_target_hash'', target),
       (''chapter_body_hash'', body), (''final_stage_receipt_hash'', stage), (''publication_receipt_hash'', publication),
       (''lease_hash'', lease), (''lease_generation'', JInt generation), (''source_snapshot_after'', JObj after),
       (''previous_completion_receipt_hash'', previous), (''status'', JStr (py_str h (co_status a))),
       (''created_at'', py_or (co_created_at a) (JStr now))])))))))))))))"

definition build_chapter_completion_receipt :: "host \<Rightarrow> string \<Rightarrow> completion_args \<Rightarrow> dict res" where
  "build_chapter_completion_receipt h now a =
     rbind (completion_body h now a) (\<lambda>receipt.
     rbind (au_canonical_hash h [''receipt_hash''] (JObj receipt)) (\<lambda>digest.
     validate_chapter_completion_receipt h (JObj (dset ''receipt_hash'' (JStr digest) receipt))))"

section \<open>The ledger\<close>

type_synonym publication_verifier = "dict \<Rightarrow> string + json"

definition verified_publication :: "publication_verifier \<Rightarrow> dict \<Rightarrow> dict res" where
  "verified_publication verify d =
     (case verify d of
        Inl failure \<Rightarrow> receipt_error ''chapter_completion_publication_invalid''
                         (''PublicationReceipt verification failed: '' @ failure)
      | Inr (JObj verified) \<Rightarrow> Inr verified
      | Inr _ \<Rightarrow> receipt_error ''chapter_completion_publication_invalid'' ''publication verifier returned no receipt'')"

definition unconfigured_publication_verifier :: publication_verifier where
  "unconfigured_publication_verifier d =
     Inl (''AutonomyReceiptError: chapter_completion_publication_roots_required: '' @
          ''durable PublicationReceipt verification requires trusted root bindings'')"

text \<open>The two functions of \<open>persistence_v2\<close> that the durable verifier calls are its arguments.\<close>

definition durable_publication_verifier :: "(dict \<Rightarrow> string + dict) \<Rightarrow> publication_verifier \<Rightarrow> publication_verifier" where
  "durable_publication_verifier verify_receipt validate_receipt d =
     (case verify_receipt d of
        Inl failure \<Rightarrow> Inl failure
      | Inr verification \<Rightarrow>
          if \<not> truthy (dget verification ''valid'') \<or> \<not> truthy (dget verification ''committed'')
          then Inl (''AutonomyReceiptError: chapter_completion_publication_not_committed: '' @
                    ''PublicationReceipt does not resolve to a durable commit marker'')
          else validate_receipt d)"

text \<open>A ledger has the plan its constructor validated; its numbers and its source are read from the plan.\<close>

record ledger =
  lg_plan :: dict
  lg_session :: string
  lg_arc :: string

definition open_ledger :: "host \<Rightarrow> json \<Rightarrow> json \<Rightarrow> json \<Rightarrow> ledger res" where
  "open_ledger h instruction_plan session_id arc_plan_id =
     rbind (validate_instruction_plan h instruction_plan None None) (\<lambda>plan.
     rbind (safe_id ''session_id'' session_id) (\<lambda>session.
     rbind (safe_id ''arc_plan_id'' arc_plan_id) (\<lambda>arc.
     Inr \<lparr>lg_plan = plan, lg_session = session, lg_arc = arc\<rparr>)))"

definition obj_at :: "dict \<Rightarrow> string \<Rightarrow> dict" where
  "obj_at d field = (case dget d field of JObj x \<Rightarrow> x | _ \<Rightarrow> [])"

definition int_at :: "dict \<Rightarrow> string \<Rightarrow> int" where
  "int_at d field = (case dget d field of JInt i \<Rightarrow> i | _ \<Rightarrow> 0)"

definition plan_source :: "ledger \<Rightarrow> dict" where
  "plan_source l = obj_at (lg_plan l) ''source_snapshot''"

definition ledger_scope :: "ledger \<Rightarrow> json list" where
  "ledger_scope l = [dget (plan_source l) ''book_id'', JStr (lg_session l), dget (lg_plan l) ''plan_id'', JStr (lg_arc l)]"

definition ledger_directory :: "host \<Rightarrow> ledger \<Rightarrow> string res" where
  "ledger_directory h l =
     rbind (au_canonical_hash h [] (JObj [(''session_id'', JStr (lg_session l)), (''plan_hash'', dget (lg_plan l) ''plan_hash'')]))
       (\<lambda>digest. Inr (take 16 digest))"

record completion_dir =
  cd_publications :: files
  cd_receipts :: files

definition publication_name :: "dict \<Rightarrow> string" where
  "publication_name receipt = json_name (take 20 (doc_text receipt ''publication_receipt_hash''))"

definition completion_name :: "int \<Rightarrow> int \<Rightarrow> string \<Rightarrow> string" where
  "completion_name sequence chapter_index digest =
     show_padded 6 sequence @ ''-'' @ show_padded 6 chapter_index @ ''-'' @ take 20 digest @ ''.json''"

section \<open>Rebuilding the ledger\<close>

record cursor =
  lc_chain :: "dict list"
  lc_previous :: json
  lc_source :: dict

definition lc_chapter :: "ledger \<Rightarrow> cursor \<Rightarrow> int" where
  "lc_chapter l c = int_at (lg_plan l) ''chapter_start'' + int (length (lc_chain c))"

definition first_cursor :: "ledger \<Rightarrow> cursor" where
  "first_cursor l = \<lparr>lc_chain = [], lc_previous = JNull, lc_source = plan_source l\<rparr>"

definition source_regressed :: "dict \<Rightarrow> dict \<Rightarrow> bool" where
  "source_regressed after before \<longleftrightarrow>
     dget after ''root_uuid'' \<noteq> dget before ''root_uuid'' \<or> int_at after ''authority_epoch'' < int_at before ''authority_epoch''"

definition check_completion_link :: "ledger \<Rightarrow> cursor \<Rightarrow> dict \<Rightarrow> unit res" where
  "check_completion_link l c receipt =
     (if map (dget receipt) [''book_id'', ''session_id'', ''plan_id'', ''arc_plan_id''] \<noteq> ledger_scope l
      then receipt_error ''chapter_completion_scope_mismatch'' ''completion receipt chain changed scope''
      else if dget receipt ''chapter_index'' \<noteq> JInt (lc_chapter l c)
      then receipt_error ''chapter_completion_not_contiguous'' ''completion chain skipped a chapter''
      else if dget receipt ''previous_completion_receipt_hash'' \<noteq> lc_previous c
      then receipt_error ''chapter_completion_chain_broken'' ''completion receipt predecessor changed''
      else if source_regressed (obj_at receipt ''source_snapshot_after'') (lc_source c)
      then receipt_error ''chapter_completion_source_snapshot_invalid''
             ''completion source snapshot chain changed root or regressed authority''
      else Inr ())"

definition check_completion_publication :: "publication_verifier \<Rightarrow> files \<Rightarrow> dict \<Rightarrow> unit res" where
  "check_completion_publication verify publications receipt =
     rbind (load_named (publication_name receipt) publications) (\<lambda>d.
     rbind (verified_publication verify d) (\<lambda>publication.
     if dget publication ''receipt_hash'' \<noteq> dget receipt ''publication_receipt_hash''
     then receipt_error ''chapter_completion_publication_mismatch'' ''publication receipt hash changed''
     else Inr ()))"

definition check_completion_lease :: "host \<Rightarrow> lease_store \<Rightarrow> ledger \<Rightarrow> dict \<Rightarrow> unit res" where
  "check_completion_lease h leases l receipt =
     rbind (load_history_index h (dget (plan_source l) ''book_id'') leases) (\<lambda>records.
     rbind (case map_of records (doc_text receipt ''lease_hash'') of
         Some lease \<Rightarrow> Inr lease
       | None \<Rightarrow> load_history h (dget receipt ''book_id'') (dget receipt ''lease_hash'') leases) (\<lambda>lease.
     rbind (py_int (dget lease ''generation'')) (\<lambda>held.
     rbind (py_int (dget receipt ''lease_generation'')) (\<lambda>recorded.
     if held \<noteq> recorded
     then receipt_error ''chapter_completion_lease_fence_invalid'' ''completion receipt lease generation changed''
     else Inr ()))))"

definition advance :: "dict \<Rightarrow> cursor \<Rightarrow> cursor" where
  "advance receipt c = \<lparr>lc_chain = lc_chain c @ [receipt], lc_previous = dget receipt ''receipt_hash'',
     lc_source = obj_at receipt ''source_snapshot_after''\<rparr>"

definition rebuild_step ::
  "host \<Rightarrow> lease_store \<Rightarrow> publication_verifier \<Rightarrow> ledger \<Rightarrow> files \<Rightarrow> string \<times> file_doc \<Rightarrow> cursor \<Rightarrow> cursor res" where
  "rebuild_step h leases verify l publications file c =
     (if \<not> starts_with (show_padded 6 (int (length (lc_chain c)) + 1) @ ''-'' @ show_padded 6 (lc_chapter l c) @ ''-'') (fst file)
      then receipt_error ''chapter_completion_sequence_broken'' ''completion receipt sequence skipped''
      else rbind (load_json_object (fst file) (snd file)) (\<lambda>d.
           rbind (validate_chapter_completion_receipt h (JObj d)) (\<lambda>receipt.
           rbind (check_completion_link l c receipt) (\<lambda>_.
           rbind (check_completion_publication verify publications receipt) (\<lambda>_.
           rbind (check_completion_lease h leases l receipt) (\<lambda>_.
           Inr (advance receipt c)))))))"

definition rebuild_cursor ::
  "host \<Rightarrow> lease_store \<Rightarrow> publication_verifier \<Rightarrow> ledger \<Rightarrow> completion_dir \<Rightarrow> cursor res" where
  "rebuild_cursor h leases verify l dir =
     rfold (rebuild_step h leases verify l (cd_publications dir)) (numbered_files 6 (cd_receipts dir)) (first_cursor l)"

definition rebuild :: "host \<Rightarrow> lease_store \<Rightarrow> publication_verifier \<Rightarrow> ledger \<Rightarrow> completion_dir \<Rightarrow> dict list res" where
  "rebuild h leases verify l dir = rbind (rebuild_cursor h leases verify l dir) (\<lambda>c. Inr (lc_chain c))"

section \<open>Completing a chapter\<close>

definition then_do :: "'a res \<times> 's \<Rightarrow> ('a \<Rightarrow> 's \<Rightarrow> 'b res \<times> 's) \<Rightarrow> 'b res \<times> 's" where
  "then_do p f = (case p of (Inl e, s) \<Rightarrow> (Inl e, s) | (Inr v, s) \<Rightarrow> f v s)"

record completion_request =
  cq_final_stage :: dict
  cq_publication :: dict
  cq_planned_target_hash :: json
  cq_chapter_body_hash :: json
  cq_source_snapshot_after :: json
  cq_status :: json
  cq_created_at :: json

text \<open>Only the head of the stage chain completes a chapter.\<close>

definition stage_is_head :: "host \<Rightarrow> lease_store \<Rightarrow> dict \<Rightarrow> stage_store \<Rightarrow> unit res \<times> stage_store" where
  "stage_is_head h leases final_stage store =
     then_do (load_stage_chain h leases (dget final_stage ''session_id'') (dget final_stage ''chapter_index'') store)
       (\<lambda>chain store'.
         (if chain = [] \<or> \<not> py_eq (JObj (last chain)) (JObj final_stage)
          then receipt_error ''chapter_completion_stage_stale''
                 ''only the current StageReceipt chain head can complete a chapter''
          else Inr (), store'))"

definition request_publication :: "publication_verifier \<Rightarrow> dict \<Rightarrow> (dict \<times> json) res" where
  "request_publication verify d =
     rbind (verified_publication verify d) (\<lambda>publication.
     rbind (au_sha256 ''publication_receipt.receipt_hash'' (dget publication ''receipt_hash'')) (\<lambda>hash.
     Inr (publication, hash)))"

definition check_completion_scope :: "publication_verifier \<Rightarrow> ledger \<Rightarrow> completion_request \<Rightarrow> unit res" where
  "check_completion_scope verify l q =
     (if dget (cq_final_stage q) ''session_id'' \<noteq> JStr (lg_session l) \<or>
         dget (cq_final_stage q) ''plan_id'' \<noteq> dget (lg_plan l) ''plan_id''
      then receipt_error ''chapter_completion_scope_mismatch'' ''StageReceipt belongs to another session or plan''
      else rbind (verified_publication verify (cq_publication q)) (\<lambda>publication.
           if dget publication ''book_id'' \<noteq> dget (plan_source l) ''book_id''
           then receipt_error ''chapter_completion_publication_mismatch'' ''publication belongs to another book''
           else rbind (au_sha256 ''publication_receipt.receipt_hash'' (dget publication ''receipt_hash'')) (\<lambda>_. Inr ())))"

definition completion_precheck ::
  "host \<Rightarrow> lease_store \<Rightarrow> publication_verifier \<Rightarrow> ledger \<Rightarrow> completion_request \<Rightarrow> stage_store \<Rightarrow> unit res \<times> stage_store" where
  "completion_precheck h leases verify l q store =
     (let final_stage = cq_final_stage q in
      case validate_stage_receipt h (JObj final_stage) of
        Inl e \<Rightarrow> (Inl e, store)
      | Inr _ \<Rightarrow>
          if dget final_stage ''status'' \<noteq> JStr ''succeeded''
          then (receipt_error ''chapter_completion_stage_failed'' ''failed, rejected, or uncertain stages do not count'', store)
          else then_do (contains_receipt h leases final_stage store) (\<lambda>found store'.
               if \<not> found
               then (receipt_error ''chapter_completion_stage_unstored'' ''final StageReceipt is not in the append-only chain'', store')
               else then_do (stage_is_head h leases final_stage store') (\<lambda>_ store''.
                    (check_completion_scope verify l q, store''))))"

definition check_final_stage :: "dict \<Rightarrow> unit res" where
  "check_final_stage s =
     (if dget s ''stage'' \<noteq> JStr ''validator''
      then receipt_error ''chapter_completion_stage_not_final'' ''completion requires a successful validator stage''
      else if dget s ''schema_version'' = JStr ''1.0'' \<and> dget s ''model_call_receipt_hash'' = JNull
      then receipt_error ''chapter_completion_stage_not_final''
             ''legacy validator completion requires its original model receipt evidence''
      else if dget s ''schema_version'' = JStr ''1.1'' \<and> dget s ''execution_kind'' = JStr ''model'' \<and>
              \<not> truthy (dget s ''model_call_receipt_hashes'')
      then receipt_error ''chapter_completion_stage_not_final''
             ''model validator completion requires durable ModelCallReceipt evidence''
      else if dget s ''schema_version'' = JStr ''1.1'' \<and> dget s ''execution_kind'' = JStr ''deterministic'' \<and>
              dget s ''execution_evidence_hash'' = JNull
      then receipt_error ''chapter_completion_stage_not_final''
             ''deterministic validator completion requires reproducible execution evidence''
      else Inr ())"

text \<open>Under the lock: the head again, the stage, its fence and the lease that is held now.\<close>

definition completion_evidence ::
  "host \<Rightarrow> string \<Rightarrow> lease_store \<Rightarrow> ledger \<Rightarrow> completion_request \<Rightarrow> stage_store \<Rightarrow> (dict \<times> dict) res \<times> stage_store" where
  "completion_evidence h now leases l q store =
     (let final_stage = cq_final_stage q in
      then_do (stage_is_head h leases final_stage store) (\<lambda>_ store'.
        (rbind (check_final_stage final_stage) (\<lambda>_.
         rbind (fence_for h leases final_stage store') (\<lambda>fence.
         rbind (assert_held h now (dget final_stage ''book_id'') (JStr (lg_session l)) (dget (lg_plan l) ''plan_id'')
                  (cq_created_at q) leases) (\<lambda>lease.
         Inr (fence, lease)))), store')))"

text \<open>What there is to write: nothing for a chapter that is complete already.\<close>

datatype completion_decision = Completed dict | Complete dict dict string

definition completed_again :: "dict list \<Rightarrow> dict \<Rightarrow> int \<Rightarrow> json \<Rightarrow> dict option" where
  "completed_again chain final_stage chapter_index publication_hash =
     (case find (\<lambda>item. dget item ''chapter_index'' = JInt chapter_index) chain of
        None \<Rightarrow> None
      | Some existing \<Rightarrow>
          if dget existing ''publication_receipt_hash'' = publication_hash \<and>
             dget existing ''final_stage_receipt_hash'' = dget final_stage ''receipt_hash''
          then Some existing else None)"

definition check_source_after :: "host \<Rightarrow> json \<Rightarrow> dict \<Rightarrow> unit res" where
  "check_source_after h source_snapshot_after before =
     rbind (validate_source_snapshot h source_snapshot_after) (\<lambda>after.
     if dget after ''root_uuid'' \<noteq> dget before ''root_uuid''
     then receipt_error ''chapter_completion_source_snapshot_invalid''
            ''post-publication source snapshot changed the trusted root UUID''
     else if int_at after ''authority_epoch'' < int_at before ''authority_epoch''
     then receipt_error ''chapter_completion_source_snapshot_invalid'' ''post-publication authority epoch moved backwards''
     else Inr ())"

definition check_publication_chapter :: "dict \<Rightarrow> int \<Rightarrow> unit res" where
  "check_publication_chapter publication chapter_index =
     (let mismatch = receipt_error ''chapter_completion_publication_mismatch''
            ''publication receipt chapter does not match StageReceipt'' in
      case dget publication ''final_run'' of
        JObj run \<Rightarrow>
          (case dget run ''chapter_index'' of
             JInt i \<Rightarrow> if i \<noteq> chapter_index then mismatch else Inr ()
           | JBool b \<Rightarrow> if (if b then 1 else 0) \<noteq> chapter_index then mismatch else Inr ()
           | _ \<Rightarrow> Inr ())
      | _ \<Rightarrow> Inr ())"

definition completion_args_for :: "ledger \<Rightarrow> completion_request \<Rightarrow> cursor \<Rightarrow> dict \<Rightarrow> int \<Rightarrow> json \<Rightarrow> completion_args" where
  "completion_args_for l q c lease chapter_index publication_hash =
     \<lparr>co_book_id = dget (plan_source l) ''book_id'', co_session_id = JStr (lg_session l),
      co_plan_id = dget (lg_plan l) ''plan_id'', co_arc_plan_id = JStr (lg_arc l), co_chapter_index = JInt chapter_index,
      co_planned_target_hash = cq_planned_target_hash q, co_chapter_body_hash = cq_chapter_body_hash q,
      co_final_stage_receipt_hash = dget (cq_final_stage q) ''receipt_hash'',
      co_publication_receipt_hash = publication_hash, co_lease_hash = dget lease ''lease_hash'',
      co_lease_generation = dget lease ''generation'', co_source_snapshot_after = cq_source_snapshot_after q,
      co_previous_hash = lc_previous c, co_status = cq_status q, co_created_at = cq_created_at q\<rparr>"

definition decide_completion ::
  "host \<Rightarrow> string \<Rightarrow> lease_store \<Rightarrow> publication_verifier \<Rightarrow> ledger \<Rightarrow> completion_request \<Rightarrow> dict \<Rightarrow> completion_dir \<Rightarrow>
     completion_decision res" where
  "decide_completion h now leases verify l q lease dir =
     rbind (request_publication verify (cq_publication q)) (\<lambda>(publication, publication_hash).
     rbind (rebuild_cursor h leases verify l dir) (\<lambda>c.
     let chain = lc_chain c; chapter_index = int_at (cq_final_stage q) ''chapter_index'' in
     if chapter_index \<noteq> lc_chapter l c
     then (case completed_again chain (cq_final_stage q) chapter_index publication_hash of
             Some existing \<Rightarrow> Inr (Completed existing)
           | None \<Rightarrow> receipt_error ''chapter_completion_not_canonical_next''
                       (''expected canonical next chapter '' @ show_int (lc_chapter l c) @ '', got '' @ show_int chapter_index))
     else if chapter_index > int_at (lg_plan l) ''chapter_end''
     then receipt_error ''chapter_completion_outside_plan'' ''chapter is outside the approved plan range''
     else rbind (check_source_after h (cq_source_snapshot_after q) (lc_source c)) (\<lambda>_.
          rbind (check_publication_chapter publication chapter_index) (\<lambda>_.
          rbind (build_chapter_completion_receipt h now (completion_args_for l q c lease chapter_index publication_hash)) (\<lambda>receipt.
          Inr (Complete publication receipt
                 (completion_name (int (length chain) + 1) chapter_index (doc_text receipt ''receipt_hash''))))))))"

definition put_publication :: "dict \<Rightarrow> dict \<Rightarrow> completion_dir \<Rightarrow> completion_dir res" where
  "put_publication receipt publication dir =
     rbind (atomic_append_json (publication_name receipt) publication (cd_publications dir)) (\<lambda>fs. Inr (dir\<lparr>cd_publications := fs\<rparr>))"

definition put_completion :: "string \<Rightarrow> dict \<Rightarrow> completion_dir \<Rightarrow> completion_dir res" where
  "put_completion name receipt dir =
     rbind (atomic_append_json name receipt (cd_receipts dir)) (\<lambda>fs. Inr (dir\<lparr>cd_receipts := fs\<rparr>))"

definition completion_writes :: "dict \<Rightarrow> dict \<Rightarrow> string \<Rightarrow> (completion_dir \<Rightarrow> completion_dir res) list" where
  "completion_writes publication receipt name = [put_publication receipt publication, put_completion name receipt]"

definition append_completion ::
  "nat \<Rightarrow> host \<Rightarrow> string \<Rightarrow> lease_store \<Rightarrow> publication_verifier \<Rightarrow> ledger \<Rightarrow> completion_request \<Rightarrow>
     stage_store \<times> completion_dir \<Rightarrow> (dict res \<times> stage_store \<times> completion_dir) option" where
  "append_completion fuel h now leases verify l q s =
     (case then_do (completion_precheck h leases verify l q (fst s)) (\<lambda>_. completion_evidence h now leases l q) of
        (Inl e, store) \<Rightarrow> Some (Inl e, store, snd s)
      | (Inr (fence, lease), store) \<Rightarrow>
          (case assert_descends_from fuel h (dget (cq_final_stage q) ''book_id'') (dget lease ''lease_hash'')
                  (dget fence ''lease_hash'') leases of
             None \<Rightarrow> None
           | Some (Inl e) \<Rightarrow> Some (Inl e, store, snd s)
           | Some (Inr _) \<Rightarrow>
               (case decide_completion h now leases verify l q lease (snd s) of
                  Inl e \<Rightarrow> Some (Inl e, store, snd s)
                | Inr (Completed existing) \<Rightarrow> Some (Inr existing, store, snd s)
                | Inr (Complete publication receipt name) \<Rightarrow>
                    (case run_writes (completion_writes publication receipt name) (snd s) of
                       (Inl e, dir) \<Rightarrow> Some (Inl e, store, dir)
                     | (Inr _, dir) \<Rightarrow> Some (Inr receipt, store, dir)))))"

section \<open>What the ledger says\<close>

definition load_publication :: "publication_verifier \<Rightarrow> json \<Rightarrow> completion_dir \<Rightarrow> dict res" where
  "load_publication verify publication_receipt_hash dir =
     rbind (au_sha256 ''publication_receipt_hash'' publication_receipt_hash) (\<lambda>digest.
     rbind (load_named (json_name (take 20 (case digest of JStr x \<Rightarrow> x | _ \<Rightarrow> []))) (cd_publications dir)) (\<lambda>d.
     rbind (verified_publication verify d) (\<lambda>publication.
     if dget publication ''receipt_hash'' \<noteq> digest
     then receipt_error ''chapter_completion_publication_mismatch'' ''publication receipt hash changed''
     else Inr publication)))"

definition expected_source :: "ledger \<Rightarrow> dict list \<Rightarrow> dict" where
  "expected_source l chain = (if chain = [] then plan_source l else obj_at (last chain) ''source_snapshot_after'')"

definition delivery_resolved :: "(dict \<Rightarrow> string + bool) option \<Rightarrow> dict \<Rightarrow> bool res" where
  "delivery_resolved verifier item =
     (case verifier of
        None \<Rightarrow> Inr False
      | Some check \<Rightarrow>
          (case check item of
             Inl failure \<Rightarrow> receipt_error ''chapter_completion_delivery_resolution_invalid''
                              (''delivery resolution evidence could not be verified: '' @ failure)
           | Inr resolved \<Rightarrow> Inr resolved))"

fun blocked_chapters :: "(dict \<Rightarrow> string + bool) option \<Rightarrow> dict list \<Rightarrow> json list res" where
  "blocked_chapters verifier [] = Inr []"
| "blocked_chapters verifier (item # rest) =
     (if dget item ''status'' \<noteq> JStr ''local_committed_delivery_blocked'' then blocked_chapters verifier rest
      else rbind (delivery_resolved verifier item) (\<lambda>resolved.
           rbind (blocked_chapters verifier rest) (\<lambda>blocked.
           Inr (if resolved then blocked else dget item ''chapter_index'' # blocked))))"

definition ledger_summary ::
  "host \<Rightarrow> lease_store \<Rightarrow> publication_verifier \<Rightarrow> (dict \<Rightarrow> string + bool) option \<Rightarrow> ledger \<Rightarrow> completion_dir \<Rightarrow> dict res" where
  "ledger_summary h leases verify deliveries l dir =
     rbind (rebuild h leases verify l dir) (\<lambda>chain.
     rbind (blocked_chapters deliveries chain) (\<lambda>blocked.
     Inr [(''completed_count'', JInt (int (length chain))),
          (''completed_chapters'', JList (map (\<lambda>item. dget item ''chapter_index'') chain)),
          (''canonical_next_chapter'', JInt (int_at (lg_plan l) ''chapter_start'' + int (length chain))),
          (''last_completion_receipt_hash'', if chain = [] then JNull else dget (last chain) ''receipt_hash''),
          (''expected_source_snapshot_hash'', dget (expected_source l chain) ''snapshot_hash''),
          (''delivery_blocked'', JBool (blocked \<noteq> [])),
          (''delivery_blocked_chapters'', JList blocked)]))"

definition expected_source_snapshot ::
  "host \<Rightarrow> lease_store \<Rightarrow> publication_verifier \<Rightarrow> ledger \<Rightarrow> completion_dir \<Rightarrow> dict res" where
  "expected_source_snapshot h leases verify l dir =
     rbind (rebuild h leases verify l dir) (\<lambda>chain. Inr (expected_source l chain))"

section \<open>What a rebuilt ledger is\<close>

lemma validate_completion_id: "validate_chapter_completion_receipt h v = Inr r \<Longrightarrow> v = JObj r"
  by (auto simp: validate_chapter_completion_receipt_def rbind_eq_Inr au_validate_mapping_Inr split: if_splits)

text \<open>A completion receipt continues a chain of them.\<close>

definition continues :: "host \<Rightarrow> ledger \<Rightarrow> dict list \<Rightarrow> dict \<Rightarrow> bool" where
  "continues h l chain r \<longleftrightarrow>
     validate_chapter_completion_receipt h (JObj r) = Inr r \<and>
     map (dget r) [''book_id'', ''session_id'', ''plan_id'', ''arc_plan_id''] = ledger_scope l \<and>
     dget r ''chapter_index'' = JInt (int_at (lg_plan l) ''chapter_start'' + int (length chain)) \<and>
     dget r ''previous_completion_receipt_hash'' = (if chain = [] then JNull else dget (last chain) ''receipt_hash'') \<and>
     \<not> source_regressed (obj_at r ''source_snapshot_after'') (expected_source l chain)"

definition canonical_chain :: "host \<Rightarrow> ledger \<Rightarrow> dict list \<Rightarrow> bool" where
  "canonical_chain h l chain \<longleftrightarrow> (\<forall>i < length chain. continues h l (take i chain) (chain ! i))"

lemma canonical_chain_Nil [simp]: "canonical_chain h l []"
  by (simp add: canonical_chain_def)

lemma canonical_chain_snoc: "canonical_chain h l (chain @ [r]) \<longleftrightarrow> canonical_chain h l chain \<and> continues h l chain r"
  by (auto simp: canonical_chain_def nth_append less_Suc_eq)

definition cursor_ok :: "host \<Rightarrow> ledger \<Rightarrow> cursor \<Rightarrow> bool" where
  "cursor_ok h l c \<longleftrightarrow> canonical_chain h l (lc_chain c) \<and>
     lc_previous c = (if lc_chain c = [] then JNull else dget (last (lc_chain c)) ''receipt_hash'') \<and>
     lc_source c = expected_source l (lc_chain c)"

lemma rebuild_step_Inr:
  "rebuild_step h leases verify l pubs f c = Inr c' \<longleftrightarrow> (\<exists>r.
     starts_with (show_padded 6 (int (length (lc_chain c)) + 1) @ ''-'' @ show_padded 6 (lc_chapter l c) @ ''-'') (fst f) \<and>
     snd f = Doc (JObj r) \<and> validate_chapter_completion_receipt h (JObj r) = Inr r \<and>
     check_completion_link l c r = Inr () \<and> check_completion_publication verify pubs r = Inr () \<and>
     check_completion_lease h leases l r = Inr () \<and> c' = advance r c)"
  by (auto simp: rebuild_step_def rbind_eq_Inr load_json_object_Inr dest: validate_completion_id split: if_splits)

lemma check_completion_link_Inr:
  "check_completion_link l c r = Inr () \<longleftrightarrow>
     map (dget r) [''book_id'', ''session_id'', ''plan_id'', ''arc_plan_id''] = ledger_scope l \<and>
     dget r ''chapter_index'' = JInt (lc_chapter l c) \<and> dget r ''previous_completion_receipt_hash'' = lc_previous c \<and>
     \<not> source_regressed (obj_at r ''source_snapshot_after'') (lc_source c)"
  by (auto simp: check_completion_link_def split: if_splits)

lemma advance_ok:
  assumes "cursor_ok h l c" and "validate_chapter_completion_receipt h (JObj r) = Inr r" and "check_completion_link l c r = Inr ()"
  shows "cursor_ok h l (advance r c)"
  using assms
  by (auto simp: cursor_ok_def advance_def canonical_chain_snoc continues_def check_completion_link_Inr lc_chapter_def
      expected_source_def)

lemma rebuilt_cursor:
  assumes "rfold (rebuild_step h leases verify l pubs) fs (first_cursor l) = Inr c"
  shows "cursor_ok h l c" and "length (lc_chain c) = length fs"
    and "i < length fs \<Longrightarrow> starts_with (show_padded 6 (int i + 1) @ ''-'') (fst (fs ! i))"
    and "i < length fs \<Longrightarrow> snd (fs ! i) = Doc (JObj (lc_chain c ! i))"
proof -
  have "cursor_ok h l c \<and> length (lc_chain c) = length fs \<and>
    (\<forall>i < length fs. starts_with (show_padded 6 (int i + 1) @ ''-'') (fst (fs ! i)) \<and> snd (fs ! i) = Doc (JObj (lc_chain c ! i)))"
    using assms
  proof (induction fs arbitrary: c rule: rev_induct)
    case Nil
    then show ?case by (auto simp: cursor_ok_def first_cursor_def expected_source_def)
  next
    case (snoc f fs)
    then obtain b where b: "rfold (rebuild_step h leases verify l pubs) fs (first_cursor l) = Inr b"
      and s: "rebuild_step h leases verify l pubs f b = Inr c" by (auto simp: rfold_snoc)
    note IH = snoc.IH [OF b]
    from s obtain r where r: "starts_with (show_padded 6 (int (length fs) + 1) @ ''-'' @ show_padded 6 (lc_chapter l b) @ ''-'') (fst f)"
      "snd f = Doc (JObj r)" "validate_chapter_completion_receipt h (JObj r) = Inr r" "check_completion_link l b r = Inr ()"
      and c: "c = advance r b" using IH by (auto simp: rebuild_step_Inr)
    from r(1) have "starts_with (show_padded 6 (int (length fs) + 1) @ ''-'') (fst f)" by (auto simp: starts_with_iff)
    with IH r c advance_ok [OF _ r(3,4)] show ?case by (auto simp: nth_append less_Suc_eq advance_def)
  qed
  then show "cursor_ok h l c" "length (lc_chain c) = length fs"
    "i < length fs \<Longrightarrow> starts_with (show_padded 6 (int i + 1) @ ''-'') (fst (fs ! i))"
    "i < length fs \<Longrightarrow> snd (fs ! i) = Doc (JObj (lc_chain c ! i))" by auto
qed

lemma rebuild_cursorE:
  assumes "rebuild h leases verify l dir = Inr chain"
  obtains c where "rebuild_cursor h leases verify l dir = Inr c" and "lc_chain c = chain" and "cursor_ok h l c"
    and "counted 6 (cd_receipts dir)" and "length (numbered_files 6 (cd_receipts dir)) = length chain"
proof -
  from assms obtain c where c: "rebuild_cursor h leases verify l dir = Inr c" "lc_chain c = chain"
    by (auto simp: rebuild_def rbind_eq_Inr)
  note r = rebuilt_cursor [OF c(1) [unfolded rebuild_cursor_def]]
  from r(3) have "counted 6 (cd_receipts dir)" by (simp add: counted_def)
  with that [OF c r(1)] r(2) c(2) show thesis by simp
qed

section \<open>The next completion\<close>

lemma rebuild_mono:
  assumes "rebuild_cursor h leases verify l dir = Inr c" and "cd_receipts dir' = cd_receipts dir"
    and "map_of (cd_publications dir) \<subseteq>\<^sub>m map_of (cd_publications dir')"
  shows "rebuild_cursor h leases verify l dir' = Inr c"
  unfolding rebuild_cursor_def assms(2)
  by (rule rfold_mono [OF assms(1) [unfolded rebuild_cursor_def]])
     (auto simp: rebuild_step_Inr check_completion_publication_def rbind_eq_Inr intro: load_named_mono [OF assms(3)])

lemma completion_body_fields:
  assumes "build_chapter_completion_receipt h now a = Inr r"
  shows "validate_chapter_completion_receipt h (JObj r) = Inr r"
    and "dget r ''book_id'' = co_book_id a" and "dget r ''session_id'' = co_session_id a" and "dget r ''plan_id'' = co_plan_id a"
    and "dget r ''arc_plan_id'' = co_arc_plan_id a" and "dget r ''chapter_index'' = co_chapter_index a"
    and "dget r ''publication_receipt_hash'' = co_publication_receipt_hash a"
    and "dget r ''lease_hash'' = co_lease_hash a" and "dget r ''lease_generation'' = co_lease_generation a"
    and "dget r ''previous_completion_receipt_hash'' = co_previous_hash a" and "\<exists>g. co_lease_generation a = JInt g"
    and "\<exists>after. validate_source_snapshot h (co_source_snapshot_after a) = Inr after \<and> dget r ''source_snapshot_after'' = JObj after"
proof -
  from assms obtain b x where b: "completion_body h now a = Inr b"
    and v: "validate_chapter_completion_receipt h (JObj (dset ''receipt_hash'' (JStr x) b)) = Inr r"
    by (auto simp: build_chapter_completion_receipt_def rbind_eq_Inr)
  from validate_completion_id [OF v] have r: "r = dset ''receipt_hash'' (JStr x) b" by simp
  from v show "validate_chapter_completion_receipt h (JObj r) = Inr r" by (simp add: r)
  from b show "dget r ''book_id'' = co_book_id a" "dget r ''session_id'' = co_session_id a" "dget r ''plan_id'' = co_plan_id a"
    "dget r ''arc_plan_id'' = co_arc_plan_id a" "dget r ''chapter_index'' = co_chapter_index a"
    "dget r ''publication_receipt_hash'' = co_publication_receipt_hash a"
    "dget r ''lease_hash'' = co_lease_hash a" "dget r ''lease_generation'' = co_lease_generation a"
    "dget r ''previous_completion_receipt_hash'' = co_previous_hash a" "\<exists>g. co_lease_generation a = JInt g"
    "\<exists>after. validate_source_snapshot h (co_source_snapshot_after a) = Inr after \<and> dget r ''source_snapshot_after'' = JObj after"
    by (auto simp: r completion_body_def rbind_eq_Inr dget_Cons safe_id_Inr au_int_from_Inr au_sha256_Inr au_optional_sha256_Inr)
qed


lemma completion_name_json: "ends_with ''.json'' (show_padded 6 i @ ''-'' @ take 20 d @ ''.json'')"
  by (intro ends_with_append) (simp add: ends_with_def)

lemma request_publication_Inr:
  "request_publication verify d = Inr (p, x) \<longleftrightarrow>
     verified_publication verify d = Inr p \<and> json_sha256 (dget p ''receipt_hash'') \<and> x = dget p ''receipt_hash''"
  by (auto simp: request_publication_def rbind_eq_Inr au_sha256_Inr)

text \<open>What a decision to complete a chapter has checked.\<close>

lemma decided_completion:
  assumes d: "decide_completion h now leases verify l q lease dir = Inr (Complete p r name)"
    and c: "rebuild_cursor h leases verify l dir = Inr c"
  shows "validate_chapter_completion_receipt h (JObj r) = Inr r" and "check_completion_link l c r = Inr ()"
    and "name = completion_name (int (length (lc_chain c)) + 1) (lc_chapter l c) (doc_text r ''receipt_hash'')"
    and "dget r ''publication_receipt_hash'' = dget p ''receipt_hash''"
    and "dget r ''book_id'' = dget (plan_source l) ''book_id''" and "dget r ''lease_hash'' = dget lease ''lease_hash''"
    and "dget r ''lease_generation'' = dget lease ''generation''" and "\<exists>g. dget lease ''generation'' = JInt g"
    and "lc_chapter l c \<le> int_at (lg_plan l) ''chapter_end''"
proof -
  from d c obtain x where p: "request_publication verify (cq_publication q) = Inr (p, x)"
    and ch: "int_at (cq_final_stage q) ''chapter_index'' = lc_chapter l c" "lc_chapter l c \<le> int_at (lg_plan l) ''chapter_end''"
    and src: "check_source_after h (cq_source_snapshot_after q) (lc_source c) = Inr ()"
    and b: "build_chapter_completion_receipt h now (completion_args_for l q c lease (lc_chapter l c) x) = Inr r"
    and n: "name = completion_name (int (length (lc_chain c)) + 1) (lc_chapter l c) (doc_text r ''receipt_hash'')"
    by (auto simp: decide_completion_def rbind_eq_Inr Let_def split: if_splits option.splits prod.splits)
  note f = completion_body_fields [OF b, unfolded completion_args_for_def, simplified]
  from f(12) src have "\<not> source_regressed (obj_at r ''source_snapshot_after'') (lc_source c)"
    by (auto simp: check_source_after_def source_regressed_def obj_at_def rbind_eq_Inr split: if_splits)
  with f show "check_completion_link l c r = Inr ()" by (simp add: check_completion_link_Inr ledger_scope_def)
  from p f n ch show "validate_chapter_completion_receipt h (JObj r) = Inr r"
    "name = completion_name (int (length (lc_chain c)) + 1) (lc_chapter l c) (doc_text r ''receipt_hash'')"
    "dget r ''publication_receipt_hash'' = dget p ''receipt_hash''"
    "dget r ''book_id'' = dget (plan_source l) ''book_id''" "dget r ''lease_hash'' = dget lease ''lease_hash''"
    "dget r ''lease_generation'' = dget lease ''generation''" "\<exists>g. dget lease ''generation'' = JInt g"
    "lc_chapter l c \<le> int_at (lg_plan l) ''chapter_end''"
    by (simp_all add: request_publication_Inr)
qed

text \<open>The two writes.\<close>

lemma completion_crash_states:
  assumes run: "run_writes (take k (completion_writes p r name)) dir = (Inr (), dir')" and k: "k \<le> 2"
    and fp: "fresh_or_same (publication_name r) p (cd_publications dir)" and fr: "map_of (cd_receipts dir) name = None"
  shows "map_of (cd_publications dir) \<subseteq>\<^sub>m map_of (cd_publications dir')"
    and "k < 2 \<Longrightarrow> cd_receipts dir' = cd_receipts dir"
    and "k = 2 \<Longrightarrow> cd_receipts dir' = cd_receipts dir @ [(name, Doc (JObj r))] \<and>
      map_of (cd_publications dir') (publication_name r) = Some (Doc (JObj p))"
proof -
  have pub: "map_of (cd_publications dir) \<subseteq>\<^sub>m map_of (cd_publications d)" "cd_receipts d = cd_receipts dir"
    "map_of (cd_publications d) (publication_name r) = Some (Doc (JObj p))" if "put_publication r p dir = Inr d" for d
    using that append_adds [OF _ fp] by (auto simp: put_publication_def rbind_eq_Inr)
  have rec: "d' = d\<lparr>cd_receipts := cd_receipts dir @ [(name, Doc (JObj r))]\<rparr>"
    if "put_completion name r d = Inr d'" "cd_receipts d = cd_receipts dir" for d d'
    using that fr by (auto simp: put_completion_def rbind_eq_Inr append_new)
  from k consider "k = 0" | "k = 1" | "k = 2" by arith
  then have "map_of (cd_publications dir) \<subseteq>\<^sub>m map_of (cd_publications dir') \<and>
    (k < 2 \<longrightarrow> cd_receipts dir' = cd_receipts dir) \<and> (k = 2 \<longrightarrow> cd_receipts dir' = cd_receipts dir @ [(name, Doc (JObj r))] \<and>
      map_of (cd_publications dir') (publication_name r) = Some (Doc (JObj p)))"
  proof cases
    case 1
    with run show ?thesis by (simp add: map_le_def)
  next
    case 2
    with run pub show ?thesis by (auto simp: completion_writes_def run_writes_Cons simp del: run_writes.simps(2))
  next
    case 3
    with run obtain d where "put_publication r p dir = Inr d" "put_completion name r d = Inr dir'"
      by (auto simp: completion_writes_def run_writes_Cons simp del: run_writes.simps(2))
    with 3 pub [of d] rec [of d dir'] show ?thesis by simp
  qed
  then show "map_of (cd_publications dir) \<subseteq>\<^sub>m map_of (cd_publications dir')" "k < 2 \<Longrightarrow> cd_receipts dir' = cd_receipts dir"
    "k = 2 \<Longrightarrow> cd_receipts dir' = cd_receipts dir @ [(name, Doc (JObj r))] \<and>
      map_of (cd_publications dir') (publication_name r) = Some (Doc (JObj p))" by auto
qed

text \<open>After both writes the last step of the rebuild decides.\<close>

lemma rebuild_completed:
  assumes reb: "rebuild h leases verify l dir = Inr chain" and len: "length chain < 999999"
    and d: "decide_completion h now leases verify l q lease dir = Inr (Complete p r name)" and again: "verify p = Inr (JObj p)"
    and fp: "fresh_or_same (publication_name r) p (cd_publications dir)"
    and run: "run_writes (take k (completion_writes p r name)) dir = (Inr (), dir')" and k: "k \<le> 2"
  shows "k < 2 \<Longrightarrow> rebuild h leases verify l dir' = Inr chain"
    and "k = 2 \<Longrightarrow> rebuild h leases verify l dir' = rbind (check_completion_lease h leases l r) (\<lambda>_. Inr (chain @ [r]))"
proof -
  from reb obtain c where c: "rebuild_cursor h leases verify l dir = Inr c" "lc_chain c = chain" and ok: "cursor_ok h l c"
    and cnt: "counted 6 (cd_receipts dir)" and n: "length (numbered_files 6 (cd_receipts dir)) = length chain"
    by (rule rebuild_cursorE)
  note f = decided_completion [OF d c(1), unfolded c(2)]
  have name: "name = show_padded 6 (int (length (numbered_files 6 (cd_receipts dir))) + 1) @
      CHR ''-'' # (show_padded 6 (lc_chapter l c) @ ''-'' @ take 20 (doc_text r ''receipt_hash'') @ ''.json'')"
    by (simp add: f(3) n completion_name_def)
  have new: "numbered_files 6 (cd_receipts dir @ [(name, Doc (JObj r))]) = numbered_files 6 (cd_receipts dir) @ [(name, Doc (JObj r))]"
    by (rule numbered_files_snoc(1) [OF cnt _ _ name completion_name_json]) (use n len in simp_all)
  have none: "map_of (cd_receipts dir) name = None"
    by (rule numbered_files_snoc(2) [OF cnt _ _ name completion_name_json]) (use n len in simp_all)
  note crash = completion_crash_states [OF run k fp none]
  show "rebuild h leases verify l dir' = Inr chain" if "k < 2"
    using rebuild_mono [OF c(1) crash(2) [OF that] crash(1)] by (simp add: rebuild_def c(2))
  show "rebuild h leases verify l dir' = rbind (check_completion_lease h leases l r) (\<lambda>_. Inr (chain @ [r]))" if "k = 2"
  proof -
    from crash(3) [OF that] have files: "cd_receipts dir' = cd_receipts dir @ [(name, Doc (JObj r))]"
      and pub: "map_of (cd_publications dir') (publication_name r) = Some (Doc (JObj p))" by auto
    have "rebuild_cursor h leases verify l (dir'\<lparr>cd_receipts := cd_receipts dir\<rparr>) = Inr c"
      by (rule rebuild_mono [OF c(1)]) (use crash(1) in simp_all)
    then have "rebuild_cursor h leases verify l dir' =
        rebuild_step h leases verify l (cd_publications dir') (name, Doc (JObj r)) c"
      by (simp add: rebuild_cursor_def files new rfold_last)
    also have "\<dots> = rbind (check_completion_lease h leases l r) (\<lambda>_. Inr (advance r c))"
      using f(1,2,4) pub again
      by (simp add: rebuild_step_def load_json_object_def check_completion_publication_def load_named_def verified_publication_def
          name n c(2) starts_with_def)
    finally show ?thesis by (cases "check_completion_lease h leases l r") (simp_all add: rebuild_def advance_def c(2))
  qed
qed

text \<open>
  C6: completing a chapter is atomic under crashes. While the lease of the book is held, let the ledger be
  rebuilt and a completion be decided. If the process dies after \<open>k\<close> of the two writes, the ledger
  rebuilds to the old chain when the receipt is not yet written and to the old chain with the receipt at its end when it is.
\<close>

theorem completion_is_atomic:
  assumes "assert_held h now (dget (plan_source l) ''book_id'') session plan at_time leases = Inr lease"
    and "rebuild h leases verify l dir = Inr chain" and "length chain < 999999"
    and "decide_completion h now leases verify l q lease dir = Inr (Complete p r name)" and "verify p = Inr (JObj p)"
    and "fresh_or_same (publication_name r) p (cd_publications dir)"
    and "run_writes (take k (completion_writes p r name)) dir = (Inr (), dir')" and "k \<le> 2"
  shows "rebuild h leases verify l dir' = Inr (if k < 2 then chain else chain @ [r])"
proof -
  from held_is_indexed [OF assms(1)] obtain records x where i: "load_history_index h (dget (plan_source l) ''book_id'') leases = Inr records"
    and x: "dget lease ''lease_hash'' = JStr x" "map_of records x = Some lease" by blast
  from assms(2) obtain c where "rebuild_cursor h leases verify l dir = Inr c" by (rule rebuild_cursorE)
  note f = decided_completion [OF assms(4) this]
  have "check_completion_lease h leases l r = Inr ()"
    using i x f(6-8) by (auto simp: check_completion_lease_def)
  with rebuild_completed [OF assms(2-8)] assms(8) show ?thesis by (cases "k < 2") simp_all
qed

text \<open>
  C18: a ledger that is rebuilt is canonical. Its receipts are valid and of one scope, their chapters count up from the
  first chapter of the plan, each one names the hash of the one before, and the source
  snapshot after each chapter keeps the root and never lowers the authority epoch.
\<close>

theorem rebuilt_ledger_is_canonical:
  assumes "rebuild h leases verify l dir = Inr chain" and "i < length chain"
  shows "continues h l (take i chain) (chain ! i)"
  using assms by (elim rebuild_cursorE) (simp add: cursor_ok_def canonical_chain_def)

lemma ledger_chapters:
  assumes "cursor_ok h l c" and "i < length (lc_chain c)"
  shows "dget (lc_chain c ! i) ''chapter_index'' = JInt (int_at (lg_plan l) ''chapter_start'' + int i)"
proof -
  from assms have "continues h l (take i (lc_chain c)) (lc_chain c ! i)" by (simp add: cursor_ok_def canonical_chain_def)
  then have "dget (lc_chain c ! i) ''chapter_index'' =
      JInt (int_at (lg_plan l) ''chapter_start'' + int (length (take i (lc_chain c))))"
    unfolding continues_def by blast
  moreover have "length (take i (lc_chain c)) = i" using assms(2) by simp
  ultimately show ?thesis by (simp only:)
qed

text \<open>
  C19: completing a chapter again changes nothing. For a chapter that the ledger has, with the publication and the
  final stage it was completed with, the decision is the receipt that is there.
\<close>

theorem completion_is_idempotent:
  assumes "rebuild h leases verify l dir = Inr chain" and "r \<in> set chain"
    and "request_publication verify (cq_publication q) = Inr (p, dget r ''publication_receipt_hash'')"
    and "dget (cq_final_stage q) ''receipt_hash'' = dget r ''final_stage_receipt_hash''"
    and "dget (cq_final_stage q) ''chapter_index'' = dget r ''chapter_index''"
  shows "decide_completion h now leases verify l q lease dir = Inr (Completed r)"
proof -
  from assms(1) obtain c where c: "rebuild_cursor h leases verify l dir = Inr c" "lc_chain c = chain" and ok: "cursor_ok h l c"
    by (rule rebuild_cursorE)
  let ?start = "int_at (lg_plan l) ''chapter_start''"
  from assms(2) obtain i where i: "i < length chain" "chain ! i = r" by (auto simp: in_set_conv_nth)
  note ch = ledger_chapters [OF ok, unfolded c(2)]
  have r: "dget r ''chapter_index'' = JInt (?start + int i)" using ch [OF i(1)] i(2) by simp
  have "find (\<lambda>item. dget item ''chapter_index'' = JInt (?start + int i)) chain = Some r"
  proof (rule find_unique [OF assms(2)])
    fix y assume "y \<in> set chain" "dget y ''chapter_index'' = JInt (?start + int i)"
    then show "y = r" using ch i by (auto simp: in_set_conv_nth)
  qed (rule r)
  then have "completed_again chain (cq_final_stage q) (?start + int i) (dget r ''publication_receipt_hash'') = Some r"
    using assms(4) by (simp add: completed_again_def)
  moreover have "int_at (cq_final_stage q) ''chapter_index'' = ?start + int i" using assms(5) r by (simp add: int_at_def)
  ultimately show ?thesis
    using i(1) assms(3) c by (simp add: decide_completion_def Let_def lc_chapter_def)
qed

lemma validated_completion_lease:
  "validate_chapter_completion_receipt h (JObj r) = Inr w \<Longrightarrow> json_sha256 (dget r ''lease_hash'')"
  by (auto simp: validate_chapter_completion_receipt_def completion_fields_ok_def completion_digests_def rbind_eq_Inr
      rcheck_Inr_iff on_item_eq_Inr au_validate_mapping_Inr au_sha256_Inr dget_def)


section \<open>An example\<close>

definition example_snapshot :: "int \<Rightarrow> dict" where
  "example_snapshot n =
     [(''schema_version'', JStr ''1.0''), (''book_id'', JStr ''b''), (''root_uuid'', JStr ''r''), (''authority_epoch'', JInt 0),
      (''authority_head_event_hash'', JNull), (''canonical_next_chapter'', JInt n), (''source_digest'', JStr zero_digest),
      (''captured_at'', JStr ''now''), (''snapshot_hash'', JStr zero_digest)]"

definition example_ledger :: ledger where
  "example_ledger =
     \<lparr>lg_plan = [(''plan_id'', JStr ''p''), (''source_snapshot'', JObj (example_snapshot 3)), (''chapter_start'', JInt 3),
        (''chapter_end'', JInt 5)], lg_session = ''s'', lg_arc = ''a''\<rparr>"

definition accept_publication :: publication_verifier where
  "accept_publication d = Inr (JObj d)"

definition example_publication :: dict where
  "example_publication = [(''receipt_hash'', JStr zero_digest), (''book_id'', JStr ''b'')]"

definition example_request :: completion_request where
  "example_request =
     \<lparr>cq_final_stage = example_receipt, cq_publication = example_publication, cq_planned_target_hash = JStr zero_digest,
      cq_chapter_body_hash = JStr zero_digest, cq_source_snapshot_after = JObj (example_snapshot 4),
      cq_status = JStr ''committed'', cq_created_at = JNull\<rparr>"

definition example_lease :: dict where
  "example_lease = [(''lease_hash'', JStr zero_digest), (''generation'', JInt 1)]"

definition empty_completions :: completion_dir where
  "empty_completions = \<lparr>cd_publications = [], cd_receipts = []\<rparr>"

definition example_completion :: dict where
  "example_completion =
     [(''schema_version'', JStr ''1.0''), (''book_id'', JStr ''b''), (''session_id'', JStr ''s''), (''plan_id'', JStr ''p''),
      (''arc_plan_id'', JStr ''a''), (''chapter_index'', JInt 3), (''planned_target_hash'', JStr zero_digest),
      (''chapter_body_hash'', JStr zero_digest), (''final_stage_receipt_hash'', JStr zero_digest),
      (''publication_receipt_hash'', JStr zero_digest), (''lease_hash'', JStr zero_digest), (''lease_generation'', JInt 1),
      (''source_snapshot_after'', JObj (example_snapshot 4)), (''previous_completion_receipt_hash'', JNull),
      (''status'', JStr ''committed''), (''created_at'', JStr ''20''), (''receipt_hash'', JStr zero_digest)]"

definition completed_dir :: completion_dir where
  "completed_dir = \<lparr>cd_publications = [(publication_name example_completion, Doc (JObj example_publication))],
     cd_receipts = [(completion_name 1 3 zero_digest, Doc (JObj example_completion))]\<rparr>"

lemma example_held:
  "\<exists>lease. assert_held example_host ''20'' (JStr ''b'') (JStr ''s'') (JStr ''p'') JNull (\<lambda>_. example_files) = Inr lease \<and>
     dget lease ''lease_hash'' = JStr zero_digest \<and> dget lease ''generation'' = JInt 1"
proof -
  have "case assert_held example_host ''20'' (JStr ''b'') (JStr ''s'') (JStr ''p'') JNull (\<lambda>_. example_files) of
      Inl e \<Rightarrow> False | Inr lease \<Rightarrow> dget lease ''lease_hash'' = JStr zero_digest \<and> dget lease ''generation'' = JInt 1"
    by code_simp
  then show ?thesis by (auto split: sum.splits)
qed

text \<open>The decision reads the hash and the generation of the lease, nothing else.\<close>

lemma example_decided:
  assumes "dget lease ''lease_hash'' = JStr zero_digest" and "dget lease ''generation'' = JInt 1"
  shows "decide_completion example_host ''20'' leases accept_publication example_ledger example_request lease empty_completions =
     Inr (Complete example_publication example_completion (completion_name 1 3 zero_digest))"
proof -
  have "completion_args_for l q c lease = completion_args_for l q c example_lease" for l q c
    using assms by (intro ext) (simp add: completion_args_for_def example_lease_def dget_Cons)
  then have "decide_completion example_host ''20'' leases accept_publication example_ledger example_request lease empty_completions =
      decide_completion example_host ''20'' leases accept_publication example_ledger example_request example_lease empty_completions"
    by (simp only: decide_completion_def)
  also have "\<dots> = Inr (Complete example_publication example_completion (completion_name 1 3 zero_digest))"
    by code_simp
  finally show ?thesis .
qed

lemma example_writes:
  "run_writes (completion_writes example_publication example_completion (completion_name 1 3 zero_digest)) empty_completions =
     (Inr (), completed_dir)"
  by code_simp

lemma example_rebuilt: "rebuild example_host (\<lambda>_. example_files) accept_publication example_ledger completed_dir = Inr [example_completion]"
  by code_simp

theorem completion_is_atomic_witness:
  "rebuild example_host (\<lambda>_. example_files) accept_publication example_ledger completed_dir = Inr [example_completion]"
proof -
  from example_held obtain lease where
    held: "assert_held example_host ''20'' (JStr ''b'') (JStr ''s'') (JStr ''p'') JNull (\<lambda>_. example_files) = Inr lease"
    and lease: "dget lease ''lease_hash'' = JStr zero_digest" "dget lease ''generation'' = JInt 1" by blast
  have book: "dget (plan_source example_ledger) ''book_id'' = JStr ''b''" by code_simp
  have empty: "rebuild example_host (\<lambda>_. example_files) accept_publication example_ledger empty_completions = Inr []" by code_simp
  have "rebuild example_host (\<lambda>_. example_files) accept_publication example_ledger completed_dir =
      Inr (if (2::nat) < 2 then [] else [] @ [example_completion])"
  proof (rule completion_is_atomic [OF held [folded book] empty _ example_decided [OF lease]])
    show "run_writes (take 2 (completion_writes example_publication example_completion (completion_name 1 3 zero_digest)))
        empty_completions = (Inr (), completed_dir)"
      using example_writes by (simp add: completion_writes_def)
  qed (simp_all add: accept_publication_def fresh_or_same_def empty_completions_def)
  then show ?thesis by simp
qed

theorem rebuilt_ledger_is_canonical_witness: "continues example_host example_ledger [] example_completion"
  using rebuilt_ledger_is_canonical [OF example_rebuilt, of 0] by simp

theorem completion_is_idempotent_witness:
  "decide_completion example_host ''20'' (\<lambda>_. example_files) accept_publication example_ledger example_request example_lease completed_dir =
     Inr (Completed example_completion)"
proof (rule completion_is_idempotent [OF example_rebuilt, where p = example_publication])
  show "request_publication accept_publication (cq_publication example_request) =
      Inr (example_publication, dget example_completion ''publication_receipt_hash'')" by code_simp
  show "dget (cq_final_stage example_request) ''receipt_hash'' = dget example_completion ''final_stage_receipt_hash''" by code_simp
  show "dget (cq_final_stage example_request) ''chapter_index'' = dget example_completion ''chapter_index''" by code_simp
qed simp


end
