(* ===== verification/Session_Events.thy ===== *)
theory Session_Events
  imports Completion_Ledger
begin

text \<open>
  The event log of a book session, \<open>core/autonomy/session.py\<close>. A session begins with its genesis, which binds the
  plan and the arc plan; its state is what a hash-linked log of events says. The log is an automaton:
  a session is active, cancelled, abandoned or completed, and the last two are final.
\<close>

abbreviation session_error :: "string \<Rightarrow> string \<Rightarrow> 'a res" where
  "session_error tag message \<equiv> Inl (AutonomySessionError tag message)"

section \<open>Genesis\<close>

definition session_ids_ok :: "dict \<Rightarrow> string list \<Rightarrow> unit res" where
  "session_ids_ok d names = rcheck (\<lambda>field. on_item d field (\<lambda>v. rbind (safe_id field v) (\<lambda>_. Inr ()))) names"

definition session_digests_ok :: "dict \<Rightarrow> string list \<Rightarrow> unit res" where
  "session_digests_ok d names = rcheck (\<lambda>field. on_item d field (\<lambda>v. rbind (au_sha256 field v) (\<lambda>_. Inr ()))) names"

definition validate_session_genesis :: "host \<Rightarrow> json \<Rightarrow> dict res" where
  "validate_session_genesis h value =
     rbind (au_validate_mapping h value ''autonomy_session_genesis.schema.json'' ''AutonomySessionGenesis'') (\<lambda>genesis.
     rbind (session_ids_ok genesis [''session_id'', ''book_id'', ''plan_id'', ''arc_plan_id'']) (\<lambda>_.
     rbind (session_digests_ok genesis [''genesis_hash'', ''plan_hash'', ''initial_arc_plan_hash'']) (\<lambda>_.
     rbind (on_item genesis ''source_snapshot'' (validate_source_snapshot h)) (\<lambda>_.
     rbind (au_canonical_hash h [''genesis_hash''] (JObj genesis)) (\<lambda>expected.
     if dget genesis ''genesis_hash'' \<noteq> JStr expected
     then session_error ''autonomy_session_genesis_hash_mismatch'' ''session genesis was modified''
     else Inr genesis)))))"

text \<open>The arc plan comes validated: its goals are Chinese texts, which the strings of this model do not have.\<close>

definition build_session_genesis :: "host \<Rightarrow> string \<Rightarrow> json \<Rightarrow> json \<Rightarrow> dict \<Rightarrow> json \<Rightarrow> dict res" where
  "build_session_genesis h now session_id instruction_plan arc created_at =
     rbind (validate_instruction_plan h instruction_plan None None) (\<lambda>plan.
     if dget arc ''instruction_plan_hash'' \<noteq> dget plan ''plan_hash''
     then session_error ''autonomy_session_arc_mismatch'' ''RunArcPlan belongs to another InstructionPlan''
     else rbind (safe_id ''session_id'' session_id) (\<lambda>session.
     let genesis = [(''schema_version'', JStr ''1.0''), (''session_id'', JStr session),
           (''book_id'', dget (obj_at plan ''source_snapshot'') ''book_id''), (''plan_id'', dget plan ''plan_id''),
           (''plan_hash'', dget plan ''plan_hash''), (''arc_plan_id'', dget arc ''arc_plan_id''),
           (''initial_arc_plan_hash'', dget arc ''arc_plan_hash''), (''source_snapshot'', dget plan ''source_snapshot''),
           (''created_at'', py_or created_at (JStr now))]
     in rbind (au_canonical_hash h [''genesis_hash''] (JObj genesis)) (\<lambda>digest.
        validate_session_genesis h (JObj (dset ''genesis_hash'' (JStr digest) genesis)))))"

section \<open>Events\<close>

definition validate_session_event :: "host \<Rightarrow> json \<Rightarrow> dict res" where
  "validate_session_event h value =
     rbind (au_validate_mapping h value ''autonomy_session_event.schema.json'' ''AutonomySessionEvent'') (\<lambda>event.
     rbind (session_ids_ok event [''session_id'', ''book_id'', ''plan_id'']) (\<lambda>_.
     rbind (session_digests_ok event [''event_hash'', ''plan_hash'', ''genesis_hash'']) (\<lambda>_.
     rbind (on_item event ''previous_event_hash'' (au_optional_sha256 ''previous_event_hash'')) (\<lambda>_.
     rbind (on_item event ''sequence'' (au_int_from ''sequence'' 1)) (\<lambda>_.
     rbind (au_canonical_hash h [''event_hash''] (JObj event)) (\<lambda>expected.
     if dget event ''event_hash'' \<noteq> JStr expected
     then session_error ''autonomy_session_event_hash_mismatch'' ''session event was modified''
     else Inr event))))))"

definition event_scope_fields :: "string list" where
  "event_scope_fields = [''session_id'', ''book_id'', ''plan_id'', ''plan_hash'', ''genesis_hash'']"

definition event_body :: "host \<Rightarrow> string \<Rightarrow> dict \<Rightarrow> json \<Rightarrow> string \<Rightarrow> json \<Rightarrow> json \<Rightarrow> json \<Rightarrow> dict res" where
  "event_body h now genesis sequence event_type previous_event_hash reason recorded_at =
     rbind (validate_session_genesis h (JObj genesis)) (\<lambda>origin.
     rbind (au_int_from ''sequence'' 1 sequence) (\<lambda>number.
     rbind (au_optional_sha256 ''previous_event_hash'' previous_event_hash) (\<lambda>previous.
     rbind (if reason = JNull then Inr JNull else rbind (au_required_text ''reason'' reason) (\<lambda>s. Inr (JStr s))) (\<lambda>text_of_reason.
     Inr [(''schema_version'', JStr ''1.0''), (''session_id'', dget origin ''session_id''), (''book_id'', dget origin ''book_id''),
          (''plan_id'', dget origin ''plan_id''), (''plan_hash'', dget origin ''plan_hash''),
          (''genesis_hash'', dget origin ''genesis_hash''), (''sequence'', JInt number), (''event_type'', JStr event_type),
          (''previous_event_hash'', previous), (''reason'', text_of_reason),
          (''recorded_at'', py_or recorded_at (JStr now))]))))"

definition build_session_event :: "host \<Rightarrow> string \<Rightarrow> dict \<Rightarrow> json \<Rightarrow> string \<Rightarrow> json \<Rightarrow> json \<Rightarrow> json \<Rightarrow> dict res" where
  "build_session_event h now genesis sequence event_type previous_event_hash reason recorded_at =
     rbind (event_body h now genesis sequence event_type previous_event_hash reason recorded_at) (\<lambda>event.
     rbind (au_canonical_hash h [''event_hash''] (JObj event)) (\<lambda>digest.
     validate_session_event h (JObj (dset ''event_hash'' (JStr digest) event))))"

section \<open>The automaton\<close>

definition state_after :: "(string \<times> string) list" where
  "state_after = [(''started'', ''active''), (''resumed'', ''active''), (''cancelled'', ''cancelled''),
     (''abandoned'', ''abandoned''), (''completed'', ''completed'')]"

definition allowed_events :: "(string \<times> string list) list" where
  "allowed_events = [(''active'', [''cancelled'', ''abandoned'', ''completed'']), (''cancelled'', [''resumed'', ''abandoned'']),
     (''abandoned'', []), (''completed'', [])]"

definition event_type_of :: "host \<Rightarrow> dict \<Rightarrow> string" where
  "event_type_of h event = py_str h (dget event ''event_type'')"

text \<open>Of a log that is not empty.\<close>

definition state_from_events :: "host \<Rightarrow> dict list \<Rightarrow> string res" where
  "state_from_events h events =
     (case map_of state_after (event_type_of h (last events)) of
        Some state \<Rightarrow> Inr state
      | None \<Rightarrow> Inl (KeyError (event_type_of h (last events))))"

definition assert_transition :: "host \<Rightarrow> dict list \<Rightarrow> json \<Rightarrow> unit res" where
  "assert_transition h events event_type =
     (if events = []
      then (if event_type \<noteq> JStr ''started''
            then session_error ''autonomy_session_transition_invalid'' ''first event must be started'' else Inr ())
      else rbind (state_from_events h events) (\<lambda>state.
           case map_of allowed_events state of
             None \<Rightarrow> Inl (KeyError state)
           | Some allowed \<Rightarrow>
               if event_type \<notin> JStr ` set allowed
               then session_error ''autonomy_session_transition_invalid''
                      (''cannot apply '' @ py_str h event_type @ '' while session is '' @ state)
               else Inr ()))"

section \<open>The directory of a session\<close>

record session_dir =
  sn_files :: files
  sn_events :: files

definition load_genesis :: "host \<Rightarrow> session_dir \<Rightarrow> dict res" where
  "load_genesis h dir = rbind (load_named ''genesis.json'' (sn_files dir)) (\<lambda>d. validate_session_genesis h (JObj d))"

definition load_plan :: "host \<Rightarrow> session_dir \<Rightarrow> dict res" where
  "load_plan h dir =
     rbind (load_named ''instruction_plan.json'' (sn_files dir)) (\<lambda>d. validate_instruction_plan h (JObj d) None None)"

definition last_event_hash :: "dict list \<Rightarrow> json" where
  "last_event_hash events = (if events = [] then JNull else dget (last events) ''event_hash'')"

definition check_event_scope :: "dict \<Rightarrow> dict \<Rightarrow> unit res" where
  "check_event_scope genesis event =
     rcheck (\<lambda>field. if dget event field \<noteq> dget genesis field
                     then session_error ''autonomy_session_event_scope_mismatch'' (''session event changed '' @ field)
                     else Inr ()) event_scope_fields"

definition log_step :: "host \<Rightarrow> dict \<Rightarrow> string \<times> file_doc \<Rightarrow> dict list \<Rightarrow> dict list res" where
  "log_step h genesis file events =
     (let sequence = int (length events) + 1 in
      if \<not> starts_with (show_padded 6 sequence @ ''-'') (fst file)
      then session_error ''autonomy_session_event_sequence_broken'' ''session event sequence skipped''
      else rbind (load_json_object (fst file) (snd file)) (\<lambda>d.
           rbind (validate_session_event h (JObj d)) (\<lambda>event.
           if dget event ''sequence'' \<noteq> JInt sequence \<or> dget event ''previous_event_hash'' \<noteq> last_event_hash events
           then session_error ''autonomy_session_event_chain_broken'' ''session event chain was modified''
           else rbind (check_event_scope genesis event) (\<lambda>_.
                rbind (assert_transition h events (dget event ''event_type'')) (\<lambda>_.
                Inr (events @ [event]))))))"

definition event_log :: "host \<Rightarrow> dict \<Rightarrow> files \<Rightarrow> dict list res" where
  "event_log h genesis fs = rfold (log_step h genesis) (numbered_files 6 fs) []"

definition load_events :: "host \<Rightarrow> bool \<Rightarrow> session_dir \<Rightarrow> dict list res" where
  "load_events h allow_empty dir =
     rbind (load_genesis h dir) (\<lambda>genesis.
     rbind (event_log h genesis (sn_events dir)) (\<lambda>events.
     if events = [] \<and> \<not> allow_empty
     then session_error ''autonomy_session_event_missing'' ''session has no started event''
     else Inr events))"

definition event_name :: "int \<Rightarrow> string \<Rightarrow> string" where
  "event_name sequence digest = show_padded 6 sequence @ ''-'' @ take 20 digest @ ''.json''"

definition append_event :: "host \<Rightarrow> string \<Rightarrow> string \<Rightarrow> json \<Rightarrow> json \<Rightarrow> session_dir \<Rightarrow> (dict \<times> session_dir) res" where
  "append_event h now event_type reason recorded_at dir =
     rbind (load_genesis h dir) (\<lambda>genesis.
     rbind (load_events h True dir) (\<lambda>events.
     rbind (assert_transition h events (JStr event_type)) (\<lambda>_.
     rbind (build_session_event h now genesis (JInt (int (length events) + 1)) event_type (last_event_hash events)
              reason recorded_at) (\<lambda>event.
     rbind (atomic_append_json (event_name (int (length events) + 1) (doc_text event ''event_hash'')) event (sn_events dir)) (\<lambda>fs.
     Inr (event, dir\<lparr>sn_events := fs\<rparr>))))))"

definition session_started_at :: "host \<Rightarrow> session_dir \<Rightarrow> string res" where
  "session_started_at h dir =
     rbind (load_events h False dir) (\<lambda>events. Inr (py_str h (dget (hd events) ''recorded_at'')))"

section \<open>Loaded logs\<close>

text \<open>The transitions of a session, and the runs of the automaton.\<close>

inductive session_step :: "string \<Rightarrow> string \<Rightarrow> string \<Rightarrow> bool" where
  cancel: "session_step ''active'' ''cancelled'' ''cancelled''"
| abandon: "session_step ''active'' ''abandoned'' ''abandoned''"
| complete: "session_step ''active'' ''completed'' ''completed''"
| resume: "session_step ''cancelled'' ''resumed'' ''active''"
| abandon_cancelled: "session_step ''cancelled'' ''abandoned'' ''abandoned''"

inductive_simps step_from_active: "session_step ''active'' e s"
inductive_simps step_from_cancelled: "session_step ''cancelled'' e s"
inductive_simps step_from_abandoned: "session_step ''abandoned'' e s"
inductive_simps step_from_completed: "session_step ''completed'' e s"

lemmas step_from = step_from_active step_from_cancelled step_from_abandoned step_from_completed

inductive session_run :: "string list \<Rightarrow> string \<Rightarrow> bool" where
  start: "session_run [''started''] ''active''"
| step: "session_run es s \<Longrightarrow> session_step s e t \<Longrightarrow> session_run (es @ [e]) t"

inductive_cases session_runE: "session_run es s"

text \<open>A final event is the last one.\<close>

lemma step_state:
  assumes "session_step s e t"
  shows "s \<in> {''active'', ''cancelled''}" and "t \<in> {''active'', ''cancelled'', ''abandoned'', ''completed''}"
    and "map_of state_after e = Some t"
  using assms by (cases; simp add: state_after_def)+

lemma run_state:
  assumes "session_run es s"
  shows "s \<in> {''active'', ''cancelled'', ''abandoned'', ''completed''}" and "map_of state_after (last es) = Some s" and "es \<noteq> []"
proof -
  have "s \<in> {''active'', ''cancelled'', ''abandoned'', ''completed''} \<and> map_of state_after (last es) = Some s \<and> es \<noteq> []"
    using assms
  proof cases
    case start
    then show ?thesis by (simp add: state_after_def)
  next
    case (step es' s' e)
    from step(1) step_state(2,3) [OF step(3)] show ?thesis by simp
  qed
  then show "s \<in> {''active'', ''cancelled'', ''abandoned'', ''completed''}" "map_of state_after (last es) = Some s" "es \<noteq> []"
    by simp_all
qed

lemma final_event_state: "e \<in> {''abandoned'', ''completed''} \<Longrightarrow> map_of state_after e = Some s \<Longrightarrow> s = e"
  by (auto simp: state_after_def)

lemma final_is_last:
  "session_run es s \<Longrightarrow> i < length es \<Longrightarrow> es ! i \<in> {''abandoned'', ''completed''} \<Longrightarrow> Suc i = length es"
proof (induction arbitrary: i rule: session_run.induct)
  case (step es s e t)
  show ?case
  proof (cases "i < length es")
    case True
    with step have i: "Suc i = length es" "es ! i \<in> {''abandoned'', ''completed''}" by (simp_all add: nth_append)
    have "last es = es ! i" using i(1) last_conv_nth [of es] by (metis Suc_diff_1 diff_Suc_1 length_greater_0_conv nat.distinct(1) list.size(3))
    with i(2) run_state(2) [OF step.hyps(1)] have "s \<in> {''abandoned'', ''completed''}" using final_event_state by metis
    with step_state(1) [OF step.hyps(2)] show ?thesis by auto
  qed (use step.prems in simp)
qed simp

interpretation session_event: hash_chain h "''event_hash''" True "\<lambda>v. rbind (validate_session_event h v) (\<lambda>d. Inr (JObj d))"
    "''previous_event_hash''" for h
  by unfold_locales
     (auto simp: validate_session_event_def rbind_eq_Inr au_validate_mapping_Inr au_canonical_hash_def dropped_def
        environment_field_names_def dget_eq_JStr split: if_splits)

lemma validate_session_event_id: "validate_session_event h v = Inr e \<Longrightarrow> v = JObj e"
  by (auto simp: validate_session_event_def rbind_eq_Inr au_validate_mapping_Inr split: if_splits)

lemma assert_transition_step:
  assumes "session_run (map (event_type_of h) events) s"
  shows "state_from_events h events = Inr s" and "assert_transition h events v = Inr () \<longleftrightarrow> (\<exists>e t. v = JStr e \<and> session_step s e t)"
proof -
  from run_state(3) [OF assms] have ne: "events \<noteq> []" by simp
  with run_state(2) [OF assms] show state: "state_from_events h events = Inr s"
    by (simp add: state_from_events_def last_map)
  consider "s = ''active''" | "s = ''cancelled''" | "s = ''abandoned''" | "s = ''completed''"
    using run_state(1) [OF assms] by auto
  then show "assert_transition h events v = Inr () \<longleftrightarrow> (\<exists>e t. v = JStr e \<and> session_step s e t)"
    by cases (auto simp: assert_transition_def ne state allowed_events_def step_from)
qed

lemma assert_first: "assert_transition h [] v = Inr () \<longleftrightarrow> v = JStr ''started''"
  by (simp add: assert_transition_def)

text \<open>A log that \<open>load_events\<close> accepts.\<close>

definition session_log :: "host \<Rightarrow> dict \<Rightarrow> dict list \<Rightarrow> bool" where
  "session_log h genesis events \<longleftrightarrow>
     linked (\<lambda>v. rbind (validate_session_event h v) (\<lambda>d. Inr (JObj d))) ''event_hash'' ''previous_event_hash'' JNull (map JObj events) \<and>
     (\<forall>e \<in> set events. check_event_scope genesis e = Inr ()) \<and>
     (\<forall>i < length events. dget (events ! i) ''sequence'' = JInt (int i + 1)) \<and>
     (events = [] \<or> (\<exists>s. session_run (map (event_type_of h) events) s))"

lemma log_step_Inr:
  "log_step h genesis f events = Inr events' \<longleftrightarrow> (\<exists>e.
     starts_with (show_padded 6 (int (length events) + 1) @ ''-'') (fst f) \<and> snd f = Doc (JObj e) \<and>
     validate_session_event h (JObj e) = Inr e \<and> dget e ''sequence'' = JInt (int (length events) + 1) \<and>
     dget e ''previous_event_hash'' = last_event_hash events \<and> check_event_scope genesis e = Inr () \<and>
     assert_transition h events (dget e ''event_type'') = Inr () \<and> events' = events @ [e])"
  by (auto simp: log_step_def Let_def rbind_eq_Inr load_json_object_Inr dest: validate_session_event_id split: if_splits)

lemma session_log_snoc:
  assumes log: "session_log h genesis events" and e: "validate_session_event h (JObj e) = Inr e"
    "dget e ''sequence'' = JInt (int (length events) + 1)" "dget e ''previous_event_hash'' = last_event_hash events"
    "check_event_scope genesis e = Inr ()" "assert_transition h events (dget e ''event_type'') = Inr ()"
  shows "session_log h genesis (events @ [e])"
proof -
  have "last_event_hash events = head_hash ''event_hash'' JNull (map JObj events)"
    by (cases events rule: rev_cases) (simp_all add: last_event_hash_def)
  with log e have "linked (\<lambda>v. rbind (validate_session_event h v) (\<lambda>d. Inr (JObj d))) ''event_hash'' ''previous_event_hash'' JNull
      (map JObj (events @ [e]))" by (simp add: session_log_def linked_append)
  moreover have "\<exists>s. session_run (map (event_type_of h) (events @ [e])) s"
  proof (cases "events = []")
    case True
    with e(5) show ?thesis by (auto simp: assert_first event_type_of_def intro: session_run.start)
  next
    case False
    with log obtain s where s: "session_run (map (event_type_of h) events) s" by (auto simp: session_log_def)
    with e(5) obtain x t where "dget e ''event_type'' = JStr x" "session_step s x t" by (auto simp: assert_transition_step(2) [OF s])
    with session_run.step [OF s] show ?thesis by (auto simp: event_type_of_def)
  qed
  ultimately show ?thesis using log e by (auto simp: session_log_def nth_append less_Suc_eq)
qed

lemma loaded_log:
  assumes "rfold (log_step h genesis) fs [] = Inr events"
  shows "session_log h genesis events" and "length events = length fs"
    and "i < length fs \<Longrightarrow> starts_with (show_padded 6 (int i + 1) @ ''-'') (fst (fs ! i))"
proof -
  have "session_log h genesis events \<and> length events = length fs \<and>
      (\<forall>i < length fs. starts_with (show_padded 6 (int i + 1) @ ''-'') (fst (fs ! i)))"
    using assms
  proof (induction fs arbitrary: events rule: rev_induct)
    case Nil
    then show ?case by (simp add: session_log_def)
  next
    case (snoc f fs)
    then obtain b where b: "rfold (log_step h genesis) fs [] = Inr b" and s: "log_step h genesis f b = Inr events"
      by (auto simp: rfold_snoc)
    from snoc.IH [OF b] s show ?case by (auto simp: log_step_Inr nth_append less_Suc_eq intro: session_log_snoc)
  qed
  then show "session_log h genesis events" "length events = length fs"
    "i < length fs \<Longrightarrow> starts_with (show_padded 6 (int i + 1) @ ''-'') (fst (fs ! i))" by auto
qed

lemma load_events_Inr:
  "load_events h allow_empty dir = Inr events \<longleftrightarrow> (\<exists>genesis.
     load_genesis h dir = Inr genesis \<and> event_log h genesis (sn_events dir) = Inr events \<and> (events = [] \<longrightarrow> allow_empty))"
  by (auto simp: load_events_def rbind_eq_Inr)

text \<open>
  C15: the events of a session are a run of its automaton. What \<open>load_events\<close> accepts is a linked log
  from \<open>started\<close> on in which every event is a transition from the state before, and the
  state it reports is the one the run ends in.
\<close>

theorem session_log_is_a_run:
  assumes "load_events h False dir = Inr events"
  shows "\<exists>s. session_run (map (event_type_of h) events) s \<and> state_from_events h events = Inr s"
proof -
  from assms obtain genesis where "event_log h genesis (sn_events dir) = Inr events" and ne: "events \<noteq> []"
    by (auto simp: load_events_Inr)
  from loaded_log(1) [OF this(1) [unfolded event_log_def]] ne obtain s where "session_run (map (event_type_of h) events) s"
    by (auto simp: session_log_def)
  with assert_transition_step(1) [OF this] show ?thesis by blast
qed

text \<open>
  An abandoned or completed session is final. Nothing can be appended to its log.
\<close>

lemma terminal_session_is_final:
  assumes "load_events h True dir = Inr events" and "events \<noteq> []" and "state_from_events h events = Inr s"
    and "s \<in> {''abandoned'', ''completed''}"
  shows "\<exists>e. append_event h now event_type reason recorded_at dir = Inl e"
proof -
  from assms(1) obtain genesis where g: "load_genesis h dir = Inr genesis" and "event_log h genesis (sn_events dir) = Inr events"
    by (auto simp: load_events_Inr)
  from loaded_log(1) [OF this(2) [unfolded event_log_def]] assms(2) obtain t where r: "session_run (map (event_type_of h) events) t"
    by (auto simp: session_log_def)
  from assert_transition_step(1) [OF r] assms(3) have "t = s" by simp
  with assert_transition_step(2) [OF r, of "JStr event_type"] assms(4) have "assert_transition h events (JStr event_type) \<noteq> Inr ()"
    by (auto simp: step_from)
  then obtain e where "assert_transition h events (JStr event_type) = Inl e"
    by (cases "assert_transition h events (JStr event_type)") auto
  with g assms(1) show ?thesis by (simp add: append_event_def)
qed

lemma built_event:
  assumes "build_session_event h now genesis n t p reason at_time = Inr e"
  shows "validate_session_event h (JObj e) = Inr e" and "dget e ''sequence'' = n" and "dget e ''event_type'' = JStr t"
    and "dget e ''previous_event_hash'' = p" and "check_event_scope genesis e = Inr ()"
proof -
  from assms obtain b x where b: "event_body h now genesis n t p reason at_time = Inr b"
    and v: "validate_session_event h (JObj (dset ''event_hash'' (JStr x) b)) = Inr e"
    by (auto simp: build_session_event_def rbind_eq_Inr)
  from validate_session_event_id [OF v] have e: "e = dset ''event_hash'' (JStr x) b" by simp
  from v show "validate_session_event h (JObj e) = Inr e" by (simp add: e)
  have id: "validate_session_genesis h (JObj genesis) = Inr origin \<Longrightarrow> origin = genesis" for origin
    by (auto simp: validate_session_genesis_def rbind_eq_Inr au_validate_mapping_Inr split: if_splits)
  from b show "dget e ''sequence'' = n" "dget e ''event_type'' = JStr t" "dget e ''previous_event_hash'' = p"
    "check_event_scope genesis e = Inr ()"
    by (auto simp: e event_body_def rbind_eq_Inr dget_Cons au_int_from_Inr au_optional_sha256_Inr check_event_scope_def
        event_scope_fields_def dest!: id)
qed

text \<open>
  C17: an event that is appended is the last one that is loaded, and nothing else of the session changes.
\<close>

theorem appended_event_loads_last:
  assumes ev: "load_events h True dir = Inr events" and len: "length events < 999999"
    and app: "append_event h now event_type reason recorded_at dir = Inr (e, dir')"
  shows "load_events h False dir' = Inr (events @ [e]) \<and> sn_files dir' = sn_files dir"
proof -
  from ev obtain genesis where g: "load_genesis h dir = Inr genesis" and log: "event_log h genesis (sn_events dir) = Inr events"
    by (auto simp: load_events_Inr)
  let ?new = "event_name (int (length events) + 1) (doc_text e ''event_hash'')"
  from app g ev obtain fs where t: "assert_transition h events (JStr event_type) = Inr ()"
    and b: "build_session_event h now genesis (JInt (int (length events) + 1)) event_type (last_event_hash events) reason recorded_at = Inr e"
    and fs: "atomic_append_json ?new e (sn_events dir) = Inr fs" and d': "dir' = dir\<lparr>sn_events := fs\<rparr>"
    by (auto simp: append_event_def rbind_eq_Inr)
  note l = loaded_log [OF log [unfolded event_log_def]]
  from l(3) have cnt: "counted 6 (sn_events dir)" by (simp add: counted_def)
  have name: "?new = show_padded 6 (int (length (numbered_files 6 (sn_events dir))) + 1) @
      CHR ''-'' # (take 20 (doc_text e ''event_hash'') @ ''.json'')" by (simp add: event_name_def l(2))
  have new: "numbered_files 6 (sn_events dir @ [(?new, Doc (JObj e))]) = numbered_files 6 (sn_events dir) @ [(?new, Doc (JObj e))]"
    by (rule numbered_files_snoc(1) [OF cnt _ _ name]) (use l(2) len in \<open>simp_all add: ends_with_def\<close>)
  have "map_of (sn_events dir) ?new = None"
    by (rule numbered_files_snoc(2) [OF cnt _ _ name]) (use l(2) len in \<open>simp_all add: ends_with_def\<close>)
  with fs have fs': "fs = sn_events dir @ [(?new, Doc (JObj e))]" by (simp add: append_new)
  have "log_step h genesis (?new, Doc (JObj e)) events = Inr (events @ [e])"
    using built_event [OF b] t by (simp add: log_step_Inr event_name_def starts_with_def)
  with log have "event_log h genesis fs = Inr (events @ [e])" by (simp add: event_log_def fs' new rfold_last)
  with g show ?thesis by (simp add: load_events_Inr d' load_genesis_def)
qed

section \<open>An example\<close>

text \<open>A host on which no pattern matches.\<close>

definition quiet_host :: host where
  "quiet_host = example_host\<lparr>re_search := \<lambda>p s. False\<rparr>"

definition example_plan_id :: string where
  "example_plan_id = plan_id_for zero_digest"

definition example_instruction_plan :: dict where
  "example_instruction_plan =
     [(''schema_version'', JStr ''1.0''), (''plan_id'', JStr example_plan_id), (''plan_hash'', JStr zero_digest),
      (''instruction_digest'', JStr zero_digest), (''profile_set_id'', JStr ''set''), (''profile_set_hash'', JStr zero_digest),
      (''source_snapshot'', JObj (example_snapshot 3)), (''requested_chapter_count'', JInt 3), (''chapter_start'', JInt 3),
      (''chapter_end'', JInt 5),
      (''selections'', JObj [(''provider_model'', JObj [(''max_output_tokens'', JInt 6000)])])]"

definition example_genesis :: dict where
  "example_genesis =
     [(''schema_version'', JStr ''1.0''), (''session_id'', JStr ''s''), (''book_id'', JStr ''b''), (''plan_id'', JStr example_plan_id),
      (''plan_hash'', JStr zero_digest), (''arc_plan_id'', JStr ''a''), (''initial_arc_plan_hash'', JStr zero_digest),
      (''source_snapshot'', JObj (example_snapshot 3)), (''created_at'', JStr ''5''), (''genesis_hash'', JStr zero_digest)]"

definition log_event :: "int \<Rightarrow> string \<Rightarrow> json \<Rightarrow> dict" where
  "log_event n event_type previous =
     [(''schema_version'', JStr ''1.0''), (''session_id'', JStr ''s''), (''book_id'', JStr ''b''), (''plan_id'', JStr example_plan_id),
      (''plan_hash'', JStr zero_digest), (''genesis_hash'', JStr zero_digest), (''sequence'', JInt n),
      (''event_type'', JStr event_type), (''previous_event_hash'', previous), (''reason'', JNull), (''recorded_at'', JStr ''6''),
      (''event_hash'', JStr zero_digest)]"

definition started_event :: dict where
  "started_event = log_event 1 ''started'' JNull"

definition abandoned_event :: dict where
  "abandoned_event = log_event 2 ''abandoned'' (JStr zero_digest)"

definition session_with :: "dict list \<Rightarrow> session_dir" where
  "session_with events =
     \<lparr>sn_files = [(''genesis.json'', Doc (JObj example_genesis)), (''instruction_plan.json'', Doc (JObj example_instruction_plan))],
      sn_events = map (\<lambda>e. (event_name (int_at e ''sequence'') zero_digest, Doc (JObj e))) events\<rparr>"

lemma example_loads:
  "load_events quiet_host False (session_with [started_event]) = Inr [started_event]"
  "load_events quiet_host True (session_with [started_event]) = Inr [started_event]"
  "load_events quiet_host True (session_with [started_event, abandoned_event]) = Inr [started_event, abandoned_event]"
  by code_simp+

lemma example_session_parts:
  "load_genesis quiet_host (session_with [started_event]) = Inr example_genesis"
  "load_plan quiet_host (session_with [started_event]) = Inr example_instruction_plan"
  by code_simp+

lemma example_appended: "append_event quiet_host ''6'' ''abandoned'' JNull JNull (session_with [started_event]) =
    Inr (abandoned_event, session_with [started_event, abandoned_event])"
  by code_simp

theorem session_log_is_a_run_witness:
  "\<exists>s. session_run [''started''] s \<and> state_from_events quiet_host [started_event] = Inr s"
proof -
  have "map (event_type_of quiet_host) [started_event] = [''started'']" by code_simp
  then show ?thesis using session_log_is_a_run [OF example_loads(1)] by simp
qed

theorem terminal_session_is_final_witness:
  "\<exists>e. append_event quiet_host ''7'' ''resumed'' JNull JNull (session_with [started_event, abandoned_event]) = Inl e"
proof (rule terminal_session_is_final [OF example_loads(3)])
  show "state_from_events quiet_host [started_event, abandoned_event] = Inr ''abandoned''" by code_simp
qed simp_all

theorem appended_event_loads_last_witness:
  "load_events quiet_host False (session_with [started_event, abandoned_event]) = Inr [started_event, abandoned_event]"
  using appended_event_loads_last [OF example_loads(2) _ example_appended] by simp

end
