(* ===== verification/Session_Status.thy ===== *)
theory Session_Status
  imports Session_Events
begin

text \<open>
  The status of a book session, \<open>_status_unreconciled\<close> of \<open>core/autonomy/session.py\<close>: a view that is rebuilt from the
  event log, the completion ledger and the lease of the book, and the contract \<open>BookRunSession\<close> of
  \<open>core/autonomy/contracts.py\<close> it is to meet. The store of arc plans is an argument.
\<close>

section \<open>The contract\<close>

abbreviation run_error :: "string \<Rightarrow> string \<Rightarrow> 'a res" where
  "run_error tag message \<equiv> Inl (BookRunContractError tag message)"

text \<open>The schema makes the chapters integers.\<close>

definition int_list :: "json \<Rightarrow> int list res" where
  "int_list v = (case v of
      JList vs \<Rightarrow> rmap (\<lambda>x. case x of JInt i \<Rightarrow> Inr i | _ \<Rightarrow> Inl TypeError) vs
    | _ \<Rightarrow> Inl TypeError)"

definition session_fields_ok :: "dict \<Rightarrow> unit res" where
  "session_fields_ok session =
     rbind (session_ids_ok session [''session_id'', ''book_id'', ''plan_id'', ''arc_plan_id'']) (\<lambda>_.
     rbind (session_digests_ok session [''plan_hash'', ''arc_plan_hash'', ''last_event_hash'', ''expected_source_snapshot_hash'']) (\<lambda>_.
     rbind (on_item session ''lease_hash'' (au_optional_sha256 ''lease_hash'')) (\<lambda>_.
     rbind (on_item session ''last_completion_receipt_hash'' (au_optional_sha256 ''last_completion_receipt_hash'')) (\<lambda>_.
     Inr ()))))"

definition chapters_ok :: "dict \<Rightarrow> int \<Rightarrow> int \<Rightarrow> unit res" where
  "chapters_ok session completed canonical_next =
     rbind (ditem session ''completed_chapters'') (\<lambda>v.
     rbind (int_list v) (\<lambda>chapters.
     if canonical_next - completed < 1 \<or> chapters \<noteq> [canonical_next - completed..canonical_next - 1]
     then run_error ''book_run_session_chapter_chain_invalid''
            ''completed chapters must be one contiguous range ending before canonical next''
     else rbind (ditem session ''last_completion_receipt_hash'') (\<lambda>completion_hash.
     if (completed = 0) \<noteq> (completion_hash = JNull)
     then run_error ''book_run_session_completion_evidence_invalid''
            ''last completion receipt presence must match the rebuilt completion count''
     else rbind (ditem session ''delivery_blocked_chapters'') (\<lambda>w.
     rbind (int_list w) (\<lambda>blocked.
     rbind (ditem session ''delivery_blocked'') (\<lambda>flag.
     if \<not> distinct blocked \<or> blocked \<noteq> sort blocked \<or> \<not> set blocked \<subseteq> set chapters \<or> \<not> py_eq flag (JBool (blocked \<noteq> []))
     then run_error ''book_run_session_delivery_state_invalid''
            ''delivery-blocked chapters must be a sorted subset of completed chapters''
     else Inr ()))))))"

definition flags_ok :: "dict \<Rightarrow> int \<Rightarrow> int \<Rightarrow> unit res" where
  "flags_ok session completed requested =
     rbind (ditem session ''state'') (\<lambda>state.
     rbind (ditem session ''finalization_required'') (\<lambda>finalization.
     let blocked = truthy (dget session ''delivery_blocked'') in
     if \<not> py_eq finalization (JBool (state = JStr ''active'' \<and> completed = requested \<and> \<not> blocked))
     then run_error ''book_run_session_finalization_invalid'' ''finalization flag does not match receipt-derived progress''
     else rbind (ditem session ''root_remap_blocked'') (\<lambda>remap.
     rbind (if state = JStr ''active'' then Inr (JBool True) else ditem session ''lease_held'') (\<lambda>expected.
     if \<not> py_eq remap expected
     then run_error ''book_run_session_root_remap_invalid'' ''root remap flag does not match session/lease state''
     else if state = JStr ''completed'' \<and> (completed \<noteq> requested \<or> blocked)
     then run_error ''book_run_session_terminal_invalid''
            ''completed sessions require every requested receipt and resolved delivery''
     else Inr ()))))"

definition validate_book_run_session :: "host \<Rightarrow> json \<Rightarrow> dict res" where
  "validate_book_run_session h value =
     rbind (au_validate_mapping h value ''book_run_session.schema.json'' ''BookRunSession'') (\<lambda>session.
     rbind (session_fields_ok session) (\<lambda>_.
     rbind (on_item session ''event_count'' (au_int_from ''event_count'' 1)) (\<lambda>event_count.
     rbind (on_item session ''requested_chapter_count'' (au_int_from ''requested_chapter_count'' 1)) (\<lambda>requested.
     rbind (on_item session ''completed_count'' (au_int_from ''completed_count'' 0)) (\<lambda>completed.
     rbind (on_item session ''canonical_next_chapter'' (au_int_from ''canonical_next_chapter'' 1)) (\<lambda>canonical_next.
     if event_count < 1 \<or> completed > requested
     then run_error ''book_run_session_count_invalid'' ''session event/completion counts are inconsistent with the plan''
     else rbind (chapters_ok session completed canonical_next) (\<lambda>_.
          rbind (flags_ok session completed requested) (\<lambda>_. Inr session))))))))"

section \<open>The root of the autonomous runs\<close>

text \<open>The directories under the root, and what the constructor of the session store is given.\<close>

record autonomy_root =
  ar_sessions :: "(string \<times> session_dir) list"
  ar_latest :: "file_doc option"
  ar_index :: files
  ar_previews :: files
  ar_journal :: "(string \<times> files) list"
  ar_leases :: lease_store
  ar_stages :: stage_store
  ar_completions :: "string \<Rightarrow> completion_dir"

record store_env =
  se_profiles :: "dict option"
  se_publications :: publication_verifier
  se_deliveries :: "(dict \<Rightarrow> string + bool) option"
  se_arc :: "string \<Rightarrow> dict res"
  se_create_arc :: "dict \<Rightarrow> string \<Rightarrow> json \<Rightarrow> dict res"

definition session_at :: "autonomy_root \<Rightarrow> string \<Rightarrow> session_dir" where
  "session_at st session_id =
     (case map_of (ar_sessions st) session_id of Some d \<Rightarrow> d | None \<Rightarrow> \<lparr>sn_files = [], sn_events = []\<rparr>)"

definition plan_index_name :: "json \<Rightarrow> string res" where
  "plan_index_name plan_hash =
     rbind (au_sha256 ''plan_hash'' plan_hash) (\<lambda>digest.
     Inr (json_name (take 20 (case digest of JStr x \<Rightarrow> x | _ \<Rightarrow> []))))"

section \<open>Which session\<close>

definition session_pointer :: "string \<Rightarrow> dict \<Rightarrow> dict" where
  "session_pointer session_id genesis =
     [(''schema_version'', JStr ''1.0''), (''session_id'', JStr session_id), (''genesis_hash'', dget genesis ''genesis_hash'')]"

definition index_entry :: "string \<Rightarrow> dict \<Rightarrow> dict" where
  "index_entry session_id genesis =
     [(''schema_version'', JStr ''1.0''), (''plan_hash'', dget genesis ''plan_hash''), (''session_id'', JStr session_id),
      (''genesis_hash'', dget genesis ''genesis_hash'')]"

abbreviation latest_invalid :: "string \<Rightarrow> 'a res" where
  "latest_invalid message \<equiv> session_error ''autonomy_latest_session_invalid'' message"

definition pointer_candidate :: "host \<Rightarrow> autonomy_root \<Rightarrow> string \<times> session_dir \<Rightarrow> (string list \<times> dict) res" where
  "pointer_candidate h st item =
     rbind (safe_id ''session_id'' (JStr (fst item))) (\<lambda>session_id.
     rbind (load_genesis h (snd item)) (\<lambda>genesis.
     if dget genesis ''session_id'' \<noteq> JStr session_id
     then latest_invalid ''session directory name does not match immutable genesis''
     else rbind (load_plan h (snd item)) (\<lambda>plan.
     if dget plan ''plan_hash'' \<noteq> dget genesis ''plan_hash'' \<or> dget plan ''plan_id'' \<noteq> dget genesis ''plan_id'' \<or>
        \<not> py_eq (dget plan ''source_snapshot'') (dget genesis ''source_snapshot'')
     then latest_invalid ''session plan does not match immutable genesis''
     else rbind (load_events h False (snd item)) (\<lambda>events.
     if dget (hd events) ''event_type'' \<noteq> JStr ''started''
     then latest_invalid ''session event chain does not begin with started''
     else rbind (plan_index_name (dget genesis ''plan_hash'')) (\<lambda>name.
     rbind (load_named name (ar_index st)) (\<lambda>index.
     if \<not> py_eq (JObj index) (JObj (index_entry session_id genesis))
     then latest_invalid ''session plan index does not match immutable genesis''
     else Inr ([py_str h (dget (hd events) ''recorded_at''), py_str h (dget genesis ''created_at''), session_id],
               session_pointer session_id genesis)))))))"

text \<open>\<open>max\<close> with a key: the first of the greatest.\<close>

fun latest_of :: "string list \<times> dict \<Rightarrow> (string list \<times> dict) list \<Rightarrow> dict" where
  "latest_of best [] = snd best"
| "latest_of best (c # cs) = latest_of (if fst best < fst c then c else best) cs"

definition rebuild_latest_pointer :: "host \<Rightarrow> autonomy_root \<Rightarrow> dict res \<times> autonomy_root" where
  "rebuild_latest_pointer h st =
     (case rmap (pointer_candidate h st) (sort_key fst (ar_sessions st)) of
        Inl e \<Rightarrow> (Inl e, st)
      | Inr [] \<Rightarrow> (session_error ''autonomy_latest_session_missing'' ''no durable autonomy session exists'', st)
      | Inr (c # cs) \<Rightarrow> (let latest = latest_of c cs in (Inr latest, st\<lparr>ar_latest := Some (Doc (JObj latest))\<rparr>)))"

definition resolve_session_id :: "host \<Rightarrow> json \<Rightarrow> autonomy_root \<Rightarrow> string res \<times> autonomy_root" where
  "resolve_session_id h session_id st =
     (if session_id \<notin> {JNull, JStr [], JStr ''latest''}
      then (safe_id ''session_id'' session_id, st)
      else then_do (case ar_latest st of
                      None \<Rightarrow> rebuild_latest_pointer h st
                    | Some file \<Rightarrow> (load_json_object ''latest.json'' file, st)) (\<lambda>latest st'.
           (rbind (safe_id ''session_id'' (dget latest ''session_id'')) (\<lambda>resolved.
            rbind (load_genesis h (session_at st' resolved)) (\<lambda>genesis.
            if dget latest ''genesis_hash'' \<noteq> dget genesis ''genesis_hash''
            then latest_invalid ''latest session pointer was modified''
            else Inr resolved)), st')))"

section \<open>The status\<close>

definition session_ledger :: "host \<Rightarrow> string \<Rightarrow> autonomy_root \<Rightarrow> ledger res" where
  "session_ledger h resolved st =
     rbind (load_genesis h (session_at st resolved)) (\<lambda>genesis.
     rbind (load_plan h (session_at st resolved)) (\<lambda>plan.
     open_ledger h (JObj plan) (JStr resolved) (dget genesis ''arc_plan_id'')))"

definition completion_ledger :: "host \<Rightarrow> json \<Rightarrow> autonomy_root \<Rightarrow> ledger res \<times> autonomy_root" where
  "completion_ledger h session_id st =
     then_do (resolve_session_id h session_id st) (\<lambda>resolved st'. (session_ledger h resolved st', st'))"

definition completions_of :: "host \<Rightarrow> ledger \<Rightarrow> autonomy_root \<Rightarrow> completion_dir res" where
  "completions_of h l st = rbind (ledger_directory h l) (\<lambda>key. Inr (ar_completions st key))"

definition session_summary :: "host \<Rightarrow> store_env \<Rightarrow> ledger \<Rightarrow> autonomy_root \<Rightarrow> dict res" where
  "session_summary h env l st =
     rbind (completions_of h l st) (\<lambda>dir. ledger_summary h (ar_leases st) (se_publications env) (se_deliveries env) l dir)"

definition session_expected_source :: "host \<Rightarrow> store_env \<Rightarrow> ledger \<Rightarrow> autonomy_root \<Rightarrow> dict res" where
  "session_expected_source h env l st =
     rbind (completions_of h l st) (\<lambda>dir. expected_source_snapshot h (ar_leases st) (se_publications env) l dir)"

text \<open>The lease of the book; a book without one is not an error.\<close>

definition book_lease_of :: "host \<Rightarrow> json \<Rightarrow> autonomy_root \<Rightarrow> dict option res \<times> autonomy_root" where
  "book_lease_of h book_id st =
     (case reconcile h book_id (ar_leases st) of
        (Inl (BookLeaseError tag message), leases) \<Rightarrow>
          (if tag = ''book_lease_missing'' then Inr None else Inl (BookLeaseError tag message), st\<lparr>ar_leases := leases\<rparr>)
      | (Inl e, leases) \<Rightarrow> (Inl e, st\<lparr>ar_leases := leases\<rparr>)
      | (Inr lease, leases) \<Rightarrow> (Inr lease, st\<lparr>ar_leases := leases\<rparr>))"

definition lease_is_held :: "host \<Rightarrow> string \<Rightarrow> string \<Rightarrow> dict \<Rightarrow> json \<Rightarrow> dict option \<Rightarrow> autonomy_root \<Rightarrow> bool res" where
  "lease_is_held h now resolved genesis at_time current st =
     (case current of
        None \<Rightarrow> Inr False
      | Some lease \<Rightarrow>
          if dget lease ''session_id'' = JStr resolved \<and> dget lease ''plan_id'' = dget genesis ''plan_id'' \<and>
             dget lease ''status'' = JStr ''active''
          then (case assert_held h now (dget genesis ''book_id'') (JStr resolved) (dget genesis ''plan_id'') at_time (ar_leases st) of
                  Inr _ \<Rightarrow> Inr True
                | Inl (BookLeaseError tag message) \<Rightarrow>
                    if tag \<in> {''book_lease_not_held'', ''book_lease_expired''} then Inr False
                    else Inl (BookLeaseError tag message)
                | Inl e \<Rightarrow> Inl e)
          else Inr False)"

definition profiles_current :: "host \<Rightarrow> store_env \<Rightarrow> dict \<Rightarrow> bool res" where
  "profiles_current h env plan =
     (case se_profiles env of
        None \<Rightarrow> Inr False
      | Some profiles \<Rightarrow>
          rbind (profile_set_id h profiles) (\<lambda>set_id.
          if dget plan ''profile_set_id'' \<noteq> JStr set_id then Inr False
          else rbind (profile_set_hash h profiles) (\<lambda>set_hash. Inr (dget plan ''profile_set_hash'' = JStr set_hash))))"

definition status_view ::
  "string \<Rightarrow> dict \<Rightarrow> dict \<Rightarrow> dict \<Rightarrow> string \<Rightarrow> bool \<Rightarrow> dict option \<Rightarrow> dict list \<Rightarrow> bool \<Rightarrow> dict \<Rightarrow> dict" where
  "status_view resolved genesis plan arc state held lease events current completion =
     [(''schema_version'', JStr ''1.0''), (''session_id'', JStr resolved), (''book_id'', dget genesis ''book_id''),
      (''plan_id'', dget genesis ''plan_id''), (''plan_hash'', dget genesis ''plan_hash''),
      (''arc_plan_id'', dget genesis ''arc_plan_id''), (''arc_plan_hash'', dget arc ''arc_plan_hash''),
      (''state'', JStr state), (''lease_held'', JBool held),
      (''lease_hash'', case lease of None \<Rightarrow> JNull | Some d \<Rightarrow> dget d ''lease_hash''),
      (''event_count'', JInt (int (length events))), (''last_event_hash'', last_event_hash events),
      (''requested_chapter_count'', dget plan ''requested_chapter_count''),
      (''trusted_profiles_current'', JBool current)] @ completion @
     [(''finalization_required'', JBool (state = ''active'' \<and>
         py_eq (dget completion ''completed_count'') (dget plan ''requested_chapter_count'') \<and>
         \<not> truthy (dget completion ''delivery_blocked''))),
      (''root_remap_blocked'', JBool (state = ''active'' \<or> held))]"

text \<open>What the status reads before the lease.\<close>

definition session_facts ::
  "host \<Rightarrow> store_env \<Rightarrow> string \<Rightarrow> autonomy_root \<Rightarrow> (dict \<times> dict \<times> dict list \<times> string \<times> dict \<times> dict) res" where
  "session_facts h env resolved st =
     rbind (load_genesis h (session_at st resolved)) (\<lambda>genesis.
     rbind (load_plan h (session_at st resolved)) (\<lambda>plan.
     if dget plan ''plan_hash'' \<noteq> dget genesis ''plan_hash''
     then session_error ''autonomy_session_plan_mismatch'' ''session plan does not match genesis''
     else rbind (load_events h False (session_at st resolved)) (\<lambda>events.
     rbind (state_from_events h events) (\<lambda>state.
     rbind (se_arc env (doc_text genesis ''arc_plan_id'')) (\<lambda>arc.
     rbind (session_ledger h resolved st) (\<lambda>l.
     rbind (session_summary h env l st) (\<lambda>completion.
     Inr (genesis, plan, events, state, arc, completion))))))))"

definition status_unreconciled ::
  "host \<Rightarrow> string \<Rightarrow> store_env \<Rightarrow> json \<Rightarrow> json \<Rightarrow> autonomy_root \<Rightarrow> dict res \<times> autonomy_root" where
  "status_unreconciled h now env session_id at_time st =
     then_do (resolve_session_id h session_id st) (\<lambda>resolved st.
     then_do (session_facts h env resolved st, st) (\<lambda>(genesis, plan, events, state, arc, completion) st.
     then_do (book_lease_of h (dget genesis ''book_id'') st) (\<lambda>lease st.
     (rbind (lease_is_held h now resolved genesis at_time lease st) (\<lambda>held.
      rbind (profiles_current h env plan) (\<lambda>current.
      Inr (status_view resolved genesis plan arc state held lease events current completion))), st))))"

section \<open>What the parts of a status are\<close>

lemma then_do_Inr: "then_do p f = (Inr v, s) \<longleftrightarrow> (\<exists>a t. p = (Inr a, t) \<and> f a t = (Inr v, s))"
  by (auto simp: then_do_def split: prod.splits sum.splits)

lemma session_ids_Inr: "session_ids_ok d names = Inr () \<longleftrightarrow> (\<forall>f \<in> set names. \<exists>s. map_of d f = Some (JStr s) \<and> is_safe_id s)"
  by (auto simp: session_ids_ok_def rcheck_Inr_iff on_item_eq_Inr rbind_eq_Inr safe_id_Inr)

lemma session_digests_Inr: "session_digests_ok d names = Inr () \<longleftrightarrow> (\<forall>f \<in> set names. \<exists>v. map_of d f = Some v \<and> json_sha256 v)"
  by (auto simp: session_digests_ok_def rcheck_Inr_iff on_item_eq_Inr rbind_eq_Inr au_sha256_Inr)

lemma loaded_genesis:
  assumes "load_genesis h dir = Inr genesis"
  shows "\<exists>s. dget genesis ''session_id'' = JStr s \<and> is_safe_id s" and "\<exists>s. dget genesis ''book_id'' = JStr s \<and> is_safe_id s"
    and "\<exists>s. dget genesis ''plan_id'' = JStr s \<and> is_safe_id s" and "\<exists>s. dget genesis ''arc_plan_id'' = JStr s \<and> is_safe_id s"
    and "json_sha256 (dget genesis ''plan_hash'')"
  using assms
  by (auto simp: load_genesis_def validate_session_genesis_def rbind_eq_Inr au_validate_mapping_Inr session_ids_Inr
      session_digests_Inr dget_def split: if_splits)

lemma validated_plan:
  assumes "validate_instruction_plan h v t c = Inr plan"
  shows "v = JObj plan" and "\<exists>n. dget plan ''requested_chapter_count'' = JInt n \<and> 1 \<le> n"
    and "\<exists>n. dget plan ''chapter_start'' = JInt n \<and> 1 \<le> n"
    and "\<exists>s. dget plan ''source_snapshot'' = JObj s \<and> validate_source_snapshot h (JObj s) = Inr s"
  using assms
  by (auto simp: validate_instruction_plan_def rbind_eq_Inr au_validate_mapping_Inr on_item_eq_Inr au_int_from_Inr dget_def
      validate_source_snapshot_def split: if_splits) metis

lemma validated_snapshot: "validate_source_snapshot h v = Inr s \<Longrightarrow> v = JObj s \<and> json_sha256 (dget s ''snapshot_hash'')"
  by (auto simp: validate_source_snapshot_def snapshot_fields_ok_def rbind_eq_Inr au_validate_mapping_Inr on_item_eq_Inr
      au_sha256_Inr dget_def split: if_splits)

lemma resolved_is_safe: "resolve_session_id h session_id st = (Inr r, st') \<Longrightarrow> is_safe_id r"
  by (auto simp: resolve_session_id_def then_do_Inr rbind_eq_Inr safe_id_Inr split: if_splits)

lemma last_event_is_hashed:
  assumes "load_events h False dir = Inr events"
  shows "events \<noteq> []" and "json_sha256 (last_event_hash events)"
proof -
  from assms show ne: "events \<noteq> []" by (auto simp: load_events_Inr)
  from assms obtain genesis where "event_log h genesis (sn_events dir) = Inr events" by (auto simp: load_events_Inr)
  from loaded_log(1) [OF this [unfolded event_log_def]] have
    l: "linked (\<lambda>v. rbind (validate_session_event h v) (\<lambda>d. Inr (JObj d))) ''event_hash'' ''previous_event_hash'' JNull (map JObj events)"
    by (simp add: session_log_def)
  have "JObj (last events) \<in> set (map JObj events)" using ne by simp
  with session_event.linked_record [OF l] obtain w where "validate_session_event h (JObj (last events)) = Inr w"
    by (metis (no_types, lifting) json.inject(6) rbind_eq_Inr)
  then show "json_sha256 (last_event_hash events)"
    using ne by (auto simp: last_event_hash_def validate_session_event_def rbind_eq_Inr au_validate_mapping_Inr session_digests_Inr
        dget_def split: if_splits)
qed


lemma reconciled_lease_hash:
  assumes "reconcile h book_id leases = (Inr (Some lease), leases')"
  shows "json_sha256 (dget lease ''lease_hash'')"
proof -
  from assms obtain book key dir' where "reconcile_history_head h book True (leases key) = (Inr (Some lease), dir')"
    by (auto simp: reconcile_def on_directory_def Let_def split: sum.splits prod.splits)
  then obtain chain where "validate_book_lease h (JObj lease) = Inr (JObj lease)" by (rule reconciled_head)
  from validated_lease_fields(6,7) [OF this] show ?thesis by (simp add: json_sha256_def)
qed

lemma book_lease_hash:
  "book_lease_of h book_id st = (Inr lease, st') \<Longrightarrow> digest_or_null (case lease of None \<Rightarrow> JNull | Some d \<Rightarrow> dget d ''lease_hash'')"
  by (auto simp: book_lease_of_def digest_or_null_def split: option.splits prod.splits sum.splits exn.splits if_splits
      dest: reconciled_lease_hash)

section \<open>Chapters of a ledger\<close>

abbreviation chapter_of :: "dict \<Rightarrow> int" where
  "chapter_of r \<equiv> int_at r ''chapter_index''"

lemma int_list_chapters:
  "\<forall>r \<in> set rs. \<exists>i. dget r ''chapter_index'' = JInt i \<Longrightarrow>
     int_list (JList (map (\<lambda>r. dget r ''chapter_index'') rs)) = Inr (map chapter_of rs)"
  by (induction rs) (auto simp: int_list_def int_at_def)

lemma blocked_are_filtered:
  "blocked_chapters v chain = Inr bs \<Longrightarrow> \<exists>P. bs = map (\<lambda>r. dget r ''chapter_index'') (filter P chain)"
proof -
  assume "blocked_chapters v chain = Inr bs"
  then have "bs = map (\<lambda>r. dget r ''chapter_index'')
      (filter (\<lambda>r. dget r ''status'' = JStr ''local_committed_delivery_blocked'' \<and> delivery_resolved v r = Inr False) chain)"
    by (induction chain arbitrary: bs) (auto simp: rbind_eq_Inr split: if_splits)
  then show ?thesis by blast
qed

lemma canonical_chapters:
  assumes "canonical_chain h l chain"
  shows "map chapter_of chain = [int_at (lg_plan l) ''chapter_start''..int_at (lg_plan l) ''chapter_start'' + int (length chain) - 1]"
    and "\<forall>r \<in> set chain. \<exists>i. dget r ''chapter_index'' = JInt i"
proof -
  have "dget (chain ! i) ''chapter_index'' = JInt (int_at (lg_plan l) ''chapter_start'' + int i)" if "i < length chain" for i
  proof -
    from assms that have "continues h l (take i chain) (chain ! i)" by (simp add: canonical_chain_def)
    then have "dget (chain ! i) ''chapter_index'' = JInt (int_at (lg_plan l) ''chapter_start'' + int (length (take i chain)))"
      unfolding continues_def by blast
    moreover have "length (take i chain) = i" using that by simp
    ultimately show ?thesis by (simp only:)
  qed
  then show "map chapter_of chain = [int_at (lg_plan l) ''chapter_start''..int_at (lg_plan l) ''chapter_start'' + int (length chain) - 1]"
    "\<forall>r \<in> set chain. \<exists>i. dget r ''chapter_index'' = JInt i"
    by (auto intro!: nth_equalityI simp: nth_upto int_at_def in_set_conv_nth)
qed

lemma expected_source_hash:
  assumes "canonical_chain h l chain" and "validate_source_snapshot h (JObj (plan_source l)) = Inr (plan_source l)"
  shows "json_sha256 (dget (expected_source l chain) ''snapshot_hash'')"
proof (cases chain rule: rev_cases)
  case Nil
  with validated_snapshot [OF assms(2)] show ?thesis by (simp add: expected_source_def)
next
  case (snoc rest r)
  with assms(1) have "validate_chapter_completion_receipt h (JObj r) = Inr r"
    by (simp add: canonical_chain_snoc continues_def)
  then obtain v after where "dget r ''source_snapshot_after'' = v" "validate_source_snapshot h v = Inr after"
    by (auto simp: validate_chapter_completion_receipt_def completion_source_ok_def rbind_eq_Inr on_item_eq_Inr
        au_validate_mapping_Inr dget_def split: if_splits)
  with validated_snapshot [OF this(2)] snoc show ?thesis by (simp add: expected_source_def obj_at_def)
qed

lemma last_completion_hash:
  assumes "canonical_chain h l chain"
  shows "digest_or_null (if chain = [] then JNull else dget (last chain) ''receipt_hash'')"
    and "chain \<noteq> [] \<Longrightarrow> dget (last chain) ''receipt_hash'' \<noteq> JNull"
proof -
  have "json_sha256 (dget (last chain) ''receipt_hash'')" if "chain \<noteq> []"
  proof -
    from that obtain rest r where c: "chain = rest @ [r]" by (cases chain rule: rev_cases) auto
    with assms have "validate_chapter_completion_receipt h (JObj r) = Inr r" by (simp add: canonical_chain_snoc continues_def)
    then show ?thesis
      by (auto simp: c validate_chapter_completion_receipt_def completion_fields_ok_def completion_digests_def rbind_eq_Inr
          rcheck_Inr_iff on_item_eq_Inr au_validate_mapping_Inr au_sha256_Inr dget_def)
  qed
  then show "digest_or_null (if chain = [] then JNull else dget (last chain) ''receipt_hash'')"
    "chain \<noteq> [] \<Longrightarrow> dget (last chain) ''receipt_hash'' \<noteq> JNull" by (auto simp: digest_or_null_def json_sha256_def)
qed

section \<open>The status meets its contract\<close>

text \<open>What a status has read when it is returned.\<close>

lemma status_reads:
  assumes "status_unreconciled h now env session_id at_time st = (Inr view, st')"
  obtains resolved dir plan genesis events state arc l chain blocked lease held current where
    "is_safe_id resolved" and "load_genesis h dir = Inr genesis" and "load_plan h dir = Inr plan"
    and "load_events h False dir = Inr events" and "se_arc env (doc_text genesis ''arc_plan_id'') = Inr arc"
    and "lg_plan l = plan" and "canonical_chain h l chain"
    and "blocked_chapters (se_deliveries env) chain = Inr blocked"
    and "digest_or_null (case lease of None \<Rightarrow> JNull | Some d \<Rightarrow> dget d ''lease_hash'')"
    and "view = status_view resolved genesis plan arc state held lease events current
      [(''completed_count'', JInt (int (length chain))),
       (''completed_chapters'', JList (map (\<lambda>item. dget item ''chapter_index'') chain)),
       (''canonical_next_chapter'', JInt (int_at plan ''chapter_start'' + int (length chain))),
       (''last_completion_receipt_hash'', if chain = [] then JNull else dget (last chain) ''receipt_hash''),
       (''expected_source_snapshot_hash'', dget (expected_source l chain) ''snapshot_hash''),
       (''delivery_blocked'', JBool (blocked \<noteq> [])), (''delivery_blocked_chapters'', JList blocked)]"
proof -
  from assms obtain resolved s1 genesis plan events state arc completion lease s2 held current where
    r: "resolve_session_id h session_id st = (Inr resolved, s1)"
    and f: "session_facts h env resolved s1 = Inr (genesis, plan, events, state, arc, completion)"
    and b: "book_lease_of h (dget genesis ''book_id'') s1 = (Inr lease, s2)"
    and v: "view = status_view resolved genesis plan arc state held lease events current completion"
    by (auto simp: status_unreconciled_def then_do_Inr rbind_eq_Inr)
  from f obtain l where g: "load_genesis h (session_at s1 resolved) = Inr genesis" "load_plan h (session_at s1 resolved) = Inr plan"
    "load_events h False (session_at s1 resolved) = Inr events" "se_arc env (doc_text genesis ''arc_plan_id'') = Inr arc"
    and l: "session_ledger h resolved s1 = Inr l" and c: "session_summary h env l s1 = Inr completion"
    by (auto simp: session_facts_def rbind_eq_Inr split: if_splits)
  from g l have lp: "lg_plan l = plan"
    by (auto simp: session_ledger_def open_ledger_def rbind_eq_Inr dest!: validated_plan(1))
  from c obtain dir chain blocked where reb: "rebuild h (ar_leases s1) (se_publications env) l dir = Inr chain"
    and bl: "blocked_chapters (se_deliveries env) chain = Inr blocked"
    and completion: "completion = [(''completed_count'', JInt (int (length chain))),
       (''completed_chapters'', JList (map (\<lambda>item. dget item ''chapter_index'') chain)),
       (''canonical_next_chapter'', JInt (int_at (lg_plan l) ''chapter_start'' + int (length chain))),
       (''last_completion_receipt_hash'', if chain = [] then JNull else dget (last chain) ''receipt_hash''),
       (''expected_source_snapshot_hash'', dget (expected_source l chain) ''snapshot_hash''),
       (''delivery_blocked'', JBool (blocked \<noteq> [])), (''delivery_blocked_chapters'', JList blocked)]"
    by (auto simp: session_summary_def ledger_summary_def rbind_eq_Inr)
  from reb have "canonical_chain h l chain" by (elim rebuild_cursorE) (auto simp: cursor_ok_def)
  from that [OF resolved_is_safe [OF r] g lp this bl book_lease_hash [OF b]] v completion lp show thesis by simp
qed


section \<open>An example\<close>

definition example_root :: autonomy_root where
  "example_root = \<lparr>ar_sessions = [(''s'', session_with [started_event])], ar_latest = None, ar_index = [], ar_previews = [],
     ar_journal = [], ar_leases = (\<lambda>_. no_files), ar_stages = (\<lambda>_. empty_stage_dir), ar_completions = (\<lambda>_. empty_completions)\<rparr>"

definition example_arc :: dict where
  "example_arc = [(''arc_plan_id'', JStr ''a''), (''arc_plan_hash'', JStr zero_digest), (''instruction_plan_hash'', JStr zero_digest)]"

definition example_env :: store_env where
  "example_env = \<lparr>se_profiles = None, se_publications = accept_publication, se_deliveries = None, se_arc = (\<lambda>_. Inr example_arc),
     se_create_arc = (\<lambda>_ _ _. Inr example_arc)\<rparr>"

definition session_example_ledger :: ledger where
  "session_example_ledger = \<lparr>lg_plan = example_instruction_plan, lg_session = ''s'', lg_arc = ''a''\<rparr>"

definition example_summary :: dict where
  "example_summary = [(''completed_count'', JInt 0), (''completed_chapters'', JList []), (''canonical_next_chapter'', JInt 3),
     (''last_completion_receipt_hash'', JNull), (''expected_source_snapshot_hash'', JStr zero_digest),
     (''delivery_blocked'', JBool False), (''delivery_blocked_chapters'', JList [])]"

definition example_view :: dict where
  "example_view = status_view ''s'' example_genesis example_instruction_plan example_arc ''active'' False None [started_event] False
     example_summary"

lemma example_facts:
  "session_facts quiet_host example_env ''s'' example_root =
     Inr (example_genesis, example_instruction_plan, [started_event], ''active'', example_arc, example_summary)"
proof -
  have dir: "session_at example_root ''s'' = session_with [started_event]" by (simp add: session_at_def example_root_def)
  have "open_ledger quiet_host (JObj example_instruction_plan) (JStr ''s'') (JStr ''a'') = Inr session_example_ledger" by code_simp
  moreover have "dget example_genesis ''arc_plan_id'' = JStr ''a''" by code_simp
  ultimately have l: "session_ledger quiet_host ''s'' example_root = Inr session_example_ledger"
    by (simp add: session_ledger_def dir example_session_parts)
  have "ledger_directory quiet_host session_example_ledger = Inr (take 16 zero_digest)" by code_simp
  moreover have "ledger_summary quiet_host (\<lambda>_. no_files) accept_publication None session_example_ledger empty_completions = Inr example_summary"
    by code_simp
  ultimately have "session_summary quiet_host example_env session_example_ledger example_root = Inr example_summary"
    by (simp add: session_summary_def completions_of_def example_root_def example_env_def)
  moreover have "dget example_instruction_plan ''plan_hash'' = dget example_genesis ''plan_hash''"
    "state_from_events quiet_host [started_event] = Inr ''active''" by code_simp+
  ultimately show ?thesis by (simp add: session_facts_def dir example_session_parts example_loads l) (simp add: example_env_def)
qed

lemma example_status: "status_unreconciled quiet_host ''7'' example_env (JStr ''s'') JNull example_root = (Inr example_view, example_root)"
proof -
  have "resolve_session_id quiet_host (JStr ''s'') example_root = (Inr ''s'', example_root)"
    by (simp add: resolve_session_id_def) code_simp
  moreover have "book_lease_of quiet_host (dget example_genesis ''book_id'') example_root = (Inr None, example_root)"
  proof -
    have "safe_id ''book_id'' (dget example_genesis ''book_id'') = Inr ''b''" "book_directory quiet_host ''b'' = Inr (take 16 zero_digest)"
      "reconcile_history_head quiet_host ''b'' True no_files = (Inr None, no_files)" by code_simp+
    then show ?thesis by (simp add: book_lease_of_def reconcile_def on_directory_def example_root_def fun_upd_idem)
  qed
  ultimately show ?thesis
    by (simp add: status_unreconciled_def then_do_def example_facts lease_is_held_def example_view_def)
       (simp add: profiles_current_def example_env_def)
qed


end
