(* ===== verification/Operation_Journal.thy ===== *)
theory Operation_Journal
  imports Autonomy_Common
begin

text \<open>
  The journal of \<open>core/autonomy/operations.py\<close>, which makes the transitions of a book session
  recoverable. An operation has a directory of append-only artifacts: the intent, the evidence that
  the source was verified, the commit marker and the result. Before the marker an operation is rolled
  back, after it is rolled forward, and the result closes it. The journal is the list of
  these directories; a directory is the list of its files.
\<close>

section \<open>Intents\<close>

abbreviation op_error :: "string \<Rightarrow> string \<Rightarrow> 'a res" where
  "op_error tag message \<equiv> Inl (AutonomyOperationError tag message)"

definition source_guarded :: "dict \<Rightarrow> bool" where
  "source_guarded op \<longleftrightarrow> dget op ''operation_type'' \<in> {JStr ''execute'', JStr ''resume''}"

definition allowed_operations :: "(json \<times> json \<times> json) list" where
  "allowed_operations =
     [(JStr ''execute'', JStr ''absent'', JStr ''started''),
      (JStr ''execute'', JStr ''active'', JNull),
      (JStr ''resume'', JStr ''active'', JNull),
      (JStr ''resume'', JStr ''cancelled'', JStr ''resumed''),
      (JStr ''cancel'', JStr ''active'', JStr ''cancelled''),
      (JStr ''abandon'', JStr ''active'', JStr ''abandoned''),
      (JStr ''abandon'', JStr ''cancelled'', JStr ''abandoned''),
      (JStr ''complete'', JStr ''active'', JStr ''completed'')]"

definition operation_key_fields :: "string list" where
  "operation_key_fields =
     [''operation_type'', ''session_id'', ''book_id'', ''plan_id'', ''plan_hash'', ''expected_state'',
      ''expected_event_hash'', ''expected_lease_hash'', ''target_event_type'', ''reason'', ''lease_ttl_seconds'']"

definition checked_ids :: "dict \<Rightarrow> string list \<Rightarrow> unit res" where
  "checked_ids d names = rcheck (\<lambda>field. on_item d field (\<lambda>v. rbind (safe_id field v) (\<lambda>_. Inr ()))) names"

definition checked_digests :: "dict \<Rightarrow> string list \<Rightarrow> unit res" where
  "checked_digests d names = rcheck (\<lambda>field. on_item d field (\<lambda>v. rbind (au_sha256 field v) (\<lambda>_. Inr ()))) names"

definition checked_optional_digests :: "dict \<Rightarrow> string list \<Rightarrow> unit res" where
  "checked_optional_digests d names =
     rcheck (\<lambda>field. on_item d field (\<lambda>v. rbind (au_optional_sha256 field v) (\<lambda>_. Inr ()))) names"

definition intent_protocol_ok :: "dict \<Rightarrow> unit res" where
  "intent_protocol_ok intent =
     on_item intent ''schema_version'' (\<lambda>version.
     if version = JStr ''1.1''
     then (if dget intent ''recovery_protocol'' \<noteq> JStr MARKER_RECOVERY_PROTOCOL
           then op_error ''autonomy_operation_recovery_protocol_invalid''
                  ''new operation intents must use the shared marker recovery protocol''
           else Inr ())
     else if dhas intent ''recovery_protocol''
     then op_error ''autonomy_operation_recovery_protocol_invalid''
            ''legacy operation intents cannot claim a newer recovery protocol''
     else Inr ())"

definition intent_fields_ok :: "host \<Rightarrow> dict \<Rightarrow> unit res" where
  "intent_fields_ok h intent =
     rbind (checked_digests intent [''operation_key'', ''plan_hash'', ''intent_hash'']) (\<lambda>_.
     rbind (checked_optional_digests intent [''expected_event_hash'', ''expected_lease_hash'']) (\<lambda>_.
     rbind (on_item intent ''attempt'' (au_int_from ''attempt'' 1)) (\<lambda>_.
     rbind (on_item intent ''lease_ttl_seconds'' (\<lambda>v. if v = JNull then Inr 1 else au_int_from ''lease_ttl_seconds'' 1 v)) (\<lambda>_.
     rbind (on_item intent ''created_at'' (parse_utc h)) (\<lambda>_. Inr ())))))"

definition intent_transition_ok :: "dict \<Rightarrow> unit res" where
  "intent_transition_ok intent =
     rbind (ditem intent ''operation_type'') (\<lambda>operation_type.
     rbind (ditem intent ''expected_state'') (\<lambda>expected_state.
     rbind (ditem intent ''target_event_type'') (\<lambda>target.
     if \<not> (hashable operation_type \<and> hashable expected_state \<and> hashable target) then Inl TypeError
     else if (operation_type, expected_state, target) \<notin> set allowed_operations
     then op_error ''autonomy_operation_transition_invalid''
            ''operation type, pre-state, and target event are inconsistent''
     else if source_guarded intent \<noteq> (dget intent ''lease_ttl_seconds'' \<noteq> JNull)
     then op_error ''autonomy_operation_lease_policy_invalid'' ''only source-guarded operations carry a lease TTL''
     else if (expected_state = JStr ''absent'') \<noteq> (dget intent ''expected_event_hash'' = JNull)
     then op_error ''autonomy_operation_event_precondition_invalid''
            ''only an absent session may omit its expected event hash''
     else Inr ())))"

definition operation_key_payload :: "dict \<Rightarrow> dict res" where
  "operation_key_payload intent =
     rmap (\<lambda>field. rbind (ditem intent field) (\<lambda>v. Inr (field, v))) operation_key_fields"

definition operation_id_for :: "host \<Rightarrow> json \<Rightarrow> json \<Rightarrow> string res" where
  "operation_id_for h operation_key attempt =
     rbind (au_canonical_hash h [] (JObj [(''operation_key'', operation_key), (''attempt'', attempt)])) (\<lambda>digest.
     Inr (''op_'' @ take 24 digest))"

definition intent_hashes_ok :: "host \<Rightarrow> dict \<Rightarrow> unit res" where
  "intent_hashes_ok h intent =
     rbind (operation_key_payload intent) (\<lambda>payload.
     rbind (au_canonical_hash h [] (JObj payload)) (\<lambda>key.
     if dget intent ''operation_key'' \<noteq> JStr key
     then op_error ''autonomy_operation_key_mismatch'' ''operation preconditions were modified''
     else rbind (operation_id_for h (dget intent ''operation_key'') (dget intent ''attempt'')) (\<lambda>expected_id.
     if dget intent ''operation_id'' \<noteq> JStr expected_id
     then op_error ''autonomy_operation_id_mismatch'' ''operation id is not deterministic''
     else rbind (au_canonical_hash h [''intent_hash''] (JObj intent)) (\<lambda>digest.
     if dget intent ''intent_hash'' \<noteq> JStr digest
     then op_error ''autonomy_operation_intent_hash_mismatch'' ''operation intent was modified''
     else Inr ()))))"

definition validate_operation_intent :: "host \<Rightarrow> json \<Rightarrow> dict res" where
  "validate_operation_intent h value =
     rbind (au_validate_mapping h value ''autonomy_operation_intent.schema.json'' ''AutonomyOperationIntent'') (\<lambda>intent.
     rbind (checked_ids intent [''operation_id'', ''session_id'', ''book_id'', ''plan_id'']) (\<lambda>_.
     rbind (intent_protocol_ok intent) (\<lambda>_.
     rbind (intent_fields_ok h intent) (\<lambda>_.
     rbind (intent_transition_ok intent) (\<lambda>_.
     rbind (intent_hashes_ok h intent) (\<lambda>_.
     Inr intent))))))"

record op_args =
  oa_operation_type :: json
  oa_session_id :: json
  oa_book_id :: json
  oa_plan_id :: json
  oa_plan_hash :: json
  oa_expected_state :: json
  oa_expected_event_hash :: json
  oa_expected_lease_hash :: json
  oa_target_event_type :: json
  oa_reason :: json
  oa_lease_ttl_seconds :: json
  oa_created_at :: json

text \<open>\<open>f(x) if x is not None else None\<close>.\<close>

definition unless_null :: "(json \<Rightarrow> json res) \<Rightarrow> json \<Rightarrow> json res" where
  "unless_null f v = (if v = JNull then Inr JNull else f v)"

definition op_key_payload :: "host \<Rightarrow> op_args \<Rightarrow> dict res" where
  "op_key_payload h a =
     rbind (safe_id ''session_id'' (oa_session_id a)) (\<lambda>session.
     rbind (safe_id ''book_id'' (oa_book_id a)) (\<lambda>book.
     rbind (safe_id ''plan_id'' (oa_plan_id a)) (\<lambda>plan.
     rbind (au_sha256 ''plan_hash'' (oa_plan_hash a)) (\<lambda>plan_hash.
     rbind (au_optional_sha256 ''expected_event_hash'' (oa_expected_event_hash a)) (\<lambda>event.
     rbind (au_optional_sha256 ''expected_lease_hash'' (oa_expected_lease_hash a)) (\<lambda>lease.
     rbind (unless_null (\<lambda>v. Inr (JStr (py_str h v))) (oa_target_event_type a)) (\<lambda>target.
     rbind (unless_null (\<lambda>v. rbind (au_required_text ''reason'' v) (\<lambda>s. Inr (JStr s))) (oa_reason a)) (\<lambda>reason.
     rbind (unless_null (\<lambda>v. rbind (au_int_from ''lease_ttl_seconds'' 1 v) (\<lambda>i. Inr (JInt i))) (oa_lease_ttl_seconds a)) (\<lambda>ttl.
     Inr [(''operation_type'', JStr (py_str h (oa_operation_type a))), (''session_id'', JStr session),
          (''book_id'', JStr book), (''plan_id'', JStr plan), (''plan_hash'', plan_hash),
          (''expected_state'', JStr (py_str h (oa_expected_state a))), (''expected_event_hash'', event),
          (''expected_lease_hash'', lease), (''target_event_type'', target), (''reason'', reason),
          (''lease_ttl_seconds'', ttl)])))))))))"

definition build_operation_intent :: "host \<Rightarrow> op_args \<Rightarrow> int \<Rightarrow> dict res" where
  "build_operation_intent h a attempt =
     rbind (op_key_payload h a) (\<lambda>payload.
     rbind (au_canonical_hash h [] (JObj payload)) (\<lambda>key.
     rbind (au_int_from ''attempt'' 1 (JInt attempt)) (\<lambda>ordinal.
     rbind (operation_id_for h (JStr key) (JInt ordinal)) (\<lambda>op_id.
     rbind (au_required_text ''created_at'' (oa_created_at a)) (\<lambda>created.
     let intent = [(''schema_version'', JStr ''1.1''), (''recovery_protocol'', JStr MARKER_RECOVERY_PROTOCOL),
                   (''operation_id'', JStr op_id), (''operation_key'', JStr key), (''attempt'', JInt ordinal)]
                  @ payload @ [(''created_at'', JStr created)]
     in rbind (au_canonical_hash h [''intent_hash''] (JObj intent)) (\<lambda>digest.
        validate_operation_intent h (JObj (dset ''intent_hash'' (JStr digest) intent))))))))"

section \<open>Evidence, results and markers\<close>

definition validate_source_verification :: "host \<Rightarrow> json \<Rightarrow> dict res" where
  "validate_source_verification h value =
     rbind (au_validate_mapping h value ''autonomy_operation_source_verified.schema.json''
              ''AutonomyOperationSourceVerified'') (\<lambda>verification.
     rbind (checked_ids verification [''operation_id'']) (\<lambda>_.
     rbind (checked_digests verification
              [''intent_hash'', ''source_snapshot_hash'', ''lease_hash'', ''verification_hash'']) (\<lambda>_.
     rbind (on_item verification ''verified_at'' (parse_utc h)) (\<lambda>_.
     rbind (au_canonical_hash h [''verification_hash''] (JObj verification)) (\<lambda>digest.
     if dget verification ''verification_hash'' \<noteq> JStr digest
     then op_error ''autonomy_operation_verification_hash_mismatch'' ''source verification marker was modified''
     else Inr verification)))))"

definition build_source_verification :: "host \<Rightarrow> dict \<Rightarrow> json \<Rightarrow> json \<Rightarrow> json \<Rightarrow> dict res" where
  "build_source_verification h intent source_snapshot_hash lease_hash verified_at =
     rbind (validate_operation_intent h (JObj intent)) (\<lambda>op.
     rbind (au_sha256 ''source_snapshot_hash'' source_snapshot_hash) (\<lambda>snapshot.
     rbind (au_sha256 ''lease_hash'' lease_hash) (\<lambda>lease.
     rbind (au_required_text ''verified_at'' verified_at) (\<lambda>verified.
     let verification = [(''schema_version'', JStr ''1.0''), (''operation_id'', dget op ''operation_id''),
                         (''intent_hash'', dget op ''intent_hash''), (''source_snapshot_hash'', snapshot),
                         (''lease_hash'', lease), (''verified_at'', JStr verified)]
     in rbind (au_canonical_hash h [''verification_hash''] (JObj verification)) (\<lambda>digest.
        validate_source_verification h (JObj (dset ''verification_hash'' (JStr digest) verification)))))))"

definition validate_operation_result :: "host \<Rightarrow> json \<Rightarrow> dict res" where
  "validate_operation_result h value =
     rbind (au_validate_mapping h value ''autonomy_operation_result.schema.json'' ''AutonomyOperationResult'') (\<lambda>result.
     rbind (checked_ids result [''operation_id'']) (\<lambda>_.
     rbind (checked_digests result [''intent_hash'', ''result_hash'']) (\<lambda>_.
     rbind (checked_optional_digests result [''event_hash'', ''lease_hash'']) (\<lambda>_.
     rbind (on_item result ''completed_at'' (parse_utc h)) (\<lambda>_.
     rbind (ditem result ''outcome'') (\<lambda>outcome.
     if (outcome = JStr ''completed'') \<noteq> (dget result ''event_hash'' \<noteq> JNull)
     then op_error ''autonomy_operation_result_invalid''
            ''completed operations require an event hash and rollbacks must omit it''
     else rbind (au_canonical_hash h [''result_hash''] (JObj result)) (\<lambda>digest.
     if dget result ''result_hash'' \<noteq> JStr digest
     then op_error ''autonomy_operation_result_hash_mismatch'' ''operation result was modified''
     else Inr result)))))))"

definition build_operation_result :: "host \<Rightarrow> dict \<Rightarrow> string \<Rightarrow> json \<Rightarrow> json \<Rightarrow> json \<Rightarrow> dict res" where
  "build_operation_result h intent outcome event_hash lease_hash completed_at =
     rbind (validate_operation_intent h (JObj intent)) (\<lambda>op.
     rbind (au_optional_sha256 ''event_hash'' event_hash) (\<lambda>event.
     rbind (au_optional_sha256 ''lease_hash'' lease_hash) (\<lambda>lease.
     rbind (au_required_text ''completed_at'' completed_at) (\<lambda>completed.
     let result = [(''schema_version'', JStr ''1.0''), (''operation_id'', dget op ''operation_id''),
                   (''intent_hash'', dget op ''intent_hash''), (''outcome'', JStr outcome),
                   (''event_hash'', event), (''lease_hash'', lease), (''completed_at'', JStr completed)]
     in rbind (au_canonical_hash h [''result_hash''] (JObj result)) (\<lambda>digest.
        validate_operation_result h (JObj (dset ''result_hash'' (JStr digest) result)))))))"

definition evidence_kinds :: "string list" where
  "evidence_kinds = [''source_verified'', ''terminal_preconditions'']"

definition build_operation_commit_marker :: "host \<Rightarrow> dict \<Rightarrow> string \<Rightarrow> json \<Rightarrow> dict res" where
  "build_operation_commit_marker h intent evidence_kind evidence_hash =
     rbind (validate_operation_intent h (JObj intent)) (\<lambda>op.
     if dget op ''schema_version'' \<noteq> JStr ''1.1''
     then op_error ''autonomy_operation_recovery_protocol_invalid''
            ''legacy operation intents do not write shared commit markers''
     else if evidence_kind \<notin> set evidence_kinds
     then op_error ''autonomy_operation_marker_invalid'' ''unknown operation marker evidence''
     else rbind (au_sha256 ''evidence_hash'' evidence_hash) (\<lambda>evidence.
     rbind (build_marker_envelope h (dget op ''operation_id'') (dget op ''intent_hash'') (JStr evidence_kind) evidence
              (Some [(''operation_type'', dget op ''operation_type'')])) (\<lambda>marker.
     case marker of JObj m \<Rightarrow> Inr m | _ \<Rightarrow> Inl TypeError)))"

definition validate_operation_commit_marker :: "host \<Rightarrow> json \<Rightarrow> dict res" where
  "validate_operation_commit_marker h value =
     (case validate_marker_envelope h value of
        Inl (RecoveryProtocolError message) \<Rightarrow> op_error ''autonomy_operation_marker_invalid'' message
      | Inl e \<Rightarrow> Inl e
      | Inr (JObj marker) \<Rightarrow>
          if dget marker ''evidence_kind'' \<notin> JStr ` set evidence_kinds
          then op_error ''autonomy_operation_marker_invalid'' ''operation marker evidence kind changed''
          else (case dget marker ''metadata'' of
              JObj metadata \<Rightarrow>
                if \<not> same_keys metadata [''operation_type'']
                then op_error ''autonomy_operation_marker_invalid'' ''operation marker metadata is malformed''
                else Inr marker
            | _ \<Rightarrow> op_error ''autonomy_operation_marker_invalid'' ''operation marker metadata is malformed'')
      | Inr _ \<Rightarrow> Inl TypeError)"

section \<open>The journal\<close>

type_synonym journal = "(string \<times> files) list"

definition op_files :: "string \<Rightarrow> journal \<Rightarrow> files" where
  "op_files op_id j = (case map_of j op_id of None \<Rightarrow> [] | Some fs \<Rightarrow> fs)"

text \<open>\<open>atomic_append_json\<close> in the directory of an operation, which it creates if need be.\<close>

definition journal_append :: "string \<Rightarrow> string \<Rightarrow> dict \<Rightarrow> journal \<Rightarrow> journal res" where
  "journal_append op_id name payload j =
     rbind (atomic_append_json name payload (op_files op_id j)) (\<lambda>fs. Inr (AList.update op_id fs j))"

definition op_id_of :: "dict \<Rightarrow> string" where
  "op_id_of op = doc_text op ''operation_id''"

text \<open>\<open>_directory\<close>: the files of a valid intent.\<close>

definition op_file :: "string \<Rightarrow> dict \<Rightarrow> journal \<Rightarrow> file_doc option" where
  "op_file name op j = map_of (op_files (op_id_of op) j) name"

definition commit_marker :: "host \<Rightarrow> dict \<Rightarrow> journal \<Rightarrow> dict option res" where
  "commit_marker h intent j =
     rbind (validate_operation_intent h (JObj intent)) (\<lambda>op.
     case op_file ''commit.marker'' op j of
       None \<Rightarrow> Inr None
     | Some file \<Rightarrow>
         rbind (load_json_object ''commit.marker'' file) (\<lambda>d.
         rbind (validate_operation_commit_marker h (JObj d)) (\<lambda>marker.
         if dget marker ''transaction_id'' \<noteq> dget op ''operation_id'' \<or> dget marker ''intent_hash'' \<noteq> dget op ''intent_hash'' \<or>
            hash_of ''operation_type'' (dget marker ''metadata'') \<noteq> dget op ''operation_type''
         then op_error ''autonomy_operation_marker_scope_mismatch'' ''commit marker belongs to another operation intent''
         else Inr (Some marker))))"

text \<open>The commit marker that a source verification needs: absent, or of another kind, there is no verification.\<close>

definition source_marker :: "host \<Rightarrow> dict \<Rightarrow> journal \<Rightarrow> dict option res" where
  "source_marker h op j =
     rbind (commit_marker h op j) (\<lambda>commit. Inr (case commit of
         None \<Rightarrow> None
       | Some c \<Rightarrow> if dget c ''evidence_kind'' \<noteq> JStr ''source_verified'' then None else Some c))"

definition verified_file :: "host \<Rightarrow> dict \<Rightarrow> dict option \<Rightarrow> file_doc \<Rightarrow> dict option res" where
  "verified_file h op commit file =
     rbind (load_json_object ''source-verified.json'' file) (\<lambda>d.
     rbind (validate_source_verification h (JObj d)) (\<lambda>marker.
     if dget marker ''operation_id'' \<noteq> dget op ''operation_id''
     then op_error ''autonomy_operation_verification_scope_mismatch'' ''source marker belongs to another operation''
     else case commit of
         Some c \<Rightarrow> if dget c ''evidence_hash'' \<noteq> dget marker ''verification_hash''
                   then op_error ''autonomy_operation_marker_evidence_mismatch''
                          ''commit marker does not bind the source verification evidence''
                   else Inr (Some marker)
       | None \<Rightarrow> Inr (Some marker)))"

definition source_verification :: "host \<Rightarrow> dict \<Rightarrow> journal \<Rightarrow> dict option res" where
  "source_verification h intent j =
     rbind (validate_operation_intent h (JObj intent)) (\<lambda>op.
     if dget op ''schema_version'' = JStr ''1.1''
     then rbind (source_marker h op j) (\<lambda>commit.
          case commit of
            None \<Rightarrow> Inr None
          | Some c \<Rightarrow> (case op_file ''source-verified.json'' op j of
                None \<Rightarrow> Inr None
              | Some file \<Rightarrow> verified_file h op (Some c) file))
     else (case op_file ''source-verified.json'' op j of
         None \<Rightarrow> Inr None
       | Some file \<Rightarrow> verified_file h op None file))"

text \<open>\<open>_marker_present\<close>, of a valid intent.\<close>

definition marker_present :: "host \<Rightarrow> dict \<Rightarrow> journal \<Rightarrow> bool res" where
  "marker_present h op j =
     (if dget op ''schema_version'' = JStr ''1.1''
      then rbind (commit_marker h op j) (\<lambda>marker.
           case marker of
             None \<Rightarrow> Inr False
           | Some m \<Rightarrow>
               if dget m ''evidence_kind'' \<noteq>
                    JStr (if source_guarded op then ''source_verified'' else ''terminal_preconditions'') \<or>
                  (\<not> source_guarded op \<and> dget m ''evidence_hash'' \<noteq> dget op ''intent_hash'')
               then op_error ''autonomy_operation_marker_evidence_mismatch''
                      ''commit marker carries the wrong transition evidence''
               else if source_guarded op
               then rbind (source_verification h op j) (\<lambda>verification.
                    if verification = None
                    then op_error ''autonomy_operation_marker_evidence_missing''
                           ''source operation marker has no bound verification evidence''
                    else Inr True)
               else Inr True)
      else if source_guarded op then Inr (op_file ''source-verified.json'' op j \<noteq> None)
      else Inr True)"

definition recovery_decision_for :: "host \<Rightarrow> dict \<Rightarrow> dict option \<Rightarrow> journal \<Rightarrow> recovery_decision res" where
  "recovery_decision_for h op result j =
     rbind (marker_present h op j) (\<lambda>present.
     case result of
       Some r \<Rightarrow>
         if dget r ''outcome'' = JStr ''rolled_back''
         then (if present
               then op_error ''autonomy_operation_result_invalid'' ''rolled-back operation unexpectedly has a commit marker''
               else Inr ROLL_BACK)
         else (case decide_marker_recovery present True of
             Inl (RecoveryProtocolError message) \<Rightarrow> op_error ''autonomy_operation_result_invalid'' message
           | d \<Rightarrow> d)
     | None \<Rightarrow> decide_marker_recovery present False)"

definition load_result :: "host \<Rightarrow> dict \<Rightarrow> journal \<Rightarrow> dict option res" where
  "load_result h op j =
     (case op_file ''result.json'' op j of
        None \<Rightarrow> Inr None
      | Some file \<Rightarrow>
          rbind (load_json_object ''result.json'' file) (\<lambda>d.
          rbind (validate_operation_result h (JObj d)) (\<lambda>result.
          if dget result ''operation_id'' \<noteq> dget op ''operation_id'' \<or> dget result ''intent_hash'' \<noteq> dget op ''intent_hash''
          then op_error ''autonomy_operation_result_scope_mismatch'' ''result belongs to another operation''
          else Inr (Some result))))"

definition recovery_decision_of :: "host \<Rightarrow> dict \<Rightarrow> journal \<Rightarrow> recovery_decision res" where
  "recovery_decision_of h intent j =
     rbind (validate_operation_intent h (JObj intent)) (\<lambda>op.
     rbind (load_result h op j) (\<lambda>result. recovery_decision_for h op result j))"

definition op_result :: "host \<Rightarrow> dict \<Rightarrow> journal \<Rightarrow> dict option res" where
  "op_result h intent j =
     rbind (validate_operation_intent h (JObj intent)) (\<lambda>op.
     rbind (load_result h op j) (\<lambda>result.
     if result \<noteq> None \<and> dget op ''schema_version'' = JStr ''1.1''
     then rbind (recovery_decision_for h op result j) (\<lambda>_. Inr result)
     else Inr result))"

definition check_loaded_result :: "dict \<Rightarrow> dict option \<Rightarrow> unit res" where
  "check_loaded_result op result =
     (if (case result of Some r \<Rightarrow> dget r ''intent_hash'' \<noteq> dget op ''intent_hash'' | None \<Rightarrow> False)
      then op_error ''autonomy_operation_result_scope_mismatch'' ''operation result belongs to another intent''
      else Inr ())"

definition check_loaded_evidence :: "dict \<Rightarrow> dict option \<Rightarrow> dict option \<Rightarrow> unit res" where
  "check_loaded_evidence op result verification =
     (if (case verification of Some v \<Rightarrow> dget v ''intent_hash'' \<noteq> dget op ''intent_hash'' | None \<Rightarrow> False)
      then op_error ''autonomy_operation_verification_scope_mismatch'' ''source marker belongs to another intent''
      else if verification \<noteq> None \<and> \<not> source_guarded op
      then op_error ''autonomy_operation_verification_invalid''
             ''terminal operations cannot carry source verification markers''
      else if (case result of Some r \<Rightarrow> dget r ''outcome'' = JStr ''rolled_back'' | None \<Rightarrow> False) \<and>
              dget op ''schema_version'' = JStr ''1.0'' \<and> \<not> source_guarded op
      then op_error ''autonomy_operation_result_invalid'' ''legacy terminal operation intents cannot be rolled back''
      else Inr ())"

definition load_intent :: "host \<Rightarrow> journal \<Rightarrow> string \<times> files \<Rightarrow> dict res" where
  "load_intent h j directory =
     (case map_of (snd directory) ''intent.json'' of
        None \<Rightarrow> op_error ''autonomy_operation_intent_missing'' (''operation directory has no intent: '' @ fst directory)
      | Some file \<Rightarrow>
          rbind (load_json_object ''intent.json'' file) (\<lambda>d.
          rbind (validate_operation_intent h (JObj d)) (\<lambda>op.
          if dget op ''operation_id'' \<noteq> JStr (fst directory)
          then op_error ''autonomy_operation_path_mismatch'' ''operation directory does not match its deterministic id''
          else
            rbind (op_result h op j) (\<lambda>result.
            rbind (check_loaded_result op result) (\<lambda>_.
            rbind (source_verification h op j) (\<lambda>verification.
            rbind (check_loaded_evidence op result verification) (\<lambda>_. Inr op)))))))"

definition list_intents :: "host \<Rightarrow> journal \<Rightarrow> dict list res" where
  "list_intents h j = rmap (load_intent h j) (sort_key fst j)"

text \<open>\<open>[item for item in items if self.result(item) is None]\<close>.\<close>

definition without_result :: "host \<Rightarrow> journal \<Rightarrow> dict list \<Rightarrow> dict list res" where
  "without_result h j items =
     rbind (rmap (\<lambda>op. rbind (op_result h op j) (\<lambda>r. Inr (op, r = None))) items) (\<lambda>marked.
     Inr (map fst (filter snd marked)))"

definition pending :: "host \<Rightarrow> journal \<Rightarrow> dict list res" where
  "pending h j = rbind (list_intents h j) (without_result h j)"

definition op_attempt :: "dict \<Rightarrow> int" where
  "op_attempt op = (case dget op ''attempt'' of JInt i \<Rightarrow> i | _ \<Rightarrow> 0)"

definition next_attempt :: "dict list \<Rightarrow> int" where
  "next_attempt matching = (if matching = [] then 0 else Max (set (map op_attempt matching))) + 1"

definition begin_op :: "host \<Rightarrow> op_args \<Rightarrow> journal \<Rightarrow> (dict \<times> journal) res" where
  "begin_op h a j =
     rbind (build_operation_intent h a 1) (\<lambda>prototype.
     rbind (list_intents h j) (\<lambda>intents.
     let matching = filter (\<lambda>item. dget item ''operation_key'' = dget prototype ''operation_key'') intents in
     rbind (without_result h j matching) (\<lambda>unfinished.
     case unfinished of
       [] \<Rightarrow> rbind (build_operation_intent h a (next_attempt matching)) (\<lambda>intent.
             rbind (journal_append (op_id_of intent) ''intent.json'' intent j) (\<lambda>j'. Inr (intent, j')))
     | [item] \<Rightarrow> Inr (item, j)
     | _ \<Rightarrow> op_error ''autonomy_operation_multiple_pending''
              ''more than one operation attempt has the same preconditions'')))"

text \<open>\<open>mark_source_verified\<close> writes two artifacts; the process can end between them.\<close>

definition write_verification :: "host \<Rightarrow> dict \<Rightarrow> json \<Rightarrow> json \<Rightarrow> json \<Rightarrow> journal \<Rightarrow> (dict \<times> journal) res" where
  "write_verification h intent source_snapshot_hash lease_hash verified_at j =
     rbind (build_source_verification h intent source_snapshot_hash lease_hash verified_at) (\<lambda>marker.
     rbind (journal_append (op_id_of intent) ''source-verified.json'' marker j) (\<lambda>j'. Inr (marker, j')))"

definition mark_source_verified :: "host \<Rightarrow> dict \<Rightarrow> json \<Rightarrow> json \<Rightarrow> json \<Rightarrow> journal \<Rightarrow> dict res \<times> journal" where
  "mark_source_verified h intent source_snapshot_hash lease_hash verified_at j =
     (case write_verification h intent source_snapshot_hash lease_hash verified_at j of
        Inl e \<Rightarrow> (Inl e, j)
      | Inr (marker, j') \<Rightarrow>
          (case rbind (validate_operation_intent h (JObj intent)) (\<lambda>op.
                if dget op ''schema_version'' = JStr ''1.1''
                then rbind (build_operation_commit_marker h op ''source_verified'' (dget marker ''verification_hash'')) (\<lambda>commit.
                     journal_append (op_id_of op) ''commit.marker'' commit j')
                else Inr j') of
             Inl e \<Rightarrow> (Inl e, j')
           | Inr j'' \<Rightarrow> (Inr marker, j'')))"

definition mark_terminal_ready :: "host \<Rightarrow> dict \<Rightarrow> journal \<Rightarrow> (dict option \<times> journal) res" where
  "mark_terminal_ready h intent j =
     rbind (validate_operation_intent h (JObj intent)) (\<lambda>op.
     if source_guarded op
     then op_error ''autonomy_operation_marker_invalid'' ''source-guarded operations require source verification evidence''
     else if dget op ''schema_version'' = JStr ''1.0'' then Inr (None, j)
     else rbind (build_operation_commit_marker h op ''terminal_preconditions'' (dget op ''intent_hash'')) (\<lambda>marker.
          rbind (journal_append (op_id_of op) ''commit.marker'' marker j) (\<lambda>j'. Inr (Some marker, j'))))"

definition reconcile_pending ::
  "host \<Rightarrow> dict \<Rightarrow> ('s \<Rightarrow> 'a res \<times> 's) \<Rightarrow> ('s \<Rightarrow> 'a res \<times> 's) \<Rightarrow> journal \<Rightarrow> 's \<Rightarrow> 'a res \<times> 's" where
  "reconcile_pending h intent on_roll_back on_roll_forward j s =
     (case rbind (validate_operation_intent h (JObj intent)) (\<lambda>op.
           rbind (op_result h op j) (\<lambda>result.
           if result \<noteq> None
           then op_error ''autonomy_operation_not_pending'' ''only a pending operation can enter recovery''
           else marker_present h op j)) of
        Inl e \<Rightarrow> (Inl e, s)
      | Inr present \<Rightarrow>
          reconcile_marker_transaction present False on_roll_back on_roll_forward
            (\<lambda>s. (op_error ''autonomy_operation_not_pending'' ''pending operation unexpectedly entered completed recovery'', s)) s)"

definition check_outcome :: "string \<Rightarrow> recovery_decision \<Rightarrow> unit res" where
  "check_outcome outcome decision =
     (if outcome = ''completed'' \<and> decision \<noteq> ROLL_FORWARD
      then op_error ''autonomy_operation_marker_missing'' ''operation cannot complete before its shared commit marker''
      else if outcome = ''rolled_back'' \<and> decision \<noteq> ROLL_BACK
      then op_error ''autonomy_operation_rollback_forbidden'' ''operation cannot roll back after its shared commit marker''
      else Inr ())"

definition finish_op :: "host \<Rightarrow> dict \<Rightarrow> string \<Rightarrow> json \<Rightarrow> json \<Rightarrow> json \<Rightarrow> journal \<Rightarrow> (dict \<times> journal) res" where
  "finish_op h intent outcome event_hash lease_hash completed_at j =
     rbind (validate_operation_intent h (JObj intent)) (\<lambda>op.
     rbind (build_operation_result h op outcome event_hash lease_hash completed_at) (\<lambda>candidate.
     rbind (op_result h op j) (\<lambda>existing.
     case existing of
       Some r \<Rightarrow>
         if \<not> py_eq (JObj r) (JObj candidate)
         then op_error ''autonomy_operation_result_conflict'' ''completed operation replay produced different result bytes''
         else Inr (r, j)
     | None \<Rightarrow>
         rbind (recovery_decision_of h op j) (\<lambda>decision.
         rbind (check_outcome outcome decision) (\<lambda>_.
         rbind (journal_append (op_id_of op) ''result.json'' candidate j) (\<lambda>j'. Inr (candidate, j')))))))"

section \<open>What a valid document says\<close>

lemma checked_ids_Inr [res_simps]:
  "checked_ids d names = Inr u \<longleftrightarrow> (\<forall>k \<in> set names. \<exists>s. map_of d k = Some (JStr s) \<and> is_safe_id s)"
  by (auto simp: checked_ids_def rcheck_Inr_iff res_simps)

lemma checked_digests_Inr [res_simps]:
  "checked_digests d names = Inr u \<longleftrightarrow> (\<forall>k \<in> set names. \<exists>v. map_of d k = Some v \<and> json_sha256 v)"
  by (auto simp: checked_digests_def rcheck_Inr_iff res_simps)

lemma checked_optional_digests_Inr [res_simps]:
  "checked_optional_digests d names = Inr u \<longleftrightarrow> (\<forall>k \<in> set names. \<exists>v. map_of d k = Some v \<and> digest_or_null v)"
  by (auto simp: checked_optional_digests_def rcheck_Inr_iff res_simps)

lemma validate_operation_intent_object: "validate_operation_intent h v = Inr op \<Longrightarrow> v = JObj op"
  by (auto simp: validate_operation_intent_def rbind_eq_Inr au_validate_mapping_Inr)

definition valid_intent :: "host \<Rightarrow> dict \<Rightarrow> bool" where
  "valid_intent h op \<longleftrightarrow> validate_operation_intent h (JObj op) = Inr op"

lemma validate_operation_intent_iff:
  "validate_operation_intent h v = Inr op \<longleftrightarrow> v = JObj op \<and> valid_intent h op"
  using validate_operation_intent_object by (auto simp: valid_intent_def)

lemma valid_intent_parts:
  assumes "valid_intent h op"
  shows "checked_ids op [''operation_id'', ''session_id'', ''book_id'', ''plan_id''] = Inr ()"
    and "intent_protocol_ok op = Inr ()" and "intent_fields_ok h op = Inr ()"
    and "intent_transition_ok op = Inr ()" and "intent_hashes_ok h op = Inr ()"
  using assms by (auto simp: valid_intent_def validate_operation_intent_def rbind_eq_Inr)

lemma valid_intent_id: "valid_intent h op \<Longrightarrow> dget op ''operation_id'' = JStr (op_id_of op) \<and> is_safe_id (op_id_of op)"
  using valid_intent_parts(1) [of h op] by (auto simp: res_simps op_id_of_def doc_text_def dget_def)

lemma valid_intent_transition:
  "valid_intent h op \<Longrightarrow> (dget op ''operation_type'', dget op ''expected_state'', dget op ''target_event_type'') \<in> set allowed_operations"
  using valid_intent_parts(4) [of h op]
  by (auto simp: intent_transition_ok_def rbind_eq_Inr ditem_Inr dget_def split: if_splits)

lemma valid_intent_type: "valid_intent h op \<Longrightarrow> \<exists>s. dget op ''operation_type'' = JStr s"
  using valid_intent_transition [of h op] by (auto simp: allowed_operations_def)

lemma valid_intent_hash: "valid_intent h op \<Longrightarrow> \<exists>s. dget op ''intent_hash'' = JStr s \<and> is_sha256 s"
  using valid_intent_parts(3) [of h op]
  by (auto simp: intent_fields_ok_def rbind_eq_Inr checked_digests_Inr dget_def dest: json_sha256D)

lemma valid_intent_key: "valid_intent h op \<Longrightarrow> \<exists>s. dget op ''operation_key'' = JStr s"
  using valid_intent_parts(3) [of h op]
  by (auto simp: intent_fields_ok_def rbind_eq_Inr checked_digests_Inr dget_def dest: json_sha256D)

lemma valid_intent_attempt: "valid_intent h op \<Longrightarrow> dget op ''attempt'' = JInt (op_attempt op) \<and> 1 \<le> op_attempt op"
  using valid_intent_parts(3) [of h op]
  by (auto simp: intent_fields_ok_def rbind_eq_Inr on_item_eq_Inr au_int_from_Inr op_attempt_def dget_def)

lemma intent_hashes_seal:
  "intent_hashes_ok h op = Inr u \<Longrightarrow> \<exists>x. dget op ''intent_hash'' = JStr x \<and> canonical_json_hash h [''intent_hash''] True (JObj op) = Inr x"
  by (auto simp: intent_hashes_ok_def rbind_eq_Inr au_canonical_hash_def split: if_splits)

interpretation op_intent: sealed_record h "''intent_hash''" True "\<lambda>v. rbind (validate_operation_intent h v) (\<lambda>d. Inr (JObj d))" for h
  by unfold_locales
     (auto simp: rbind_eq_Inr validate_operation_intent_iff dget_eq_JStr dest!: valid_intent_parts(5) intent_hashes_seal)

lemma validate_source_verification_Inr:
  "validate_source_verification h v = Inr d \<Longrightarrow>
     v = JObj d \<and> (\<exists>x. dget d ''verification_hash'' = JStr x \<and> is_sha256 x \<and>
        canonical_json_hash h [''verification_hash''] True v = Inr x)"
  by (auto simp: validate_source_verification_def rbind_eq_Inr res_simps au_canonical_hash_def dget_def
      split: if_splits)

interpretation op_verification: sealed_record h "''verification_hash''" True
  "\<lambda>v. rbind (validate_source_verification h v) (\<lambda>d. Inr (JObj d))" for h
  by unfold_locales (auto simp: rbind_eq_Inr dget_eq_JStr dest!: validate_source_verification_Inr)

lemma validate_operation_result_Inr:
  "validate_operation_result h v = Inr d \<Longrightarrow>
     v = JObj d \<and> (dget d ''outcome'' = JStr ''completed'') = (dget d ''event_hash'' \<noteq> JNull) \<and>
     (\<exists>x. dget d ''result_hash'' = JStr x \<and> canonical_json_hash h [''result_hash''] True v = Inr x)"
  by (auto simp: validate_operation_result_def rbind_eq_Inr res_simps ditem_Inr au_canonical_hash_def dget_def
      split: if_splits)

interpretation op_outcome: sealed_record h "''result_hash''" True
  "\<lambda>v. rbind (validate_operation_result h v) (\<lambda>d. Inr (JObj d))" for h
  by unfold_locales (auto simp: rbind_eq_Inr dget_eq_JStr dest!: validate_operation_result_Inr)

lemma validate_operation_commit_marker_Inr:
  "validate_operation_commit_marker h v = Inr m \<longleftrightarrow>
     v = JObj m \<and> validate_marker_envelope h v = Inr v \<and> dget m ''evidence_kind'' \<in> JStr ` set evidence_kinds \<and>
     (\<exists>d. dget m ''metadata'' = JObj d \<and> same_keys d [''operation_type''])"
  by (auto simp: validate_operation_commit_marker_def split: sum.splits exn.splits json.splits if_splits
      dest: validate_marker_id)

section \<open>What the builders return\<close>

lemma build_operation_intent_Inr:
  assumes "build_operation_intent h a n = Inr op"
  shows "valid_intent h op" and "dget op ''schema_version'' = JStr ''1.1''" and "op_attempt op = n"
    and "\<exists>payload. op_key_payload h a = Inr payload \<and>
      rbind (au_canonical_hash h [] (JObj payload)) (\<lambda>key. Inr (JStr key)) = Inr (dget op ''operation_key'')"
  using assms
  by (auto simp: build_operation_intent_def rbind_eq_Inr Let_def validate_operation_intent_iff
      au_int_from_Inr dget_def op_attempt_def dset_def)

lemma build_key_independent:
  "build_operation_intent h a m = Inr op \<Longrightarrow> build_operation_intent h a n = Inr op' \<Longrightarrow>
     dget op ''operation_key'' = dget op' ''operation_key''"
  by (drule build_operation_intent_Inr(4))+ auto

lemma build_source_verification_Inr:
  assumes "build_source_verification h op s l t = Inr v"
  shows "valid_intent h op" and "validate_source_verification h (JObj v) = Inr v"
    and "dget v ''operation_id'' = dget op ''operation_id''" and "dget v ''intent_hash'' = dget op ''intent_hash''"
proof -
  from assms obtain snapshot lease verified digest where op: "valid_intent h op"
    and v: "validate_source_verification h (JObj (dset ''verification_hash'' (JStr digest)
       [(''schema_version'', JStr ''1.0''), (''operation_id'', dget op ''operation_id''),
        (''intent_hash'', dget op ''intent_hash''), (''source_snapshot_hash'', snapshot),
        (''lease_hash'', lease), (''verified_at'', JStr verified)])) = Inr v"
    by (auto simp: build_source_verification_def rbind_eq_Inr Let_def validate_operation_intent_iff)
  from validate_source_verification_Inr [OF v]
  have e: "v = dset ''verification_hash'' (JStr digest)
       [(''schema_version'', JStr ''1.0''), (''operation_id'', dget op ''operation_id''),
        (''intent_hash'', dget op ''intent_hash''), (''source_snapshot_hash'', snapshot),
        (''lease_hash'', lease), (''verified_at'', JStr verified)]" by simp
  from op v show "valid_intent h op" "validate_source_verification h (JObj v) = Inr v"
    "dget v ''operation_id'' = dget op ''operation_id''" "dget v ''intent_hash'' = dget op ''intent_hash''"
    by (simp_all add: e) (simp_all add: dget_def)
qed

lemma build_operation_result_Inr:
  assumes "build_operation_result h op outcome e l t = Inr r"
  shows "valid_intent h op" and "validate_operation_result h (JObj r) = Inr r"
    and "dget r ''operation_id'' = dget op ''operation_id''" and "dget r ''intent_hash'' = dget op ''intent_hash''"
    and "dget r ''outcome'' = JStr outcome"
proof -
  from assms obtain event lease completed digest where op: "valid_intent h op"
    and v: "validate_operation_result h (JObj (dset ''result_hash'' (JStr digest)
       [(''schema_version'', JStr ''1.0''), (''operation_id'', dget op ''operation_id''),
        (''intent_hash'', dget op ''intent_hash''), (''outcome'', JStr outcome),
        (''event_hash'', event), (''lease_hash'', lease), (''completed_at'', JStr completed)])) = Inr r"
    by (auto simp: build_operation_result_def rbind_eq_Inr Let_def validate_operation_intent_iff)
  from validate_operation_result_Inr [OF v]
  have e: "r = dset ''result_hash'' (JStr digest)
       [(''schema_version'', JStr ''1.0''), (''operation_id'', dget op ''operation_id''),
        (''intent_hash'', dget op ''intent_hash''), (''outcome'', JStr outcome),
        (''event_hash'', event), (''lease_hash'', lease), (''completed_at'', JStr completed)]" by simp
  from op v show "valid_intent h op" "validate_operation_result h (JObj r) = Inr r"
    "dget r ''operation_id'' = dget op ''operation_id''" "dget r ''intent_hash'' = dget op ''intent_hash''"
    "dget r ''outcome'' = JStr outcome"
    by (simp_all add: e) (simp_all add: dget_def)
qed

text \<open>A marker that belongs to the intent.\<close>

definition marker_of :: "host \<Rightarrow> dict \<Rightarrow> dict \<Rightarrow> bool" where
  "marker_of h op m \<longleftrightarrow> validate_operation_commit_marker h (JObj m) = Inr m \<and>
     dget m ''transaction_id'' = dget op ''operation_id'' \<and> dget m ''intent_hash'' = dget op ''intent_hash'' \<and>
     hash_of ''operation_type'' (dget m ''metadata'') = dget op ''operation_type''"

lemma build_operation_commit_marker_Inr:
  assumes "build_operation_commit_marker h op k e = Inr m"
  shows "valid_intent h op" and "marker_of h op m" and "dget m ''evidence_kind'' = JStr k" and "dget m ''evidence_hash'' = e"
    and "json_sha256 e" and "dget op ''schema_version'' = JStr ''1.1''"
proof -
  from assms have op: "valid_intent h op" and ver: "dget op ''schema_version'' = JStr ''1.1''"
    and k: "k \<in> set evidence_kinds" and sha: "json_sha256 e"
    and b: "build_marker_envelope h (dget op ''operation_id'') (dget op ''intent_hash'') (JStr k) e
              (Some [(''operation_type'', dget op ''operation_type'')]) = Inr (JObj m)"
    by (auto simp: build_operation_commit_marker_def rbind_eq_Inr validate_operation_intent_iff au_sha256_Inr case_obj_Inr)
  from valid_intent_id [OF op] valid_intent_hash [OF op] json_sha256D [OF sha]
  obtain i x where s: "dget op ''operation_id'' = JStr (op_id_of op)" "dget op ''intent_hash'' = JStr i" "e = JStr x" by auto
  note f = build_marker_fields [OF b]
  show "valid_intent h op" "dget m ''evidence_kind'' = JStr k" "dget m ''evidence_hash'' = e"
    "json_sha256 e" "dget op ''schema_version'' = JStr ''1.1''"
    using op f s sha ver by simp_all
  show "marker_of h op m"
    using f s k by (simp add: marker_of_def validate_operation_commit_marker_Inr same_keys_set dkeys_def dget_def)
qed

section \<open>Directories of a journal\<close>

text \<open>
  The phases of an operation, which the two files decide: the commit marker and the result.
\<close>

datatype op_phase = Pending | Marked | Completed | RolledBack

definition phase_of :: "files \<Rightarrow> op_phase" where
  "phase_of fs =
     (if map_of fs ''result.json'' = None
      then (if map_of fs ''commit.marker'' = None then Pending else Marked)
      else (if map_of fs ''commit.marker'' = None then RolledBack else Completed))"

definition marker_file_ok :: "host \<Rightarrow> dict \<Rightarrow> files \<Rightarrow> bool" where
  "marker_file_ok h op fs \<longleftrightarrow>
     (\<forall>f. map_of fs ''commit.marker'' = Some f \<longrightarrow> (\<exists>m. f = Doc (JObj m) \<and> marker_of h op m \<and>
        (if source_guarded op
         then dget m ''evidence_kind'' = JStr ''source_verified'' \<and>
              (\<exists>v. map_of fs ''source-verified.json'' = Some (Doc (JObj v)) \<and>
                   dget m ''evidence_hash'' = dget v ''verification_hash'')
         else dget m ''evidence_kind'' = JStr ''terminal_preconditions'' \<and>
              dget m ''evidence_hash'' = dget op ''intent_hash'')))"

definition verification_of :: "host \<Rightarrow> dict \<Rightarrow> dict \<Rightarrow> bool" where
  "verification_of h op v \<longleftrightarrow> validate_source_verification h (JObj v) = Inr v \<and>
     dget v ''operation_id'' = dget op ''operation_id'' \<and> dget v ''intent_hash'' = dget op ''intent_hash''"

definition verification_file_ok :: "host \<Rightarrow> dict \<Rightarrow> files \<Rightarrow> bool" where
  "verification_file_ok h op fs \<longleftrightarrow>
     (\<forall>f. map_of fs ''source-verified.json'' = Some f \<longrightarrow>
        source_guarded op \<and> (\<exists>v. f = Doc (JObj v) \<and> verification_of h op v))"

definition result_of :: "host \<Rightarrow> dict \<Rightarrow> dict \<Rightarrow> bool" where
  "result_of h op r \<longleftrightarrow> validate_operation_result h (JObj r) = Inr r \<and>
     dget r ''operation_id'' = dget op ''operation_id'' \<and> dget r ''intent_hash'' = dget op ''intent_hash''"

definition result_file_ok :: "host \<Rightarrow> dict \<Rightarrow> files \<Rightarrow> bool" where
  "result_file_ok h op fs \<longleftrightarrow>
     (\<forall>f. map_of fs ''result.json'' = Some f \<longrightarrow> (\<exists>r. f = Doc (JObj r) \<and> result_of h op r \<and>
        dget r ''outcome'' = JStr (if map_of fs ''commit.marker'' = None then ''rolled_back'' else ''completed'')))"

definition operation_ok :: "host \<Rightarrow> dict \<Rightarrow> files \<Rightarrow> bool" where
  "operation_ok h op fs \<longleftrightarrow> map_of fs ''intent.json'' = Some (Doc (JObj op)) \<and> valid_intent h op \<and>
     dget op ''schema_version'' = JStr ''1.1'' \<and>
     marker_file_ok h op fs \<and> verification_file_ok h op fs \<and> result_file_ok h op fs"

definition journal_ok :: "host \<Rightarrow> journal \<Rightarrow> bool" where
  "journal_ok h j \<longleftrightarrow> distinct (map fst j) \<and>
     (\<forall>(op_id, fs) \<in> set j. \<exists>op. operation_ok h op fs \<and> op_id_of op = op_id)"

text \<open>What the methods return in such a directory.\<close>

lemma op_file_of: "map_of j (op_id_of op) = Some fs \<Longrightarrow> op_file name op j = map_of fs name"
  by (simp add: op_file_def op_files_def)

lemma commit_marker_of:
  assumes "operation_ok h op fs" and "map_of j (op_id_of op) = Some fs"
  shows "commit_marker h op j = Inr (case map_of fs ''commit.marker'' of Some (Doc (JObj m)) \<Rightarrow> Some m | _ \<Rightarrow> None)"
  using assms
  by (cases "map_of fs ''commit.marker''")
     (auto simp: commit_marker_def operation_ok_def valid_intent_def op_file_of marker_file_ok_def marker_of_def
       load_json_object_def split: if_splits)

lemma source_verification_of:
  assumes ok: "operation_ok h op fs" and j: "map_of j (op_id_of op) = Some fs"
  shows "source_verification h op j = Inr (if map_of fs ''commit.marker'' = None then None
           else (case map_of fs ''source-verified.json'' of Some (Doc (JObj v)) \<Rightarrow> Some v | _ \<Rightarrow> None))"
proof -
  from ok have op: "validate_operation_intent h (JObj op) = Inr op" "dget op ''schema_version'' = JStr ''1.1''"
    and mk: "marker_file_ok h op fs" and vf: "verification_file_ok h op fs"
    by (simp_all add: operation_ok_def valid_intent_def)
  note c = commit_marker_of [OF ok j]
  show ?thesis
  proof (cases "map_of fs ''commit.marker''")
    case None
    with op c show ?thesis by (simp add: source_verification_def source_marker_def)
  next
    case (Some f)
    with mk obtain m where m: "f = Doc (JObj m)" "marker_of h op m"
      and g: "source_guarded op \<Longrightarrow> dget m ''evidence_kind'' = JStr ''source_verified'' \<and>
          (\<exists>v. map_of fs ''source-verified.json'' = Some (Doc (JObj v)) \<and> dget m ''evidence_hash'' = dget v ''verification_hash'')"
      and ng: "\<not> source_guarded op \<Longrightarrow> dget m ''evidence_kind'' = JStr ''terminal_preconditions''"
      by (auto simp: marker_file_ok_def split: if_splits)
    show ?thesis
    proof (cases "source_guarded op")
      case True
      from g [OF True] obtain v where v: "map_of fs ''source-verified.json'' = Some (Doc (JObj v))"
        and e: "dget m ''evidence_hash'' = dget v ''verification_hash''" and k: "dget m ''evidence_kind'' = JStr ''source_verified''" by auto
      from vf v have "verification_of h op v" by (auto simp: verification_file_ok_def)
      with v e k m(1) Some op c j show ?thesis
        by (simp add: source_verification_def source_marker_def op_file_of verified_file_def
            verification_of_def load_json_object_def)
    next
      case False
      with vf have "map_of fs ''source-verified.json'' = None"
        by (cases "map_of fs ''source-verified.json''") (auto simp: verification_file_ok_def)
      with ng [OF False] m Some op c show ?thesis
        by (simp add: source_verification_def source_marker_def)
    qed
  qed
qed

lemma marker_present_of:
  assumes ok: "operation_ok h op fs" and j: "map_of j (op_id_of op) = Some fs"
  shows "marker_present h op j = Inr (map_of fs ''commit.marker'' \<noteq> None)"
proof -
  from ok have ver: "dget op ''schema_version'' = JStr ''1.1''" and mk: "marker_file_ok h op fs"
    by (simp_all add: operation_ok_def)
  show ?thesis
  proof (cases "map_of fs ''commit.marker''")
    case None
    with ver commit_marker_of [OF ok j] show ?thesis by (simp add: marker_present_def)
  next
    case (Some f)
    with ver mk commit_marker_of [OF ok j] source_verification_of [OF ok j] show ?thesis
      by (cases "source_guarded op") (auto simp: marker_present_def marker_file_ok_def)
  qed
qed

lemma load_result_of:
  assumes "operation_ok h op fs" and "map_of j (op_id_of op) = Some fs"
  shows "load_result h op j = Inr (case map_of fs ''result.json'' of Some (Doc (JObj r)) \<Rightarrow> Some r | _ \<Rightarrow> None)"
  using assms
  by (cases "map_of fs ''result.json''")
     (auto simp: load_result_def operation_ok_def op_file_of result_file_ok_def result_of_def load_json_object_def)

lemma op_result_of:
  assumes ok: "operation_ok h op fs" and j: "map_of j (op_id_of op) = Some fs"
  shows "op_result h op j = Inr (case map_of fs ''result.json'' of Some (Doc (JObj r)) \<Rightarrow> Some r | _ \<Rightarrow> None)"
proof -
  from ok have op: "validate_operation_intent h (JObj op) = Inr op" "dget op ''schema_version'' = JStr ''1.1''"
    and rf: "result_file_ok h op fs" by (simp_all add: operation_ok_def valid_intent_def)
  note l = load_result_of [OF ok j] and m = marker_present_of [OF ok j]
  show ?thesis
  proof (cases "map_of fs ''result.json''")
    case None
    with op l show ?thesis by (simp add: op_result_def)
  next
    case (Some f)
    with rf obtain r where r: "f = Doc (JObj r)"
      and "dget r ''outcome'' = JStr (if map_of fs ''commit.marker'' = None then ''rolled_back'' else ''completed'')"
      by (auto simp: result_file_ok_def)
    with op l m Some show ?thesis
      by (simp add: op_result_def recovery_decision_for_def decide_marker_recovery_def)
  qed
qed

lemma result_pending:
  assumes ok: "operation_ok h op fs" and j: "map_of j (op_id_of op) = Some fs"
  shows "op_result h op j = Inr None \<longleftrightarrow> map_of fs ''result.json'' = None"
  using op_result_of [OF ok j] ok by (auto simp: operation_ok_def result_file_ok_def split: option.splits)

lemma load_intent_of:
  assumes ok: "operation_ok h op fs" and j: "map_of j (op_id_of op) = Some fs"
  shows "load_intent h j (op_id_of op, fs) = Inr op"
proof -
  from ok have op: "validate_operation_intent h (JObj op) = Inr op" "dget op ''schema_version'' = JStr ''1.1''"
    and i: "map_of fs ''intent.json'' = Some (Doc (JObj op))"
    and vf: "verification_file_ok h op fs" and rf: "result_file_ok h op fs"
    by (simp_all add: operation_ok_def valid_intent_def)
  obtain w where w: "source_verification h op j = Inr w"
    and gw: "\<forall>v. w = Some v \<longrightarrow> source_guarded op \<and> dget v ''intent_hash'' = dget op ''intent_hash''"
    using source_verification_of [OF ok j] vf
    by (cases "map_of fs ''source-verified.json''") (auto simp: verification_file_ok_def verification_of_def)
  obtain u where u: "op_result h op j = Inr u"
    and gu: "\<forall>r. u = Some r \<longrightarrow> dget r ''intent_hash'' = dget op ''intent_hash''"
    using op_result_of [OF ok j] rf
    by (cases "map_of fs ''result.json''") (auto simp: result_file_ok_def result_of_def)
  have "check_loaded_result op u = Inr ()"
    using gu by (auto simp: check_loaded_result_def split: option.splits)
  moreover have "check_loaded_evidence op u w = Inr ()"
    using gw op by (auto simp: check_loaded_evidence_def split: option.splits)
  ultimately show ?thesis
    using op i w u valid_intent_id [of h op] by (simp add: load_intent_def load_json_object_def valid_intent_def)
qed

section \<open>Listing a journal\<close>

lemma journal_okD:
  assumes "journal_ok h j" and "(op_id, fs) \<in> set j"
  shows "\<exists>op. operation_ok h op fs \<and> op_id_of op = op_id \<and> map_of j op_id = Some fs"
  using assms by (fastforce simp: journal_ok_def)

lemma journal_ok_lookup:
  assumes "journal_ok h j" and "map_of j op_id = Some fs"
  shows "\<exists>op. operation_ok h op fs \<and> op_id_of op = op_id"
  using assms map_of_SomeD by (fastforce simp: journal_ok_def)

lemma list_intents_of:
  assumes "journal_ok h j"
  shows "\<exists>ops. list_intents h j = Inr ops \<and>
     (\<forall>op. op \<in> set ops \<longleftrightarrow> (\<exists>fs. map_of j (op_id_of op) = Some fs \<and> operation_ok h op fs))"
proof -
  have load: "\<exists>op. load_intent h j x = Inr op" if "x \<in> set j" for x
    using journal_okD [OF assms] load_intent_of that by (cases x) fastforce
  let ?ops = "map (projr \<circ> load_intent h j) (sort_key fst j)"
  from load have "list_intents h j = Inr ?ops" unfolding list_intents_def by (intro rmap_total) simp
  moreover have "op \<in> set ?ops \<longleftrightarrow> (\<exists>fs. map_of j (op_id_of op) = Some fs \<and> operation_ok h op fs)" for op
  proof
    assume "op \<in> set ?ops"
    then obtain op_id fs where x: "(op_id, fs) \<in> set j" and op: "op = projr (load_intent h j (op_id, fs))" by force
    from journal_okD [OF assms x] obtain p where p: "operation_ok h p fs" "op_id_of p = op_id" "map_of j op_id = Some fs" by blast
    with load_intent_of [OF p(1), of j] op show "\<exists>fs. map_of j (op_id_of op) = Some fs \<and> operation_ok h op fs" by auto
  next
    assume "\<exists>fs. map_of j (op_id_of op) = Some fs \<and> operation_ok h op fs"
    then obtain fs where fs: "map_of j (op_id_of op) = Some fs" "operation_ok h op fs" by blast
    with load_intent_of [OF fs(2,1)] show "op \<in> set ?ops"
      by (auto simp: image_iff intro!: bexI [of _ "(op_id_of op, fs)"] dest: map_of_SomeD)
  qed
  ultimately show ?thesis by blast
qed

lemma operation_ok_unique: "operation_ok h op fs \<Longrightarrow> operation_ok h p fs \<Longrightarrow> p = op"
  by (simp add: operation_ok_def)

section \<open>Steps of the journal\<close>

text \<open>
  One operation on the journal, or the first half of \<open>mark_source_verified\<close> where the process ends
  between the two artifacts. As in \<open>core/autonomy/session.py\<close>, which holds the remap fence from the
  intent to the result, only a pending operation is marked, with the evidence of its type, and an
  operation is finished as completed or rolled back.
\<close>

definition is_open :: "host \<Rightarrow> dict \<Rightarrow> journal \<Rightarrow> bool" where
  "is_open h op j \<longleftrightarrow> (case list_intents h j of Inl _ \<Rightarrow> False | Inr ops \<Rightarrow> op \<in> set ops) \<and> op_result h op j = Inr None"

inductive op_step :: "host \<Rightarrow> journal \<Rightarrow> journal \<Rightarrow> bool" for h where
  begin_step: "begin_op h a j = Inr (op, j') \<Longrightarrow> op_step h j j'"
| evidence_step: "\<lbrakk>is_open h op j; source_guarded op; write_verification h op s l t j = Inr (v, j')\<rbrakk> \<Longrightarrow> op_step h j j'"
| verified_step: "\<lbrakk>is_open h op j; source_guarded op; mark_source_verified h op s l t j = (Inr v, j')\<rbrakk> \<Longrightarrow> op_step h j j'"
| ready_step: "\<lbrakk>is_open h op j; mark_terminal_ready h op j = Inr (m, j')\<rbrakk> \<Longrightarrow> op_step h j j'"
| finish_step: "\<lbrakk>list_intents h j = Inr ops; op \<in> set ops; outcome \<in> {''completed'', ''rolled_back''};
     finish_op h op outcome e l t j = Inr (r, j')\<rbrakk> \<Longrightarrow> op_step h j j'"

text \<open>The protocol of one operation, and of a journal of operations.\<close>

inductive phase_step :: "op_phase \<Rightarrow> op_phase \<Rightarrow> bool" where
  "phase_step Pending Marked"
| "phase_step Marked Completed"
| "phase_step Pending RolledBack"

definition phases :: "journal \<Rightarrow> string \<rightharpoonup> op_phase" where
  "phases j = map_option phase_of \<circ> map_of j"

inductive protocol_step :: "(string \<rightharpoonup> op_phase) \<Rightarrow> (string \<rightharpoonup> op_phase) \<Rightarrow> bool" where
  stutter: "protocol_step m m"
| created: "op_id \<notin> dom m \<Longrightarrow> protocol_step m (m(op_id \<mapsto> Pending))"
| moved: "\<lbrakk>m op_id = Some p; phase_step p q\<rbrakk> \<Longrightarrow> protocol_step m (m(op_id \<mapsto> q))"

section \<open>Every step keeps the journal and follows the protocol\<close>

lemma phases_update: "phases (AList.update op_id fs j) = (phases j)(op_id \<mapsto> phase_of fs)"
  by (auto simp: phases_def update_conv' fun_eq_iff)

lemma journal_ok_update:
  assumes "journal_ok h j" and "operation_ok h op fs" and "op_id_of op = op_id"
  shows "journal_ok h (AList.update op_id fs j)"
proof -
  have d: "distinct (map fst (AList.update op_id fs j))"
    using assms(1) by (simp add: journal_ok_def distinct_update)
  have "\<exists>op. operation_ok h op gs \<and> op_id_of op = k" if "(k, gs) \<in> set (AList.update op_id fs j)" for k gs
  proof -
    from that d have "map_of (AList.update op_id fs j) k = Some gs" by simp
    then show ?thesis
      using assms journal_ok_lookup [OF assms(1)] by (auto simp: update_conv' split: if_splits)
  qed
  with d show ?thesis by (auto simp: journal_ok_def)
qed

lemma phase_of_snoc:
  "map_of fs n = None \<Longrightarrow> phase_of (fs @ [(n, d)]) =
     (if n = ''commit.marker'' then (if map_of fs ''result.json'' = None then Marked else Completed)
      else if n = ''result.json'' then (if map_of fs ''commit.marker'' = None then RolledBack else Completed)
      else phase_of fs)"
  by (auto simp: phase_of_def map_add_def split: option.splits)

lemma map_of_snoc: "map_of fs n = None \<Longrightarrow> map_of (fs @ [(n, d)]) k = (if k = n then Some d else map_of fs k)"
  by (auto simp: map_add_def split: option.splits)

text \<open>An append either finds the document or adds the file.\<close>

lemma journal_append_cases:
  assumes "journal_append op_id n p j = Inr j'"
  obtains (old) d where "map_of (op_files op_id j) n = Some (Doc (JObj d))" and "py_eq (JObj d) (JObj p)"
      and "j' = AList.update op_id (op_files op_id j) j"
  | (new) "map_of (op_files op_id j) n = None"
      and "j' = AList.update op_id (op_files op_id j @ [(n, Doc (JObj p))]) j"
  using assms
  by (auto simp: journal_append_def atomic_append_json_def rbind_eq_Inr load_json_object_Inr split: option.splits if_splits)

lemma update_same: "map_of j k = Some fs \<Longrightarrow> AList.update k fs j = j"
  by (induction j) auto

lemma file_ok_frame:
  assumes "map_of fs n = None"
  shows "n \<noteq> ''commit.marker'' \<Longrightarrow> n \<noteq> ''source-verified.json'' \<or> map_of fs ''commit.marker'' = None \<Longrightarrow>
      marker_file_ok h op (fs @ [(n, d)]) = marker_file_ok h op fs"
    and "n \<noteq> ''source-verified.json'' \<Longrightarrow> verification_file_ok h op (fs @ [(n, d)]) = verification_file_ok h op fs"
    and "n \<noteq> ''result.json'' \<Longrightarrow> n \<noteq> ''commit.marker'' \<or> map_of fs ''result.json'' = None \<Longrightarrow>
      result_file_ok h op (fs @ [(n, d)]) = result_file_ok h op fs"
    and "n \<noteq> ''intent.json'' \<Longrightarrow> map_of (fs @ [(n, d)]) ''intent.json'' = map_of fs ''intent.json''"
  using assms
  by (auto simp: marker_file_ok_def verification_file_ok_def result_file_ok_def map_of_snoc simp del: map_of_append)

lemma add_verification:
  assumes ok: "operation_ok h op fs" and v: "verification_of h op v" and g: "source_guarded op"
    and n: "map_of fs ''source-verified.json'' = None"
  shows "operation_ok h op (fs @ [(''source-verified.json'', Doc (JObj v))])"
proof -
  from ok n g have "map_of fs ''commit.marker'' = None"
    by (cases "map_of fs ''commit.marker''") (auto simp: operation_ok_def marker_file_ok_def)
  with ok n file_ok_frame [OF n] show ?thesis
    using v g by (simp add: operation_ok_def verification_file_ok_def map_of_snoc del: map_of_append)
qed

lemma add_marker:
  assumes ok: "operation_ok h op fs" and m: "marker_of h op m"
    and r: "map_of fs ''result.json'' = None" and n: "map_of fs ''commit.marker'' = None"
    and k: "if source_guarded op
         then dget m ''evidence_kind'' = JStr ''source_verified'' \<and>
              (\<exists>v. map_of fs ''source-verified.json'' = Some (Doc (JObj v)) \<and>
                   dget m ''evidence_hash'' = dget v ''verification_hash'')
         else dget m ''evidence_kind'' = JStr ''terminal_preconditions'' \<and>
              dget m ''evidence_hash'' = dget op ''intent_hash''"
  shows "operation_ok h op (fs @ [(''commit.marker'', Doc (JObj m))])"
proof -
  have "marker_file_ok h op (fs @ [(''commit.marker'', Doc (JObj m))])"
    using m k n by (auto simp: marker_file_ok_def map_of_snoc simp del: map_of_append)
  with ok r n file_ok_frame [OF n] show ?thesis by (simp add: operation_ok_def)
qed

lemma add_result:
  assumes ok: "operation_ok h op fs" and r: "result_of h op r" and n: "map_of fs ''result.json'' = None"
    and o: "dget r ''outcome'' = JStr (if map_of fs ''commit.marker'' = None then ''rolled_back'' else ''completed'')"
  shows "operation_ok h op (fs @ [(''result.json'', Doc (JObj r))])"
proof -
  have "result_file_ok h op (fs @ [(''result.json'', Doc (JObj r))])"
    using r o n by (auto simp: result_file_ok_def map_of_snoc simp del: map_of_append)
  with ok n file_ok_frame [OF n] show ?thesis by (simp add: operation_ok_def)
qed

lemma new_operation_ok:
  "valid_intent h op \<Longrightarrow> dget op ''schema_version'' = JStr ''1.1'' \<Longrightarrow>
     operation_ok h op [(''intent.json'', Doc (JObj op))] \<and> phase_of [(''intent.json'', Doc (JObj op))] = Pending"
  by (simp add: operation_ok_def marker_file_ok_def verification_file_ok_def result_file_ok_def phase_of_def)

lemma is_openD:
  assumes "journal_ok h j" and "is_open h op j"
  obtains fs where "operation_ok h op fs" and "map_of j (op_id_of op) = Some fs" and "map_of fs ''result.json'' = None"
proof -
  from list_intents_of [OF assms(1)] assms(2) obtain fs where fs: "map_of j (op_id_of op) = Some fs" "operation_ok h op fs"
    by (auto simp: is_open_def)
  with assms(2) result_pending [OF fs(2,1)] show ?thesis by (auto simp: is_open_def intro: that)
qed

text \<open>The two sides of the refinement, for one transition of the journal.\<close>

definition kept :: "host \<Rightarrow> journal \<Rightarrow> journal \<Rightarrow> bool" where
  "kept h j j' \<longleftrightarrow> journal_ok h j' \<and> protocol_step (phases j) (phases j')"

lemma kept_same: "journal_ok h j \<Longrightarrow> kept h j j"
  by (simp add: kept_def stutter)

lemma kept_extend:
  assumes "journal_ok h j" and "map_of j (op_id_of op) = Some fs" and "operation_ok h op gs"
    and "phase_of gs = phase_of fs \<or> phase_step (phase_of fs) (phase_of gs)"
  shows "kept h j (AList.update (op_id_of op) gs j)"
proof -
  have p: "phases j (op_id_of op) = Some (phase_of fs)" using assms(2) by (simp add: phases_def)
  from assms(4) have "protocol_step (phases j) ((phases j)(op_id_of op \<mapsto> phase_of gs))"
  proof
    assume "phase_of gs = phase_of fs"
    with p have "(phases j)(op_id_of op \<mapsto> phase_of gs) = phases j" by auto
    then show ?thesis by (simp only: stutter)
  qed (use moved p in blast)
  with journal_ok_update [OF assms(1,3)] show ?thesis by (simp add: kept_def phases_update)
qed

lemma case_singleton_Inr:
  "(case xs of [] \<Rightarrow> a | [x] \<Rightarrow> f x | x # y # zs \<Rightarrow> Inl e) = Inr z \<longleftrightarrow> (xs = [] \<and> a = Inr z) \<or> (\<exists>x. xs = [x] \<and> f x = Inr z)"
  by (auto split: list.splits)

lemma begin_op_Inr:
  "begin_op h a j = Inr (op, j') \<longleftrightarrow>
     (\<exists>prototype intents unfinished matching. build_operation_intent h a 1 = Inr prototype \<and> list_intents h j = Inr intents \<and>
        matching = filter (\<lambda>item. dget item ''operation_key'' = dget prototype ''operation_key'') intents \<and>
        without_result h j matching = Inr unfinished \<and>
        (unfinished = [] \<and> build_operation_intent h a (next_attempt matching) = Inr op \<and>
           journal_append (op_id_of op) ''intent.json'' op j = Inr j' \<or>
         unfinished = [op] \<and> j' = j))"
  by (auto simp: begin_op_def rbind_eq_Inr Let_def case_singleton_Inr)

lemma begin_op_cases:
  assumes "begin_op h a j = Inr (op, j')"
  obtains (found) "j' = j"
  | (new) "build_operation_intent h a (op_attempt op) = Inr op"
      and "journal_append (op_id_of op) ''intent.json'' op j = Inr j'"
proof -
  have "j' = j \<or> (\<exists>n. build_operation_intent h a n = Inr op \<and> journal_append (op_id_of op) ''intent.json'' op j = Inr j')"
    using assms by (auto simp: begin_op_Inr)
  then show ?thesis using build_operation_intent_Inr(3) found new by blast
qed

lemma begin_kept:
  assumes "journal_ok h j" and "begin_op h a j = Inr (op, j')"
  shows "kept h j j'"
  using assms(2)
proof (cases rule: begin_op_cases)
  case found
  then show ?thesis using assms(1) by (simp add: kept_same)
next
  case new
  note b = build_operation_intent_Inr [OF new(1)]
  from new(2) show ?thesis
  proof (cases rule: journal_append_cases)
    case (old d)
    then obtain fs where "map_of j (op_id_of op) = Some fs" by (auto simp: op_files_def split: option.splits)
    with old(3) assms(1) show ?thesis by (simp add: op_files_def update_same kept_same)
  next
    case append: new
    have n: "map_of j (op_id_of op) = None"
    proof (rule ccontr)
      assume "map_of j (op_id_of op) \<noteq> None"
      then obtain fs where fs: "map_of j (op_id_of op) = Some fs" by auto
      with journal_ok_lookup [OF assms(1) fs] append(1) show False by (auto simp: op_files_def operation_ok_def)
    qed
    with append(2) have j': "j' = AList.update (op_id_of op) [(''intent.json'', Doc (JObj op))] j" by (simp add: op_files_def)
    have d: "op_id_of op \<notin> dom (phases j)" using n by (simp add: phases_def dom_def)
    from new_operation_ok [OF b(1,2)] have ok: "operation_ok h op [(''intent.json'', Doc (JObj op))]"
      and ph: "phase_of [(''intent.json'', Doc (JObj op))] = Pending" by simp_all
    from journal_ok_update [OF assms(1) ok refl] created [OF d] show ?thesis
      by (simp add: kept_def j' phases_update ph)
  qed
qed

lemma evidence_kept:
  assumes "journal_ok h j" and "is_open h op j" and "source_guarded op" and "write_verification h op s l t j = Inr (v, j')"
  obtains fs gs d where "map_of j (op_id_of op) = Some fs" and "j' = AList.update (op_id_of op) gs j"
    and "operation_ok h op gs" and "phase_of gs = phase_of fs" and "map_of gs ''result.json'' = None"
    and "map_of gs ''source-verified.json'' = Some (Doc (JObj d))" and "dget d ''verification_hash'' = dget v ''verification_hash''"
proof -
  from assms(1,2) obtain fs where fs: "operation_ok h op fs" "map_of j (op_id_of op) = Some fs" "map_of fs ''result.json'' = None"
    by (elim is_openD)
  from assms(4) have b: "build_source_verification h op s l t = Inr v"
    and ap: "journal_append (op_id_of op) ''source-verified.json'' v j = Inr j'"
    by (auto simp: write_verification_def rbind_eq_Inr)
  note v = build_source_verification_Inr [OF b]
  from validate_source_verification_Inr [OF v(2)] obtain x where x: "dget v ''verification_hash'' = JStr x" by auto
  from ap show thesis
  proof (cases rule: journal_append_cases)
    case (old d)
    from old(1) fs(2) have d: "map_of fs ''source-verified.json'' = Some (Doc (JObj d))" by (simp add: op_files_def)
    with fs(1) have "verification_of h op d" by (auto simp: operation_ok_def verification_file_ok_def)
    then obtain y where y: "dget d ''verification_hash'' = JStr y"
      using validate_source_verification_Inr [of h "JObj d" d] by (auto simp: verification_of_def)
    have "dget d ''verification_hash'' = dget v ''verification_hash''"
      using py_eq_text [OF old(2) y] y by simp
    with old(3) fs d that show thesis by (simp add: op_files_def)
  next
    case new
    from new(1) fs(2) have n: "map_of fs ''source-verified.json'' = None" by (simp add: op_files_def)
    have "operation_ok h op (fs @ [(''source-verified.json'', Doc (JObj v))])"
      using fs(1) v(2,3,4) assms(3) n by (intro add_verification) (simp_all add: verification_of_def)
    moreover have "phase_of (fs @ [(''source-verified.json'', Doc (JObj v))]) = phase_of fs"
      by (subst phase_of_snoc [OF n]) simp
    ultimately show thesis using new(2) fs(2,3) n that
      by (simp add: op_files_def map_of_snoc del: map_of_append)
  qed
qed

lemma marker_kept:
  assumes "journal_ok h j" and fs: "operation_ok h op fs" "map_of j (op_id_of op) = Some fs" "map_of fs ''result.json'' = None"
    and b: "build_operation_commit_marker h op k e = Inr m"
    and ap: "journal_append (op_id_of op) ''commit.marker'' m j = Inr j'"
    and ev: "if source_guarded op
         then k = ''source_verified'' \<and>
              (\<exists>v. map_of fs ''source-verified.json'' = Some (Doc (JObj v)) \<and> e = dget v ''verification_hash'')
         else k = ''terminal_preconditions'' \<and> e = dget op ''intent_hash''"
  obtains gs where "j' = AList.update (op_id_of op) gs j" and "operation_ok h op gs"
    and "phase_of gs = Marked" and "phase_of fs = Pending \<or> phase_of fs = Marked"
proof -
  note m = build_operation_commit_marker_Inr [OF b]
  have ph: "phase_of fs = Pending \<or> phase_of fs = Marked" using fs(3) by (simp add: phase_of_def)
  from ap show thesis
  proof (cases rule: journal_append_cases)
    case (old d)
    with fs that ph show thesis by (simp add: op_files_def phase_of_def)
  next
    case new
    from new(1) fs(2) have n: "map_of fs ''commit.marker'' = None" by (simp add: op_files_def)
    have "operation_ok h op (fs @ [(''commit.marker'', Doc (JObj m))])"
      using m ev by (intro add_marker fs n) (auto split: if_splits)
    moreover have "phase_of (fs @ [(''commit.marker'', Doc (JObj m))]) = Marked"
      using fs(3) by (subst phase_of_snoc [OF n]) simp
    ultimately show thesis using new(2) fs(2) that ph by (simp add: op_files_def del: map_of_append)
  qed
qed

lemma verified_kept:
  assumes "journal_ok h j" and "is_open h op j" and "source_guarded op"
    and "mark_source_verified h op s l t j = (Inr v, j')"
  shows "kept h j j'"
proof -
  from assms(4) obtain v' i where w: "write_verification h op s l t j = Inr (v', i)" and op: "valid_intent h op"
    and rest: "(if dget op ''schema_version'' = JStr ''1.1''
                then rbind (build_operation_commit_marker h op ''source_verified'' (dget v' ''verification_hash'')) (\<lambda>commit.
                     journal_append (op_id_of op) ''commit.marker'' commit i)
                else Inr i) = Inr j'"
    by (auto simp: mark_source_verified_def rbind_eq_Inr validate_operation_intent_iff split: sum.splits)
  from evidence_kept [OF assms(1-3) w] obtain fs gs d where fs: "map_of j (op_id_of op) = Some fs"
    and i: "i = AList.update (op_id_of op) gs j" and gs: "operation_ok h op gs" and ph: "phase_of gs = phase_of fs"
    and r: "map_of gs ''result.json'' = None"
    and d: "map_of gs ''source-verified.json'' = Some (Doc (JObj d))" "dget d ''verification_hash'' = dget v' ''verification_hash''"
    by blast
  from gs rest obtain c where b: "build_operation_commit_marker h op ''source_verified'' (dget v' ''verification_hash'') = Inr c"
    and ap: "journal_append (op_id_of op) ''commit.marker'' c i = Inr j'"
    by (auto simp: operation_ok_def rbind_eq_Inr)
  have iok: "journal_ok h i" unfolding i by (rule journal_ok_update [OF assms(1) gs refl])
  have ig: "map_of i (op_id_of op) = Some gs" by (simp add: i update_conv')
  from marker_kept [OF iok gs ig r b ap] assms(3) d obtain hs where
    j': "j' = AList.update (op_id_of op) hs i" and hs: "operation_ok h op hs" "phase_of hs = Marked"
    and p: "phase_of gs = Pending \<or> phase_of gs = Marked" by auto
  have "j' = AList.update (op_id_of op) hs j" by (simp add: j' i)
  moreover have "kept h j (AList.update (op_id_of op) hs j)"
    using p ph hs(2) by (intro kept_extend [OF assms(1) fs hs(1)]) (auto intro: phase_step.intros)
  ultimately show ?thesis by simp
qed

lemma ready_kept:
  assumes "journal_ok h j" and "is_open h op j" and "mark_terminal_ready h op j = Inr (m, j')"
  shows "kept h j j'"
proof -
  from assms(1,2) obtain fs where fs: "operation_ok h op fs" "map_of j (op_id_of op) = Some fs" "map_of fs ''result.json'' = None"
    by (elim is_openD)
  from fs(1) assms(3) obtain c where ng: "\<not> source_guarded op"
    and b: "build_operation_commit_marker h op ''terminal_preconditions'' (dget op ''intent_hash'') = Inr c"
    and ap: "journal_append (op_id_of op) ''commit.marker'' c j = Inr j'"
    by (auto simp: mark_terminal_ready_def rbind_eq_Inr operation_ok_def valid_intent_def)
  from marker_kept [OF assms(1) fs b ap] ng obtain gs where
    j': "j' = AList.update (op_id_of op) gs j" and gs: "operation_ok h op gs" "phase_of gs = Marked"
    and p: "phase_of fs = Pending \<or> phase_of fs = Marked" by auto
  show ?thesis unfolding j'
    using p gs(2) by (intro kept_extend [OF assms(1) fs(2) gs(1)]) (auto intro: phase_step.intros)
qed

lemma finish_op_Inr:
  "finish_op h op outcome e l t j = Inr (r, j') \<longleftrightarrow>
     (\<exists>candidate. build_operation_result h op outcome e l t = Inr candidate \<and>
        (op_result h op j = Inr (Some r) \<and> py_eq (JObj r) (JObj candidate) \<and> j' = j \<or>
         (\<exists>decision. op_result h op j = Inr None \<and> recovery_decision_of h op j = Inr decision \<and>
            check_outcome outcome decision = Inr () \<and> r = candidate \<and>
            journal_append (op_id_of op) ''result.json'' r j = Inr j')))"
proof
  assume "finish_op h op outcome e l t j = Inr (r, j')"
  then show "\<exists>candidate. build_operation_result h op outcome e l t = Inr candidate \<and>
        (op_result h op j = Inr (Some r) \<and> py_eq (JObj r) (JObj candidate) \<and> j' = j \<or>
         (\<exists>decision. op_result h op j = Inr None \<and> recovery_decision_of h op j = Inr decision \<and>
            check_outcome outcome decision = Inr () \<and> r = candidate \<and>
            journal_append (op_id_of op) ''result.json'' r j = Inr j'))"
    by (fastforce simp: finish_op_def rbind_eq_Inr validate_operation_intent_iff split: option.splits if_splits)
qed (auto simp: finish_op_def rbind_eq_Inr validate_operation_intent_iff dest: build_operation_result_Inr(1))

lemma finish_kept:
  assumes "journal_ok h j" and "list_intents h j = Inr ops" and "op \<in> set ops" and "outcome \<in> {''completed'', ''rolled_back''}"
    and "finish_op h op outcome e l t j = Inr (r, j')"
  shows "kept h j j'"
proof -
  from list_intents_of [OF assms(1)] assms(2,3) obtain fs where fs: "operation_ok h op fs" "map_of j (op_id_of op) = Some fs" by auto
  from assms(5) [unfolded finish_op_Inr] consider "j' = j"
    | decision where "build_operation_result h op outcome e l t = Inr r" "op_result h op j = Inr None"
      "recovery_decision_of h op j = Inr decision" "check_outcome outcome decision = Inr ()"
      "journal_append (op_id_of op) ''result.json'' r j = Inr j'" by blast
  then show ?thesis
  proof cases
    case 1
    then show ?thesis using assms(1) by (simp add: kept_same)
  next
    case 2
    note b = build_operation_result_Inr [OF 2(1)]
    from 2(2) result_pending [OF fs] have n: "map_of fs ''result.json'' = None" by simp
    have "decision = (if map_of fs ''commit.marker'' = None then ROLL_BACK else ROLL_FORWARD)"
      using 2(3) load_result_of [OF fs] marker_present_of [OF fs] n b(1)
      by (auto simp: recovery_decision_of_def recovery_decision_for_def valid_intent_def decide_marker_recovery_def)
    with 2(4) assms(4) have o: "outcome = (if map_of fs ''commit.marker'' = None then ''rolled_back'' else ''completed'')"
      by (auto simp: check_outcome_def split: if_splits)
    have gs: "operation_ok h op (fs @ [(''result.json'', Doc (JObj r))])"
      using b o by (intro add_result fs n) (simp_all add: result_of_def)
    have "phase_step (phase_of fs) (phase_of (fs @ [(''result.json'', Doc (JObj r))]))"
      unfolding phase_of_snoc [OF n] using n by (auto simp: phase_of_def intro: phase_step.intros)
    with kept_extend [OF assms(1) fs(2) gs] have "kept h j (AList.update (op_id_of op) (fs @ [(''result.json'', Doc (JObj r))]) j)"
      by blast
    moreover have "j' = AList.update (op_id_of op) (fs @ [(''result.json'', Doc (JObj r))]) j"
      using 2(5) n fs(2) by (cases rule: journal_append_cases) (auto simp: op_files_def)
    ultimately show ?thesis by simp
  qed
qed

lemma op_step_kept:
  assumes "op_step h j j'" and "journal_ok h j"
  shows "kept h j j'"
  using assms
proof (cases rule: op_step.cases)
  case (evidence_step op s l t v)
  from evidence_kept [OF assms(2) evidence_step] obtain fs gs where
    "map_of j (op_id_of op) = Some fs" "j' = AList.update (op_id_of op) gs j" "operation_ok h op gs" "phase_of gs = phase_of fs"
    by blast
  with kept_extend [OF assms(2)] show ?thesis by blast
next
  case (begin_step a op)
  then show ?thesis by (rule begin_kept [OF assms(2)])
next
  case (verified_step op s l t v)
  then show ?thesis by (rule verified_kept [OF assms(2)])
next
  case (ready_step op m)
  then show ?thesis by (rule ready_kept [OF assms(2)])
next
  case (finish_step ops op outcome e l t r)
  then show ?thesis by (rule finish_kept [OF assms(2)])
qed

section \<open>A retried intent is found again\<close>

lemma op_files_cong:
  assumes "op_files (op_id_of op) j = op_files (op_id_of op) i"
  shows "op_result h op j = op_result h op i" and "source_verification h op j = source_verification h op i"
proof -
  have f: "op_file n op j = op_file n op i" for n by (simp add: op_file_def assms)
  have v: "validate_operation_intent h (JObj op) = Inr p \<Longrightarrow> p = op" for p
    by (auto dest: validate_operation_intent_object)
  have c: "commit_marker h op j = commit_marker h op i"
    unfolding commit_marker_def by (rule rbind_cong [OF refl]) (auto simp: f dest!: v)
  show s: "source_verification h op j = source_verification h op i"
    unfolding source_verification_def source_marker_def by (rule rbind_cong [OF refl]) (auto simp: c f dest!: v)
  have l: "load_result h op j = load_result h op i" by (simp add: load_result_def f)
  have m: "marker_present h op j = marker_present h op i" by (simp only: marker_present_def c s f)
  have d: "recovery_decision_for h op r j = recovery_decision_for h op r i" for r by (simp add: recovery_decision_for_def m)
  show "op_result h op j = op_result h op i"
    unfolding op_result_def by (rule rbind_cong [OF refl]) (drule v, simp only: l d)
qed

lemma load_intent_Inr:
  assumes "load_intent h j (op_id, fs) = Inr op"
  shows "map_of fs ''intent.json'' = Some (Doc (JObj op))" and "valid_intent h op" and "op_id_of op = op_id"
  using assms
  by (auto simp: load_intent_def rbind_eq_Inr load_json_object_Inr validate_operation_intent_iff op_id_of_def
      split: option.splits if_splits)

lemma load_intent_cong:
  assumes "load_intent h j x = Inr op" and "op_files (fst x) j = op_files (fst x) i"
  shows "load_intent h i x = Inr op"
proof -
  obtain op_id fs where x: "x = (op_id, fs)" by (cases x)
  from load_intent_Inr [OF assms(1) [unfolded x]] assms(2) x
  have "op_files (op_id_of op) j = op_files (op_id_of op) i" by simp
  from op_files_cong [OF this] load_intent_Inr [OF assms(1) [unfolded x]] assms(1) show ?thesis
    by (simp add: x load_intent_def load_json_object_def valid_intent_def)
qed

lemma rmap_mset: "rmap f xs = Inr ys \<Longrightarrow> mset ys = image_mset (projr \<circ> f) (mset xs)"
  by (induction xs arbitrary: ys) (auto simp: rbind_eq_Inr)

lemma without_result_Inr:
  "without_result h j items = Inr unfinished \<longleftrightarrow>
     (\<forall>op \<in> set items. \<exists>r. op_result h op j = Inr r) \<and> unfinished = filter (\<lambda>op. op_result h op j = Inr None) items"
proof -
  have "rmap (\<lambda>op. rbind (op_result h op j) (\<lambda>r. Inr (op, r = None))) items = Inr marked \<longleftrightarrow>
     (\<forall>op \<in> set items. \<exists>r. op_result h op j = Inr r) \<and> marked = map (\<lambda>op. (op, op_result h op j = Inr None)) items" for marked
    by (induction items arbitrary: marked) (auto simp: rbind_eq_Inr)
  then show ?thesis
    by (auto simp: without_result_def rbind_eq_Inr filter_map comp_def)
qed

lemma next_attempt_fresh: "op \<in> set matching \<Longrightarrow> op_attempt op < next_attempt matching"
proof -
  assume op: "op \<in> set matching"
  then have "op_attempt op \<le> Max (set (map op_attempt matching))" by (intro Max_ge) auto
  with op show ?thesis by (auto simp: next_attempt_def)
qed

lemma update_fresh: "k \<notin> fst ` set xs \<Longrightarrow> AList.update k v xs = xs @ [(k, v)]"
  by (induction xs) auto

lemma begin_new_fresh:
  assumes b: "build_operation_intent h a 1 = Inr prototype" and l: "list_intents h j = Inr intents"
    and m: "matching = filter (\<lambda>item. dget item ''operation_key'' = dget prototype ''operation_key'') intents"
    and n: "build_operation_intent h a (next_attempt matching) = Inr op"
    and ap: "journal_append (op_id_of op) ''intent.json'' op j = Inr j'"
  shows "op_id_of op \<notin> fst ` set j" and "j' = j @ [(op_id_of op, [(''intent.json'', Doc (JObj op))])]"
proof -
  show fresh: "op_id_of op \<notin> fst ` set j"
  proof
    assume "op_id_of op \<in> fst ` set j"
    then obtain fs where fs: "map_of j (op_id_of op) = Some fs"
      by (metis domD dom_map_of_conv_image_fst)
    from rmap_members [OF l [unfolded list_intents_def]] map_of_SomeD [OF fs]
    obtain d where d: "load_intent h j (op_id_of op, fs) = Inr d" "d \<in> set intents" by fastforce
    note ld = load_intent_Inr [OF d(1)]
    from ap have e: "py_eq (JObj d) (JObj op)"
      using ld(1) fs by (cases rule: journal_append_cases) (auto simp: op_files_def)
    from valid_intent_key [OF ld(2)] obtain k where k: "dget d ''operation_key'' = JStr k" by auto
    from py_eq_text [OF e k] build_key_independent [OF b n] k d(2) m have "d \<in> set matching" by simp
    then have "op_attempt d < next_attempt matching" by (rule next_attempt_fresh)
    moreover have "op_attempt op = next_attempt matching" by (rule build_operation_intent_Inr(3) [OF n])
    moreover have "op_attempt op = op_attempt d"
    proof -
      from valid_intent_attempt [OF ld(2)] have "map_of d ''attempt'' = Some (JInt (op_attempt d))"
        by (auto simp: dget_def split: option.splits)
      with e py_eq_items_lookup [of d op] obtain w where "map_of op ''attempt'' = Some w" "py_eq (JInt (op_attempt d)) w" by auto
      with valid_intent_attempt [OF build_operation_intent_Inr(1) [OF n]] show ?thesis by (simp add: dget_def)
    qed
    ultimately show False by simp
  qed
  then have "map_of j (op_id_of op) = None" by (simp add: map_of_eq_None_iff)
  with ap fresh show "j' = j @ [(op_id_of op, [(''intent.json'', Doc (JObj op))])]"
    by (cases rule: journal_append_cases) (auto simp: op_files_def update_fresh)
qed

lemma begin_again:
  assumes "begin_op h a j = Inr (op, j')"
  shows "begin_op h a j' = Inr (op, j')"
proof -
  from assms obtain prototype intents unfinished matching where
    b: "build_operation_intent h a 1 = Inr prototype" and l: "list_intents h j = Inr intents"
    and m: "matching = filter (\<lambda>item. dget item ''operation_key'' = dget prototype ''operation_key'') intents"
    and w: "without_result h j matching = Inr unfinished"
    and d: "unfinished = [] \<and> build_operation_intent h a (next_attempt matching) = Inr op \<and>
           journal_append (op_id_of op) ''intent.json'' op j = Inr j' \<or> unfinished = [op] \<and> j' = j"
    unfolding begin_op_Inr by blast
  show ?thesis
  proof (cases "j' = j")
    case True
    with assms show ?thesis by simp
  next
    case False
    with d have u: "unfinished = []" and n: "build_operation_intent h a (next_attempt matching) = Inr op"
      and ap: "journal_append (op_id_of op) ''intent.json'' op j = Inr j'" by auto
    from begin_new_fresh [OF b l m n ap] have fresh: "op_id_of op \<notin> fst ` set j"
      and j': "j' = j @ [(op_id_of op, [(''intent.json'', Doc (JObj op))])]" .
    let ?x = "(op_id_of op, [(''intent.json'', Doc (JObj op))])"
    have same: "op_files k j' = op_files k j" if "k \<noteq> op_id_of op" for k
      using that by (simp add: j' op_files_def map_add_def split: option.splits)
    have old: "load_intent h j' x = load_intent h j x" if "x \<in> set j" for x
    proof -
      from rmap_members [OF l [unfolded list_intents_def]] that obtain y where y: "load_intent h j x = Inr y" by fastforce
      moreover have "fst x \<noteq> op_id_of op" using that fresh by force
      ultimately show ?thesis using load_intent_cong [OF y, of j'] same by simp
    qed
    from new_operation_ok [OF build_operation_intent_Inr(1,2) [OF n]]
    have ok: "operation_ok h op [(''intent.json'', Doc (JObj op))]" by simp
    have at_op: "map_of j' (op_id_of op) = Some [(''intent.json'', Doc (JObj op))]"
      using fresh by (simp add: j' map_add_def map_of_eq_None_iff [THEN iffD2])
    note new = load_intent_of [OF ok at_op]
    have none: "op_result h op j' = Inr None" using result_pending [OF ok at_op] by simp
    have total: "\<exists>y. load_intent h j' x = Inr y" if "x \<in> set (sort_key fst j')" for x
    proof -
      from that consider "x = ?x" | "x \<in> set j" by (auto simp: j')
      then show ?thesis
      proof cases
        case 2
        with rmap_members [OF l [unfolded list_intents_def], of x] old show ?thesis by auto
      qed (use new in blast)
    qed
    obtain intents' where l': "list_intents h j' = Inr intents'"
      using rmap_total [of "sort_key fst j'" "load_intent h j'"] total by (auto simp: list_intents_def)
    have "mset intents' = image_mset (projr \<circ> load_intent h j') (mset j')"
      using rmap_mset [OF l' [unfolded list_intents_def]] by simp
    also have "\<dots> = add_mset op (image_mset (projr \<circ> load_intent h j') (mset j))" using new by (simp add: j')
    also have "image_mset (projr \<circ> load_intent h j') (mset j) = image_mset (projr \<circ> load_intent h j) (mset j)"
      using old by (intro image_mset_cong) simp
    also have "\<dots> = mset intents" using rmap_mset [OF l [unfolded list_intents_def]] by simp
    finally have ms: "mset intents' = add_mset op (mset intents)" .
    let ?matching = "filter (\<lambda>item. dget item ''operation_key'' = dget prototype ''operation_key'') intents'"
    have mm: "mset ?matching = add_mset op (mset matching)"
      using ms build_key_independent [OF b n] by (simp add: m)
    have other: "op_result h p j' = op_result h p j" if p: "p \<in> set matching" for p
    proof -
      from p m have "p \<in> set_mset (mset intents)" by simp
      then obtain x where x: "x \<in> set j" "p = projr (load_intent h j x)"
        unfolding rmap_mset [OF l [unfolded list_intents_def]] by auto
      with rmap_members [OF l [unfolded list_intents_def], of x] have "load_intent h j (fst x, snd x) = Inr p" by auto
      from load_intent_Inr(3) [OF this] x(1) fresh have "op_id_of p \<noteq> op_id_of op" by force
      from op_files_cong(1) [OF same [OF this]] show ?thesis .
    qed
    have "filter_mset (\<lambda>p. op_result h p j' = Inr None) (mset matching) = filter_mset (\<lambda>p. op_result h p j = Inr None) (mset matching)"
      using other by (intro filter_mset_cong) auto
    also have "\<dots> = {#}" using w u by (simp add: without_result_Inr flip: mset_filter)
    finally have "mset (filter (\<lambda>p. op_result h p j' = Inr None) ?matching) = {#op#}"
      unfolding mset_filter [of _ ?matching] mm using none by simp
    then have "filter (\<lambda>p. op_result h p j' = Inr None) ?matching = [op]" by (metis mset_single_iff mset_single_iff_right)
    moreover have "\<forall>p \<in> set ?matching. \<exists>r. op_result h p j' = Inr r"
    proof
      fix p assume "p \<in> set ?matching"
      then have "p \<in># add_mset op (mset matching)" using mm by (metis set_mset_mset)
      then show "\<exists>r. op_result h p j' = Inr r" using none other w by (auto simp: without_result_Inr)
    qed
    ultimately have "without_result h j' ?matching = Inr [op]" by (simp add: without_result_Inr)
    with b l' show ?thesis unfolding begin_op_Inr by blast
  qed
qed

section \<open>Reachable journals\<close>

lemma journal_ok_Nil: "journal_ok h []"
  by (simp add: journal_ok_def)

lemma reachable_ok: "(op_step h)\<^sup>*\<^sup>* j j' \<Longrightarrow> journal_ok h j \<Longrightarrow> journal_ok h j'"
  by (induction rule: rtranclp_induct) (auto dest: op_step_kept simp: kept_def)

lemma recovery_decision_ok:
  assumes ok: "operation_ok h op fs" and j: "map_of j (op_id_of op) = Some fs"
  shows "\<exists>d. recovery_decision_of h op j = Inr d"
  using ok load_result_of [OF ok j] marker_present_of [OF ok j]
  by (cases "map_of fs ''result.json''")
     (auto simp: recovery_decision_of_def recovery_decision_for_def operation_ok_def valid_intent_def
       decide_marker_recovery_def result_file_ok_def)

lemma protocol_step_final:
  "protocol_step m m' \<Longrightarrow> m op_id = Some p \<Longrightarrow> p \<in> {Completed, RolledBack} \<Longrightarrow> m' op_id = Some p"
  by (auto elim!: protocol_step.cases phase_step.cases split: if_splits)

section \<open>An interrupted begin\<close>

text \<open>
  \<open>atomic_append_json\<close> creates the directory of the operation before it publishes the intent. Where the
  process ends between the two, the directory is there without an intent.
\<close>

definition interrupted_begin :: "host \<Rightarrow> op_args \<Rightarrow> journal \<Rightarrow> journal" where
  "interrupted_begin h a j =
     (case begin_op h a j of
        Inl _ \<Rightarrow> j
      | Inr (op, _) \<Rightarrow> if op_id_of op \<in> fst ` set j then j else j @ [(op_id_of op, [])])"

lemma missing_intent_blocks:
  assumes "(op_id, fs) \<in> set j" and "map_of fs ''intent.json'' = None"
  shows "\<exists>e. list_intents h j = Inl e"
proof (cases "list_intents h j")
  case (Inr ops)
  with rmap_members [of "load_intent h j" "sort_key fst j" ops "(op_id, fs)"] assms show ?thesis
    by (simp add: list_intents_def load_intent_def)
qed simp

section \<open>Examples\<close>

definition example_op_args :: op_args where
  "example_op_args = \<lparr>oa_operation_type = JStr ''cancel'', oa_session_id = JStr ''s1'', oa_book_id = JStr ''b1'',
     oa_plan_id = JStr ''p1'', oa_plan_hash = JStr zero_digest, oa_expected_state = JStr ''active'',
     oa_expected_event_hash = JStr zero_digest, oa_expected_lease_hash = JNull,
     oa_target_event_type = JStr ''cancelled'', oa_reason = JNull, oa_lease_ttl_seconds = JNull,
     oa_created_at = JStr ''100''\<rparr>"

definition example_op :: dict where
  "example_op =
     [(''schema_version'', JStr ''1.1''), (''recovery_protocol'', JStr ''commit-marker-forward-v1''),
      (''operation_id'', JStr ''op_000000000000000000000000''), (''operation_key'', JStr zero_digest), (''attempt'', JInt 1),
      (''operation_type'', JStr ''cancel''), (''session_id'', JStr ''s1''), (''book_id'', JStr ''b1''), (''plan_id'', JStr ''p1''),
      (''plan_hash'', JStr zero_digest), (''expected_state'', JStr ''active''), (''expected_event_hash'', JStr zero_digest),
      (''expected_lease_hash'', JNull), (''target_event_type'', JStr ''cancelled''), (''reason'', JNull),
      (''lease_ttl_seconds'', JNull), (''created_at'', JStr ''100''), (''intent_hash'', JStr zero_digest)]"

definition example_marker :: dict where
  "example_marker =
     [(''schema_version'', JStr ''1.0''), (''recovery_protocol'', JStr ''commit-marker-forward-v1''),
      (''transaction_id'', JStr ''op_000000000000000000000000''), (''intent_hash'', JStr zero_digest),
      (''evidence_kind'', JStr ''terminal_preconditions''), (''evidence_hash'', JStr zero_digest),
      (''metadata'', JObj [(''operation_type'', JStr ''cancel'')]), (''marker_hash'', JStr zero_digest)]"

definition example_result :: dict where
  "example_result =
     [(''schema_version'', JStr ''1.0''), (''operation_id'', JStr ''op_000000000000000000000000''), (''intent_hash'', JStr zero_digest),
      (''outcome'', JStr ''completed''), (''event_hash'', JStr zero_digest), (''lease_hash'', JNull),
      (''completed_at'', JStr ''100''), (''result_hash'', JStr zero_digest)]"

definition journal_begun :: journal where
  "journal_begun = [(''op_000000000000000000000000'', [(''intent.json'', Doc (JObj example_op))])]"

definition journal_marked :: journal where
  "journal_marked = [(''op_000000000000000000000000'',
     [(''intent.json'', Doc (JObj example_op)), (''commit.marker'', Doc (JObj example_marker))])]"

definition journal_finished :: journal where
  "journal_finished = [(''op_000000000000000000000000'',
     [(''intent.json'', Doc (JObj example_op)), (''commit.marker'', Doc (JObj example_marker)),
      (''result.json'', Doc (JObj example_result))])]"

lemma example_begin: "begin_op example_host example_op_args [] = Inr (example_op, journal_begun)"
  by code_simp

lemma example_is_open: "is_open example_host example_op journal_begun"
  by code_simp

lemma example_ready: "mark_terminal_ready example_host example_op journal_begun = Inr (Some example_marker, journal_marked)"
  by code_simp

lemma example_listed: "list_intents example_host journal_marked = Inr [example_op]"
  by code_simp

lemma example_finish:
  "finish_op example_host example_op ''completed'' (JStr zero_digest) JNull (JStr ''100'') journal_marked
     = Inr (example_result, journal_finished)"
  by code_simp

lemma example_steps:
  "op_step example_host [] journal_begun" "op_step example_host journal_begun journal_marked"
  "op_step example_host journal_marked journal_finished"
  using begin_step [OF example_begin] ready_step [OF example_is_open example_ready]
    finish_step [OF example_listed _ _ example_finish]
  by simp_all

lemma example_reachable:
  "(op_step example_host)\<^sup>*\<^sup>* [] journal_marked" "(op_step example_host)\<^sup>*\<^sup>* [] journal_finished"
proof -
  show marked: "(op_step example_host)\<^sup>*\<^sup>* [] journal_marked"
    using example_steps(1,2) by (meson rtranclp.simps)
  then show "(op_step example_host)\<^sup>*\<^sup>* [] journal_finished"
    using example_steps(3) by (meson rtranclp.simps)
qed

section \<open>The journal\<close>







text \<open>
  Beginning an operation twice is the same as beginning it once: the retry, with the same arguments, finds the
  pending intent and changes nothing.
\<close>

lemma retried_begin_finds_its_intent:
  assumes "begin_op h a j = Inr (op, j')"
  shows "begin_op h a j' = Inr (op, j')"
  using assms by (rule begin_again)

theorem retried_begin_finds_its_intent_witness:
  "begin_op example_host example_op_args journal_begun = Inr (example_op, journal_begun)"
  by (rule retried_begin_finds_its_intent [OF example_begin])

text \<open>
  C21: An interrupted begin blocks the journal: where the process ends after the directory of a new operation is
  created and before its intent is published, neither the pending operations can be listed nor any operation be
  begun again, with whatever arguments.
\<close>

theorem interrupted_begin_blocks_the_journal:
  assumes "begin_op h a j = Inr (op, j')" and "op_id_of op \<notin> fst ` set j"
  shows "\<exists>e e'. pending h (interrupted_begin h a j) = Inl e \<and> begin_op h b (interrupted_begin h a j) = Inl e'"
proof -
  have "(op_id_of op, []) \<in> set (interrupted_begin h a j)" using assms by (simp add: interrupted_begin_def)
  from missing_intent_blocks [OF this] obtain e where "list_intents h (interrupted_begin h a j) = Inl e" by auto
  then show ?thesis
    by (cases "build_operation_intent h b 1") (auto simp: pending_def begin_op_def)
qed

theorem interrupted_begin_blocks_the_journal_witness:
  "\<exists>e e'. pending example_host (interrupted_begin example_host example_op_args []) = Inl e \<and>
     begin_op example_host example_op_args (interrupted_begin example_host example_op_args []) = Inl e'"
  by (rule interrupted_begin_blocks_the_journal [OF example_begin]) simp

end
