(* ===== verification/Session_Operations.thy ===== *)
theory Session_Operations
  imports Session_Status Operation_Journal
begin

text \<open>
  The operations of the session store, \<open>AutonomySessionStore\<close> of \<open>core/autonomy/session.py\<close>: execute, resume, cancel,
  abandon and complete, each a journaled operation over the session, the lease and the ledger, and the
  recovery of operations that were cut short. The source snapshot of the story project and the boundary recovery of the
  caller are arguments; so are the arc plans, which are Chinese texts.
\<close>

section \<open>The store\<close>

record session_store =
  ss_root :: autonomy_root
  ss_deferred :: "string list"

text \<open>Each part of the store as the state of its own operations.\<close>

definition on_root :: "(autonomy_root \<Rightarrow> 'a res \<times> autonomy_root) \<Rightarrow> session_store \<Rightarrow> 'a res \<times> session_store" where
  "on_root f st = (let (r, x) = f (ss_root st) in (r, st\<lparr>ss_root := x\<rparr>))"

definition on_leases :: "(lease_store \<Rightarrow> 'a res \<times> lease_store) \<Rightarrow> session_store \<Rightarrow> 'a res \<times> session_store" where
  "on_leases f = on_root (\<lambda>x. let (r, ls) = f (ar_leases x) in (r, x\<lparr>ar_leases := ls\<rparr>))"

definition on_journal :: "(journal \<Rightarrow> 'a res \<times> journal) \<Rightarrow> session_store \<Rightarrow> 'a res \<times> session_store" where
  "on_journal f = on_root (\<lambda>x. let (r, j) = f (ar_journal x) in (r, x\<lparr>ar_journal := j\<rparr>))"

definition reading :: "(autonomy_root \<Rightarrow> 'a res) \<Rightarrow> session_store \<Rightarrow> 'a res \<times> session_store" where
  "reading f st = (f (ss_root st), st)"

text \<open>An operation that changes nothing when it fails.\<close>

definition all_or_nothing :: "('s \<Rightarrow> ('a \<times> 's) res) \<Rightarrow> 's \<Rightarrow> 'a res \<times> 's" where
  "all_or_nothing f s = (case f s of Inl e \<Rightarrow> (Inl e, s) | Inr (v, s') \<Rightarrow> (Inr v, s'))"

definition on_session :: "string \<Rightarrow> (session_dir \<Rightarrow> ('a \<times> session_dir) res) \<Rightarrow> session_store \<Rightarrow> 'a res \<times> session_store" where
  "on_session session_id f = on_root (all_or_nothing (\<lambda>x.
     rbind (f (session_at x session_id)) (\<lambda>(v, dir).
     Inr (v, x\<lparr>ar_sessions := AList.update session_id dir (ar_sessions x)\<rparr>))))"

definition op_session :: "dict \<Rightarrow> string" where
  "op_session op = doc_text op ''session_id''"

definition lease_hash_of :: "dict option \<Rightarrow> json" where
  "lease_hash_of lease = (case lease of None \<Rightarrow> JNull | Some d \<Rightarrow> dget d ''lease_hash'')"

definition require_trusted_profiles :: "store_env \<Rightarrow> dict res" where
  "require_trusted_profiles env =
     (case se_profiles env of
        None \<Rightarrow> session_error ''trusted_profiles_required'' ''starting or resuming a session requires current TrustedProfiles''
      | Some profiles \<Rightarrow> Inr profiles)"

definition preview_name :: "host \<Rightarrow> dict \<Rightarrow> string" where
  "preview_name h d = py_str h (dget d ''plan_id'') @ ''-'' @ take 16 (py_str h (dget d ''plan_hash'')) @ ''.json''"

definition save_preview :: "host \<Rightarrow> store_env \<Rightarrow> json \<Rightarrow> session_store \<Rightarrow> string res \<times> session_store" where
  "save_preview h env instruction_plan =
     on_root (all_or_nothing (\<lambda>x.
       rbind (require_trusted_profiles env) (\<lambda>profiles.
       rbind (validate_instruction_plan h instruction_plan (Some profiles) None) (\<lambda>plan.
       rbind (atomic_append_json (preview_name h plan) plan (ar_previews x)) (\<lambda>fs.
       Inr (preview_name h plan, x\<lparr>ar_previews := fs\<rparr>))))))"

section \<open>The expected event of an operation\<close>

definition assert_operation_scope :: "dict \<Rightarrow> dict \<Rightarrow> dict \<Rightarrow> unit res" where
  "assert_operation_scope op genesis plan =
     (if (\<exists>field \<in> {''session_id'', ''book_id'', ''plan_id'', ''plan_hash''}. dget genesis field \<noteq> dget op field) \<or>
         dget plan ''plan_hash'' \<noteq> dget op ''plan_hash''
      then op_error ''autonomy_operation_scope_mismatch'' ''operation scope does not match durable session artifacts''
      else Inr ())"

text \<open>The events of a log after the expected one: the operation is applied when exactly its event follows.\<close>

fun applied_event :: "host \<Rightarrow> string \<Rightarrow> dict \<Rightarrow> dict \<Rightarrow> dict list \<Rightarrow> dict res" where
  "applied_event h now op genesis (p # e # events) =
     (if dget p ''event_hash'' \<noteq> dget op ''expected_event_hash'' then applied_event h now op genesis (e # events)
      else rbind (build_session_event h now genesis (JInt (int_at p ''sequence'' + 1)) (py_str h (dget op ''target_event_type''))
                    (dget p ''event_hash'') (dget op ''reason'') (dget op ''created_at'')) (\<lambda>expected.
           if events = [] \<and> py_eq (JObj e) (JObj expected) then Inr e else applied_event h now op genesis (e # events)))"
| "applied_event h now op genesis _ =
     op_error ''autonomy_operation_event_precondition_failed'' ''session event chain no longer matches the operation intent''"

definition recover_expected_in :: "host \<Rightarrow> string \<Rightarrow> dict \<Rightarrow> dict \<Rightarrow> session_dir \<Rightarrow> (dict \<times> session_dir) res" where
  "recover_expected_in h now op genesis dir =
     rbind (load_events h False dir) (\<lambda>events.
     if last_event_hash events = dget op ''expected_event_hash''
     then (if dget op ''target_event_type'' = JNull then Inr (last events, dir)
           else append_event h now (py_str h (dget op ''target_event_type'')) (dget op ''reason'') (dget op ''created_at'') dir)
     else rbind (applied_event h now op genesis events) (\<lambda>e. Inr (e, dir)))"

definition recover_expected_event :: "host \<Rightarrow> string \<Rightarrow> dict \<Rightarrow> dict \<Rightarrow> session_store \<Rightarrow> dict res \<times> session_store" where
  "recover_expected_event h now op genesis =
     on_session (op_session op) (recover_expected_in h now op genesis)"

section \<open>Terminal transitions\<close>

definition completion_unproven :: "dict \<Rightarrow> dict \<Rightarrow> bool" where
  "completion_unproven completion plan \<longleftrightarrow>
     \<not> py_eq (dget completion ''completed_count'') (dget plan ''requested_chapter_count'') \<or>
     truthy (dget completion ''delivery_blocked'')"

definition completion_summary :: "host \<Rightarrow> store_env \<Rightarrow> string \<Rightarrow> autonomy_root \<Rightarrow> dict res" where
  "completion_summary h env session_id st =
     rbind (session_ledger h session_id st) (\<lambda>l. session_summary h env l st)"

definition expected_source_of :: "host \<Rightarrow> store_env \<Rightarrow> string \<Rightarrow> autonomy_root \<Rightarrow> dict res" where
  "expected_source_of h env session_id st =
     rbind (session_ledger h session_id st) (\<lambda>l. session_expected_source h env l st)"

definition scoped_genesis :: "host \<Rightarrow> dict \<Rightarrow> autonomy_root \<Rightarrow> (dict \<times> dict) res" where
  "scoped_genesis h op st =
     rbind (load_genesis h (session_at st (op_session op))) (\<lambda>genesis.
     rbind (load_plan h (session_at st (op_session op))) (\<lambda>plan.
     rbind (assert_operation_scope op genesis plan) (\<lambda>_. Inr (genesis, plan))))"

text \<open>What a terminal transition reads before the lease; a completion that is not yet applied needs its receipts.\<close>

definition terminal_evidence :: "host \<Rightarrow> store_env \<Rightarrow> dict \<Rightarrow> autonomy_root \<Rightarrow> dict res" where
  "terminal_evidence h env op st =
     rbind (scoped_genesis h op st) (\<lambda>(genesis, plan).
     rbind (load_events h False (session_at st (op_session op))) (\<lambda>events.
     if dget op ''operation_type'' = JStr ''complete'' \<and> dget (last events) ''event_type'' \<noteq> dget op ''target_event_type''
     then rbind (completion_summary h env (op_session op) st) (\<lambda>completion.
          if completion_unproven completion plan
          then op_error ''autonomy_operation_completion_unproven'' ''completion intent no longer has a valid receipt proof''
          else Inr genesis)
     else Inr genesis))"

definition is_active_lease :: "dict option \<Rightarrow> bool" where
  "is_active_lease lease \<longleftrightarrow> (case lease of None \<Rightarrow> False | Some d \<Rightarrow> dget d ''status'' = JStr ''active'')"

definition owns_lease :: "dict \<Rightarrow> dict option \<Rightarrow> bool" where
  "owns_lease op lease \<longleftrightarrow> (case lease of None \<Rightarrow> False
     | Some d \<Rightarrow> dget d ''session_id'' = dget op ''session_id'' \<and> dget d ''plan_id'' = dget op ''plan_id'')"

definition assert_terminal_transition_ready ::
  "host \<Rightarrow> store_env \<Rightarrow> dict \<Rightarrow> session_store \<Rightarrow> dict res \<times> session_store" where
  "assert_terminal_transition_ready h env op st =
     then_do (reading (terminal_evidence h env op) st) (\<lambda>genesis st.
     then_do (on_leases (reconcile h (dget op ''book_id'')) st) (\<lambda>current st.
     (if is_active_lease current \<and> \<not> owns_lease op current
      then op_error ''autonomy_operation_foreign_lease'' ''terminal transition cannot cross an active foreign writer lease''
      else Inr genesis, st)))"

definition release_for :: "host \<Rightarrow> string \<Rightarrow> dict \<Rightarrow> dict option \<Rightarrow> json \<Rightarrow> session_store \<Rightarrow> dict option res \<times> session_store" where
  "release_for h now op current at_time =
     on_leases (release h now (dget op ''book_id'') (dget op ''session_id'') (dget op ''plan_id'') (lease_hash_of current) at_time)"

definition finish_with ::
  "host \<Rightarrow> dict \<Rightarrow> string \<Rightarrow> json \<Rightarrow> json \<Rightarrow> json \<Rightarrow> session_store \<Rightarrow> dict res \<times> session_store" where
  "finish_with h op outcome event_hash lease_hash completed_at =
     on_journal (all_or_nothing (finish_op h op outcome event_hash lease_hash completed_at))"

text \<open>The lease after the event: released, if it is still active.\<close>

definition release_terminal_lease :: "host \<Rightarrow> string \<Rightarrow> dict \<Rightarrow> session_store \<Rightarrow> dict option res \<times> session_store" where
  "release_terminal_lease h now op st =
     then_do (on_leases (reconcile h (dget op ''book_id'')) st) (\<lambda>current st.
     if is_active_lease current then release_for h now op current (dget op ''created_at'') st else (Inr current, st))"

definition roll_forward_terminal_transition ::
  "host \<Rightarrow> string \<Rightarrow> store_env \<Rightarrow> dict \<Rightarrow> session_store \<Rightarrow> dict res \<times> session_store" where
  "roll_forward_terminal_transition h now env op st =
     then_do (assert_terminal_transition_ready h env op st) (\<lambda>genesis st.
     then_do (recover_expected_event h now op genesis st) (\<lambda>event st.
     then_do (release_terminal_lease h now op st) (\<lambda>current st.
     finish_with h op ''completed'' (dget event ''event_hash'') (lease_hash_of current) (dget op ''created_at'') st)))"

definition rollback_unverified_terminal ::
  "host \<Rightarrow> dict \<Rightarrow> json \<Rightarrow> session_store \<Rightarrow> dict res \<times> session_store" where
  "rollback_unverified_terminal h op completed_at st =
     then_do (reading (scoped_genesis h op) st) (\<lambda>_ st.
     then_do (reading (\<lambda>x. load_events h False (session_at x (op_session op))) st) (\<lambda>events st.
     if last_event_hash events \<noteq> dget op ''expected_event_hash''
     then (op_error ''autonomy_operation_side_effect_without_marker''
             ''terminal session event advanced without its commit marker'', st)
     else then_do (on_leases (reconcile h (dget op ''book_id'')) st) (\<lambda>current st.
          if lease_hash_of current \<noteq> dget op ''expected_lease_hash''
          then (op_error ''autonomy_operation_side_effect_without_marker'' ''terminal lease changed without its commit marker'', st)
          else finish_with h op ''rolled_back'' JNull (lease_hash_of current) completed_at st)))"

section \<open>Source-guarded transitions\<close>

definition rollback_unverified_source ::
  "host \<Rightarrow> string \<Rightarrow> dict \<Rightarrow> json \<Rightarrow> session_store \<Rightarrow> dict res \<times> session_store" where
  "rollback_unverified_source h now op completed_at st =
     then_do (reading (\<lambda>x.
        let dir = session_at x (op_session op) in
        if dget op ''expected_state'' = JStr ''absent''
        then (if map_of (sn_files dir) ''genesis.json'' \<noteq> None \<or> map_of (sn_files dir) ''instruction_plan.json'' \<noteq> None
              then op_error ''autonomy_operation_unverified_artifacts''
                     ''an unverified execute operation already published session artifacts''
              else Inr ())
        else rbind (load_events h False dir) (\<lambda>events.
             if last_event_hash events \<noteq> dget op ''expected_event_hash''
             then op_error ''autonomy_operation_unverified_event''
                    ''an unverified source operation advanced the session event chain''
             else Inr ())) st) (\<lambda>_ st.
     then_do (on_leases (reconcile h (dget op ''book_id'')) st) (\<lambda>current st.
     then_do (if is_active_lease current \<and> owns_lease op current \<and>
                 (dget op ''expected_state'' \<noteq> JStr ''absent'' \<or> lease_hash_of current \<noteq> dget op ''expected_lease_hash'')
              then release_for h now op current completed_at st
              else (Inr current, st)) (\<lambda>current st.
     finish_with h op ''rolled_back'' JNull (lease_hash_of current) completed_at st)))"

definition verified_marker :: "host \<Rightarrow> dict \<Rightarrow> dict option \<Rightarrow> string \<Rightarrow> autonomy_root \<Rightarrow> dict res" where
  "verified_marker h op marker message x =
     rbind (case marker of Some m \<Rightarrow> Inr (Some m) | None \<Rightarrow> source_verification h op (ar_journal x)) (\<lambda>verification.
     case verification of
       None \<Rightarrow> op_error ''autonomy_operation_source_unverified'' message
     | Some v \<Rightarrow> Inr v)"

definition assert_verified_lease :: "host \<Rightarrow> dict \<Rightarrow> dict \<Rightarrow> string \<Rightarrow> autonomy_root \<Rightarrow> unit res" where
  "assert_verified_lease h op verification message x =
     rbind (load_history h (dget op ''book_id'') (dget verification ''lease_hash'') (ar_leases x)) (\<lambda>lease.
     if \<not> owns_lease op (Some lease) then op_error ''autonomy_operation_lease_scope_mismatch'' message else Inr ())"

definition roll_forward_source_transition ::
  "host \<Rightarrow> string \<Rightarrow> store_env \<Rightarrow> dict \<Rightarrow> dict option \<Rightarrow> session_store \<Rightarrow> dict res \<times> session_store" where
  "roll_forward_source_transition h now env op marker st =
     then_do (reading (\<lambda>x.
        rbind (verified_marker h op marker ''source-guarded transition lacks durable verification'' x) (\<lambda>verification.
        rbind (scoped_genesis h op x) (\<lambda>(genesis, plan).
        rbind (expected_source_of h env (op_session op) x) (\<lambda>expected_source.
        if dget verification ''source_snapshot_hash'' \<noteq> dget expected_source ''snapshot_hash''
        then op_error ''autonomy_operation_source_mismatch'' ''source verification no longer matches the completion boundary''
        else rbind (assert_verified_lease h op verification ''verified transition lease belongs to another writer'' x) (\<lambda>_.
             Inr (verification, genesis)))))) st) (\<lambda>(verification, genesis) st.
     then_do (recover_expected_event h now op genesis st) (\<lambda>event st.
     finish_with h op ''completed'' (dget event ''event_hash'') (dget verification ''lease_hash'') (dget op ''created_at'') st))"

section \<open>Execution\<close>

definition write_session_file :: "string \<Rightarrow> string \<Rightarrow> dict \<Rightarrow> session_store \<Rightarrow> unit res \<times> session_store" where
  "write_session_file session_id name d =
     on_session session_id (\<lambda>dir.
       rbind (atomic_append_json name d (sn_files dir)) (\<lambda>fs. Inr ((), dir\<lparr>sn_files := fs\<rparr>)))"

definition started_in :: "host \<Rightarrow> string \<Rightarrow> dict \<Rightarrow> dict \<Rightarrow> session_dir \<Rightarrow> (dict \<times> session_dir) res" where
  "started_in h now op genesis dir =
     rbind (load_events h True dir) (\<lambda>events.
     rbind (build_session_event h now genesis (JInt 1) ''started'' JNull JNull (dget op ''created_at'')) (\<lambda>expected.
     if events = [] then append_event h now ''started'' JNull (dget op ''created_at'') dir
     else if length events = 1 \<and> py_eq (JObj (hd events)) (JObj expected) then Inr (hd events, dir)
     else op_error ''autonomy_operation_event_conflict'' ''execute recovery found a different session event chain''))"

text \<open>The plan and the genesis of a verified execution.\<close>

definition verified_plan :: "host \<Rightarrow> dict \<Rightarrow> dict option \<Rightarrow> dict \<Rightarrow> autonomy_root \<Rightarrow> dict res" where
  "verified_plan h op plan verification x =
     rbind (case plan of Some p \<Rightarrow> Inr p | None \<Rightarrow> load_named (preview_name h op) (ar_previews x)) (\<lambda>d.
     rbind (validate_instruction_plan h (JObj d) None None) (\<lambda>resolved_plan.
     let source = obj_at resolved_plan ''source_snapshot'' in
     if dget resolved_plan ''plan_id'' \<noteq> dget op ''plan_id'' \<or> dget resolved_plan ''plan_hash'' \<noteq> dget op ''plan_hash'' \<or>
        dget source ''book_id'' \<noteq> dget op ''book_id'' \<or>
        dget source ''snapshot_hash'' \<noteq> dget verification ''source_snapshot_hash''
     then op_error ''autonomy_operation_plan_mismatch'' ''verified execute plan does not match its immutable intent''
     else Inr resolved_plan))"

definition execution_evidence ::
  "host \<Rightarrow> string \<Rightarrow> store_env \<Rightarrow> dict \<Rightarrow> dict option \<Rightarrow> dict option \<Rightarrow> autonomy_root \<Rightarrow> (dict \<times> dict \<times> dict) res" where
  "execution_evidence h now env op marker plan x =
     (if dget op ''expected_state'' \<noteq> JStr ''absent'' \<or> dget op ''target_event_type'' \<noteq> JStr ''started''
      then op_error ''autonomy_operation_transition_invalid'' ''execute recovery requires an absent session and started target''
      else rbind (verified_marker h op marker ''execute cannot publish session state before source verification'' x) (\<lambda>verification.
      rbind (verified_plan h op plan verification x) (\<lambda>resolved_plan.
      rbind (assert_verified_lease h op verification ''verified execute lease belongs to another writer'' x) (\<lambda>_.
      rbind (se_create_arc env resolved_plan (op_session op) (dget op ''created_at'')) (\<lambda>arc.
      rbind (build_session_genesis h now (dget op ''session_id'') (JObj resolved_plan) arc (dget op ''created_at'')) (\<lambda>genesis.
      Inr (verification, resolved_plan, genesis)))))))"

definition publish_index :: "host \<Rightarrow> dict \<Rightarrow> dict \<Rightarrow> session_store \<Rightarrow> unit res \<times> session_store" where
  "publish_index h op genesis =
     on_root (all_or_nothing (\<lambda>x.
       rbind (plan_index_name (dget op ''plan_hash'')) (\<lambda>name.
       rbind (atomic_append_json name
         [(''schema_version'', JStr ''1.0''), (''plan_hash'', dget op ''plan_hash''), (''session_id'', dget op ''session_id''),
          (''genesis_hash'', dget genesis ''genesis_hash'')] (ar_index x)) (\<lambda>fs. Inr ((), x\<lparr>ar_index := fs\<rparr>)))))"

definition publish_latest :: "dict \<Rightarrow> dict \<Rightarrow> session_store \<Rightarrow> unit res \<times> session_store" where
  "publish_latest op genesis = on_root (\<lambda>x. (Inr (), x\<lparr>ar_latest := Some (Doc (JObj (session_pointer (op_session op) genesis)))\<rparr>))"

definition roll_forward_execute ::
  "host \<Rightarrow> string \<Rightarrow> store_env \<Rightarrow> dict \<Rightarrow> dict option \<Rightarrow> dict option \<Rightarrow> session_store \<Rightarrow> dict res \<times> session_store" where
  "roll_forward_execute h now env op marker plan st =
     then_do (reading (execution_evidence h now env op marker plan) st) (\<lambda>(verification, resolved_plan, genesis) st.
     then_do (write_session_file (op_session op) ''genesis.json'' genesis st) (\<lambda>_ st.
     then_do (write_session_file (op_session op) ''instruction_plan.json'' resolved_plan st) (\<lambda>_ st.
     then_do (on_session (op_session op) (started_in h now op genesis) st) (\<lambda>event st.
     then_do (publish_index h op genesis st) (\<lambda>_ st.
     then_do (publish_latest op genesis st) (\<lambda>_ st.
     finish_with h op ''completed'' (dget event ''event_hash'') (dget verification ''lease_hash'') (dget op ''created_at'') st))))))"

section \<open>Recovery\<close>

definition roll_back :: "host \<Rightarrow> string \<Rightarrow> dict \<Rightarrow> json \<Rightarrow> session_store \<Rightarrow> dict res \<times> session_store" where
  "roll_back h now op timestamp =
     (if source_guarded op then rollback_unverified_source h now op timestamp else rollback_unverified_terminal h op timestamp)"

definition roll_forward :: "host \<Rightarrow> string \<Rightarrow> store_env \<Rightarrow> dict \<Rightarrow> session_store \<Rightarrow> dict res \<times> session_store" where
  "roll_forward h now env op st =
     then_do (reading (\<lambda>x. source_verification h op (ar_journal x)) st) (\<lambda>marker st.
     if source_guarded op
     then (if marker = None
           then (op_error ''autonomy_operation_marker_evidence_missing''
                   ''post-marker source operation has no bound verification evidence'', st)
           else if dget op ''expected_state'' = JStr ''absent'' then roll_forward_execute h now env op marker None st
           else roll_forward_source_transition h now env op marker st)
     else roll_forward_terminal_transition h now env op st)"

definition recovery_order :: "dict list \<Rightarrow> dict list" where
  "recovery_order ops = sort_key (\<lambda>op. doc_text op ''created_at'') (sort_key op_attempt (sort_key op_id_of ops))"

fun recover_each ::
  "host \<Rightarrow> string \<Rightarrow> store_env \<Rightarrow> json \<Rightarrow> bool \<Rightarrow> dict list \<Rightarrow> session_store \<Rightarrow> dict list res \<times> session_store" where
  "recover_each h now env timestamp defer_transient [] st = (Inr [], st)"
| "recover_each h now env timestamp defer_transient (op # ops) st =
     (if defer_transient \<and> op_id_of op \<in> set (ss_deferred st)
      then recover_each h now env timestamp defer_transient ops (st\<lparr>ss_deferred := removeAll (op_id_of op) (ss_deferred st)\<rparr>)
      else then_do (reconcile_pending h op (roll_back h now op timestamp) (roll_forward h now env op) (ar_journal (ss_root st)) st)
             (\<lambda>result st.
           then_do (recover_each h now env timestamp defer_transient ops st) (\<lambda>results st. (Inr (result # results), st))))"

definition reconcile_orphans ::
  "host \<Rightarrow> string \<Rightarrow> store_env \<Rightarrow> json \<Rightarrow> bool \<Rightarrow> session_store \<Rightarrow> dict list res \<times> session_store" where
  "reconcile_orphans h now env at_time defer_transient st =
     then_do (reading (\<lambda>x. pending h (ar_journal x)) st) (\<lambda>ops st.
     recover_each h now env (py_or at_time (JStr now)) defer_transient (recovery_order ops) st)"

definition open_store :: "host \<Rightarrow> string \<Rightarrow> store_env \<Rightarrow> bool \<Rightarrow> autonomy_root \<Rightarrow> dict list res \<times> session_store" where
  "open_store h now env reconcile_on_open x =
     (if reconcile_on_open then reconcile_orphans h now env JNull False \<lparr>ss_root = x, ss_deferred = []\<rparr>
      else (Inr [], \<lparr>ss_root = x, ss_deferred = []\<rparr>))"

definition status_now :: "host \<Rightarrow> string \<Rightarrow> store_env \<Rightarrow> json \<Rightarrow> json \<Rightarrow> session_store \<Rightarrow> dict res \<times> session_store" where
  "status_now h now env session_id at_time = on_root (status_unreconciled h now env session_id at_time)"

definition session_status :: "host \<Rightarrow> string \<Rightarrow> store_env \<Rightarrow> json \<Rightarrow> json \<Rightarrow> session_store \<Rightarrow> dict res \<times> session_store" where
  "session_status h now env session_id at_time st =
     then_do (reconcile_orphans h now env at_time True st) (\<lambda>_ st. status_now h now env session_id at_time st)"

section \<open>Execute and resume\<close>

text \<open>What the caller of an execution brings: the loader of the source, and the recovery of a committed boundary.\<close>

record source_calls =
  sc_load :: "json res"
  sc_recover :: "(string \<Rightarrow> session_store \<Rightarrow> unit res \<times> session_store) option"

definition transition_args :: "string \<Rightarrow> string \<Rightarrow> dict \<Rightarrow> dict \<Rightarrow> json \<Rightarrow> json \<Rightarrow> json \<Rightarrow> json \<Rightarrow> op_args" where
  "transition_args operation session_id current plan target reason ttl timestamp =
     \<lparr>oa_operation_type = JStr operation, oa_session_id = JStr session_id, oa_book_id = dget current ''book_id'',
      oa_plan_id = dget plan ''plan_id'', oa_plan_hash = dget plan ''plan_hash'', oa_expected_state = dget current ''state'',
      oa_expected_event_hash = dget current ''last_event_hash'', oa_expected_lease_hash = dget current ''lease_hash'',
      oa_target_event_type = target, oa_reason = reason, oa_lease_ttl_seconds = ttl, oa_created_at = timestamp\<rparr>"

definition begin_with :: "host \<Rightarrow> op_args \<Rightarrow> session_store \<Rightarrow> dict res \<times> session_store" where
  "begin_with h a = on_journal (all_or_nothing (begin_op h a))"

definition acquire_for :: "host \<Rightarrow> string \<Rightarrow> dict \<Rightarrow> json \<Rightarrow> json \<Rightarrow> session_store \<Rightarrow> dict res \<times> session_store" where
  "acquire_for h now op ttl timestamp =
     on_leases (acquire h now (dget op ''book_id'') (dget op ''session_id'') (dget op ''plan_id'') ttl timestamp)"

definition mark_verified :: "host \<Rightarrow> dict \<Rightarrow> dict \<Rightarrow> dict \<Rightarrow> json \<Rightarrow> session_store \<Rightarrow> dict res \<times> session_store" where
  "mark_verified h op current_source lease timestamp =
     on_journal (mark_source_verified h op (dget current_source ''snapshot_hash'') (dget lease ''lease_hash'') timestamp)"

text \<open>The handler of both: without durable evidence the operation is rolled back, and the error goes on.\<close>

definition or_roll_back ::
  "host \<Rightarrow> string \<Rightarrow> dict \<Rightarrow> json \<Rightarrow> 'a res \<times> session_store \<Rightarrow> 'a res \<times> session_store" where
  "or_roll_back h now op timestamp outcome =
     (case outcome of
        (Inr v, st) \<Rightarrow> (Inr v, st)
      | (Inl e, st) \<Rightarrow>
          then_do (reading (\<lambda>x. source_verification h op (ar_journal x)) st) (\<lambda>verification st.
          then_do (if verification = None
                   then then_do (rollback_unverified_source h now op timestamp st) (\<lambda>_ st. (Inr (), st))
                   else (Inr (), st)) (\<lambda>_ st. (Inl e, st))))"

definition source_transition ::
  "host \<Rightarrow> string \<Rightarrow> store_env \<Rightarrow> source_calls \<Rightarrow> dict \<Rightarrow> dict \<Rightarrow> json \<Rightarrow> session_store \<Rightarrow> dict res \<times> session_store" where
  "source_transition h now env calls op lease timestamp st =
     then_do (case sc_recover calls of None \<Rightarrow> (Inr (), st) | Some recover \<Rightarrow> recover (op_session op) st) (\<lambda>_ st.
     then_do (reading (\<lambda>x. rbind (sc_load calls) (validate_source_snapshot h)) st) (\<lambda>current_source st.
     then_do (reading (expected_source_of h env (op_session op)) st) (\<lambda>expected_source st.
     if dget current_source ''snapshot_hash'' \<noteq> dget expected_source ''snapshot_hash''
     then (session_error ''autonomy_session_source_snapshot_stale''
             ''current StoryProject does not match the latest verified completion boundary'', st)
     else then_do (mark_verified h op current_source lease timestamp st) (\<lambda>marker st.
          roll_forward_source_transition h now env op (Some marker) st))))"

definition execution_session_id :: "host \<Rightarrow> dict \<Rightarrow> string res" where
  "execution_session_id h plan =
     rbind (au_canonical_hash h [] (JObj [(''plan_hash'', dget plan ''plan_hash''),
              (''book_id'', dget (obj_at plan ''source_snapshot'') ''book_id'')])) (\<lambda>digest.
     Inr (''session_'' @ take 24 digest))"

text \<open>A plan that has a session is executed on it, unless the session has ended or was cancelled.\<close>

definition check_index :: "host \<Rightarrow> dict \<Rightarrow> string \<Rightarrow> string \<Rightarrow> autonomy_root \<Rightarrow> unit res" where
  "check_index h plan session_id name x =
     rbind (load_named name (ar_index x)) (\<lambda>index.
     if dget index ''plan_hash'' \<noteq> dget plan ''plan_hash'' \<or> dget index ''session_id'' \<noteq> JStr session_id
     then session_error ''autonomy_plan_index_conflict'' ''plan index points to another session''
     else Inr ())"

definition execute_again ::
  "host \<Rightarrow> string \<Rightarrow> store_env \<Rightarrow> source_calls \<Rightarrow> json \<Rightarrow> dict \<Rightarrow> string \<Rightarrow> string \<Rightarrow> json \<Rightarrow> session_store \<Rightarrow> dict res \<times> session_store" where
  "execute_again h now env calls ttl plan session_id name timestamp st =
     then_do (reading (check_index h plan session_id name) st) (\<lambda>_ st.
     then_do (status_now h now env (JStr session_id) timestamp st) (\<lambda>current st.
     if dget current ''state'' \<noteq> JStr ''active'' then (Inr current, st)
     else then_do (begin_with h (transition_args ''execute'' session_id current plan JNull JNull ttl timestamp) st) (\<lambda>op st.
          then_do (acquire_for h now op ttl timestamp st) (\<lambda>lease st.
          then_do (or_roll_back h now op timestamp (source_transition h now env calls op lease timestamp st)) (\<lambda>_ st.
          status_now h now env (JStr session_id) timestamp st)))))"

text \<open>The guarded part of a first execution.\<close>

definition first_execution ::
  "host \<Rightarrow> string \<Rightarrow> store_env \<Rightarrow> source_calls \<Rightarrow> dict \<Rightarrow> dict \<Rightarrow> dict \<Rightarrow> json \<Rightarrow> session_store \<Rightarrow> dict res \<times> session_store" where
  "first_execution h now env calls plan op lease timestamp st =
     then_do (reading (\<lambda>x.
        rbind (rbind (sc_load calls) (validate_source_snapshot h)) (\<lambda>current_source.
        rbind (validate_instruction_plan h (JObj plan) None (Some (JObj current_source))) (\<lambda>_. Inr current_source))) st)
       (\<lambda>current_source st.
     then_do (save_preview h env (JObj plan) st) (\<lambda>_ st.
     then_do (mark_verified h op current_source lease timestamp st) (\<lambda>marker st.
     roll_forward_execute h now env op (Some marker) (Some plan) st)))"

definition execute_first ::
  "host \<Rightarrow> string \<Rightarrow> store_env \<Rightarrow> source_calls \<Rightarrow> json \<Rightarrow> dict \<Rightarrow> string \<Rightarrow> json \<Rightarrow> session_store \<Rightarrow> dict res \<times> session_store" where
  "execute_first h now env calls ttl plan session_id timestamp st =
     (let book = dget (obj_at plan ''source_snapshot'') ''book_id'' in
      then_do (on_leases (reconcile h book) st) (\<lambda>prior st.
      then_do (begin_with h
          \<lparr>oa_operation_type = JStr ''execute'', oa_session_id = JStr session_id, oa_book_id = book,
           oa_plan_id = dget plan ''plan_id'', oa_plan_hash = dget plan ''plan_hash'', oa_expected_state = JStr ''absent'',
           oa_expected_event_hash = JNull, oa_expected_lease_hash = lease_hash_of prior,
           oa_target_event_type = JStr ''started'', oa_reason = JNull, oa_lease_ttl_seconds = ttl, oa_created_at = timestamp\<rparr> st)
        (\<lambda>op st.
      then_do (acquire_for h now op ttl timestamp st) (\<lambda>lease st.
      then_do (or_roll_back h now op timestamp (first_execution h now env calls plan op lease timestamp st)) (\<lambda>_ st.
      status_now h now env (JStr session_id) timestamp st)))))"

definition execute_plan ::
  "host \<Rightarrow> string \<Rightarrow> store_env \<Rightarrow> source_calls \<Rightarrow> json \<Rightarrow> json \<Rightarrow> json \<Rightarrow> session_store \<Rightarrow> dict res \<times> session_store" where
  "execute_plan h now env calls ttl instruction_plan at_time st =
     then_do (reconcile_orphans h now env at_time False st) (\<lambda>_ st.
     then_do (reading (\<lambda>x.
        rbind (require_trusted_profiles env) (\<lambda>profiles.
        rbind (validate_instruction_plan h instruction_plan (Some profiles) None) (\<lambda>plan.
        rbind (execution_session_id h plan) (\<lambda>session_id.
        rbind (plan_index_name (dget plan ''plan_hash'')) (\<lambda>name.
        Inr (plan, session_id, name, map_of (ar_index x) name \<noteq> None)))))) st) (\<lambda>(plan, session_id, name, indexed) st.
     if indexed then execute_again h now env calls ttl plan session_id name (py_or at_time (JStr now)) st
     else execute_first h now env calls ttl plan session_id (py_or at_time (JStr now)) st))"

definition resuming :: "host \<Rightarrow> store_env \<Rightarrow> string \<Rightarrow> autonomy_root \<Rightarrow> dict res" where
  "resuming h env resolved x =
     rbind (require_trusted_profiles env) (\<lambda>profiles.
     rbind (load_plan h (session_at x resolved)) (\<lambda>plan.
     validate_instruction_plan h (JObj plan) (Some profiles) None))"

definition resume_session ::
  "host \<Rightarrow> string \<Rightarrow> store_env \<Rightarrow> source_calls \<Rightarrow> json \<Rightarrow> json \<Rightarrow> json \<Rightarrow> session_store \<Rightarrow> dict res \<times> session_store" where
  "resume_session h now env calls ttl session_id at_time st =
     then_do (reconcile_orphans h now env at_time False st) (\<lambda>_ st.
     then_do (on_root (resolve_session_id h session_id) st) (\<lambda>resolved st.
     then_do (reading (resuming h env resolved) st) (\<lambda>plan st.
     then_do (status_now h now env (JStr resolved) at_time st) (\<lambda>current st.
     if dget current ''state'' \<in> {JStr ''abandoned'', JStr ''completed''}
     then (session_error ''autonomy_session_terminal'' (''cannot resume '' @ doc_text current ''state'' @ '' session''), st)
     else let timestamp = py_or at_time (JStr now);
              target = (if dget current ''state'' = JStr ''cancelled'' then JStr ''resumed'' else JNull) in
       then_do (begin_with h (transition_args ''resume'' resolved current plan target JNull ttl timestamp) st) (\<lambda>op st.
       then_do (acquire_for h now op ttl timestamp st) (\<lambda>lease st.
       then_do (or_roll_back h now op timestamp (source_transition h now env calls op lease timestamp st)) (\<lambda>_ st.
       status_now h now env (JStr resolved) timestamp st)))))))"

section \<open>Cancel, abandon and complete\<close>

text \<open>The \<open>try\<close> of the three: an operation that fails is left to the second status after it.\<close>

definition or_defer :: "dict \<Rightarrow> 'a res \<times> session_store \<Rightarrow> 'a res \<times> session_store" where
  "or_defer op outcome =
     (case outcome of
        (Inr v, st) \<Rightarrow> (Inr v, st)
      | (Inl e, st) \<Rightarrow> (Inl e, st\<lparr>ss_deferred := List.insert (op_id_of op) (ss_deferred st)\<rparr>))"

definition marked_transition :: "host \<Rightarrow> string \<Rightarrow> store_env \<Rightarrow> dict \<Rightarrow> session_store \<Rightarrow> dict res \<times> session_store" where
  "marked_transition h now env op st =
     then_do (assert_terminal_transition_ready h env op st) (\<lambda>_ st.
     then_do (on_journal (all_or_nothing (mark_terminal_ready h op)) st) (\<lambda>_ st.
     roll_forward_terminal_transition h now env op st))"

definition terminal_operation ::
  "host \<Rightarrow> string \<Rightarrow> store_env \<Rightarrow> string \<Rightarrow> string \<Rightarrow> json \<Rightarrow> string \<Rightarrow> dict \<Rightarrow> json \<Rightarrow> session_store \<Rightarrow> dict res \<times> session_store" where
  "terminal_operation h now env operation target reason resolved current timestamp st =
     then_do (reading (\<lambda>x. load_plan h (session_at x resolved)) st) (\<lambda>plan st.
     then_do (begin_with h (transition_args operation resolved current (dset ''plan_id'' (dget current ''plan_id'') plan)
                (JStr target) reason JNull timestamp) st) (\<lambda>op st.
     then_do (or_defer op (marked_transition h now env op st)) (\<lambda>_ st.
     status_now h now env (JStr resolved) timestamp st)))"

definition finish_terminal_lease_release ::
  "host \<Rightarrow> string \<Rightarrow> store_env \<Rightarrow> string \<Rightarrow> dict \<Rightarrow> json \<Rightarrow> session_store \<Rightarrow> dict res \<times> session_store" where
  "finish_terminal_lease_release h now env session_id current at_time st =
     then_do (if truthy (dget current ''lease_held'')
              then on_leases (release h now (dget current ''book_id'') (JStr session_id) (dget current ''plan_id'')
                     (dget current ''lease_hash'') (py_or at_time (JStr now))) st
              else (Inr None, st)) (\<lambda>_ st.
     status_now h now env (JStr session_id) at_time st)"

definition resolved_status ::
  "host \<Rightarrow> string \<Rightarrow> store_env \<Rightarrow> json \<Rightarrow> json \<Rightarrow> session_store \<Rightarrow> (string \<times> dict) res \<times> session_store" where
  "resolved_status h now env session_id at_time st =
     then_do (reconcile_orphans h now env at_time False st) (\<lambda>_ st.
     then_do (on_root (resolve_session_id h session_id) st) (\<lambda>resolved st.
     then_do (status_now h now env (JStr resolved) at_time st) (\<lambda>current st. (Inr (resolved, current), st))))"

definition cancel_session ::
  "host \<Rightarrow> string \<Rightarrow> store_env \<Rightarrow> json \<Rightarrow> json \<Rightarrow> json \<Rightarrow> session_store \<Rightarrow> dict res \<times> session_store" where
  "cancel_session h now env session_id reason at_time st =
     then_do (resolved_status h now env session_id at_time st) (\<lambda>(resolved, current) st.
     if dget current ''state'' = JStr ''cancelled'' then finish_terminal_lease_release h now env resolved current at_time st
     else if dget current ''state'' \<in> {JStr ''abandoned'', JStr ''completed''}
     then (session_error ''autonomy_session_terminal'' (''cannot cancel '' @ doc_text current ''state'' @ '' session''), st)
     else terminal_operation h now env ''cancel'' ''cancelled'' reason resolved current (py_or at_time (JStr now)) st)"

definition abandon_session ::
  "host \<Rightarrow> string \<Rightarrow> store_env \<Rightarrow> json \<Rightarrow> json \<Rightarrow> json \<Rightarrow> session_store \<Rightarrow> dict res \<times> session_store" where
  "abandon_session h now env session_id reason at_time st =
     then_do (resolved_status h now env session_id at_time st) (\<lambda>(resolved, current) st.
     if dget current ''state'' = JStr ''abandoned'' then finish_terminal_lease_release h now env resolved current at_time st
     else if dget current ''state'' = JStr ''completed''
     then (session_error ''autonomy_session_terminal'' ''completed session cannot be abandoned'', st)
     else terminal_operation h now env ''abandon'' ''abandoned'' reason resolved current (py_or at_time (JStr now)) st)"

definition complete_session ::
  "host \<Rightarrow> string \<Rightarrow> store_env \<Rightarrow> json \<Rightarrow> json \<Rightarrow> session_store \<Rightarrow> dict res \<times> session_store" where
  "complete_session h now env session_id at_time st =
     then_do (resolved_status h now env session_id at_time st) (\<lambda>(resolved, current) st.
     if dget current ''state'' = JStr ''completed'' then finish_terminal_lease_release h now env resolved current at_time st
     else if dget current ''state'' \<noteq> JStr ''active''
     then (session_error ''autonomy_session_not_active'' ''only an active session can complete'', st)
     else if \<not> py_eq (dget current ''completed_count'') (dget current ''requested_chapter_count'')
     then (session_error ''autonomy_session_incomplete'' ''completion receipt count does not satisfy the InstructionPlan'', st)
     else if truthy (dget current ''delivery_blocked'')
     then (session_error ''autonomy_session_delivery_blocked''
             ''required delivery must be resolved before session completion'', st)
     else terminal_operation h now env ''complete'' ''completed'' JNull resolved current (py_or at_time (JStr now)) st)"

section \<open>Gates and readers\<close>

definition assert_stage_provider_allowed ::
  "host \<Rightarrow> string \<Rightarrow> store_env \<Rightarrow> json \<Rightarrow> string \<Rightarrow> json \<Rightarrow> session_store \<Rightarrow> dict res \<times> session_store" where
  "assert_stage_provider_allowed h now env session_id stage at_time st =
     then_do (on_root (resolve_session_id h session_id) st) (\<lambda>resolved st.
     then_do (session_status h now env (JStr resolved) at_time st) (\<lambda>view st.
     if dget view ''state'' \<noteq> JStr ''active''
     then (rbind (safe_id ''stage'' (JStr stage)) (\<lambda>s.
           session_error (s @ ''_session_not_active'') (stage @ '' provider call requires an active session'')), st)
     else if truthy (dget view ''delivery_blocked'')
     then (session_error ''autonomy_session_delivery_blocked''
             ''required delivery is blocked; no later chapter stage may start'', st)
     else reading (\<lambda>x. assert_held h now (dget view ''book_id'') (JStr resolved) (dget view ''plan_id'')
                         (py_or at_time (JStr now)) (ar_leases x)) st))"

definition assert_outline_provider_allowed ::
  "host \<Rightarrow> string \<Rightarrow> store_env \<Rightarrow> json \<Rightarrow> json \<Rightarrow> session_store \<Rightarrow> dict res \<times> session_store" where
  "assert_outline_provider_allowed h now env session_id at_time =
     assert_stage_provider_allowed h now env session_id ''outline'' at_time"

definition load_instruction_plan :: "host \<Rightarrow> json \<Rightarrow> session_store \<Rightarrow> dict res \<times> session_store" where
  "load_instruction_plan h session_id st =
     then_do (on_root (resolve_session_id h session_id) st) (\<lambda>resolved st.
     reading (\<lambda>x. load_plan h (session_at x resolved)) st)"

definition started_at :: "host \<Rightarrow> json \<Rightarrow> session_store \<Rightarrow> string res \<times> session_store" where
  "started_at h session_id st =
     then_do (on_root (resolve_session_id h session_id) st) (\<lambda>resolved st.
     reading (\<lambda>x. session_started_at h (session_at x resolved)) st)"

end
