(* ===== verification/Session_Transitions.thy ===== *)
theory Session_Transitions
  imports Session_Operations
begin

text \<open>
  What the operations of \<open>Session_Operations\<close> promise: the event of an operation is written once, a transition that ends
  a session takes effect, needs its receipts and leaves nothing without its marker, and where recovery is refused.
\<close>

section \<open>The event of an operation\<close>

lemma then_doE: "then_do p f = (Inr v, s) \<Longrightarrow> (\<And>a t. p = (Inr a, t) \<Longrightarrow> f a t = (Inr v, s) \<Longrightarrow> P) \<Longrightarrow> P"
  by (auto simp: then_do_Inr)

lemma all_or_nothing_cases:
  "all_or_nothing f s = (r, s') \<longleftrightarrow> (case r of Inl e \<Rightarrow> f s = Inl e \<and> s' = s | Inr v \<Rightarrow> f s = Inr (v, s'))"
  by (auto simp: all_or_nothing_def split: sum.splits)

lemma on_session_Inr:
  "on_session i f st = (Inr v, st') \<longleftrightarrow> (\<exists>dir. f (session_at (ss_root st) i) = Inr (v, dir) \<and>
     st' = st\<lparr>ss_root := (ss_root st)\<lparr>ar_sessions := AList.update i dir (ar_sessions (ss_root st))\<rparr>\<rparr>)"
  by (auto simp: on_session_def on_root_def all_or_nothing_def rbind_eq_Inr split: sum.splits)

lemma session_at_update:
  "session_at (x\<lparr>ar_sessions := AList.update i dir (ar_sessions x)\<rparr>) k = (if k = i then dir else session_at x k)"
  by (simp add: session_at_def update_conv')

lemma session_same:
  assumes "load_events h b (session_at x i) = Inr es"
  shows "x\<lparr>ar_sessions := AList.update i (session_at x i) (ar_sessions x)\<rparr> = x"
proof (cases "map_of (ar_sessions x) i")
  case None
  with assms show ?thesis by (simp add: session_at_def load_events_def load_genesis_def load_named_def)
next
  case (Some d)
  then have "AList.update i d (ar_sessions x) = ar_sessions x" by (rule update_same)
  with Some show ?thesis by (simp add: session_at_def)
qed

lemma built_event_refl:
  assumes "build_session_event h now genesis n t p reason (JStr c) = Inr e"
  shows "py_eq (JObj e) (JObj e)"
proof -
  from assms obtain b x where b: "event_body h now genesis n t p reason (JStr c) = Inr b"
    and v: "validate_session_event h (JObj (dset ''event_hash'' (JStr x) b)) = Inr e"
    by (auto simp: build_session_event_def rbind_eq_Inr)
  from validate_session_event_id [OF v] have e: "e = dset ''event_hash'' (JStr x) b" by simp
  from b obtain origin m previous r where
    b': "b = [(''schema_version'', JStr ''1.0''), (''session_id'', dget origin ''session_id''), (''book_id'', dget origin ''book_id''),
          (''plan_id'', dget origin ''plan_id''), (''plan_hash'', dget origin ''plan_hash''),
          (''genesis_hash'', dget origin ''genesis_hash''), (''sequence'', JInt m), (''event_type'', JStr t),
          (''previous_event_hash'', previous), (''reason'', r), (''recorded_at'', py_or (JStr c) (JStr now))]"
    and p: "digest_or_null previous" and r: "r = JNull \<or> (\<exists>s. r = JStr s)"
    by (auto simp: event_body_def rbind_eq_Inr au_optional_sha256_Inr split: if_splits)
  from v have "\<exists>s. dget origin f = JStr s" if "f \<in> {''session_id'', ''book_id'', ''plan_id'', ''plan_hash'', ''genesis_hash''}" for f
    using that
    by (auto simp: validate_session_event_def rbind_eq_Inr au_validate_mapping_Inr session_ids_Inr session_digests_Inr b' dest!: json_sha256D split: if_splits)
  then obtain s1 s2 s3 s4 s5 where "dget origin ''session_id'' = JStr s1" "dget origin ''book_id'' = JStr s2"
    "dget origin ''plan_id'' = JStr s3" "dget origin ''plan_hash'' = JStr s4" "dget origin ''genesis_hash'' = JStr s5"
    by (metis insertCI)
  with p r show ?thesis
    by (auto simp: e b' py_or_def digest_or_null_def dset_def dest!: json_sha256D)
qed


lemma applied_event_last:
  assumes "applied_event h now op genesis events = Inr e"
  shows "events \<noteq> [] \<and> last events = e"
  using assms by (induction h now op genesis events rule: applied_event.induct) (auto simp: rbind_eq_Inr split: if_splits)

lemma applied_event_found:
  assumes "build_session_event h now genesis (JInt (int_at p ''sequence'' + 1)) (py_str h (dget op ''target_event_type''))
      (dget p ''event_hash'') (dget op ''reason'') (dget op ''created_at'') = Inr e" and "py_eq (JObj e) (JObj e)"
    and "dget p ''event_hash'' = dget op ''expected_event_hash''"
    and "\<forall>q \<in> set events. dget q ''event_hash'' \<noteq> dget op ''expected_event_hash''"
  shows "applied_event h now op genesis (events @ [p, e]) = Inr e"
  using assms(4)
proof (induction events)
  case Nil
  then show ?case using assms(1-3) by simp
next
  case (Cons q qs)
  then show ?case by (cases "qs @ [p, e]") auto
qed

lemma loaded_event_numbers:
  assumes "load_events h b dir = Inr events" and "i < length events"
  shows "dget (events ! i) ''sequence'' = JInt (int i + 1)"
proof -
  from assms(1) obtain genesis where "event_log h genesis (sn_events dir) = Inr events" by (auto simp: load_events_Inr)
  from loaded_log(1) [OF this [unfolded event_log_def]] assms(2) show ?thesis by (simp add: session_log_def)
qed

lemma typed_events:
  "rfold (log_step h genesis) fs [] = Inr events \<Longrightarrow> \<forall>d \<in> set events. \<exists>x. dget d ''event_type'' = JStr x"
proof (induction fs arbitrary: events rule: rev_induct)
  case (snoc f fs)
  then obtain b where b: "rfold (log_step h genesis) fs [] = Inr b" and s: "log_step h genesis f b = Inr events"
    by (auto simp: rfold_snoc)
  from s obtain e where e: "events = b @ [e]" "assert_transition h b (dget e ''event_type'') = Inr ()" by (auto simp: log_step_Inr)
  have "\<exists>x. dget e ''event_type'' = JStr x"
    using e(2) by (auto simp: assert_transition_def rbind_eq_Inr split: if_splits option.splits)
  with snoc.IH [OF b] e(1) show ?case by simp
qed simp

lemma loaded_event_types: "load_events h b dir = Inr events \<Longrightarrow> \<forall>d \<in> set events. \<exists>x. dget d ''event_type'' = JStr x"
  by (auto simp: load_events_Inr event_log_def dest!: typed_events)

lemma applied_event_type:
  assumes "applied_event h now op genesis events = Inr e" and "dget op ''target_event_type'' = JStr t"
    and "\<forall>d \<in> set events. \<exists>x. dget d ''event_type'' = JStr x"
  shows "dget e ''event_type'' = JStr t"
  using assms
proof (induction h now op genesis events rule: applied_event.induct)
  case (1 h now op genesis p e' events)
  show ?case
  proof (cases "dget p ''event_hash'' = dget op ''expected_event_hash''")
    case True
    with "1.prems" obtain expected where b: "build_session_event h now genesis (JInt (int_at p ''sequence'' + 1)) t
        (dget p ''event_hash'') (dget op ''reason'') (dget op ''created_at'') = Inr expected"
      and c: "if events = [] \<and> py_eq (JObj e') (JObj expected) then e' = e else applied_event h now op genesis (e' # events) = Inr e"
      by (auto simp: rbind_eq_Inr simp del: py_eq.simps split: if_splits)
    show ?thesis
    proof (cases "events = [] \<and> py_eq (JObj e') (JObj expected)")
      case True
      with c "1.prems"(3) obtain x where "py_eq (JObj e) (JObj expected)" "dget e ''event_type'' = JStr x" by auto
      with built_event(3) [OF b] show ?thesis using py_eq_text [of e expected] by auto
    next
      case False
      with c have "applied_event h now op genesis (e' # events) = Inr e" by simp
      with 1 True b False show ?thesis by simp
    qed
  next
    case False
    with 1 show ?thesis by simp
  qed
qed simp_all

text \<open>With a time of its own the event does not depend on the clock.\<close>

lemma build_session_event_clock:
  "truthy at_time \<Longrightarrow> build_session_event h now genesis n t p r at_time = build_session_event h now' genesis n t p r at_time"
  by (simp add: build_session_event_def event_body_def py_or_def)

lemma append_event_clock: "truthy at_time \<Longrightarrow> append_event h now t r at_time dir = append_event h now' t r at_time dir"
  unfolding append_event_def using build_session_event_clock [of at_time h now _ _ _ _ _ now'] by presburger

lemma applied_event_clock:
  assumes "truthy (dget op ''created_at'')"
  shows "applied_event h now op genesis es = applied_event h now' op genesis es"
proof (induction es rule: induct_list012)
  case (3 p e es)
  show ?case
    unfolding applied_event.simps(1) [of h now] applied_event.simps(1) [of h now'] build_session_event_clock [OF assms, of h now _ _ _ _ _ now']
    by (simp only: 3)
qed simp_all

text \<open>
  C10: recovery does not double the event of an operation. When the event the operation expects was
  recovered or appended, recovering it again returns that event and changes nothing, at whatever time.
\<close>

theorem recovered_event_is_not_doubled:
  assumes first: "recover_expected_event h now op genesis st = (Inr e, st')"
    and target: "dget op ''target_event_type'' \<noteq> JNull" and created: "dget op ''created_at'' = JStr (c # cs)"
    and origin: "load_genesis h (session_at (ss_root st) (op_session op)) = Inr genesis"
    and events: "load_events h False (session_at (ss_root st) (op_session op)) = Inr events" "length events < 999999"
    and after: "load_events h False (session_at (ss_root st') (op_session op)) = Inr events'"
    and hashes: "distinct (map (\<lambda>d. dget d ''event_hash'') events')"
  shows "recover_expected_event h now' op genesis st' = (Inr e, st')"
proof -
  let ?x = "ss_root st" and ?i = "op_session op"
  from created have tr: "truthy (dget op ''created_at'')" by (simp add: truthy_def)
  from first obtain dir where f: "recover_expected_in h now op genesis (session_at ?x ?i) = Inr (e, dir)"
    and st': "st' = st\<lparr>ss_root := ?x\<lparr>ar_sessions := AList.update ?i dir (ar_sessions ?x)\<rparr>\<rparr>"
    by (auto simp: recover_expected_event_def on_session_Inr)
  have at': "session_at (ss_root st') ?i = dir" by (simp add: st' session_at_update)
  have again: "recover_expected_in h now' op genesis dir = Inr (e, dir)"
  proof (cases "last_event_hash events = dget op ''expected_event_hash''")
    case True
    with f events(1) target have a: "append_event h now (py_str h (dget op ''target_event_type'')) (dget op ''reason'')
        (dget op ''created_at'') (session_at ?x ?i) = Inr (e, dir)" by (simp add: recover_expected_in_def)
    have ev: "load_events h True (session_at ?x ?i) = Inr events" using events(1) by (auto simp: load_events_Inr)
    from appended_event_loads_last [OF ev events(2) a] after at' have ev': "events' = events @ [e]" "load_events h False dir = Inr events'"
      by auto
    from events(1) obtain es p where es: "events = es @ [p]" by (cases events rule: rev_cases) (auto simp: load_events_Inr)
    from a origin ev have b: "build_session_event h now genesis (JInt (int (length events) + 1)) (py_str h (dget op ''target_event_type''))
        (last_event_hash events) (dget op ''reason'') (dget op ''created_at'') = Inr e"
      by (auto simp: append_event_def rbind_eq_Inr)
    have "int_at p ''sequence'' = int (length events)"
      using loaded_event_numbers [OF events(1), of "length es"] by (simp add: es int_at_def)
    with b True have b': "build_session_event h now genesis (JInt (int_at p ''sequence'' + 1)) (py_str h (dget op ''target_event_type''))
        (dget p ''event_hash'') (dget op ''reason'') (dget op ''created_at'') = Inr e"
      by (simp add: es last_event_hash_def)
    have "applied_event h now op genesis events' = Inr e"
      unfolding ev'(1) es append_assoc append_Cons append_Nil
      by (rule applied_event_found [OF b' built_event_refl [OF b [unfolded created]]])
         (use True hashes in \<open>auto simp: es ev'(1) last_event_hash_def image_iff\<close>)
    with applied_event_clock [OF tr, of h now genesis events' now'] have "applied_event h now' op genesis events' = Inr e" by simp
    moreover have "last_event_hash events' \<noteq> dget op ''expected_event_hash''"
      using True hashes by (auto simp: es ev'(1) last_event_hash_def)
    ultimately show ?thesis by (simp add: recover_expected_in_def ev'(2))
  next
    case False
    with f events(1) have "applied_event h now op genesis events = Inr e" "dir = session_at ?x ?i"
      by (auto simp: recover_expected_in_def rbind_eq_Inr)
    then have "applied_event h now' op genesis events = Inr e" using applied_event_clock [OF tr, of h now genesis events now'] by simp
    with \<open>dir = session_at ?x ?i\<close> False events(1) show ?thesis by (simp add: recover_expected_in_def)
  qed
  have "(ss_root st')\<lparr>ar_sessions := AList.update ?i dir (ar_sessions (ss_root st'))\<rparr> = ss_root st'"
    using session_same [OF after] at' by simp
  with again at' show ?thesis by (simp add: recover_expected_event_def on_session_Inr)
qed


section \<open>Terminal transitions\<close>

lemma on_leases_keeps: "on_leases f st = (r, st') \<Longrightarrow> ar_sessions (ss_root st') = ar_sessions (ss_root st) \<and> ar_journal (ss_root st') = ar_journal (ss_root st)"
  by (auto simp: on_leases_def on_root_def Let_def split: prod.splits)

lemma on_journal_keeps: "on_journal f st = (r, st') \<Longrightarrow> ar_sessions (ss_root st') = ar_sessions (ss_root st)"
  by (auto simp: on_journal_def on_root_def Let_def split: prod.splits)

lemma session_at_cong: "ar_sessions x = ar_sessions y \<Longrightarrow> session_at x i = session_at y i"
  by (simp add: session_at_def)

lemma reading_keeps: "reading f st = (r, st') \<longleftrightarrow> r = f (ss_root st) \<and> st' = st"
  by (auto simp: reading_def)

lemma terminal_ready_Inr:
  assumes "assert_terminal_transition_ready h env op st = (Inr genesis, st')"
  shows "terminal_evidence h env op (ss_root st) = Inr genesis" and "ar_sessions (ss_root st') = ar_sessions (ss_root st)"
    and "ar_journal (ss_root st') = ar_journal (ss_root st)"
  using assms by (auto simp: assert_terminal_transition_ready_def then_do_Inr reading_keeps split: if_splits dest: on_leases_keeps)

lemma terminal_evidence_Inr:
  assumes "terminal_evidence h env op x = Inr genesis"
  obtains plan events where "load_genesis h (session_at x (op_session op)) = Inr genesis"
    and "load_plan h (session_at x (op_session op)) = Inr plan" and "load_events h False (session_at x (op_session op)) = Inr events"
    and "dget op ''operation_type'' = JStr ''complete'' \<Longrightarrow> dget (last events) ''event_type'' \<noteq> dget op ''target_event_type'' \<Longrightarrow>
      \<exists>completion. completion_summary h env (op_session op) x = Inr completion \<and> \<not> completion_unproven completion plan"
  using assms by (auto simp: terminal_evidence_def scoped_genesis_def rbind_eq_Inr split: if_splits)

lemma release_keeps:
  "release_terminal_lease h now op st = (r, st') \<Longrightarrow> ar_sessions (ss_root st') = ar_sessions (ss_root st) \<and> ar_journal (ss_root st') = ar_journal (ss_root st)"
  by (auto simp: release_terminal_lease_def then_do_def release_for_def split: prod.splits sum.splits if_splits dest!: on_leases_keeps)

lemma finish_keeps: "finish_with h op outcome e l t st = (r, st') \<Longrightarrow> ar_sessions (ss_root st') = ar_sessions (ss_root st)"
  by (simp add: finish_with_def on_journal_keeps)

lemma terminal_rolled_forward:
  assumes "roll_forward_terminal_transition h now env op st = (Inr r, st')"
  obtains genesis s1 e s2 current s3 where
    "assert_terminal_transition_ready h env op st = (Inr genesis, s1)" and "recover_expected_event h now op genesis s1 = (Inr e, s2)"
    and "release_terminal_lease h now op s2 = (Inr current, s3)"
    and "finish_with h op ''completed'' (dget e ''event_hash'') (lease_hash_of current) (dget op ''created_at'') s3 = (Inr r, st')"
  using assms unfolding roll_forward_terminal_transition_def then_do_Inr by blast

lemma target_state:
  assumes "valid_intent h op" and "\<not> source_guarded op"
  obtains t where "dget op ''target_event_type'' = JStr t" and "map_of state_after t = Some t"
  using valid_intent_transition [OF assms(1)] assms(2)
  by (auto simp: allowed_operations_def source_guarded_def state_after_def)

text \<open>What the recovery of an event does to the log.\<close>

lemma recovered_log:
  assumes rec: "recover_expected_event h now op genesis st = (Inr e, st')"
    and ev: "load_events h False (session_at (ss_root st) (op_session op)) = Inr events" "length events < 999999"
    and target: "dget op ''target_event_type'' = JStr t"
  shows "\<exists>events'. load_events h False (session_at (ss_root st') (op_session op)) = Inr events' \<and> events' \<in> {events, events @ [e]} \<and>
    last events' = e \<and> dget e ''event_type'' = JStr t"
proof -
  let ?x = "ss_root st" and ?i = "op_session op"
  from rec obtain dir where f: "recover_expected_in h now op genesis (session_at ?x ?i) = Inr (e, dir)"
    and at': "session_at (ss_root st') ?i = dir"
    by (auto simp: recover_expected_event_def on_session_Inr session_at_update)
  show ?thesis
  proof (cases "last_event_hash events = dget op ''expected_event_hash''")
    case True
    with f ev(1) target have a: "append_event h now t (dget op ''reason'') (dget op ''created_at'') (session_at ?x ?i) = Inr (e, dir)"
      by (simp add: recover_expected_in_def)
    have ev': "load_events h True (session_at ?x ?i) = Inr events" using ev(1) by (auto simp: load_events_Inr)
    from a have "dget e ''event_type'' = JStr t" by (auto simp: append_event_def rbind_eq_Inr dest: built_event(3))
    with appended_event_loads_last [OF ev' ev(2) a] at' show ?thesis by simp
  next
    case False
    with f ev(1) have a: "applied_event h now op genesis events = Inr e" "dir = session_at ?x ?i"
      by (auto simp: recover_expected_in_def rbind_eq_Inr)
    from applied_event_type [OF a(1) target loaded_event_types [OF ev(1)]] applied_event_last [OF a(1)] ev(1) a(2) at' show ?thesis by simp
  qed
qed

text \<open>
  C13: a terminal transition takes effect. When it returns, the log is the old one, or the old one with one event more;
  its last event is the target of the operation, and that is the state of the session.
\<close>

theorem terminal_transition_takes_effect:
  assumes "roll_forward_terminal_transition h now env op st = (Inr r, st')" and "valid_intent h op" and "\<not> source_guarded op"
    and "load_events h False (session_at (ss_root st) (op_session op)) = Inr events" and "length events < 999999"
  shows "\<exists>events'. load_events h False (session_at (ss_root st') (op_session op)) = Inr events' \<and>
    (events' = events \<or> (\<exists>e. events' = events @ [e])) \<and> state_from_events h events' = Inr (doc_text op ''target_event_type'')"
proof -
  from assms(2,3) obtain t where t: "dget op ''target_event_type'' = JStr t" "map_of state_after t = Some t" by (rule target_state)
  from assms(1) obtain genesis s1 e s2 current s3 where
    r: "assert_terminal_transition_ready h env op st = (Inr genesis, s1)" and e: "recover_expected_event h now op genesis s1 = (Inr e, s2)"
    and rel: "release_terminal_lease h now op s2 = (Inr current, s3)"
    and fin: "finish_with h op ''completed'' (dget e ''event_hash'') (lease_hash_of current) (dget op ''created_at'') s3 = (Inr r, st')"
    by (rule terminal_rolled_forward)
  have s1: "session_at (ss_root s1) i = session_at (ss_root st) i" for i
    by (rule session_at_cong) (rule terminal_ready_Inr(2) [OF r])
  have s2: "session_at (ss_root st') i = session_at (ss_root s2) i" for i
    using release_keeps [OF rel] finish_keeps [OF fin] by (intro session_at_cong) simp
  from recovered_log [OF e _ assms(5) t(1)] assms(4) s1 s2 obtain events' where
    "load_events h False (session_at (ss_root st') (op_session op)) = Inr events'" "events' \<in> {events, events @ [e]}"
    "last events' = e" "dget e ''event_type'' = JStr t" by auto
  with t show ?thesis by (auto simp: state_from_events_def event_type_of_def)
qed

lemma completion_summary_Inr:
  assumes "completion_summary h env i x = Inr completion"
  obtains l chain blocked where "session_ledger h i x = Inr l" and "canonical_chain h l chain"
    and "dget completion ''completed_count'' = JInt (int (length chain))"
    and "blocked_chapters (se_deliveries env) chain = Inr blocked" and "dget completion ''delivery_blocked'' = JBool (blocked \<noteq> [])"
proof -
  from assms obtain l dir chain blocked where l: "session_ledger h i x = Inr l"
    and reb: "rebuild h (ar_leases x) (se_publications env) l dir = Inr chain" and b: "blocked_chapters (se_deliveries env) chain = Inr blocked"
    and "dget completion ''completed_count'' = JInt (int (length chain))" "dget completion ''delivery_blocked'' = JBool (blocked \<noteq> [])"
    by (auto simp: completion_summary_def session_summary_def ledger_summary_def rbind_eq_Inr dget_Cons)
  moreover from reb have "canonical_chain h l chain" by (elim rebuild_cursorE) (auto simp: cursor_ok_def)
  ultimately show thesis using that by blast
qed

text \<open>
  C12: a session is completed only with its receipts. A completion that is not applied yet passes
  only if the ledger has one canonical receipt for every requested chapter and no delivery is blocked.
\<close>

theorem completion_needs_its_receipts:
  assumes "roll_forward_terminal_transition h now env op st = (Inr r, st')" and "dget op ''operation_type'' = JStr ''complete''"
    and "load_events h False (session_at (ss_root st) (op_session op)) = Inr events"
    and "dget (last events) ''event_type'' \<noteq> dget op ''target_event_type''"
  shows "\<exists>l chain. session_ledger h (op_session op) (ss_root st) = Inr l \<and> canonical_chain h l chain \<and>
    dget (lg_plan l) ''requested_chapter_count'' = JInt (int (length chain)) \<and> blocked_chapters (se_deliveries env) chain = Inr []"
proof -
  from assms(1) obtain genesis s1 where "assert_terminal_transition_ready h env op st = (Inr genesis, s1)"
    by (auto simp: roll_forward_terminal_transition_def then_do_Inr)
  from terminal_ready_Inr(1) [OF this] assms(2-4) obtain plan completion where
    p: "load_plan h (session_at (ss_root st) (op_session op)) = Inr plan"
    and c: "completion_summary h env (op_session op) (ss_root st) = Inr completion" "\<not> completion_unproven completion plan"
    by (elim terminal_evidence_Inr) auto
  from completion_summary_Inr [OF c(1)] obtain l chain blocked where l: "session_ledger h (op_session op) (ss_root st) = Inr l"
    "canonical_chain h l chain" "dget completion ''completed_count'' = JInt (int (length chain))"
    "blocked_chapters (se_deliveries env) chain = Inr blocked" "dget completion ''delivery_blocked'' = JBool (blocked \<noteq> [])" .
  from l(1) p have plan: "lg_plan l = plan"
    by (auto simp: session_ledger_def open_ledger_def rbind_eq_Inr dest!: validated_plan(1))
  from p obtain n where "dget plan ''requested_chapter_count'' = JInt n"
    by (auto simp: load_plan_def rbind_eq_Inr dest!: validated_plan(2))
  with l c(2) plan have "dget (lg_plan l) ''requested_chapter_count'' = JInt (int (length chain))" "blocked = []"
    by (auto simp: completion_unproven_def truthy_def)
  with l show ?thesis by blast
qed

section \<open>The marker comes first\<close>

definition has_marker :: "dict \<Rightarrow> session_store \<Rightarrow> bool" where
  "has_marker op st \<longleftrightarrow> op_file ''commit.marker'' op (ar_journal (ss_root st)) \<noteq> None"

lemma on_journal_eq:
  "on_journal f st = (let (r, j) = f (ar_journal (ss_root st)) in (r, st\<lparr>ss_root := (ss_root st)\<lparr>ar_journal := j\<rparr>\<rparr>))"
  by (simp add: on_journal_def on_root_def Let_def split: prod.splits)

lemma appended_file:
  "journal_append i n p j = Inr j' \<Longrightarrow> map_of (op_files i j') n \<noteq> None \<and> (map_of (op_files i j) m \<noteq> None \<longrightarrow> map_of (op_files i j') m \<noteq> None)"
  by (erule journal_append_cases) (auto simp: op_files_def update_conv' split: option.splits)

lemma finish_keeps_marker: "finish_with h op outcome e l t st = (r, st') \<Longrightarrow> has_marker op st \<Longrightarrow> has_marker op st'"
  by (auto simp: finish_with_def on_journal_eq all_or_nothing_def finish_op_Inr has_marker_def op_file_def
      split: sum.splits dest!: appended_file [where m = "''commit.marker''"])

lemma marker_kept_by:
  "ar_journal (ss_root st') = ar_journal (ss_root st) \<Longrightarrow> has_marker op st' = has_marker op st"
  by (simp add: has_marker_def)

lemma terminal_ready_keeps:
  "assert_terminal_transition_ready h env op st = (r, st') \<Longrightarrow>
     ar_sessions (ss_root st') = ar_sessions (ss_root st) \<and> ar_journal (ss_root st') = ar_journal (ss_root st)"
  by (auto simp: assert_terminal_transition_ready_def then_do_def reading_def split: prod.splits sum.splits dest!: on_leases_keeps)

lemma recover_keeps_journal: "recover_expected_event h now op genesis st = (r, st') \<Longrightarrow> ar_journal (ss_root st') = ar_journal (ss_root st)"
  by (auto simp: recover_expected_event_def on_session_def on_root_def all_or_nothing_def rbind_def split: sum.splits prod.splits)

lemma roll_forward_keeps_marker:
  assumes "roll_forward_terminal_transition h now env op st = (r, st')" and "has_marker op st"
  shows "has_marker op st'"
  using assms
  by (auto simp: roll_forward_terminal_transition_def then_do_def split: prod.splits sum.splits
      dest!: terminal_ready_keeps recover_keeps_journal release_keeps marker_kept_by [where op = op] dest: finish_keeps_marker)

lemma ready_has_marker:
  assumes "on_journal (all_or_nothing (mark_terminal_ready h op)) st = (Inr m, st')" and "dget op ''schema_version'' = JStr ''1.1''"
  shows "has_marker op st'"
proof -
  from assms obtain p where "journal_append (op_id_of op) ''commit.marker'' p (ar_journal (ss_root st)) = Inr (ar_journal (ss_root st'))"
    by (auto simp: on_journal_eq all_or_nothing_def mark_terminal_ready_def rbind_eq_Inr validate_operation_intent_iff split: sum.splits if_splits)
  from appended_file [OF this] show ?thesis by (simp add: has_marker_def op_file_def)
qed

text \<open>
  C11: no effect before the marker. Whatever happens in a cancel, abandon or complete, if its journal
  has no commit marker afterwards, then no session has changed.
\<close>

theorem unmarked_transition_has_no_effect:
  assumes "marked_transition h now env op st = (r, st')" and "dget op ''schema_version'' = JStr ''1.1''"
    and "op_file ''commit.marker'' op (ar_journal (ss_root st')) = None"
  shows "ar_sessions (ss_root st') = ar_sessions (ss_root st)"
proof -
  obtain r1 s1 where 1: "assert_terminal_transition_ready h env op st = (r1, s1)" by fastforce
  obtain r2 s2 where 2: "on_journal (all_or_nothing (mark_terminal_ready h op)) s1 = (r2, s2)" by fastforce
  have same: "ar_sessions (ss_root s1) = ar_sessions (ss_root st)" "ar_sessions (ss_root s2) = ar_sessions (ss_root s1)"
    using terminal_ready_keeps [OF 1] on_journal_keeps [OF 2] by simp_all
  show ?thesis
  proof (cases r1)
    case (Inl e)
    with assms(1) 1 same show ?thesis by (simp add: marked_transition_def then_do_def)
  next
    case (Inr g)
    show ?thesis
    proof (cases r2)
      case (Inl e)
      with \<open>r1 = Inr g\<close> assms(1) 1 2 same show ?thesis by (simp add: marked_transition_def then_do_def)
    next
      case (Inr m)
      from ready_has_marker [OF 2 [unfolded Inr] assms(2)] have "has_marker op s2" .
      moreover have "roll_forward_terminal_transition h now env op s2 = (r, st')"
        using assms(1) 1 2 \<open>r1 = Inr g\<close> Inr by (simp add: marked_transition_def then_do_def)
      ultimately have "has_marker op st'" using roll_forward_keeps_marker by blast
      with assms(3) show ?thesis by (simp add: has_marker_def)
    qed
  qed
qed

section \<open>Recovery that is refused\<close>

text \<open>
  C14: a renewed lease blocks the store. When a cancel, abandon or complete was cut short before its marker and the
  lease of its book has been renewed since, recovery refuses to roll the operation back, and the store cannot be opened.
\<close>

theorem renewed_lease_blocks_the_store:
  assumes ops: "pending h (ar_journal x) = Inr [op]" and "\<not> source_guarded op"
    and unmarked: "marker_present h op (ar_journal x) = Inr False"
    and lease: "reconcile h (dget op ''book_id'') (ar_leases x) = (Inr (Some lease), leases)"
    and renewed: "dget lease ''lease_hash'' \<noteq> dget op ''expected_lease_hash''"
  shows "\<exists>e st'. open_store h now env True x = (Inl e, st') \<and> ar_journal (ss_root st') = ar_journal x"
proof -
  let ?st = "\<lparr>ss_root = x, ss_deferred = []\<rparr>"
  define failed :: "dict res \<times> session_store \<Rightarrow> bool"
    where "failed o' \<longleftrightarrow> (\<exists>e st'. o' = (Inl e, st') \<and> ar_journal (ss_root st') = ar_journal x)" for o'
  have "failed (rollback_unverified_terminal h op t ?st)" for t
    using lease renewed
    by (auto simp: failed_def rollback_unverified_terminal_def then_do_def reading_def on_leases_def on_root_def lease_hash_of_def
        split: sum.splits)
  with assms(2) have rb: "failed (roll_back h now op t ?st)" for t by (simp add: roll_back_def)
  have rec: "failed (reconcile_pending h op (roll_back h now op t) (roll_forward h now env op) (ar_journal x) ?st)" for t
    using rb [of t] unmarked
    by (auto simp: failed_def reconcile_pending_def reconcile_marker_transaction_def decide_marker_recovery_def rbind_def
        split: sum.splits dest: validate_operation_intent_object)
  from rec [of "JStr now"] obtain e st' where "reconcile_pending h op (roll_back h now op (JStr now)) (roll_forward h now env op) (ar_journal x) ?st = (Inl e, st')"
    "ar_journal (ss_root st') = ar_journal x" by (auto simp: failed_def)
  with ops show ?thesis
    by (simp add: open_store_def reconcile_orphans_def reading_def then_do_def recovery_order_def py_or_def truthy_def)
qed

section \<open>An example\<close>

definition one_digest :: string where
  "one_digest = replicate 64 (CHR ''1'')"

text \<open>A host that tells the events that abandon a session from other texts.\<close>

definition abandoned_prefix :: string where
  "abandoned_prefix = CHR ''{'' # CHR 0x22 # ''book_id'' @ [CHR 0x22, CHR '':'', CHR 0x22, CHR ''b'', CHR 0x22, CHR '','', CHR 0x22] @
     ''event_type'' @ [CHR 0x22, CHR '':'', CHR 0x22] @ ''abandoned''"

definition telling_host :: host where
  "telling_host = quiet_host\<lparr>sha256_hex := \<lambda>s. if starts_with abandoned_prefix s then one_digest else zero_digest\<rparr>"

definition abandon_op :: dict where
  "abandon_op =
     [(''schema_version'', JStr ''1.1''), (''recovery_protocol'', JStr ''commit-marker-forward-v1''),
      (''operation_id'', JStr ''op_000000000000000000000000''), (''operation_key'', JStr zero_digest), (''attempt'', JInt 1),
      (''operation_type'', JStr ''abandon''), (''session_id'', JStr ''s''), (''book_id'', JStr ''b''), (''plan_id'', JStr example_plan_id),
      (''plan_hash'', JStr zero_digest), (''expected_state'', JStr ''active''), (''expected_event_hash'', JStr zero_digest),
      (''expected_lease_hash'', JNull), (''target_event_type'', JStr ''abandoned''), (''reason'', JNull),
      (''lease_ttl_seconds'', JNull), (''created_at'', JStr ''6''), (''intent_hash'', JStr zero_digest)]"

definition told_event :: dict where
  "told_event = dset ''event_hash'' (JStr one_digest) abandoned_event"

definition abandoned_session :: session_dir where
  "abandoned_session =
     \<lparr>sn_files = [(''genesis.json'', Doc (JObj example_genesis)), (''instruction_plan.json'', Doc (JObj example_instruction_plan))],
      sn_events = [(event_name 1 zero_digest, Doc (JObj started_event)), (event_name 2 one_digest, Doc (JObj told_event))]\<rparr>"

lemma abandon_op_valid: "valid_intent telling_host abandon_op" and abandon_op_terminal: "\<not> source_guarded abandon_op"
  by code_simp+

lemma told_loads:
  "load_genesis telling_host (session_with [started_event]) = Inr example_genesis"
  "load_plan telling_host (session_with [started_event]) = Inr example_instruction_plan"
  "load_events telling_host False (session_with [started_event]) = Inr [started_event]"
  "load_events telling_host False abandoned_session = Inr [started_event, told_event]"
  by code_simp+

lemma example_recovered:
  "recover_expected_in telling_host ''7'' abandon_op example_genesis (session_with [started_event]) = Inr (told_event, abandoned_session)"
  by code_simp

definition store_with :: "session_dir \<Rightarrow> journal \<Rightarrow> session_store" where
  "store_with dir j = \<lparr>ss_root = example_root\<lparr>ar_sessions := [(''s'', dir)], ar_journal := j\<rparr>, ss_deferred = []\<rparr>"

lemma store_with_parts [simp]:
  "session_at (ss_root (store_with dir j)) ''s'' = dir" "ar_journal (ss_root (store_with dir j)) = j"
  "ar_leases (ss_root (store_with dir j)) = (\<lambda>_. no_files)"
  by (simp_all add: store_with_def session_at_def example_root_def)

lemma abandon_op_session [simp]: "op_session abandon_op = ''s''"
  by code_simp

lemma store_recovered:
  "recover_expected_event telling_host ''7'' abandon_op example_genesis (store_with (session_with [started_event]) j) =
     (Inr told_event, store_with abandoned_session j)"
  using example_recovered by (simp add: recover_expected_event_def on_session_Inr) (simp add: store_with_def)

theorem recovered_event_is_not_doubled_witness:
  "recover_expected_event telling_host ''9'' abandon_op example_genesis (store_with abandoned_session []) =
     (Inr told_event, store_with abandoned_session [])"
proof (rule recovered_event_is_not_doubled [OF store_recovered])
  show "dget abandon_op ''target_event_type'' \<noteq> JNull" by code_simp
  show "dget abandon_op ''created_at'' = JStr (CHR ''6'' # [])" by code_simp
  show "length [started_event] < 999999" by simp
  show "distinct (map (\<lambda>d. dget d ''event_hash'') [started_event, told_event])" by code_simp
qed (simp_all add: told_loads)

definition abandon_marker :: dict where
  "abandon_marker =
     [(''schema_version'', JStr ''1.0''), (''recovery_protocol'', JStr ''commit-marker-forward-v1''),
      (''transaction_id'', JStr ''op_000000000000000000000000''), (''intent_hash'', JStr zero_digest),
      (''evidence_kind'', JStr ''terminal_preconditions''), (''evidence_hash'', JStr zero_digest),
      (''metadata'', JObj [(''operation_type'', JStr ''abandon'')]), (''marker_hash'', JStr zero_digest)]"

definition abandon_begun :: journal where
  "abandon_begun = [(''op_000000000000000000000000'', [(''intent.json'', Doc (JObj abandon_op))])]"

definition abandon_marked :: journal where
  "abandon_marked = [(''op_000000000000000000000000'',
     [(''intent.json'', Doc (JObj abandon_op)), (''commit.marker'', Doc (JObj abandon_marker))])]"

lemma abandon_finish:
  "\<exists>r j. finish_op telling_host abandon_op ''completed'' (JStr one_digest) JNull (JStr ''6'') abandon_marked = Inr (r, j)"
proof -
  have "case finish_op telling_host abandon_op ''completed'' (JStr one_digest) JNull (JStr ''6'') abandon_marked of
      Inr _ \<Rightarrow> True | Inl _ \<Rightarrow> False" by code_simp
  then show ?thesis by (auto split: sum.splits)
qed

lemma no_lease: "reconcile telling_host (dget abandon_op ''book_id'') (\<lambda>_. no_files) = (Inr None, \<lambda>_. no_files)"
proof -
  have "safe_id ''book_id'' (dget abandon_op ''book_id'') = Inr ''b''" "book_directory telling_host ''b'' = Inr (take 16 zero_digest)"
    "reconcile_history_head telling_host ''b'' True no_files = (Inr None, no_files)" by code_simp+
  then show ?thesis by (simp add: reconcile_def on_directory_def fun_upd_idem)
qed

lemma store_no_lease: "on_leases (reconcile telling_host (dget abandon_op ''book_id'')) (store_with dir j) = (Inr None, store_with dir j)"
  using no_lease by (simp add: on_leases_def on_root_def store_with_def example_root_def)

lemma abandon_ready:
  "assert_terminal_transition_ready telling_host example_env abandon_op (store_with (session_with [started_event]) j) =
     (Inr example_genesis, store_with (session_with [started_event]) j)"
proof -
  have "assert_operation_scope abandon_op example_genesis example_instruction_plan = Inr ()"
    "dget abandon_op ''operation_type'' = JStr ''abandon''" by code_simp+
  then have "terminal_evidence telling_host example_env abandon_op (ss_root (store_with (session_with [started_event]) j)) = Inr example_genesis"
    by (simp add: terminal_evidence_def scoped_genesis_def told_loads)
  then show ?thesis
    by (simp add: assert_terminal_transition_ready_def then_do_def reading_def store_no_lease is_active_lease_def)
qed

lemma abandon_rolled_forward:
  "\<exists>r j. roll_forward_terminal_transition telling_host ''7'' example_env abandon_op (store_with (session_with [started_event]) abandon_marked) =
     (Inr r, store_with abandoned_session j)"
proof -
  from abandon_finish obtain r j where
    "finish_op telling_host abandon_op ''completed'' (JStr one_digest) JNull (JStr ''6'') abandon_marked = Inr (r, j)" by blast
  moreover have "dget told_event ''event_hash'' = JStr one_digest" "dget abandon_op ''created_at'' = JStr ''6''" by code_simp+
  ultimately have "finish_with telling_host abandon_op ''completed'' (dget told_event ''event_hash'') (lease_hash_of None)
      (dget abandon_op ''created_at'') (store_with abandoned_session abandon_marked) = (Inr r, store_with abandoned_session j)"
    by (simp add: finish_with_def on_journal_eq all_or_nothing_def lease_hash_of_def) (simp add: store_with_def)
  moreover have "release_terminal_lease telling_host ''7'' abandon_op (store_with abandoned_session abandon_marked) =
      (Inr None, store_with abandoned_session abandon_marked)"
    by (simp add: release_terminal_lease_def then_do_def store_no_lease is_active_lease_def)
  ultimately show ?thesis
    by (auto simp: roll_forward_terminal_transition_def then_do_def abandon_ready store_recovered)
qed

theorem terminal_transition_takes_effect_witness:
  "\<exists>events'. load_events telling_host False abandoned_session = Inr events' \<and>
     (events' = [started_event] \<or> (\<exists>e. events' = [started_event] @ [e])) \<and> state_from_events telling_host events' = Inr ''abandoned''"
proof -
  from abandon_rolled_forward obtain r j where
    f: "roll_forward_terminal_transition telling_host ''7'' example_env abandon_op (store_with (session_with [started_event]) abandon_marked) =
      (Inr r, store_with abandoned_session j)" by blast
  have t: "doc_text abandon_op ''target_event_type'' = ''abandoned''" by code_simp
  from terminal_transition_takes_effect [OF f abandon_op_valid abandon_op_terminal] t told_loads(3) show ?thesis by simp
qed

text \<open>Without the session an operation fails before its marker.\<close>

theorem unmarked_transition_has_no_effect_witness:
  "ar_sessions (ss_root (snd (marked_transition telling_host ''7'' example_env abandon_op
     (store_with \<lparr>sn_files = [], sn_events = []\<rparr> abandon_begun)))) = [(''s'', \<lparr>sn_files = [], sn_events = []\<rparr>)]"
proof -
  let ?st = "store_with \<lparr>sn_files = [], sn_events = []\<rparr> abandon_begun"
  have g: "\<exists>e. load_genesis telling_host \<lparr>sn_files = [], sn_events = []\<rparr> = Inl e" by (simp add: load_genesis_def load_named_def)
  then obtain e where "marked_transition telling_host ''7'' example_env abandon_op ?st = (Inl e, ?st)"
    by (auto simp: marked_transition_def assert_terminal_transition_ready_def then_do_def reading_def terminal_evidence_def scoped_genesis_def)
  note m = this
  have "op_file ''commit.marker'' abandon_op abandon_begun = None" "dget abandon_op ''schema_version'' = JStr ''1.1''" by code_simp+
  with unmarked_transition_has_no_effect [OF m] m show ?thesis by (simp add: store_with_def)
qed

definition leased_root :: autonomy_root where
  "leased_root = example_root\<lparr>ar_journal := abandon_begun, ar_leases := (\<lambda>_. example_files)\<rparr>"

theorem renewed_lease_blocks_the_store_witness:
  "\<exists>e st'. open_store telling_host ''20'' example_env True leased_root = (Inl e, st') \<and> ar_journal (ss_root st') = abandon_begun"
proof -
  have "case reconcile_history_head telling_host ''b'' True example_files of
      (Inr (Some lease), _) \<Rightarrow> dget lease ''lease_hash'' \<noteq> dget abandon_op ''expected_lease_hash'' | _ \<Rightarrow> False" by code_simp
  then obtain lease dir where r: "reconcile_history_head telling_host ''b'' True example_files = (Inr (Some lease), dir)"
    "dget lease ''lease_hash'' \<noteq> dget abandon_op ''expected_lease_hash''"
    by (auto split: prod.splits sum.splits option.splits)
  have "safe_id ''book_id'' (dget abandon_op ''book_id'') = Inr ''b''" "book_directory telling_host ''b'' = Inr (take 16 zero_digest)"
    by code_simp+
  with r(1) obtain leases where l: "reconcile telling_host (dget abandon_op ''book_id'') (ar_leases leased_root) = (Inr (Some lease), leases)"
    by (simp add: reconcile_def on_directory_def leased_root_def)
  have j: "ar_journal leased_root = abandon_begun" by (simp add: leased_root_def)
  have p: "pending telling_host (ar_journal leased_root) = Inr [abandon_op]" "marker_present telling_host abandon_op (ar_journal leased_root) = Inr False"
    unfolding j by code_simp+
  from renewed_lease_blocks_the_store [OF p(1) abandon_op_terminal p(2) l r(2)] show ?thesis by (simp add: j)
qed

text \<open>A session of one chapter that is ready to be completed.\<close>

definition short_plan :: dict where
  "short_plan = dset ''chapter_end'' (JInt 3) (dset ''requested_chapter_count'' (JInt 1) example_instruction_plan)"

definition short_session :: "dict list \<Rightarrow> session_dir" where
  "short_session events = (session_with events)\<lparr>sn_files := [(''genesis.json'', Doc (JObj example_genesis)), (''instruction_plan.json'', Doc (JObj short_plan))]\<rparr>"

definition completed_event :: dict where
  "completed_event = log_event 2 ''completed'' (JStr zero_digest)"

definition short_leases :: lease_dir where
  "short_leases = snd (acquire_in telling_host ''b'' ''s'' example_plan_id 60 (JStr ''0'') 0 no_files)"

definition short_completion :: dict where
  "short_completion = dset ''plan_id'' (JStr example_plan_id) example_completion"

definition short_completions :: completion_dir where
  "short_completions = \<lparr>cd_publications = [(publication_name short_completion, Doc (JObj example_publication))],
     cd_receipts = [(completion_name 1 3 zero_digest, Doc (JObj short_completion))]\<rparr>"

definition short_ledger :: ledger where
  "short_ledger = \<lparr>lg_plan = short_plan, lg_session = ''s'', lg_arc = ''a''\<rparr>"

definition complete_op :: dict where
  "complete_op = dset ''operation_type'' (JStr ''complete'') (dset ''target_event_type'' (JStr ''completed'') abandon_op)"

definition complete_marked :: journal where
  "complete_marked = [(''op_000000000000000000000000'', [(''intent.json'', Doc (JObj complete_op)),
     (''commit.marker'', Doc (JObj (dset ''metadata'' (JObj [(''operation_type'', JStr ''complete'')]) abandon_marker)))])]"

definition short_store :: "session_dir \<Rightarrow> journal \<Rightarrow> (string \<Rightarrow> lease_dir) \<Rightarrow> session_store" where
  "short_store dir j leases = \<lparr>ss_root = example_root\<lparr>ar_sessions := [(''s'', dir)], ar_journal := j, ar_leases := leases,
     ar_completions := (\<lambda>_. short_completions)\<rparr>, ss_deferred = []\<rparr>"

lemma short_loads:
  "load_genesis telling_host (short_session [started_event]) = Inr example_genesis"
  "load_plan telling_host (short_session [started_event]) = Inr short_plan"
  "load_events telling_host False (short_session [started_event]) = Inr [started_event]"
  by code_simp+

lemma short_store_parts [simp]:
  "session_at (ss_root (short_store dir j ls)) ''s'' = dir" "ar_journal (ss_root (short_store dir j ls)) = j"
  "ar_leases (ss_root (short_store dir j ls)) = ls" "ar_completions (ss_root (short_store dir j ls)) = (\<lambda>_. short_completions)"
  by (simp_all add: short_store_def session_at_def)

lemma complete_op_session [simp]: "op_session complete_op = ''s''"
  by code_simp

definition short_summary :: dict where
  "short_summary = dset ''completed_count'' (JInt 1) (dset ''completed_chapters'' (JList [JInt 3])
     (dset ''canonical_next_chapter'' (JInt 4) (dset ''last_completion_receipt_hash'' (JStr zero_digest) example_summary)))"

lemma short_completion_summary:
  "completion_summary telling_host example_env ''s'' (ss_root (short_store (short_session [started_event]) j (\<lambda>_. short_leases))) = Inr short_summary"
proof -
  have "open_ledger telling_host (JObj short_plan) (JStr ''s'') (JStr ''a'') = Inr short_ledger" by code_simp
  moreover have "dget example_genesis ''arc_plan_id'' = JStr ''a''" by code_simp
  moreover have "ledger_directory telling_host short_ledger = Inr (take 16 zero_digest)" by code_simp
  moreover have "ledger_summary telling_host (\<lambda>_. short_leases) accept_publication None short_ledger short_completions = Inr short_summary"
    by code_simp
  ultimately show ?thesis
    by (simp add: completion_summary_def session_ledger_def session_summary_def completions_of_def short_loads)
       (simp add: example_env_def)
qed

lemma short_lease: "\<exists>lease. reconcile telling_host (dget complete_op ''book_id'') (\<lambda>_. short_leases) = (Inr (Some lease), \<lambda>_. short_leases) \<and>
    is_active_lease (Some lease) \<and> owns_lease complete_op (Some lease) \<and> dget lease ''lease_hash'' = JStr zero_digest"
proof -
  have "case reconcile_history_head telling_host ''b'' True short_leases of (Inr (Some lease), d) \<Rightarrow> d = short_leases \<and>
      is_active_lease (Some lease) \<and> owns_lease complete_op (Some lease) \<and> dget lease ''lease_hash'' = JStr zero_digest | _ \<Rightarrow> False"
    by code_simp
  then obtain lease where "reconcile_history_head telling_host ''b'' True short_leases = (Inr (Some lease), short_leases)"
    "is_active_lease (Some lease)" "owns_lease complete_op (Some lease)" "dget lease ''lease_hash'' = JStr zero_digest"
    by (auto split: prod.splits sum.splits option.splits)
  moreover have "safe_id ''book_id'' (dget complete_op ''book_id'') = Inr ''b''" "book_directory telling_host ''b'' = Inr (take 16 zero_digest)"
    by code_simp+
  ultimately show ?thesis by (simp add: reconcile_def on_directory_def fun_upd_idem)
qed

lemma short_release: "\<exists>lease ls. release telling_host now (dget complete_op ''book_id'') (dget complete_op ''session_id'')
    (dget complete_op ''plan_id'') (JStr zero_digest) (dget complete_op ''created_at'') (\<lambda>_. short_leases) = (Inr lease, ls) \<and>
    lease_hash_of lease = JStr zero_digest"
proof -
  have "case release_in telling_host ''b'' (JStr ''s'') (JStr example_plan_id) (JStr zero_digest) (JStr ''6'') short_leases of
      (Inr c, d) \<Rightarrow> lease_hash_of c = JStr zero_digest | _ \<Rightarrow> False" by code_simp
  then obtain lease d where "release_in telling_host ''b'' (JStr ''s'') (JStr example_plan_id) (JStr zero_digest) (JStr ''6'') short_leases =
      (Inr lease, d)" "lease_hash_of lease = JStr zero_digest" by (auto split: prod.splits sum.splits)
  moreover have "dget complete_op ''book_id'' = JStr ''b''" "dget complete_op ''session_id'' = JStr ''s''"
    "dget complete_op ''plan_id'' = JStr example_plan_id" "dget complete_op ''created_at'' = JStr ''6''"
    "safe_id ''book_id'' (JStr ''b'') = Inr ''b''" "book_directory telling_host ''b'' = Inr (take 16 zero_digest)" by code_simp+
  ultimately show ?thesis by (simp add: release_def on_directory_def py_or_def truthy_def)
qed

lemma short_ready:
  "assert_terminal_transition_ready telling_host example_env complete_op
     (short_store (short_session [started_event]) j (\<lambda>_. short_leases)) =
   (Inr example_genesis, short_store (short_session [started_event]) j (\<lambda>_. short_leases))"
proof -
  have "assert_operation_scope complete_op example_genesis short_plan = Inr ()" "\<not> completion_unproven short_summary short_plan" by code_simp+
  then have "terminal_evidence telling_host example_env complete_op
      (ss_root (short_store (short_session [started_event]) j (\<lambda>_. short_leases))) = Inr example_genesis"
    by (simp add: terminal_evidence_def scoped_genesis_def short_loads short_completion_summary)
  moreover from short_lease obtain lease where
    "reconcile telling_host (dget complete_op ''book_id'') (\<lambda>_. short_leases) = (Inr (Some lease), \<lambda>_. short_leases)"
    "owns_lease complete_op (Some lease)" by blast
  ultimately show ?thesis
    by (simp add: assert_terminal_transition_ready_def then_do_def reading_def on_leases_def on_root_def)
qed

lemma short_rolled_forward:
  "\<exists>r st'. roll_forward_terminal_transition telling_host ''7'' example_env complete_op
     (short_store (short_session [started_event]) complete_marked (\<lambda>_. short_leases)) = (Inr r, st')"
proof -
  let ?dir = "short_session [started_event, completed_event]"
  from short_lease obtain lease where lease:
    "reconcile telling_host (dget complete_op ''book_id'') (\<lambda>_. short_leases) = (Inr (Some lease), \<lambda>_. short_leases)"
    "is_active_lease (Some lease)" "dget lease ''lease_hash'' = JStr zero_digest" by blast
  from short_release obtain released ls where rel: "release telling_host ''7'' (dget complete_op ''book_id'')
    (dget complete_op ''session_id'') (dget complete_op ''plan_id'') (JStr zero_digest) (dget complete_op ''created_at'') (\<lambda>_. short_leases) =
      (Inr released, ls)" "lease_hash_of released = JStr zero_digest" by blast
  have "recover_expected_in telling_host ''7'' complete_op example_genesis (short_session [started_event]) = Inr (completed_event, ?dir)"
    by code_simp
  then have rec: "recover_expected_event telling_host ''7'' complete_op example_genesis
      (short_store (short_session [started_event]) complete_marked (\<lambda>_. short_leases)) =
      (Inr completed_event, short_store ?dir complete_marked (\<lambda>_. short_leases))"
    by (simp add: recover_expected_event_def on_session_Inr) (simp add: short_store_def)
  have out: "release_terminal_lease telling_host ''7'' complete_op (short_store ?dir complete_marked (\<lambda>_. short_leases)) =
      (Inr released, short_store ?dir complete_marked ls)"
    using lease rel by (simp add: release_terminal_lease_def then_do_def release_for_def on_leases_def on_root_def lease_hash_of_def)
      (simp add: short_store_def)
  have "case finish_op telling_host complete_op ''completed'' (JStr zero_digest) (JStr zero_digest) (JStr ''6'') complete_marked of
      Inr _ \<Rightarrow> True | Inl _ \<Rightarrow> False" by code_simp
  then obtain r j where "finish_op telling_host complete_op ''completed'' (JStr zero_digest) (JStr zero_digest) (JStr ''6'') complete_marked =
      Inr (r, j)" by (auto split: sum.splits)
  moreover have "dget completed_event ''event_hash'' = JStr zero_digest" "dget complete_op ''created_at'' = JStr ''6''" by code_simp+
  ultimately have "finish_with telling_host complete_op ''completed'' (dget completed_event ''event_hash'') (lease_hash_of released)
      (dget complete_op ''created_at'') (short_store ?dir complete_marked ls) = (Inr r, short_store ?dir j ls)"
    using rel(2) by (simp add: finish_with_def on_journal_eq all_or_nothing_def) (simp add: short_store_def)
  then show ?thesis by (simp add: roll_forward_terminal_transition_def then_do_def short_ready rec out)
qed

theorem completion_needs_its_receipts_witness:
  "\<exists>l chain. session_ledger telling_host ''s'' (ss_root (short_store (short_session [started_event]) complete_marked (\<lambda>_. short_leases))) = Inr l \<and>
     canonical_chain telling_host l chain \<and> dget (lg_plan l) ''requested_chapter_count'' = JInt (int (length chain)) \<and>
     blocked_chapters (se_deliveries example_env) chain = Inr []"
proof -
  from short_rolled_forward obtain r st' where f: "roll_forward_terminal_transition telling_host ''7'' example_env complete_op
     (short_store (short_session [started_event]) complete_marked (\<lambda>_. short_leases)) = (Inr r, st')" by blast
  have "dget complete_op ''operation_type'' = JStr ''complete''"
    "dget (last [started_event]) ''event_type'' \<noteq> dget complete_op ''target_event_type''" by code_simp+
  from completion_needs_its_receipts [OF f this(1) _ this(2)] show ?thesis by (simp add: short_loads)
qed

end
