(* ===== verification/Run_Budget.thy ===== *)
theory Run_Budget
  imports Sealed
begin

text \<open>
  The run budget of \<open>core/context_budget.py\<close>: \<open>RunBudgetTracker\<close>, which charges every provider call
  of a run against limits on calls, tokens, time and cost, and the reading of provider usage
  (\<open>_ModelResponseTokenUsage\<close>). A method is a function from the tracker to its result and the
  tracker after it, because a method that raises may have changed the tracker before. Token counts
  are integers, a text is the list of its code points, the clock is the argument \<open>now\<close>.
\<close>

section \<open>State\<close>

record run_limits =
  max_provider_calls :: int
  max_total_input_tokens :: int
  max_total_output_tokens :: int
  max_elapsed_seconds :: rat
  max_estimated_cost :: "rat option"

datatype reservation_status = Reserved | Settled

record reservation =
  res_call_id :: string
  reserved_input_tokens :: int
  max_output_tokens :: int
  res_stage :: string
  elastic_authorization_id :: "string option"
  restored :: bool
  res_status :: reservation_status
  actual_input_tokens :: "int option"
  actual_output_tokens :: "int option"
  settlement_error :: "(string \<times> string) option"

datatype elastic_status = Active | Superseded

record elastic_authorization =
  el_authorization_id :: string
  el_reason :: string
  el_evidence :: dict
  el_stages :: "string list"
  consumed_stages :: "string list"
  el_status :: elastic_status

record elastic_grant =
  gr_authorization_id :: string
  gr_attempt_id :: string
  gr_stage :: string
  gr_reason :: string
  input_tokens_added :: int
  output_tokens_added :: int
  gr_restored :: bool
  gr_evidence :: dict

record tracker =
  limits :: run_limits
  started_at :: rat
  provider_calls :: int
  total_input_tokens :: int
  total_output_tokens :: int
  reserved_output_tokens :: int
  estimated_cost :: rat
  model_reservations :: "(string \<times> reservation) list"
  elastic_input_tokens :: int
  elastic_output_tokens :: int
  elastic_authorizations :: "(string \<times> elastic_authorization) list"
  active_elastic_authorization_id :: "string option"
  elastic_grants :: "elastic_grant list"

definition new_tracker :: "run_limits \<Rightarrow> rat \<Rightarrow> tracker" where
  "new_tracker lims now =
     \<lparr>limits = lims, started_at = now, provider_calls = 0, total_input_tokens = 0,
      total_output_tokens = 0, reserved_output_tokens = 0, estimated_cost = 0,
      model_reservations = [], elastic_input_tokens = 0, elastic_output_tokens = 0,
      elastic_authorizations = [], active_elastic_authorization_id = None, elastic_grants = []\<rparr>"

definition default_limits :: run_limits where
  "default_limits = \<lparr>max_provider_calls = 20, max_total_input_tokens = 256000,
     max_total_output_tokens = 40000, max_elapsed_seconds = 900, max_estimated_cost = None\<rparr>"

abbreviation budget_error :: "string \<Rightarrow> string \<Rightarrow> exn" where
  "budget_error \<equiv> ContextBudgetError"

definition effective_input_limit :: "tracker \<Rightarrow> int" where
  "effective_input_limit t = max_total_input_tokens (limits t) + elastic_input_tokens t"

definition effective_output_limit :: "tracker \<Rightarrow> int" where
  "effective_output_limit t = max_total_output_tokens (limits t) + elastic_output_tokens t"

section \<open>Checks\<close>

definition check_elapsed :: "host \<Rightarrow> rat \<Rightarrow> tracker \<Rightarrow> unit res" where
  "check_elapsed h now t =
     (if float_sub h now (started_at t) > max_elapsed_seconds (limits t)
      then Inl (budget_error ''run_elapsed_budget_exceeded'' ''max_elapsed_seconds exceeded'') else Inr ())"

definition require_non_negative :: "int \<Rightarrow> string \<Rightarrow> unit res" where
  "require_non_negative v name =
     (if v < 0 then Inl (budget_error ''run_budget_usage_invalid'' (name @ '' must be a non-negative integer''))
      else Inr ())"

definition check_cost :: "host \<Rightarrow> rat \<Rightarrow> tracker \<Rightarrow> unit res" where
  "check_cost h cost t =
     (case max_estimated_cost (limits t) of
        None \<Rightarrow> Inr ()
      | Some m \<Rightarrow> if float_add h (estimated_cost t) cost > m
                  then Inl (budget_error ''run_estimated_cost_budget_exceeded'' ''max_estimated_cost exceeded'')
                  else Inr ())"

definition check_provider_calls :: "tracker \<Rightarrow> unit res" where
  "check_provider_calls t =
     (if provider_calls t + 1 > max_provider_calls (limits t)
      then Inl (budget_error ''run_provider_call_budget_exceeded'' ''max_provider_calls exceeded'') else Inr ())"

definition require_identity :: "string \<Rightarrow> string \<Rightarrow> unit res" where
  "require_identity v name =
     (if v = [] then Inl (budget_error ''run_budget_usage_invalid'' (name @ '' must be non-empty'')) else Inr ())"

section \<open>Elastic authorizations\<close>

text \<open>\<open>dict.fromkeys\<close>: the first occurrence of every element, in order.\<close>

fun first_occurrences :: "'a list \<Rightarrow> 'a list" where
  "first_occurrences [] = []"
| "first_occurrences (x # xs) = x # first_occurrences (filter (\<lambda>y. y \<noteq> x) xs)"

definition supersede :: "string option \<Rightarrow> string \<Rightarrow> (string \<times> elastic_authorization) list \<Rightarrow> (string \<times> elastic_authorization) list" where
  "supersede previous_key key auths =
     (case previous_key of
        None \<Rightarrow> auths
      | Some p \<Rightarrow>
          if p \<noteq> [] \<and> p \<noteq> key
          then (case map_of auths p of
                  None \<Rightarrow> auths
                | Some previous \<Rightarrow>
                    if el_status previous = Active
                    then AList.update p (previous\<lparr>el_status := Superseded\<rparr>) auths else auths)
          else auths)"

definition same_authorization :: "elastic_authorization \<Rightarrow> string \<Rightarrow> string \<Rightarrow> dict \<Rightarrow> string list \<Rightarrow> bool" where
  "same_authorization existing key reason evidence stages \<longleftrightarrow>
     el_authorization_id existing = key \<and> el_reason existing = reason \<and>
     py_eq (JObj (el_evidence existing)) (JObj evidence) \<and> el_stages existing = stages"

definition authorize_elastic_tokens ::
  "string \<Rightarrow> string \<Rightarrow> dict \<Rightarrow> string list \<Rightarrow> tracker \<Rightarrow> unit res \<times> tracker" where
  "authorize_elastic_tokens authorization_id reason evidence stages t =
     (let key = py_strip authorization_id;
          normalized_stages = first_occurrences (filter (\<lambda>s. s \<noteq> []) (map py_strip stages));
          normalized_reason = py_strip reason in
      if key = [] then (Inl (budget_error ''elastic_budget_authorization_invalid'' ''authorization_id must be non-empty''), t)
      else if normalized_stages = []
      then (Inl (budget_error ''elastic_budget_authorization_invalid'' ''stages must contain at least one non-empty stage''), t)
      else if normalized_reason = []
      then (Inl (budget_error ''elastic_budget_authorization_invalid'' ''reason must be non-empty''), t)
      else
        (case map_of (elastic_authorizations t) key of
           Some existing \<Rightarrow>
             if \<not> same_authorization existing key normalized_reason evidence normalized_stages
             then (Inl (budget_error ''elastic_budget_authorization_conflict''
                     (''authorization '' @ key @ '' conflicts with existing evidence'')), t)
             else (Inr (), t\<lparr>elastic_authorizations :=
                       supersede (active_elastic_authorization_id t) key (elastic_authorizations t),
                     active_elastic_authorization_id := Some key\<rparr>)
         | None \<Rightarrow>
             (Inr (), t\<lparr>elastic_authorizations :=
                       supersede (active_elastic_authorization_id t) key
                         (AList.update key
                           \<lparr>el_authorization_id = key, el_reason = normalized_reason, el_evidence = evidence,
                            el_stages = normalized_stages, consumed_stages = [], el_status = Active\<rparr>
                           (elastic_authorizations t)),
                     active_elastic_authorization_id := Some key\<rparr>)))"

text \<open>The authorization a deficit of a stage may consume, with its key.\<close>

definition usable_authorization :: "tracker \<Rightarrow> string \<Rightarrow> (string \<times> elastic_authorization) option" where
  "usable_authorization t stage =
     (let key = (case active_elastic_authorization_id t of None \<Rightarrow> [] | Some k \<Rightarrow> k) in
      case map_of (elastic_authorizations t) key of
        None \<Rightarrow> None
      | Some a \<Rightarrow>
          if el_status a \<noteq> Active \<or> stage \<notin> set (el_stages a) \<or> stage \<in> set (consumed_stages a)
          then None else Some (key, a))"

definition add_grant :: "elastic_grant \<Rightarrow> tracker \<Rightarrow> tracker" where
  "add_grant g t =
     t\<lparr>elastic_input_tokens := elastic_input_tokens t + input_tokens_added g,
       elastic_output_tokens := elastic_output_tokens t + output_tokens_added g,
       elastic_grants := elastic_grants t @ [g]\<rparr>"

definition consume_elastic_authorization ::
  "string \<Rightarrow> string \<Rightarrow> int \<Rightarrow> int \<Rightarrow> tracker \<Rightarrow> elastic_grant option \<times> tracker" where
  "consume_elastic_authorization stage attempt_id input_tokens output_tokens t =
     (if input_tokens = 0 \<and> output_tokens = 0 then (None, t)
      else case usable_authorization t stage of
        None \<Rightarrow> (None, t)
      | Some (key, a) \<Rightarrow>
          let grant = \<lparr>gr_authorization_id = el_authorization_id a, gr_attempt_id = attempt_id,
                gr_stage = stage, gr_reason = el_reason a, input_tokens_added = input_tokens,
                output_tokens_added = output_tokens, gr_restored = False, gr_evidence = el_evidence a\<rparr> in
          (Some grant,
           add_grant grant (t\<lparr>elastic_authorizations :=
             AList.update key (a\<lparr>consumed_stages := consumed_stages a @ [stage]\<rparr>) (elastic_authorizations t)\<rparr>)))"

definition record_restored_elastic_grant :: "string \<Rightarrow> string option \<Rightarrow> int \<Rightarrow> int \<Rightarrow> tracker \<Rightarrow> tracker" where
  "record_restored_elastic_grant attempt_id stage input_tokens output_tokens t =
     add_grant \<lparr>gr_authorization_id = ''durable-attempt-restore'', gr_attempt_id = attempt_id,
       gr_stage = (case stage of None \<Rightarrow> [] | Some s \<Rightarrow> s), gr_reason = ''restore_durable_non_rejected_attempt'',
       input_tokens_added = input_tokens, output_tokens_added = output_tokens, gr_restored = True,
       gr_evidence = []\<rparr> t"

definition extend_settlement_elastic_grant ::
  "reservation \<Rightarrow> string \<Rightarrow> int \<Rightarrow> int \<Rightarrow> tracker \<Rightarrow> bool \<times> tracker" where
  "extend_settlement_elastic_grant r attempt_id input_tokens output_tokens t =
     (let unauthorized = (case elastic_authorization_id r of None \<Rightarrow> True | Some a \<Rightarrow> a = []) in
      if unauthorized \<and> \<not> restored r then (False, t)
      else (True, add_grant
        \<lparr>gr_authorization_id = (case elastic_authorization_id r of
             None \<Rightarrow> ''durable-attempt-restore''
           | Some a \<Rightarrow> if a = [] then ''durable-attempt-restore'' else a),
         gr_attempt_id = attempt_id, gr_stage = res_stage r, gr_reason = ''settle_authorized_model_usage'',
         input_tokens_added = input_tokens, output_tokens_added = output_tokens,
         gr_restored = restored r, gr_evidence = []\<rparr> t))"

section \<open>Charging calls\<close>

text \<open>Checks that run before anything changes, then a change that cannot fail.\<close>

definition checked :: "unit res \<Rightarrow> 'a \<Rightarrow> 's \<Rightarrow> 's \<Rightarrow> 'a res \<times> 's" where
  "checked c x t' t = (case c of Inl e \<Rightarrow> (Inl e, t) | Inr _ \<Rightarrow> (Inr x, t'))"

definition reserve_call :: "host \<Rightarrow> rat \<Rightarrow> int \<Rightarrow> rat \<Rightarrow> tracker \<Rightarrow> unit res \<times> tracker" where
  "reserve_call h now input_tokens cost t =
     checked
       (rbind (check_elapsed h now t) (\<lambda>_.
        rbind (require_non_negative input_tokens ''input_tokens'') (\<lambda>_.
        rbind (check_provider_calls t) (\<lambda>_.
        rbind (check_cost h cost t) (\<lambda>_.
        if total_input_tokens t + input_tokens > max_total_input_tokens (limits t)
        then Inl (budget_error ''run_input_token_budget_exceeded'' ''max_total_input_tokens exceeded'')
        else Inr ())))))
       ()
       (t\<lparr>provider_calls := provider_calls t + 1,
          total_input_tokens := total_input_tokens t + input_tokens,
          estimated_cost := float_add h (estimated_cost t) cost\<rparr>) t"

definition record_output :: "host \<Rightarrow> rat \<Rightarrow> int \<Rightarrow> rat \<Rightarrow> tracker \<Rightarrow> unit res \<times> tracker" where
  "record_output h now output_tokens cost t =
     checked
       (rbind (check_elapsed h now t) (\<lambda>_.
        rbind (require_non_negative output_tokens ''output_tokens'') (\<lambda>_.
        rbind (if total_output_tokens t + output_tokens > max_total_output_tokens (limits t)
               then Inl (budget_error ''run_output_token_budget_exceeded'' ''max_total_output_tokens exceeded'')
               else Inr ()) (\<lambda>_.
        check_cost h cost t))))
       ()
       (t\<lparr>total_output_tokens := total_output_tokens t + output_tokens,
          estimated_cost := float_add h (estimated_cost t) cost\<rparr>) t"

text \<open>The arguments of a physical attempt.\<close>

record attempt =
  at_input_tokens :: int
  at_max_output_tokens :: int
  at_call_id :: string
  at_attempt_id :: string
  at_stage :: "string option"
  at_cost :: rat

definition input_deficit :: "tracker \<Rightarrow> int \<Rightarrow> int" where
  "input_deficit t n = max 0 (total_input_tokens t + n - effective_input_limit t)"

definition output_deficit :: "tracker \<Rightarrow> int \<Rightarrow> int" where
  "output_deficit t n =
     max 0 (total_output_tokens t + reserved_output_tokens t + n - effective_output_limit t)"

definition attempt_stage :: "attempt \<Rightarrow> string" where
  "attempt_stage a = (case at_stage a of None \<Rightarrow> [] | Some s \<Rightarrow> s)"

definition admit_attempt :: "host \<Rightarrow> rat \<Rightarrow> attempt \<Rightarrow> tracker \<Rightarrow> unit res" where
  "admit_attempt h now a t =
     rbind (check_elapsed h now t) (\<lambda>_.
     rbind (require_non_negative (at_input_tokens a) ''input_tokens'') (\<lambda>_.
     rbind (require_non_negative (at_max_output_tokens a) ''max_output_tokens'') (\<lambda>_.
     rbind (require_identity (at_call_id a) ''call_id'') (\<lambda>_.
     rbind (require_identity (at_attempt_id a) ''attempt_id'') (\<lambda>_.
     rbind (if map_of (model_reservations t) (at_attempt_id a) \<noteq> None
            then Inl (budget_error ''run_budget_attempt_conflict''
                   (''attempt_id '' @ at_attempt_id a @ '' was already reserved''))
            else Inr ()) (\<lambda>_.
     check_provider_calls t))))))"

definition check_attempt_limits :: "host \<Rightarrow> attempt \<Rightarrow> tracker \<Rightarrow> unit res" where
  "check_attempt_limits h a t =
     (if total_input_tokens t + at_input_tokens a > effective_input_limit t
      then Inl (budget_error ''run_input_token_budget_exceeded'' ''max_total_input_tokens exceeded'')
      else if total_output_tokens t + reserved_output_tokens t + at_max_output_tokens a > effective_output_limit t
      then Inl (budget_error ''run_output_token_budget_exceeded'' ''reserved output exceeds remaining max_total_output_tokens'')
      else check_cost h (at_cost a) t)"

definition new_reservation :: "attempt \<Rightarrow> elastic_grant option \<Rightarrow> reservation" where
  "new_reservation a grant =
     \<lparr>res_call_id = at_call_id a, reserved_input_tokens = at_input_tokens a,
      max_output_tokens = at_max_output_tokens a, res_stage = attempt_stage a,
      elastic_authorization_id = map_option gr_authorization_id grant, restored = False,
      res_status = Reserved, actual_input_tokens = None, actual_output_tokens = None,
      settlement_error = None\<rparr>"

definition charge_attempt :: "host \<Rightarrow> attempt \<Rightarrow> elastic_grant option \<Rightarrow> tracker \<Rightarrow> tracker" where
  "charge_attempt h a grant t =
     t\<lparr>provider_calls := provider_calls t + 1,
       total_input_tokens := total_input_tokens t + at_input_tokens a,
       reserved_output_tokens := reserved_output_tokens t + at_max_output_tokens a,
       estimated_cost := float_add h (estimated_cost t) (at_cost a),
       model_reservations := AList.update (at_attempt_id a) (new_reservation a grant) (model_reservations t)\<rparr>"

definition reserve_model_call :: "host \<Rightarrow> rat \<Rightarrow> attempt \<Rightarrow> tracker \<Rightarrow> unit res \<times> tracker" where
  "reserve_model_call h now a t =
     (case admit_attempt h now a t of
        Inl e \<Rightarrow> (Inl e, t)
      | Inr _ \<Rightarrow>
          let (grant, t') = consume_elastic_authorization (attempt_stage a) (at_attempt_id a)
                (input_deficit t (at_input_tokens a)) (output_deficit t (at_max_output_tokens a)) t in
          checked (check_attempt_limits h a t') () (charge_attempt h a grant t') t')"

definition same_attempt :: "reservation \<Rightarrow> attempt \<Rightarrow> bool" where
  "same_attempt r a \<longleftrightarrow> res_call_id r = at_call_id a \<and>
     reserved_input_tokens r = at_input_tokens a \<and> max_output_tokens r = at_max_output_tokens a"

definition ensure_model_call :: "host \<Rightarrow> rat \<Rightarrow> attempt \<Rightarrow> tracker \<Rightarrow> bool res \<times> tracker" where
  "ensure_model_call h now a t =
     (case rbind (require_non_negative (at_input_tokens a) ''input_tokens'') (\<lambda>_.
           rbind (require_non_negative (at_max_output_tokens a) ''max_output_tokens'') (\<lambda>_.
           rbind (require_identity (at_call_id a) ''call_id'') (\<lambda>_.
           require_identity (at_attempt_id a) ''attempt_id''))) of
        Inl e \<Rightarrow> (Inl e, t)
      | Inr _ \<Rightarrow>
          (case map_of (model_reservations t) (at_attempt_id a) of
             Some existing \<Rightarrow>
               if \<not> same_attempt existing a
               then (Inl (budget_error ''run_budget_attempt_conflict''
                       (''attempt_id '' @ at_attempt_id a @ '' conflicts with its existing reservation'')), t)
               else (Inr False, t)
           | None \<Rightarrow>
               (case reserve_model_call h now a t of
                  (Inl e, t') \<Rightarrow> (Inl e, t')
                | (Inr _, t') \<Rightarrow> (Inr True, t'))))"

definition mark_restored :: "string \<Rightarrow> tracker \<Rightarrow> tracker" where
  "mark_restored attempt_id t =
     (case map_of (model_reservations t) attempt_id of
        None \<Rightarrow> t
      | Some r \<Rightarrow> t\<lparr>model_reservations := AList.update attempt_id (r\<lparr>restored := True\<rparr>) (model_reservations t)\<rparr>)"

definition restore_model_call :: "host \<Rightarrow> rat \<Rightarrow> attempt \<Rightarrow> tracker \<Rightarrow> bool res \<times> tracker" where
  "restore_model_call h now b t =
     (let a = b\<lparr>at_cost := 0\<rparr> in
      if map_of (model_reservations t) (at_attempt_id a) \<noteq> None then ensure_model_call h now a t
      else
        let input_tokens = input_deficit t (at_input_tokens a);
            output_tokens = output_deficit t (at_max_output_tokens a);
            t1 = (if input_tokens \<noteq> 0 \<or> output_tokens \<noteq> 0
                  then record_restored_elastic_grant (at_attempt_id a) (at_stage a) input_tokens output_tokens t
                  else t) in
        (case reserve_model_call h now a t1 of
           (Inl e, t2) \<Rightarrow> (Inl e, t2)
         | (Inr _, t2) \<Rightarrow> (Inr True, mark_restored (at_attempt_id a) t2)))"

section \<open>Provider usage\<close>

text \<open>Code points of a text and the bytes of their UTF-8 form.\<close>

type_synonym utext = "nat list"

definition utf8_width :: "nat \<Rightarrow> int" where
  "utf8_width c = (if c < 128 then 1 else if c < 2048 then 2 else if c < 65536 then 3 else 4)"

definition utf8_length :: "utext \<Rightarrow> int" where
  "utf8_length text = sum_list (map utf8_width text)"

definition conservative_token_estimate :: "utext \<Rightarrow> int" where
  "conservative_token_estimate text = (if text = [] then 0 else utf8_length text)"

record token_usage =
  us_input_tokens :: "int option"
  us_output_tokens :: "int option"
  us_total_tokens :: "int option"
  us_invalid :: bool

definition or_zero :: "int option \<Rightarrow> int" where
  "or_zero v = (case v of None \<Rightarrow> 0 | Some n \<Rightarrow> n)"

definition settlement :: "token_usage \<Rightarrow> int \<Rightarrow> int \<Rightarrow> int \<Rightarrow> int \<times> int" where
  "settlement u reserved_input reserved_output fallback_output =
     (if us_invalid u
      then let tot = or_zero (us_total_tokens u) in
        (max (max reserved_input (or_zero (us_input_tokens u))) tot,
         max (max (max reserved_output fallback_output) (or_zero (us_output_tokens u))) tot)
      else case (us_total_tokens u, us_input_tokens u, us_output_tokens u) of
        (Some tot, None, None) \<Rightarrow>
          (max reserved_input tot, max (max reserved_output fallback_output) tot)
      | (_, i, out) \<Rightarrow>
          (case i of None \<Rightarrow> reserved_input | Some n \<Rightarrow> n,
           case out of None \<Rightarrow> max reserved_output fallback_output | Some n \<Rightarrow> n))"

definition usage_integer :: "json \<Rightarrow> int option" where
  "usage_integer v = (case strict_int v of None \<Rightarrow> None | Some i \<Rightarrow> if i \<ge> 0 then Some i else None)"

definition usage_field :: "dict \<Rightarrow> string \<Rightarrow> int option \<times> bool" where
  "usage_field usage key =
     (if \<not> dhas usage key then (None, False)
      else let value = usage_integer (dget usage key) in (value, value = None))"

text \<open>One more reading of a quantity: it is selected if it is the first, else it must agree.\<close>

definition merge_reading :: "int option \<times> bool \<Rightarrow> int option \<times> bool \<Rightarrow> int option \<times> bool" where
  "merge_reading reading acc =
     (let (value, field_invalid) = reading; (selected, invalid) = acc in
      case value of
        None \<Rightarrow> (selected, invalid \<or> field_invalid)
      | Some v \<Rightarrow> (case selected of
            None \<Rightarrow> (Some v, invalid \<or> field_invalid)
          | Some s \<Rightarrow> (Some s, invalid \<or> field_invalid \<or> s \<noteq> v)))"

definition first_usage_integer :: "dict \<Rightarrow> string list \<Rightarrow> string \<Rightarrow> int option \<times> bool" where
  "first_usage_integer usage keys nested_key =
     (let acc = fold (\<lambda>key acc. merge_reading (usage_field usage key) acc) keys (None, False) in
      case dget usage nested_key of
        JObj nested \<Rightarrow> merge_reading (usage_field nested ''total'') acc
      | JNull \<Rightarrow> acc
      | _ \<Rightarrow> (fst acc, True))"

text \<open>A response of a provider: the text the code reads from it and its \<open>usage\<close> attribute.\<close>

record model_response =
  resp_text :: utext
  resp_usage :: json

definition usage_with_total :: "int option \<Rightarrow> int option \<Rightarrow> int option \<Rightarrow> bool \<Rightarrow> token_usage" where
  "usage_with_total inp out tot invalid =
     (case tot of
        None \<Rightarrow> \<lparr>us_input_tokens = inp, us_output_tokens = out, us_total_tokens = None, us_invalid = invalid\<rparr>
      | Some n \<Rightarrow>
          (case (inp, out) of
             (Some i, Some p) \<Rightarrow> \<lparr>us_input_tokens = inp, us_output_tokens = out, us_total_tokens = tot,
                us_invalid = (invalid \<or> i + p \<noteq> n)\<rparr>
           | (Some i, None) \<Rightarrow>
               if i \<le> n
               then \<lparr>us_input_tokens = inp, us_output_tokens = Some (n - i), us_total_tokens = tot, us_invalid = invalid\<rparr>
               else \<lparr>us_input_tokens = inp, us_output_tokens = None, us_total_tokens = tot, us_invalid = True\<rparr>
           | (None, Some p) \<Rightarrow>
               if p \<le> n
               then \<lparr>us_input_tokens = Some (n - p), us_output_tokens = out, us_total_tokens = tot, us_invalid = invalid\<rparr>
               else \<lparr>us_input_tokens = None, us_output_tokens = out, us_total_tokens = tot, us_invalid = True\<rparr>
           | (None, None) \<Rightarrow> \<lparr>us_input_tokens = None, us_output_tokens = None, us_total_tokens = tot, us_invalid = invalid\<rparr>))"

definition model_response_token_usage :: "model_response \<Rightarrow> token_usage" where
  "model_response_token_usage response =
     (case resp_usage response of
        JObj usage \<Rightarrow>
          (let (inp, input_invalid) = first_usage_integer usage [''input_tokens'', ''prompt_tokens''] ''input_tokens_details'';
               (creation, creation_invalid) = usage_field usage ''cache_creation_input_tokens'';
               (cached, read_invalid) = usage_field usage ''cache_read_input_tokens'';
               inp' = (if creation \<noteq> None \<or> cached \<noteq> None
                       then Some (or_zero inp + or_zero creation + or_zero cached) else inp);
               (out, output_invalid) = first_usage_integer usage [''output_tokens'', ''completion_tokens''] ''output_tokens_details'';
               (tot, total_invalid) = usage_field usage ''total_tokens'' in
           usage_with_total inp' out tot
             (input_invalid \<or> creation_invalid \<or> read_invalid \<or> output_invalid \<or> total_invalid))
      | _ \<Rightarrow> \<lparr>us_input_tokens = None, us_output_tokens = None, us_total_tokens = None, us_invalid = False\<rparr>)"

section \<open>Settling a reservation\<close>

text \<open>
  The error a settlement reports: usage that contradicts itself, or a total beyond a limit that no
  elastic grant extends. The tracker already carries the settled totals.
\<close>

definition settlement_outcome ::
  "token_usage \<Rightarrow> reservation \<Rightarrow> string \<Rightarrow> int \<Rightarrow> int \<Rightarrow> tracker \<Rightarrow> (string \<times> string) option \<times> tracker" where
  "settlement_outcome usage r attempt_id prospective_input prospective_output t =
     (if us_invalid usage
      then (Some (''run_budget_usage_invalid'', ''provider token usage is malformed or internally contradictory''), t)
      else
        let ideficit = max 0 (prospective_input - effective_input_limit t);
            odeficit = max 0 (prospective_output - effective_output_limit t);
            (extended, t') = (if ideficit \<noteq> 0 \<or> odeficit \<noteq> 0
              then extend_settlement_elastic_grant r attempt_id ideficit odeficit t else (False, t)) in
        if ideficit \<noteq> 0 \<and> \<not> extended
        then (Some (''run_input_token_budget_exceeded'', ''provider input usage exceeds max_total_input_tokens''), t')
        else if odeficit \<noteq> 0 \<and> \<not> extended
        then (Some (''run_output_token_budget_exceeded'', ''provider output exceeds remaining max_total_output_tokens''), t')
        else (None, t'))"

definition settle_reservation :: "model_response \<Rightarrow> string \<Rightarrow> reservation \<Rightarrow> tracker \<Rightarrow> unit res \<times> tracker" where
  "settle_reservation response attempt_id r t =
     (let usage = model_response_token_usage response;
          (actual_input, actual_output) = settlement usage (reserved_input_tokens r) (max_output_tokens r)
             (conservative_token_estimate (resp_text response));
          prospective_input = total_input_tokens t - reserved_input_tokens r + actual_input;
          prospective_output = total_output_tokens t + reserved_output_tokens t - max_output_tokens r + actual_output;
          t1 = t\<lparr>total_input_tokens := prospective_input,
                 reserved_output_tokens := reserved_output_tokens t - max_output_tokens r,
                 total_output_tokens := total_output_tokens t + actual_output\<rparr>;
          (err, t2) = settlement_outcome usage r attempt_id prospective_input prospective_output t1;
          r' = r\<lparr>res_status := Settled, actual_input_tokens := Some actual_input,
                 actual_output_tokens := Some actual_output, settlement_error := err\<rparr>;
          t3 = t2\<lparr>model_reservations := AList.update attempt_id r' (model_reservations t2)\<rparr> in
      (case err of None \<Rightarrow> Inr () | Some (c, m) \<Rightarrow> Inl (budget_error c m), t3))"

definition record_model_response ::
  "host \<Rightarrow> rat \<Rightarrow> model_response \<Rightarrow> string \<Rightarrow> string \<Rightarrow> tracker \<Rightarrow> unit res \<times> tracker" where
  "record_model_response h now response call_id attempt_id t =
     (case map_of (model_reservations t) attempt_id of
        None \<Rightarrow> (Inl (budget_error ''run_budget_attempt_missing''
                   (''attempt_id '' @ attempt_id @ '' has no matching reservation'')), t)
      | Some r \<Rightarrow>
          if res_call_id r \<noteq> call_id
          then (Inl (budget_error ''run_budget_attempt_missing''
                   (''attempt_id '' @ attempt_id @ '' has no matching reservation'')), t)
          else if res_status r = Settled
          then (case settlement_error r of
                  None \<Rightarrow> (Inr (), t)
                | Some (c, m) \<Rightarrow> (Inl (budget_error c m), t))
          else (case check_elapsed h now t of
                  Inl e \<Rightarrow> (Inl e, t)
                | Inr _ \<Rightarrow> settle_reservation response attempt_id r t))"

section \<open>Reading the tracker\<close>

definition remaining_seconds :: "host \<Rightarrow> rat \<Rightarrow> tracker \<Rightarrow> rat" where
  "remaining_seconds h now t =
     max 0 (float_sub h (max_elapsed_seconds (limits t)) (float_sub h now (started_at t)))"

definition remaining_output_tokens :: "tracker \<Rightarrow> int" where
  "remaining_output_tokens t =
     max 0 (effective_output_limit t - total_output_tokens t - reserved_output_tokens t)"

definition authorization_json :: "elastic_authorization \<Rightarrow> json" where
  "authorization_json a = JObj
     [(''authorization_id'', JStr (el_authorization_id a)), (''reason'', JStr (el_reason a)),
      (''evidence'', JObj (el_evidence a)), (''stages'', JList (map JStr (el_stages a))),
      (''consumed_stages'', JList (map JStr (consumed_stages a))),
      (''status'', JStr (case el_status a of Active \<Rightarrow> ''active'' | Superseded \<Rightarrow> ''superseded''))]"

definition grant_json :: "elastic_grant \<Rightarrow> json" where
  "grant_json g = JObj
     [(''authorization_id'', JStr (gr_authorization_id g)), (''attempt_id'', JStr (gr_attempt_id g)),
      (''stage'', JStr (gr_stage g)), (''reason'', JStr (gr_reason g)),
      (''input_tokens_added'', JInt (input_tokens_added g)),
      (''output_tokens_added'', JInt (output_tokens_added g)),
      (''restored'', JBool (gr_restored g)), (''evidence'', JObj (gr_evidence g))]"

definition unsettled_attempts :: "tracker \<Rightarrow> int" where
  "unsettled_attempts t =
     int (length (filter (\<lambda>(k, r). res_status r = Reserved) (model_reservations t)))"

definition budget_report :: "host \<Rightarrow> rat \<Rightarrow> tracker \<Rightarrow> dict" where
  "budget_report h now t =
     [(''provider_calls'', JInt (provider_calls t)),
      (''total_input_tokens'', JInt (total_input_tokens t)),
      (''total_output_tokens'', JInt (total_output_tokens t)),
      (''reserved_output_tokens'', JInt (reserved_output_tokens t)),
      (''charged_output_tokens'', JInt (total_output_tokens t + reserved_output_tokens t)),
      (''unsettled_attempt_count'', JInt (unsettled_attempts t)),
      (''elapsed_seconds'', JFloat (Finite (max 0 (float_sub h now (started_at t))))),
      (''estimated_cost'', JFloat (Finite (estimated_cost t))),
      (''elastic_budget'', JObj
        [(''base_input_token_limit'', JInt (max_total_input_tokens (limits t))),
         (''base_output_token_limit'', JInt (max_total_output_tokens (limits t))),
         (''effective_input_token_limit'', JInt (effective_input_limit t)),
         (''effective_output_token_limit'', JInt (effective_output_limit t)),
         (''input_tokens_added'', JInt (elastic_input_tokens t)),
         (''output_tokens_added'', JInt (elastic_output_tokens t)),
         (''active_authorization_id'', (case active_elastic_authorization_id t of None \<Rightarrow> JNull | Some k \<Rightarrow> JStr k)),
         (''authorizations'', JList (map (\<lambda>(k, a). authorization_json a) (elastic_authorizations t))),
         (''grants'', JList (map grant_json (elastic_grants t)))])]"

section \<open>Sums over a dictionary\<close>

definition dict_sum :: "('v \<Rightarrow> int) \<Rightarrow> (string \<times> 'v) list \<Rightarrow> int" where
  "dict_sum f d = sum_list (map (\<lambda>(k, v). f v) d)"

lemma dict_sum_Nil [simp]: "dict_sum f [] = 0"
  by (simp add: dict_sum_def)

lemma dict_sum_insert: "map_of d k = None \<Longrightarrow> dict_sum f (AList.update k w d) = dict_sum f d + f w"
  by (induction d) (auto simp: dict_sum_def split: if_splits)

lemma dict_sum_update:
  "distinct (map fst d) \<Longrightarrow> map_of d k = Some v \<Longrightarrow> dict_sum f (AList.update k w d) = dict_sum f d - f v + f w"
proof (induction d)
  case (Cons p d)
  obtain j u where p: "p = (j, u)" by (cases p)
  show ?case
  proof (cases "j = k")
    case True
    with Cons.prems p have "u = v" by simp
    with True p show ?thesis by (simp add: dict_sum_def)
  next
    case False
    with Cons p show ?thesis by (auto simp: dict_sum_def)
  qed
qed simp

lemma length_update:
  "length (AList.update k w d) = (if map_of d k = None then Suc (length d) else length d)"
  by (induction d) auto

section \<open>The ledger\<close>

definition reserved_part :: "reservation \<Rightarrow> int" where
  "reserved_part r = (if res_status r = Reserved then max_output_tokens r else 0)"

definition settled_part :: "reservation \<Rightarrow> int" where
  "settled_part r = (if res_status r = Settled then or_zero (actual_output_tokens r) else 0)"

text \<open>
  The totals of the tracker are those of its records: reserved output is what the open
  reservations reserved, settled output is part of the total, every reservation is a charged call,
  and the elastic allowance is the sum of the grants.
\<close>

definition ledger_ok :: "tracker \<Rightarrow> bool" where
  "ledger_ok t \<longleftrightarrow>
     distinct (map fst (model_reservations t)) \<and>
     reserved_output_tokens t = dict_sum reserved_part (model_reservations t) \<and>
     dict_sum settled_part (model_reservations t) \<le> total_output_tokens t \<and>
     int (length (model_reservations t)) \<le> provider_calls t \<and>
     elastic_input_tokens t = sum_list (map input_tokens_added (elastic_grants t)) \<and>
     elastic_output_tokens t = sum_list (map output_tokens_added (elastic_grants t))"

text \<open>The caps that no grant extends: the number of calls and the cost.\<close>

definition caps_ok :: "tracker \<Rightarrow> bool" where
  "caps_ok t \<longleftrightarrow>
     provider_calls t \<le> max_provider_calls (limits t) \<and>
     (\<forall>m. max_estimated_cost (limits t) = Some m \<longrightarrow> estimated_cost t \<le> m)"

text \<open>Every stage of an authorization is consumed at most once, and only a stage it names.\<close>

definition single_use :: "elastic_authorization \<Rightarrow> bool" where
  "single_use a \<longleftrightarrow> distinct (consumed_stages a) \<and> set (consumed_stages a) \<subseteq> set (el_stages a)"

definition authorizations_ok :: "tracker \<Rightarrow> bool" where
  "authorizations_ok t \<longleftrightarrow>
     (\<forall>(k, a) \<in> set (elastic_authorizations t). single_use a)"

definition budget_ok :: "run_limits \<Rightarrow> tracker \<Rightarrow> bool" where
  "budget_ok lims t \<longleftrightarrow> limits t = lims \<and> ledger_ok t \<and> caps_ok t \<and> authorizations_ok t"

lemma budget_ok_new:
  assumes "0 \<le> max_provider_calls lims" and "\<And>m. max_estimated_cost lims = Some m \<Longrightarrow> 0 \<le> m"
  shows "budget_ok lims (new_tracker lims now)"
  using assms
  by (auto simp: budget_ok_def new_tracker_def ledger_ok_def caps_ok_def authorizations_ok_def split: option.splits)

lemma add_grant_simps [simp]:
  "limits (add_grant g t) = limits t" "provider_calls (add_grant g t) = provider_calls t"
  "total_input_tokens (add_grant g t) = total_input_tokens t"
  "total_output_tokens (add_grant g t) = total_output_tokens t"
  "reserved_output_tokens (add_grant g t) = reserved_output_tokens t"
  "estimated_cost (add_grant g t) = estimated_cost t"
  "model_reservations (add_grant g t) = model_reservations t"
  "elastic_authorizations (add_grant g t) = elastic_authorizations t"
  "started_at (add_grant g t) = started_at t"
  by (simp_all add: add_grant_def)

lemma budget_ok_add_grant: "budget_ok lims t \<Longrightarrow> budget_ok lims (add_grant g t)"
  by (auto simp: budget_ok_def ledger_ok_def caps_ok_def authorizations_ok_def add_grant_def)

lemma set_update: "(j, w) \<in> set (AList.update k v d) \<Longrightarrow> (j, w) \<in> set d \<or> (j = k \<and> w = v)"
  by (induction d) (auto split: if_splits)

lemma authorizations_ok_update:
  assumes "\<forall>(k, a) \<in> set auths. single_use a"
    and "single_use b"
  shows "\<forall>(k, a) \<in> set (AList.update j b auths). single_use a"
  using assms by (fastforce dest: set_update)

lemma supersede_ok:
  assumes "\<forall>(k, a) \<in> set auths. single_use a"
  shows "\<forall>(k, a) \<in> set (supersede p key auths). single_use a"
proof (cases "\<exists>q a. p = Some q \<and> map_of auths q = Some a \<and>
    supersede p key auths = AList.update q (a\<lparr>el_status := Superseded\<rparr>) auths")
  case True
  then obtain q a where m: "map_of auths q = Some a"
    and u: "supersede p key auths = AList.update q (a\<lparr>el_status := Superseded\<rparr>) auths" by blast
  from assms m have "single_use (a\<lparr>el_status := Superseded\<rparr>)"
    by (auto simp: single_use_def dest!: map_of_SomeD)
  with authorizations_ok_update [OF assms] show ?thesis by (simp add: u)
next
  case False
  then have "supersede p key auths = auths"
    by (auto simp: supersede_def split: option.splits)
  with assms show ?thesis by simp
qed

lemma authorize_ok:
  assumes "budget_ok lims t"
  shows "budget_ok lims (snd (authorize_elastic_tokens i r e s t))"
proof -
  have a: "\<forall>(k, a) \<in> set (elastic_authorizations t). single_use a"
    using assms by (simp add: budget_ok_def authorizations_ok_def)
  have same: "budget_ok lims (t\<lparr>elastic_authorizations := auths, active_elastic_authorization_id := k\<rparr>)"
    if "\<forall>(k, a) \<in> set auths. single_use a" for auths k
    using assms that by (auto simp: budget_ok_def ledger_ok_def caps_ok_def authorizations_ok_def)
  show ?thesis
    unfolding authorize_elastic_tokens_def Let_def
    by (auto simp: assms split: option.splits intro!: same supersede_ok [OF a]
        supersede_ok [OF authorizations_ok_update [OF a]] simp: single_use_def)
qed

lemma consume_cases:
  obtains (none) "consume_elastic_authorization s i m n t = (None, t)"
  | (grant) key a g where "consume_elastic_authorization s i m n t =
        (Some g, add_grant g (t\<lparr>elastic_authorizations :=
             AList.update key (a\<lparr>consumed_stages := consumed_stages a @ [s]\<rparr>) (elastic_authorizations t)\<rparr>))"
      "map_of (elastic_authorizations t) key = Some a" "s \<in> set (el_stages a)" "s \<notin> set (consumed_stages a)"
      "input_tokens_added g = m" "output_tokens_added g = n" "el_status a = Active"
proof (cases "(m = 0 \<and> n = 0) \<or> usable_authorization t s = None")
  case True
  then show thesis by (intro none) (auto simp: consume_elastic_authorization_def)
next
  case False
  then obtain key a where u: "usable_authorization t s = Some (key, a)" by auto
  from u have "map_of (elastic_authorizations t) key = Some a" "s \<in> set (el_stages a)"
    "s \<notin> set (consumed_stages a)" "el_status a = Active"
    by (auto simp: usable_authorization_def Let_def split: option.splits if_splits)
  with False u show thesis
    by (intro grant) (auto simp: consume_elastic_authorization_def Let_def)
qed

lemma consume_ok:
  assumes "budget_ok lims t"
  shows "budget_ok lims (snd (consume_elastic_authorization s i m n t))"
proof (cases rule: consume_cases [of s i m n t])
  case none
  with assms show ?thesis by simp
next
  case (grant key a g)
  have a: "\<forall>(k, a) \<in> set (elastic_authorizations t). single_use a"
    using assms by (simp add: budget_ok_def authorizations_ok_def)
  with grant(2) have "single_use a"
    by (auto dest!: map_of_SomeD)
  with grant(3,4) have "single_use (a\<lparr>consumed_stages := consumed_stages a @ [s]\<rparr>)"
    by (auto simp: single_use_def)
  with authorizations_ok_update [OF a, of "a\<lparr>consumed_stages := consumed_stages a @ [s]\<rparr>" key]
  have "budget_ok lims (t\<lparr>elastic_authorizations :=
      AList.update key (a\<lparr>consumed_stages := consumed_stages a @ [s]\<rparr>) (elastic_authorizations t)\<rparr>)"
    using assms by (auto simp: budget_ok_def ledger_ok_def caps_ok_def authorizations_ok_def)
  with grant(1) show ?thesis by (simp add: budget_ok_add_grant)
qed


lemma consume_frame:
  "limits (snd (consume_elastic_authorization s i m n t)) = limits t"
  "provider_calls (snd (consume_elastic_authorization s i m n t)) = provider_calls t"
  "total_input_tokens (snd (consume_elastic_authorization s i m n t)) = total_input_tokens t"
  "total_output_tokens (snd (consume_elastic_authorization s i m n t)) = total_output_tokens t"
  "reserved_output_tokens (snd (consume_elastic_authorization s i m n t)) = reserved_output_tokens t"
  "estimated_cost (snd (consume_elastic_authorization s i m n t)) = estimated_cost t"
  "model_reservations (snd (consume_elastic_authorization s i m n t)) = model_reservations t"
  by (cases rule: consume_cases [of s i m n t]; simp)+

section \<open>Every operation keeps the ledger\<close>

lemma checked_cases:
  assumes "checked c x t' t = (r, u)"
  obtains (refused) e where "c = Inl e" "r = Inl e" "u = t" | (passed) "c = Inr ()" "r = Inr x" "u = t'"
  using assms by (cases c) (auto simp: checked_def)

lemma admit_attempt_Inr:
  "admit_attempt h now a t = Inr u \<longleftrightarrow>
     check_elapsed h now t = Inr () \<and> 0 \<le> at_input_tokens a \<and> 0 \<le> at_max_output_tokens a \<and>
     at_call_id a \<noteq> [] \<and> at_attempt_id a \<noteq> [] \<and> map_of (model_reservations t) (at_attempt_id a) = None \<and>
     provider_calls t + 1 \<le> max_provider_calls (limits t)"
  by (auto simp: admit_attempt_def rbind_eq_Inr require_non_negative_def require_identity_def
      check_provider_calls_def)

lemma check_cost_Inr:
  "check_cost h c t = Inr u \<longleftrightarrow> (\<forall>m. max_estimated_cost (limits t) = Some m \<longrightarrow> float_add h (estimated_cost t) c \<le> m)"
  by (auto simp: check_cost_def split: option.splits)

lemma check_attempt_limits_Inr:
  "check_attempt_limits h a t = Inr u \<longleftrightarrow>
     total_input_tokens t + at_input_tokens a \<le> effective_input_limit t \<and>
     total_output_tokens t + reserved_output_tokens t + at_max_output_tokens a \<le> effective_output_limit t \<and>
     (\<forall>m. max_estimated_cost (limits t) = Some m \<longrightarrow> float_add h (estimated_cost t) (at_cost a) \<le> m)"
  by (auto simp: check_attempt_limits_def check_cost_Inr split: if_splits)

lemma reserve_model_call_cases:
  assumes "reserve_model_call h now a t = (r, u)"
  obtains (refused) e where "admit_attempt h now a t = Inl e" "r = Inl e" "u = t"
  | (limited) e g t' where "admit_attempt h now a t = Inr ()"
      "consume_elastic_authorization (attempt_stage a) (at_attempt_id a) (input_deficit t (at_input_tokens a))
         (output_deficit t (at_max_output_tokens a)) t = (g, t')"
      "check_attempt_limits h a t' = Inl e" "r = Inl e" "u = t'"
  | (charged) g t' where "admit_attempt h now a t = Inr ()"
      "consume_elastic_authorization (attempt_stage a) (at_attempt_id a) (input_deficit t (at_input_tokens a))
         (output_deficit t (at_max_output_tokens a)) t = (g, t')"
      "check_attempt_limits h a t' = Inr ()" "r = Inr ()" "u = charge_attempt h a g t'"
proof (cases "admit_attempt h now a t")
  case (Inl e)
  with assms show thesis by (intro refused [of e]) (simp_all add: reserve_model_call_def)
next
  case (Inr v)
  obtain g t' where c: "consume_elastic_authorization (attempt_stage a) (at_attempt_id a)
      (input_deficit t (at_input_tokens a)) (output_deficit t (at_max_output_tokens a)) t = (g, t')"
    by (rule prod.exhaust)
  with assms Inr have "checked (check_attempt_limits h a t') () (charge_attempt h a g t') t' = (r, u)"
    by (simp add: reserve_model_call_def)
  then show thesis
    by (cases rule: checked_cases) (use Inr c in \<open>auto intro: limited charged\<close>)
qed

lemma reserve_model_call_ok:
  assumes ok: "budget_ok lims t"
  shows "budget_ok lims (snd (reserve_model_call h now a t))"
proof -
  obtain r u where r: "reserve_model_call h now a t = (r, u)" by (rule prod.exhaust)
  show ?thesis
  proof (cases rule: reserve_model_call_cases [OF r])
    case (1 e)
    with ok r show ?thesis by simp
  next
    case (2 e g t')
    with consume_ok [OF ok] r show ?thesis by (metis snd_conv)
  next
    case (3 g t')
    from consume_ok [OF ok] 3(2) have "budget_ok lims t'" by (metis snd_conv)
    moreover have "model_reservations t' = model_reservations t" "provider_calls t' = provider_calls t"
      "limits t' = limits t"
      using 3(2) consume_frame by (metis snd_conv)+
    ultimately show ?thesis
      using 3(1,3) by (auto simp: r 3(5) admit_attempt_Inr check_attempt_limits_Inr budget_ok_def ledger_ok_def
          caps_ok_def authorizations_ok_def charge_attempt_def dict_sum_insert length_update distinct_update
          new_reservation_def reserved_part_def settled_part_def)
  qed
qed

lemma reserve_call_ok:
  assumes "budget_ok lims t"
  shows "budget_ok lims (snd (reserve_call h now n c t))"
  using assms unfolding reserve_call_def checked_def
  by (auto simp: budget_ok_def ledger_ok_def caps_ok_def authorizations_ok_def check_cost_Inr rbind_eq_Inr
      check_provider_calls_def split: sum.splits if_splits)

lemma record_output_ok:
  assumes "budget_ok lims t"
  shows "budget_ok lims (snd (record_output h now n c t))"
  using assms unfolding record_output_def checked_def
  by (auto simp: budget_ok_def ledger_ok_def caps_ok_def authorizations_ok_def check_cost_Inr rbind_eq_Inr
      require_non_negative_def split: sum.splits if_splits)

lemma ensure_model_call_snd:
  "snd (ensure_model_call h now a t) = t \<or> snd (ensure_model_call h now a t) = snd (reserve_model_call h now a t)"
  by (auto simp: ensure_model_call_def split: sum.splits option.splits prod.splits)

lemma ensure_model_call_ok: "budget_ok lims t \<Longrightarrow> budget_ok lims (snd (ensure_model_call h now a t))"
  using ensure_model_call_snd [of h now a t] reserve_model_call_ok by metis

lemma budget_ok_reservation_update:
  assumes "budget_ok lims t" and "map_of (model_reservations t) k = Some r"
    and "reserved_part r' = reserved_part r" and "settled_part r' = settled_part r"
  shows "budget_ok lims (t\<lparr>model_reservations := AList.update k r' (model_reservations t)\<rparr>)"
  using assms by (auto simp: budget_ok_def ledger_ok_def caps_ok_def authorizations_ok_def dict_sum_update
      length_update distinct_update)

lemma mark_restored_ok: "budget_ok lims t \<Longrightarrow> budget_ok lims (mark_restored k t)"
  by (auto simp: mark_restored_def reserved_part_def settled_part_def split: option.splits
      intro!: budget_ok_reservation_update)

lemma restore_model_call_ok:
  assumes ok: "budget_ok lims t"
  shows "budget_ok lims (snd (restore_model_call h now b t))"
proof -
  let ?a = "b\<lparr>at_cost := 0\<rparr>"
  let ?t = "if input_deficit t (at_input_tokens ?a) \<noteq> 0 \<or> output_deficit t (at_max_output_tokens ?a) \<noteq> 0
            then record_restored_elastic_grant (at_attempt_id ?a) (at_stage ?a)
              (input_deficit t (at_input_tokens ?a)) (output_deficit t (at_max_output_tokens ?a)) t else t"
  have t: "budget_ok lims ?t"
    using ok by (simp add: record_restored_elastic_grant_def budget_ok_add_grant)
  obtain r u where r: "reserve_model_call h now ?a ?t = (r, u)" by (rule prod.exhaust)
  with reserve_model_call_ok [OF t] have u: "budget_ok lims u" by (metis snd_conv)
  show ?thesis
    using ensure_model_call_ok [OF ok, of h now ?a] u mark_restored_ok [OF u] r
    by (auto simp: restore_model_call_def Let_def split: prod.splits sum.splits)
qed

lemma settlement_outcome_cases:
  assumes "settlement_outcome usage r i pin pout t = (err, t')"
  shows "t' = t \<or> (\<exists>g. t' = add_grant g t)"
  using assms
  by (auto simp: settlement_outcome_def extend_settlement_elastic_grant_def Let_def split: if_splits prod.splits)

lemma add_grant_reservations:
  "(add_grant g t)\<lparr>model_reservations := m\<rparr> = add_grant g (t\<lparr>model_reservations := m\<rparr>)"
  by (cases t) (simp add: add_grant_def)

lemma settle_reservation_ok:
  assumes ok: "budget_ok lims t" and m: "map_of (model_reservations t) i = Some r"
    and opened: "res_status r = Reserved"
  shows "budget_ok lims (snd (settle_reservation resp i r t))"
proof -
  let ?u = "model_response_token_usage resp"
  obtain ai ao where s: "settlement ?u (reserved_input_tokens r) (max_output_tokens r)
      (conservative_token_estimate (resp_text resp)) = (ai, ao)" by (rule prod.exhaust)
  let ?pin = "total_input_tokens t - reserved_input_tokens r + ai"
  let ?pout = "total_output_tokens t + reserved_output_tokens t - max_output_tokens r + ao"
  let ?t1 = "t\<lparr>total_input_tokens := ?pin,
                 reserved_output_tokens := reserved_output_tokens t - max_output_tokens r,
                 total_output_tokens := total_output_tokens t + ao\<rparr>"
  obtain err t2 where o: "settlement_outcome ?u r i ?pin ?pout ?t1 = (err, t2)" by (rule prod.exhaust)
  let ?r = "r\<lparr>res_status := Settled, actual_input_tokens := Some ai,
                 actual_output_tokens := Some ao, settlement_error := err\<rparr>"
  let ?t3 = "?t1\<lparr>model_reservations := AList.update i ?r (model_reservations t)\<rparr>"
  have parts: "reserved_part r = max_output_tokens r" "settled_part r = 0" "reserved_part ?r = 0" "settled_part ?r = ao"
    by (simp_all add: reserved_part_def settled_part_def opened or_zero_def)
  have t3: "budget_ok lims ?t3"
    using ok by (auto simp: budget_ok_def ledger_ok_def caps_ok_def authorizations_ok_def
        dict_sum_update [OF _ m] parts length_update m distinct_update)
  have res: "snd (settle_reservation resp i r t) = t2\<lparr>model_reservations := AList.update i ?r (model_reservations t2)\<rparr>"
    by (simp add: settle_reservation_def Let_def s o)
  from settlement_outcome_cases [OF o] show ?thesis
  proof
    assume "t2 = ?t1"
    with t3 res show ?thesis by simp
  next
    assume "\<exists>g. t2 = add_grant g ?t1"
    then obtain g where "t2 = add_grant g ?t1" ..
    then have "snd (settle_reservation resp i r t) = add_grant g ?t3"
      by (simp add: res add_grant_reservations)
    with budget_ok_add_grant [OF t3, of g] show ?thesis by simp
  qed
qed

lemma record_model_response_ok:
  "budget_ok lims t \<Longrightarrow> budget_ok lims (snd (record_model_response h now resp c i t))"
  using settle_reservation_ok [of lims t i _ resp]
  by (auto simp: record_model_response_def split: option.splits sum.splits reservation_status.splits)
     (metis reservation_status.exhaust)+

section \<open>Runs of a tracker\<close>

text \<open>
  One call of a method, with any arguments and at any time, whether it returns or raises.
\<close>

inductive budget_step :: "host \<Rightarrow> tracker \<Rightarrow> tracker \<Rightarrow> bool" for h where
  authorize: "budget_step h t (snd (authorize_elastic_tokens i r e s t))"
| call: "budget_step h t (snd (reserve_call h now n c t))"
| outputs: "budget_step h t (snd (record_output h now n c t))"
| reserve: "budget_step h t (snd (reserve_model_call h now a t))"
| ensure: "budget_step h t (snd (ensure_model_call h now a t))"
| restore: "budget_step h t (snd (restore_model_call h now a t))"
| respond: "budget_step h t (snd (record_model_response h now resp c i t))"

inductive_cases budget_stepE: "budget_step h t t'"

lemma budget_step_ok: "budget_step h t t' \<Longrightarrow> budget_ok lims t \<Longrightarrow> budget_ok lims t'"
  by (elim budget_stepE)
     (simp_all add: authorize_ok reserve_call_ok record_output_ok reserve_model_call_ok ensure_model_call_ok
       restore_model_call_ok record_model_response_ok)

inductive budget_run :: "host \<Rightarrow> run_limits \<Rightarrow> tracker \<Rightarrow> bool" for h lims where
  start: "budget_run h lims (new_tracker lims now)"
| step: "budget_run h lims t \<Longrightarrow> budget_step h t t' \<Longrightarrow> budget_run h lims t'"

lemma budget_run_ok:
  assumes "budget_run h lims t" and "0 \<le> max_provider_calls lims"
    and "\<And>m. max_estimated_cost lims = Some m \<Longrightarrow> 0 \<le> m"
  shows "budget_ok lims t"
  using assms by (induction rule: budget_run.induct) (auto simp: budget_ok_new budget_step_ok)

section \<open>What a caller may rely on\<close>

lemma reserve_model_call_refused:
  assumes "reserve_model_call h now a t = (Inl e, u)"
  shows "provider_calls u = provider_calls t \<and> total_input_tokens u = total_input_tokens t \<and>
    total_output_tokens u = total_output_tokens t \<and> reserved_output_tokens u = reserved_output_tokens t \<and>
    estimated_cost u = estimated_cost t \<and> model_reservations u = model_reservations t"
  using assms
proof (cases rule: reserve_model_call_cases)
  case (limited e g t')
  with consume_frame show ?thesis by (metis snd_conv)
qed auto

lemma reserve_model_call_within:
  assumes "reserve_model_call h now a t = (Inr (), u)"
  shows "total_input_tokens u \<le> effective_input_limit u"
    and "total_output_tokens u + reserved_output_tokens u \<le> effective_output_limit u"
    and "map_of (model_reservations u) (at_attempt_id a) = Some (new_reservation a None) \<or>
         (\<exists>g. map_of (model_reservations u) (at_attempt_id a) = Some (new_reservation a (Some g)))"
    and "provider_calls u = provider_calls t + 1"
proof -
  from assms have "total_input_tokens u \<le> effective_input_limit u \<and>
    total_output_tokens u + reserved_output_tokens u \<le> effective_output_limit u"
  proof (cases rule: reserve_model_call_cases)
    case (charged g t')
    then show ?thesis
      by (auto simp: check_attempt_limits_Inr charge_attempt_def effective_input_limit_def effective_output_limit_def)
  qed auto
  then show "total_input_tokens u \<le> effective_input_limit u"
    "total_output_tokens u + reserved_output_tokens u \<le> effective_output_limit u" by auto
  from assms show "map_of (model_reservations u) (at_attempt_id a) = Some (new_reservation a None) \<or>
         (\<exists>g. map_of (model_reservations u) (at_attempt_id a) = Some (new_reservation a (Some g)))"
  proof (cases rule: reserve_model_call_cases)
    case (charged g t')
    then show ?thesis by (cases g) (auto simp: charge_attempt_def)
  qed auto
  from assms show "provider_calls u = provider_calls t + 1"
  proof (cases rule: reserve_model_call_cases)
    case (charged g t')
    then have "provider_calls t' = provider_calls t" using consume_frame by (metis snd_conv)
    with charged show ?thesis by (simp add: charge_attempt_def)
  qed auto
qed

lemma ensure_again:
  assumes "ensure_model_call h now a t = (Inr b, u)"
  shows "ensure_model_call h now' a u = (Inr False, u)"
proof -
  have ids: "0 \<le> at_input_tokens a" "0 \<le> at_max_output_tokens a" "at_call_id a \<noteq> []" "at_attempt_id a \<noteq> []"
    using assms by (auto simp: ensure_model_call_def rbind_def require_non_negative_def require_identity_def
        split: if_splits)
  then have pre: "rbind (require_non_negative (at_input_tokens a) ''input_tokens'') (\<lambda>_.
           rbind (require_non_negative (at_max_output_tokens a) ''max_output_tokens'') (\<lambda>_.
           rbind (require_identity (at_call_id a) ''call_id'') (\<lambda>_.
           require_identity (at_attempt_id a) ''attempt_id''))) = Inr ()"
    by (simp add: require_non_negative_def require_identity_def)
  have "\<exists>r. map_of (model_reservations u) (at_attempt_id a) = Some r \<and> same_attempt r a"
  proof (cases "map_of (model_reservations t) (at_attempt_id a)")
    case None
    with assms pre obtain x where "reserve_model_call h now a t = (Inr x, u)"
      by (auto simp: ensure_model_call_def split: prod.splits sum.splits)
    then show ?thesis
      using reserve_model_call_within(3) [of h now a t u] by (auto simp: same_attempt_def new_reservation_def)
  next
    case (Some r)
    with assms pre show ?thesis by (auto simp: ensure_model_call_def split: if_splits)
  qed
  with pre show ?thesis by (auto simp: ensure_model_call_def)
qed

lemma restored_not_refused_for_tokens:
  assumes "restore_model_call h now b t = (Inl (ContextBudgetError c m), u)"
    and "map_of (model_reservations t) (at_attempt_id b) = None"
  shows "c \<noteq> ''run_input_token_budget_exceeded'' \<and> c \<noteq> ''run_output_token_budget_exceeded''"
proof -
  let ?a = "b\<lparr>at_cost := 0\<rparr>"
  define i where "i = input_deficit t (at_input_tokens b)"
  define j where "j = output_deficit t (at_max_output_tokens b)"
  define t1 where "t1 = (if i \<noteq> 0 \<or> j \<noteq> 0 then record_restored_elastic_grant (at_attempt_id b) (at_stage b) i j t else t)"
  have r: "reserve_model_call h now ?a t1 = (Inl (ContextBudgetError c m), u)"
    using assms by (auto simp: restore_model_call_def Let_def i_def j_def t1_def split: prod.splits sum.splits)
  have t1: "elastic_input_tokens t1 = elastic_input_tokens t + i" "elastic_output_tokens t1 = elastic_output_tokens t + j"
    "limits t1 = limits t" "total_input_tokens t1 = total_input_tokens t"
    "total_output_tokens t1 = total_output_tokens t" "reserved_output_tokens t1 = reserved_output_tokens t"
    by (auto simp: t1_def record_restored_elastic_grant_def add_grant_def)
  have no: "input_deficit t1 (at_input_tokens ?a) = 0" "output_deficit t1 (at_max_output_tokens ?a) = 0"
    by (auto simp: input_deficit_def output_deficit_def effective_input_limit_def effective_output_limit_def t1
        i_def j_def)
  from r show ?thesis
  proof (cases rule: reserve_model_call_cases)
    case (refused e)
    then show ?thesis
      by (auto simp: admit_attempt_def rbind_def check_elapsed_def require_non_negative_def require_identity_def
          check_provider_calls_def split: if_splits)
  next
    case (limited e g t')
    from limited(2) no have "t' = t1" by (simp add: consume_elastic_authorization_def)
    with no limited show ?thesis
      by (auto simp: check_attempt_limits_def check_cost_def input_deficit_def output_deficit_def
          split: if_splits option.splits)
  qed auto
qed

lemma consistent_usage:
  assumes "\<not> us_invalid (model_response_token_usage r)"
    and "us_input_tokens (model_response_token_usage r) = Some i"
    and "us_output_tokens (model_response_token_usage r) = Some p"
    and "us_total_tokens (model_response_token_usage r) = Some n"
  shows "i + p = n"
  using assms
  by (auto simp: model_response_token_usage_def usage_with_total_def Let_def
      split: json.splits option.splits if_splits prod.splits)

lemma record_again:
  assumes r: "record_model_response h now resp c i t = (x, u)" and m: "map_of (model_reservations t) i = Some r"
    and c: "res_call_id r = c" and el: "check_elapsed h now t = Inr ()"
  shows "record_model_response h now' resp' c i u = (x, u)"
proof (cases "res_status r")
  case Settled
  with r m c have u: "u = t" and x: "(case settlement_error r of None \<Rightarrow> Inr () | Some (a, b) \<Rightarrow> Inl (budget_error a b)) = x"
    by (auto simp: record_model_response_def split: option.splits)
  with Settled m c show ?thesis
    by (auto simp: record_model_response_def split: option.splits)
next
  case Reserved
  with r m c el have "settle_reservation resp i r t = (x, u)"
    by (simp add: record_model_response_def)
  then obtain err r' where x: "x = (case err of None \<Rightarrow> Inr () | Some (a, b) \<Rightarrow> Inl (budget_error a b))"
    and "map_of (model_reservations u) i = Some r'" "res_status r' = Settled" "settlement_error r' = err"
    "res_call_id r' = c"
    using c by (auto simp: settle_reservation_def Let_def split: prod.splits)
  then show ?thesis by (auto simp: record_model_response_def split: option.splits)
qed

section \<open>Properties of the run budget\<close>

definition example_limits :: run_limits where
  "example_limits = \<lparr>max_provider_calls = 3, max_total_input_tokens = 100, max_total_output_tokens = 50,
     max_elapsed_seconds = 10, max_estimated_cost = Some 1\<rparr>"

definition example_attempt :: attempt where
  "example_attempt = \<lparr>at_input_tokens = 40, at_max_output_tokens = 20, at_call_id = ''c'', at_attempt_id = ''a'',
     at_stage = Some ''repair'', at_cost = 0\<rparr>"

definition example_charged :: tracker where
  "example_charged = charge_attempt example_host example_attempt None (new_tracker example_limits 0)"

lemma example_reserved:
  "reserve_model_call example_host 1 example_attempt (new_tracker example_limits 0) = (Inr (), example_charged)"
  by (simp add: reserve_model_call_def admit_attempt_def check_elapsed_def require_non_negative_def
      require_identity_def check_provider_calls_def new_tracker_def example_limits_def example_attempt_def
      example_host_def input_deficit_def output_deficit_def effective_input_limit_def effective_output_limit_def
      consume_elastic_authorization_def checked_def check_attempt_limits_def check_cost_def example_charged_def)

text \<open>
  C4: whatever sequence of calls a tracker sees, returning or raising, its books balance: reserved
  output is what the open reservations reserved, the elastic allowance is what the grants add up
  to, every reservation is one charged provider call, the number of calls and the estimated cost
  stay within their limits, and a stage consumes an elastic authorization at most once.
\<close>

theorem budget_books_balance:
  assumes "budget_run h lims t" and "0 \<le> max_provider_calls lims"
    and "\<forall>m. max_estimated_cost lims = Some m \<longrightarrow> 0 \<le> m"
  shows "ledger_ok t \<and> caps_ok t \<and> authorizations_ok t \<and> limits t = lims"
  using budget_run_ok [OF assms(1,2)] assms(3) by (auto simp: budget_ok_def)

theorem budget_books_balance_witness: "ledger_ok example_charged \<and> caps_ok example_charged"
proof -
  have "budget_run example_host example_limits (new_tracker example_limits 0)" by (rule budget_run.start)
  moreover have "budget_step example_host (new_tracker example_limits 0) example_charged"
    using budget_step.reserve [of example_host "new_tracker example_limits 0" 1 example_attempt]
    by (simp add: example_reserved)
  ultimately have "budget_run example_host example_limits example_charged" by (rule budget_run.step)
  from budget_books_balance [OF this] show ?thesis by (simp add: example_limits_def)
qed

text \<open>
  C31: a reservation that is admitted fits: input charged so far, and output settled or reserved so
  far, are within the effective limits, the attempt is on record and one call is charged.
\<close>

theorem admitted_reservation_fits:
  assumes "reserve_model_call h now a t = (Inr (), u)"
  shows "total_input_tokens u \<le> effective_input_limit u \<and>
    total_output_tokens u + reserved_output_tokens u \<le> effective_output_limit u \<and>
    provider_calls u = provider_calls t + 1 \<and>
    (\<exists>g. map_of (model_reservations u) (at_attempt_id a) = Some (new_reservation a g))"
  using reserve_model_call_within [OF assms] by blast

theorem admitted_reservation_fits_witness: "total_input_tokens example_charged \<le> effective_input_limit example_charged"
  using admitted_reservation_fits [OF example_reserved] by simp

text \<open>
  A reservation that is refused charges nothing: calls, tokens, cost and the recorded attempts
  are as before.
\<close>

lemma refused_reservation_charges_nothing:
  assumes "reserve_model_call h now a t = (Inl e, u)"
  shows "provider_calls u = provider_calls t \<and> total_input_tokens u = total_input_tokens t \<and>
    total_output_tokens u = total_output_tokens t \<and> reserved_output_tokens u = reserved_output_tokens t \<and>
    estimated_cost u = estimated_cost t \<and> model_reservations u = model_reservations t"
  using assms by (rule reserve_model_call_refused)

lemma example_refused:
  "\<exists>e u. reserve_model_call example_host 1 (example_attempt\<lparr>at_input_tokens := 400\<rparr>)
     (new_tracker example_limits 0) = (Inl e, u)"
  by (simp add: reserve_model_call_def admit_attempt_def check_elapsed_def require_non_negative_def
      require_identity_def check_provider_calls_def new_tracker_def example_limits_def example_attempt_def
      example_host_def input_deficit_def output_deficit_def effective_input_limit_def effective_output_limit_def
      consume_elastic_authorization_def usable_authorization_def checked_def check_attempt_limits_def)

theorem refused_reservation_charges_nothing_witness:
  "\<exists>e u. reserve_model_call example_host 1 (example_attempt\<lparr>at_input_tokens := 400\<rparr>)
     (new_tracker example_limits 0) = (Inl e, u) \<and> provider_calls u = 0"
proof -
  obtain e u where r: "reserve_model_call example_host 1 (example_attempt\<lparr>at_input_tokens := 400\<rparr>)
     (new_tracker example_limits 0) = (Inl e, u)" using example_refused by blast
  from refused_reservation_charges_nothing [OF r] r show ?thesis by (auto simp: new_tracker_def)
qed

text \<open>
  Ensuring an attempt is idempotent. Once a call of \<open>ensure_model_call\<close> has returned, the same
  call at any later time finds the reservation, charges nothing and changes nothing.
\<close>

lemma ensured_attempt_is_charged_once:
  assumes "ensure_model_call h now a t = (Inr b, u)"
  shows "ensure_model_call h now' a u = (Inr False, u)"
  using assms by (rule ensure_again)

theorem ensured_attempt_is_charged_once_witness:
  "ensure_model_call example_host 7 example_attempt example_charged = (Inr False, example_charged)"
proof (rule ensured_attempt_is_charged_once)
  show "ensure_model_call example_host 1 example_attempt (new_tracker example_limits 0) = (Inr True, example_charged)"
    using example_reserved
    by (simp add: ensure_model_call_def require_non_negative_def require_identity_def example_attempt_def
        new_tracker_def)
qed

text \<open>
  A durable attempt that is restored after a restart is never refused for tokens: the grant it
  is given covers its deficits exactly.
\<close>

lemma restored_attempt_fits:
  assumes "restore_model_call h now b t = (Inl (ContextBudgetError c m), u)"
    and "map_of (model_reservations t) (at_attempt_id b) = None"
  shows "c \<noteq> ''run_input_token_budget_exceeded'' \<and> c \<noteq> ''run_output_token_budget_exceeded''"
  using assms by (rule restored_not_refused_for_tokens)

theorem restored_attempt_fits_witness:
  "\<exists>c m u. restore_model_call example_host 1 (example_attempt\<lparr>at_input_tokens := 400, at_call_id := []\<rparr>)
     (new_tracker example_limits 0) = (Inl (ContextBudgetError c m), u) \<and> c \<noteq> ''run_input_token_budget_exceeded''"
proof -
  have "fst (restore_model_call example_host 1 (example_attempt\<lparr>at_input_tokens := 400, at_call_id := []\<rparr>)
     (new_tracker example_limits 0)) = Inl (ContextBudgetError ''run_budget_usage_invalid'' ''call_id must be non-empty'')"
    by code_simp
  then obtain c m u where r: "restore_model_call example_host 1 (example_attempt\<lparr>at_input_tokens := 400, at_call_id := []\<rparr>)
     (new_tracker example_limits 0) = (Inl (ContextBudgetError c m), u)"
    by (metis prod.collapse)
  have "map_of (model_reservations (new_tracker example_limits 0)) (at_attempt_id
      (example_attempt\<lparr>at_input_tokens := 400, at_call_id := []\<rparr>)) = None"
    by (simp add: new_tracker_def)
  from restored_attempt_fits [OF r this] r show ?thesis by blast
qed

text \<open>
  A response is settled once. After a response of an attempt has been recorded, a repeated
  recording, with any response and at any time, gives the same result and changes nothing.
\<close>

lemma response_is_settled_once:
  assumes "record_model_response h now resp c i t = (x, u)" and "map_of (model_reservations t) i = Some r"
    and "res_call_id r = c" and "check_elapsed h now t = Inr ()"
  shows "record_model_response h now' resp' c i u = (x, u)"
  using assms by (rule record_again)

theorem response_is_settled_once_witness:
  "\<exists>x u. record_model_response example_host 1 \<lparr>resp_text = [65], resp_usage = JNull\<rparr> ''c'' ''a'' example_charged = (x, u) \<and>
     record_model_response example_host 9 \<lparr>resp_text = [], resp_usage = JNull\<rparr> ''c'' ''a'' u = (x, u)"
proof -
  obtain x u where r: "record_model_response example_host 1 \<lparr>resp_text = [65], resp_usage = JNull\<rparr> ''c'' ''a'' example_charged = (x, u)"
    by (rule prod.exhaust)
  have "map_of (model_reservations example_charged) ''a'' = Some (new_reservation example_attempt None)"
    by (simp add: example_charged_def charge_attempt_def example_attempt_def)
  from response_is_settled_once [OF r this] r show ?thesis
    by (auto simp: new_reservation_def example_attempt_def check_elapsed_def example_host_def
        example_charged_def charge_attempt_def new_tracker_def example_limits_def)
qed

text \<open>
  Settlement never understates what it does not know. If the usage is contradictory or does not
  say how many input (output) tokens were used, the charge is at least the reservation, and for
  output at least the UTF-8 length of the text; a trusted figure is charged as reported.
\<close>

lemma settlement_never_understates:
  "settlement u ri ro fb = (i, p) \<Longrightarrow>
     (if us_invalid u \<or> us_input_tokens u = None then ri \<le> i else us_input_tokens u = Some i) \<and>
     (if us_invalid u \<or> us_output_tokens u = None then max ro fb \<le> p else us_output_tokens u = Some p)"
  by (auto simp: settlement_def Let_def split: if_splits option.splits)

theorem settlement_never_understates_witness:
  "\<exists>i p. settlement \<lparr>us_input_tokens = None, us_output_tokens = Some 3, us_total_tokens = None, us_invalid = True\<rparr> 10 20 5 = (i, p) \<and> 10 \<le> i"
proof -
  obtain i p where r: "settlement \<lparr>us_input_tokens = None, us_output_tokens = Some 3, us_total_tokens = None, us_invalid = True\<rparr> 10 20 5 = (i, p)"
    by (rule prod.exhaust)
  from settlement_never_understates [OF r] r show ?thesis by auto
qed

text \<open>
  Usage that passes as valid adds up. When the reading of a provider's usage has an input, an
  output and a total and is not marked invalid, the first two sum to the third.
\<close>

lemma valid_usage_adds_up:
  assumes "\<not> us_invalid (model_response_token_usage r)"
    and "us_input_tokens (model_response_token_usage r) = Some i"
    and "us_output_tokens (model_response_token_usage r) = Some p"
    and "us_total_tokens (model_response_token_usage r) = Some n"
  shows "i + p = n"
  using assms by (rule consistent_usage)

theorem valid_usage_adds_up_witness: "(7::int) + 5 = 12"
proof (rule valid_usage_adds_up)
  let ?r = "\<lparr>resp_text = [], resp_usage = JObj [(''prompt_tokens'', JInt 7), (''total_tokens'', JInt 12)]\<rparr>"
  have u: "model_response_token_usage ?r = \<lparr>us_input_tokens = Some 7, us_output_tokens = Some 5,
      us_total_tokens = Some 12, us_invalid = False\<rparr>"
    by code_simp
  show "\<not> us_invalid (model_response_token_usage ?r)" "us_input_tokens (model_response_token_usage ?r) = Some 7"
    "us_output_tokens (model_response_token_usage ?r) = Some 5" "us_total_tokens (model_response_token_usage ?r) = Some 12"
    by (simp_all add: u)
qed

definition leaking_tracker :: tracker where
  "leaking_tracker = snd (authorize_elastic_tokens ''e1'' ''repair'' [] [''repair''] (new_tracker example_limits 0))"

definition costly_attempt :: attempt where
  "costly_attempt = example_attempt\<lparr>at_input_tokens := 160, at_cost := 2\<rparr>"


end
