(* ===== verification/Repair_Convergence.thy ===== *)
theory Repair_Convergence
  imports Run_Budget
begin

text \<open>
  When the repair of a chapter goes on: \<open>core/engine/repair_convergence.py\<close>. Each validation of a
  draft is summed up in a checkpoint; two checkpoints in a row are compared, and only a repair that
  improved the chapter may ask for more budget. Checkpoints and transitions are dictionaries, as
  they are in the run report. The last section is the part of \<open>core/engine/executor.py\<close> that keeps
  the history of checkpoints, asks the run budget for more tokens and stops a repair that stalls.
\<close>

section \<open>Checkpoints\<close>

definition severity_rank :: "(string \<times> int) list" where
  "severity_rank = [(''low'', 1), (''medium'', 2), (''high'', 3), (''critical'', 4)]"

definition rank_of :: "string \<Rightarrow> int" where
  "rank_of severity = (case map_of severity_rank severity of None \<Rightarrow> 2 | Some r \<Rightarrow> r)"

text \<open>\<open>re.sub(r''\s+'', '' '', ...)\<close>.\<close>

fun collapse_space :: "string \<Rightarrow> string" where
  "collapse_space [] = []"
| "collapse_space (c # cs) =
     (if py_isspace c
      then (case cs of [] \<Rightarrow> '' '' | d # ds \<Rightarrow> if py_isspace d then collapse_space cs else CHR '' '' # collapse_space cs)
      else c # collapse_space cs)"

definition normalize_message :: "string \<Rightarrow> string" where
  "normalize_message message = take 500 (collapse_space (py_lower (py_strip message)))"

definition text_or :: "host \<Rightarrow> dict \<Rightarrow> string \<Rightarrow> string \<Rightarrow> string" where
  "text_or h d k default_text = py_str h (py_or (dget d k) (JStr default_text))"

definition fingerprint_source :: "string \<Rightarrow> string \<Rightarrow> string \<Rightarrow> string \<Rightarrow> string" where
  "fingerprint_source validator problem_code area message =
     py_join ''|'' ([validator, problem_code, area] @ (if problem_code = ''unknown_problem'' then [message] else []))"

definition problem_severity :: "host \<Rightarrow> dict \<Rightarrow> string" where
  "problem_severity h problem =
     (let severity = py_lower (text_or h problem ''severity'' ''medium'')
      in if map_of severity_rank severity = None then ''medium'' else severity)"

definition problem_summary :: "host \<Rightarrow> dict \<Rightarrow> dict" where
  "problem_summary h problem =
     (let problem_code = text_or h problem ''code'' ''unknown_problem'';
          validator = text_or h problem ''validator'' ''unknown'';
          area = text_or h problem ''area'' [];
          message = normalize_message (text_or h problem ''message'' [])
      in [(''code'', JStr problem_code), (''validator'', JStr validator), (''area'', JStr area),
          (''severity'', JStr (problem_severity h problem)),
          (''blocking'', JBool (truthy (dget_or problem ''blocking'' (JBool True)))),
          (''fingerprint'', JStr (take 20 (sha256_hex h (fingerprint_source validator problem_code area message))))])"

definition objects :: "json list \<Rightarrow> dict list" where
  "objects xs = concat (map (\<lambda>x. case x of JObj d \<Rightarrow> [d] | _ \<Rightarrow> []) xs)"

definition check_problems :: "json \<Rightarrow> dict list" where
  "check_problems check =
     (case check of
        JObj d \<Rightarrow> (case dget d ''problems'' of JList xs \<Rightarrow> objects xs | _ \<Rightarrow> [])
      | _ \<Rightarrow> [])"

definition validation_problems :: "dict \<Rightarrow> dict list res" where
  "validation_problems validation =
     (case dget validation ''problems'' of
        JList xs \<Rightarrow> Inr (objects xs)
      | _ \<Rightarrow> rbind (py_iter (py_or (dget validation ''checks'') (JList [])))
               (\<lambda>checks. Inr (concat (map check_problems checks))))"

definition severity_count :: "dict list \<Rightarrow> string \<Rightarrow> string \<times> json" where
  "severity_count normalized severity =
     (severity, JInt (int (length (filter (\<lambda>item. dget item ''severity'' = JStr severity) normalized))))"

definition checkpoint_payload :: "host \<Rightarrow> dict \<Rightarrow> string \<Rightarrow> dict list \<Rightarrow> dict" where
  "checkpoint_payload h validation chapter_text normalized =
     [(''ok'', JBool (truthy (dget validation ''ok''))),
      (''problem_count'', JInt (int (length normalized))),
      (''blocking_problem_count'', JInt (int (length (filter (\<lambda>item. truthy (dget item ''blocking'')) normalized)))),
      (''severity_counts'', JObj (map (severity_count normalized) [''critical'', ''high'', ''medium'', ''low''])),
      (''problem_codes'', JList (map (\<lambda>item. dget item ''code'') normalized)),
      (''problem_fingerprints'', JList (map (\<lambda>item. dget item ''fingerprint'') normalized)),
      (''problems'', JList (map JObj normalized)),
      (''chapter_sha256'', JStr (sha256_hex h chapter_text))]"

definition build_validation_checkpoint :: "host \<Rightarrow> dict \<Rightarrow> string \<Rightarrow> dict res" where
  "build_validation_checkpoint h validation chapter_text =
     rbind (validation_problems validation) (\<lambda>problems.
     let payload = checkpoint_payload h validation chapter_text (map (problem_summary h) problems) in
     rbind (render h (JObj payload)) (\<lambda>text.
     Inr (dset ''checkpoint_id'' (JStr (sha256_hex h text)) payload)))"

section \<open>Comparing two checkpoints\<close>

text \<open>\<open>int(checkpoint.get(key) or 0)\<close> and \<open>set(checkpoint.get(key) or [])\<close>.\<close>

definition int_or_zero :: "dict \<Rightarrow> string \<Rightarrow> int res" where
  "int_or_zero d k = py_int (py_or (dget d k) (JInt 0))"

fun py_set :: "json list \<Rightarrow> json list res" where
  "py_set [] = Inr []"
| "py_set (x # xs) =
     (if \<not> hashable x then Inl TypeError
      else rbind (py_set (filter (\<lambda>y. \<not> py_eq x y) xs)) (\<lambda>ys. Inr (x # ys)))"

definition value_set :: "dict \<Rightarrow> string \<Rightarrow> json list res" where
  "value_set d k = rbind (py_iter (py_or (dget d k) (JList []))) py_set"

text \<open>\<open>a & b\<close> takes the elements from the smaller set, from \<open>b\<close> where the sizes are equal.\<close>

definition py_intersection :: "json list \<Rightarrow> json list \<Rightarrow> json list" where
  "py_intersection a b =
     (if length b \<le> length a then filter (\<lambda>x. list_ex (py_eq x) a) b else filter (\<lambda>x. list_ex (py_eq x) b) a)"

text \<open>\<open>sorted\<close> of a set: text by code points, numbers by value, nothing else beyond one element.\<close>

fun insert_number :: "json \<Rightarrow> json list \<Rightarrow> json list" where
  "insert_number x [] = [x]"
| "insert_number x (y # ys) =
     (if num_less x y = Inr True then x # y # ys else y # insert_number x ys)"

definition text_of :: "json \<Rightarrow> string" where
  "text_of v = (case v of JStr s \<Rightarrow> s | _ \<Rightarrow> [])"

definition sorted_values :: "json list \<Rightarrow> json list res" where
  "sorted_values xs =
     (if list_all is_str xs then Inr (map JStr (sort (map text_of xs)))
      else if list_all (\<lambda>x. as_float x \<noteq> None) xs then Inr (foldr insert_number xs [])
      else if length xs \<le> 1 then Inr xs
      else Inl TypeError)"

definition problem_items :: "dict \<Rightarrow> dict list res" where
  "problem_items checkpoint =
     rbind (py_iter (py_or (dget checkpoint ''problems'') (JList [])))
       (rmap (\<lambda>item. case item of JObj d \<Rightarrow> Inr d | _ \<Rightarrow> Inl AttributeError))"

text \<open>The problems of the second checkpoint whose fingerprint is not one of the first.\<close>

fun new_problems :: "json list \<Rightarrow> json list \<Rightarrow> dict list res" where
  "new_problems known [] = Inr []"
| "new_problems known (item # items) =
     (case item of
        JObj d \<Rightarrow>
          if \<not> hashable (dget d ''fingerprint'') then Inl TypeError
          else rbind (new_problems known items) (\<lambda>rest.
            Inr (if list_ex (py_eq (dget d ''fingerprint'')) known then rest else d # rest))
      | _ \<Rightarrow> Inl AttributeError)"

definition item_rank :: "host \<Rightarrow> dict \<Rightarrow> int" where
  "item_rank h item = rank_of (text_or h item ''severity'' ''medium'')"

definition max_rank :: "host \<Rightarrow> dict list \<Rightarrow> int" where
  "max_rank h items = fold max (map (item_rank h) items) 0"

text \<open>The status of a repair and its reason.\<close>

definition repair_status :: "bool \<Rightarrow> int \<Rightarrow> int \<Rightarrow> bool \<Rightarrow> bool \<Rightarrow> string \<times> string" where
  "repair_status passed before_count after_count new_critical new_more_severe =
     (if passed then (''passed'', ''validation_passed'')
      else if after_count > before_count then (''regressed'', ''problem_count_increased'')
      else if after_count = before_count then (''stalled'', ''problem_count_not_reduced'')
      else if new_critical then (''regressed'', ''new_critical_problem'')
      else if new_more_severe then (''regressed'', ''new_more_severe_problem'')
      else (''improved'', ''problem_count_reduced''))"

definition new_fingerprints :: "host \<Rightarrow> dict list \<Rightarrow> json list" where
  "new_fingerprints h items =
     map JStr (sort (map (\<lambda>item. text_or h item ''fingerprint'' [])
       (filter (\<lambda>item. truthy (dget item ''fingerprint'')) items)))"

text \<open>The part of the comparison that cannot fail: \<open>fresh\<close> are the new problems, \<open>olds\<close> those before.\<close>

definition has_new_critical :: "dict list \<Rightarrow> bool" where
  "has_new_critical fresh \<longleftrightarrow> list_ex (\<lambda>item. dget item ''severity'' = JStr ''critical'') fresh"

definition has_more_severe :: "host \<Rightarrow> dict list \<Rightarrow> dict list \<Rightarrow> bool" where
  "has_more_severe h fresh olds \<longleftrightarrow> list_ex (\<lambda>item. item_rank h item > max_rank h olds) fresh"

definition transition_dict ::
  "host \<Rightarrow> dict \<Rightarrow> dict \<Rightarrow> int \<Rightarrow> int \<Rightarrow> json list \<Rightarrow> dict list \<Rightarrow> dict list \<Rightarrow> dict" where
  "transition_dict h before after before_count after_count repeated fresh olds =
     (let new_critical = has_new_critical fresh;
          new_more_severe = has_more_severe h fresh olds;
          verdict = repair_status (truthy (dget after ''ok'')) before_count after_count new_critical new_more_severe
     in [(''status'', JStr (fst verdict)), (''reason'', JStr (snd verdict)),
          (''before_problem_count'', JInt before_count), (''after_problem_count'', JInt after_count),
          (''repeated_problem_fingerprints'', JList repeated),
          (''new_problem_fingerprints'', JList (new_fingerprints h fresh)),
          (''new_critical_problem'', JBool new_critical), (''new_more_severe_problem'', JBool new_more_severe),
          (''eligible_for_elastic_budget'', JBool (fst verdict = ''improved'')),
          (''authorization_id'', JStr (sha256_hex h
             (py_str h (dget_or before ''checkpoint_id'' (JStr [])) @ '':'' @
              py_str h (dget_or after ''checkpoint_id'' (JStr [])) @ '':'' @ fst verdict @ '':'' @ snd verdict)))])"

definition compare_validation_checkpoints :: "host \<Rightarrow> dict \<Rightarrow> dict \<Rightarrow> dict res" where
  "compare_validation_checkpoints h before after =
     rbind (int_or_zero before ''problem_count'') (\<lambda>before_count.
     rbind (int_or_zero after ''problem_count'') (\<lambda>after_count.
     rbind (value_set before ''problem_fingerprints'') (\<lambda>known.
     rbind (value_set after ''problem_fingerprints'') (\<lambda>found.
     rbind (sorted_values (py_intersection known found)) (\<lambda>repeated.
     rbind (py_iter (py_or (dget after ''problems'') (JList []))) (\<lambda>after_problems.
     rbind (new_problems known after_problems) (\<lambda>fresh.
     rbind (problem_items before) (\<lambda>olds.
     Inr (transition_dict h before after before_count after_count repeated fresh olds)))))))))"

definition validation_quality_score :: "dict \<Rightarrow> (int \<times> int \<times> int \<times> int \<times> int \<times> int) res" where
  "validation_quality_score checkpoint =
     (case py_or (dget checkpoint ''severity_counts'') (JObj []) of
        JObj severities \<Rightarrow>
          rbind (int_or_zero severities ''critical'') (\<lambda>critical.
          rbind (int_or_zero severities ''high'') (\<lambda>high.
          rbind (int_or_zero severities ''medium'') (\<lambda>medium.
          rbind (int_or_zero checkpoint ''blocking_problem_count'') (\<lambda>blocking.
          rbind (int_or_zero checkpoint ''problem_count'') (\<lambda>problems.
          Inr (if truthy (dget checkpoint ''ok'') then 0 else 1, critical, high, medium, blocking, problems))))))
      | _ \<Rightarrow> Inl AttributeError)"

text \<open>The message of \<open>RepairNotConvergingError\<close>, \<open>code\<close> being the class attribute.\<close>

definition join_texts :: "json list \<Rightarrow> string res" where
  "join_texts xs = (if list_all is_str xs then Inr (py_join '', '' (map text_of xs)) else Inl TypeError)"

definition repair_not_converging_message :: "host \<Rightarrow> dict list \<Rightarrow> dict \<Rightarrow> string res" where
  "repair_not_converging_message h history transition =
     rbind (rmap (\<lambda>item. rbind (ditem item ''problem_count'') (\<lambda>n. Inr (py_str h n))) history) (\<lambda>counts.
     rbind (py_iter (py_or (dget transition ''repeated_problem_fingerprints'') (JList []))) (\<lambda>fingerprints.
     rbind (join_texts fingerprints) (\<lambda>joined.
     rbind (ditem transition ''reason'') (\<lambda>reason.
     Inr (''chapter_repair_not_converging: repair validation did not converge; problem_counts='' @
          py_join '' -> '' counts @ ''; reason='' @ py_str h reason @ ''; repeated_problems='' @
          (if joined = [] then ''none'' else joined))))))"

section \<open>The repair of a chapter\<close>

text \<open>What \<open>AgentExecutor\<close> keeps of a repair in the state of its graph; the history is empty at first.\<close>

record repair_state =
  rs_validation :: json
  rs_chapter :: json
  repair_history :: "dict list"
  best_repair_score :: "int list option"
  best_repair_chapter :: "string option"
  best_repair_validation :: "dict option"

definition score_key :: "int \<times> int \<times> int \<times> int \<times> int \<times> int \<Rightarrow> int list" where
  "score_key s = (case s of (a, b, c, d, e, f) \<Rightarrow> [a, b, c, d, e, f])"

definition better_score :: "int list \<Rightarrow> int list option \<Rightarrow> bool" where
  "better_score score best = (case best of None \<Rightarrow> True | Some b \<Rightarrow> score < b)"

definition already_recorded :: "dict list \<Rightarrow> dict \<Rightarrow> bool" where
  "already_recorded hs checkpoint \<longleftrightarrow>
     hs \<noteq> [] \<and> py_eq (dget (last hs) ''checkpoint_id'') (dget checkpoint ''checkpoint_id'')"

definition record_repair_validation :: "host \<Rightarrow> repair_state \<Rightarrow> unit res \<times> repair_state" where
  "record_repair_validation h state =
     (case (rs_validation state, rs_chapter state) of
        (JObj validation, JStr chapter) \<Rightarrow>
          (case build_validation_checkpoint h validation chapter of
             Inl e \<Rightarrow> (Inl e, state)
           | Inr checkpoint \<Rightarrow>
               if already_recorded (repair_history state) checkpoint then (Inr (), state)
               else
                 let state = state\<lparr>repair_history := repair_history state @ [checkpoint]\<rparr> in
                 (case validation_quality_score checkpoint of
                    Inl e \<Rightarrow> (Inl e, state)
                  | Inr score \<Rightarrow>
                      if better_score (score_key score) (best_repair_score state)
                      then (Inr (), state\<lparr>best_repair_score := Some (score_key score),
                              best_repair_chapter := Some chapter, best_repair_validation := Some validation\<rparr>)
                      else (Inr (), state)))
      | _ \<Rightarrow> (Inr (), state))"

definition latest_repair_transition :: "host \<Rightarrow> repair_state \<Rightarrow> dict option res" where
  "latest_repair_transition h state =
     (let hs = repair_history state in
      if length hs < 2 then Inr None
      else rbind (compare_validation_checkpoints h (hs ! (length hs - 2)) (last hs)) (\<lambda>t. Inr (Some t)))"

definition repair_evidence :: "dict list \<Rightarrow> dict \<Rightarrow> dict res" where
  "repair_evidence hs transition =
     rbind (rmap (\<lambda>item. int_or_zero item ''problem_count'') hs) (\<lambda>counts.
     rbind (rbind (ditem transition ''before_problem_count'') py_int) (\<lambda>before.
     rbind (rbind (ditem transition ''after_problem_count'') py_int) (\<lambda>after.
     rbind (ditem transition ''new_critical_problem'') (\<lambda>critical.
     rbind (ditem transition ''new_more_severe_problem'') (\<lambda>severe.
     Inr [(''problem_counts'', JList (map JInt counts)), (''before_problem_count'', JInt before),
          (''after_problem_count'', JInt after), (''new_critical_problem'', JBool (truthy critical)),
          (''new_more_severe_problem'', JBool (truthy severe))])))))"

text \<open>The run may have no budget tracker.\<close>

definition authorize_elastic_repair_budget :: "host \<Rightarrow> repair_state \<Rightarrow> tracker option \<Rightarrow> unit res \<times> tracker option" where
  "authorize_elastic_repair_budget h state budget =
     (case latest_repair_transition h state of
        Inl e \<Rightarrow> (Inl e, budget)
      | Inr latest \<Rightarrow>
          (case (budget, latest) of
             (Some t, Some transition) \<Rightarrow>
               if \<not> truthy (dget transition ''eligible_for_elastic_budget'') then (Inr (), budget)
               else
                 (case rbind (ditem transition ''authorization_id'') (\<lambda>key.
                       rbind (repair_evidence (repair_history state) transition) (\<lambda>evidence. Inr (key, evidence))) of
                    Inl e \<Rightarrow> (Inl e, budget)
                  | Inr (key, evidence) \<Rightarrow>
                      let (out, t') = authorize_elastic_tokens (py_str h key) ''repair_validation_problem_count_reduced''
                            evidence [''scene_repair'', ''llm_validation''] t
                      in (out, Some t'))
           | _ \<Rightarrow> (Inr (), budget)))"

definition restore_best :: "repair_state \<Rightarrow> repair_state" where
  "restore_best state =
     (let state = (case best_repair_chapter state of
            Some chapter \<Rightarrow> if chapter = [] then state else state\<lparr>rs_chapter := JStr chapter\<rparr>
          | None \<Rightarrow> state)
      in case best_repair_validation state of
           Some validation \<Rightarrow> state\<lparr>rs_validation := JObj validation\<rparr>
         | None \<Rightarrow> state)"

definition raise_if_repair_not_converging :: "host \<Rightarrow> repair_state \<Rightarrow> unit res \<times> repair_state" where
  "raise_if_repair_not_converging h state =
     (case latest_repair_transition h state of
        Inl e \<Rightarrow> (Inl e, state)
      | Inr None \<Rightarrow> (Inr (), state)
      | Inr (Some transition) \<Rightarrow>
          if dget transition ''status'' \<in> {JStr ''improved'', JStr ''passed''} then (Inr (), state)
          else
            (case repair_not_converging_message h (repair_history state) transition of
               Inl e \<Rightarrow> (Inl e, restore_best state)
             | Inr message \<Rightarrow> (Inl (RepairNotConvergingError message), restore_best state)))"

text \<open>
  A round of the repair loop, seen from the history: the repair and its validation give a new chapter
  and report (\<open>_handle_validate\<close> records them), then the loop checks that the repair converges.
\<close>

definition repair_round :: "host \<Rightarrow> dict \<times> string \<Rightarrow> repair_state \<Rightarrow> unit res \<times> repair_state" where
  "repair_round h outcome state =
     (case record_repair_validation h
            (state\<lparr>rs_validation := JObj (fst outcome), rs_chapter := JStr (snd outcome)\<rparr>) of
        (Inl e, state') \<Rightarrow> (Inl e, state')
      | (Inr _, state') \<Rightarrow> raise_if_repair_not_converging h state')"

fun repair_rounds :: "host \<Rightarrow> (dict \<times> string) list \<Rightarrow> repair_state \<Rightarrow> unit res \<times> repair_state" where
  "repair_rounds h [] state = (Inr (), state)"
| "repair_rounds h (r # rs) state =
     (case repair_round h r state of
        (Inl e, state') \<Rightarrow> (Inl e, state')
      | (Inr _, state') \<Rightarrow> repair_rounds h rs state')"

definition no_repair :: repair_state where
  "no_repair = \<lparr>rs_validation = JNull, rs_chapter = JNull, repair_history = [], best_repair_score = None,
     best_repair_chapter = None, best_repair_validation = None\<rparr>"

section \<open>Facts on one comparison\<close>

lemma fold_max_le: "fold max xs (m :: int) \<le> n \<longleftrightarrow> m \<le> n \<and> (\<forall>x \<in> set xs. x \<le> n)"
  by (induction xs arbitrary: m) auto

lemma truthy_py_or_int [simp]: "py_or (JInt n) (JInt 0) = JInt n"
  by (simp add: py_or_def truthy_def)

lemma transition_fields:
  fixes before after olds fresh h m n repeated
  defines "t \<equiv> transition_dict h before after m n repeated fresh olds"
  shows "dget t ''status'' = JStr (fst (repair_status (truthy (dget after ''ok'')) m n (has_new_critical fresh) (has_more_severe h fresh olds)))"
    and "truthy (dget t ''eligible_for_elastic_budget'') \<longleftrightarrow> dget t ''status'' = JStr ''improved''"
  unfolding t_def by (simp_all add: transition_dict_def Let_def dget_def truthy_def)

lemma compare_Inr:
  assumes "compare_validation_checkpoints h before after = Inr t"
    and "int_or_zero before ''problem_count'' = Inr m" and "int_or_zero after ''problem_count'' = Inr n"
  obtains fresh olds known where "problem_items before = Inr olds"
    and "dget t ''status'' = JStr (fst (repair_status (truthy (dget after ''ok'')) m n (has_new_critical fresh) (has_more_severe h fresh olds)))"
    and "value_set before ''problem_fingerprints'' = Inr known"
    and "rbind (py_iter (py_or (dget after ''problems'') (JList []))) (new_problems known) = Inr fresh"
    and "truthy (dget t ''eligible_for_elastic_budget'') \<longleftrightarrow> dget t ''status'' = JStr ''improved''"
proof -
  from assms obtain known xs fresh olds repeated where "problem_items before = Inr olds"
    and "value_set before ''problem_fingerprints'' = Inr known"
    and "py_iter (py_or (dget after ''problems'') (JList [])) = Inr xs" and "new_problems known xs = Inr fresh"
    and "t = transition_dict h before after m n repeated fresh olds"
    by (auto simp: compare_validation_checkpoints_def rbind_eq_Inr)
  with that [of olds fresh known] show thesis by (simp add: transition_fields)
qed

lemma repair_status_passed: "fst (repair_status passed m n c s) = ''passed'' \<longleftrightarrow> passed"
  by (simp add: repair_status_def)

lemma repair_status_improved:
  "fst (repair_status passed m n c s) = ''improved'' \<longleftrightarrow> \<not> passed \<and> n < m \<and> \<not> c \<and> \<not> s"
  by (auto simp: repair_status_def)

definition converges :: "host \<Rightarrow> dict \<Rightarrow> dict \<Rightarrow> bool" where
  "converges h a b \<longleftrightarrow>
     (\<exists>t. compare_validation_checkpoints h a b = Inr t \<and> dget t ''status'' \<in> {JStr ''improved'', JStr ''passed''})"

definition counted :: "dict \<Rightarrow> int \<Rightarrow> bool" where
  "counted checkpoint n \<longleftrightarrow> dget checkpoint ''problem_count'' = JInt n"

lemma counted_int [simp]: "counted c n \<Longrightarrow> int_or_zero c ''problem_count'' = Inr n"
  by (simp add: counted_def int_or_zero_def)

lemma converges_decreases:
  assumes "converges h a b" and "counted a m" and "counted b n" and "\<not> truthy (dget b ''ok'')"
  shows "n < m"
proof -
  from assms(1) obtain t where t: "compare_validation_checkpoints h a b = Inr t"
    and s: "dget t ''status'' \<in> {JStr ''improved'', JStr ''passed''}" by (auto simp: converges_def)
  show ?thesis
    by (rule compare_Inr [OF t counted_int [OF assms(2)] counted_int [OF assms(3)]])
       (use s assms(4) in \<open>auto simp: repair_status_passed repair_status_improved\<close>)
qed

section \<open>Checkpoints that are built\<close>

definition built_checkpoint :: "host \<Rightarrow> string \<Rightarrow> dict \<Rightarrow> bool" where
  "built_checkpoint h chapter c \<longleftrightarrow> (\<exists>v. build_validation_checkpoint h v chapter = Inr c)"

lemma built_fields:
  assumes "build_validation_checkpoint h v chapter = Inr c"
  shows "\<exists>n. counted c (int n)" and "dget c ''chapter_sha256'' = JStr (sha256_hex h chapter)"
    and "\<exists>s. validation_quality_score c = Inr s"
  using assms
proof -
  from assms obtain norms x where c: "c = dset ''checkpoint_id'' (JStr x) (checkpoint_payload h v chapter norms)"
    by (auto simp: build_validation_checkpoint_def rbind_eq_Inr Let_def)
  show "\<exists>n. counted c (int n)" "dget c ''chapter_sha256'' = JStr (sha256_hex h chapter)"
    by (auto simp: c counted_def checkpoint_payload_def dget_def)
  have "dget c ''blocking_problem_count'' = JInt n \<Longrightarrow> int_or_zero c ''blocking_problem_count'' = Inr n" for n
    by (simp add: int_or_zero_def)
  moreover have "\<exists>n. dget c ''blocking_problem_count'' = JInt n" "\<exists>n. dget c ''problem_count'' = JInt n"
    by (simp_all add: c checkpoint_payload_def dget_def)
  moreover have "dget c ''severity_counts'' = JObj (map (severity_count norms) [''critical'', ''high'', ''medium'', ''low''])"
    by (simp add: c checkpoint_payload_def dget_def)
  then have sc: "py_or (dget c ''severity_counts'') (JObj []) = JObj (map (severity_count norms) [''critical'', ''high'', ''medium'', ''low''])"
    by (simp add: py_or_def truthy_def)
  moreover have "\<exists>n. int_or_zero (map (severity_count norms) [''critical'', ''high'', ''medium'', ''low'']) k = Inr n"
    if "k \<in> {''critical'', ''high'', ''medium''}" for k
    using that by (auto simp: int_or_zero_def dget_def severity_count_def)
  ultimately show "\<exists>s. validation_quality_score c = Inr s"
    by (auto simp: validation_quality_score_def int_or_zero_def rbind_eq_Inr)
qed

text \<open>What the rounds keep: neighbours in the history converge, the best score is the least one.\<close>

definition history_ok :: "host \<Rightarrow> repair_state \<Rightarrow> bool" where
  "history_ok h s \<longleftrightarrow>
     (\<forall>c \<in> set (repair_history s). (\<exists>n. counted c (int n)) \<and> (\<exists>k. validation_quality_score c = Inr k))"

definition best_ok :: "host \<Rightarrow> repair_state \<Rightarrow> bool" where
  "best_ok h s \<longleftrightarrow>
     (repair_history s = [] \<and> best_repair_score s = None) \<or>
     (\<exists>c \<in> set (repair_history s). \<exists>k chapter. validation_quality_score c = Inr k \<and>
        best_repair_score s = Some (score_key k) \<and> best_repair_chapter s = Some chapter \<and>
        dget c ''chapter_sha256'' = JStr (sha256_hex h chapter) \<and>
        (\<forall>d \<in> set (repair_history s). \<exists>l. validation_quality_score d = Inr l \<and> score_key k \<le> score_key l))"

definition pairs_ok :: "host \<Rightarrow> dict list \<Rightarrow> bool" where
  "pairs_ok h hs \<longleftrightarrow> (\<forall>i. Suc i < length hs \<longrightarrow> converges h (hs ! i) (hs ! Suc i))"

lemma pairs_ok_snoc:
  "pairs_ok h (hs @ [c]) \<longleftrightarrow> pairs_ok h hs \<and> (hs \<noteq> [] \<longrightarrow> converges h (last hs) c)"
proof (cases hs rule: rev_cases)
  case (snoc us u)
  show ?thesis
  proof
    assume p: "pairs_ok h (hs @ [c])"
    have "converges h (hs ! i) (hs ! Suc i)" if "Suc i < length hs" for i
      using p that unfolding pairs_ok_def by (auto simp: nth_append dest!: spec [of _ i])
    moreover have "converges h (last hs) c"
      using p [unfolded pairs_ok_def, rule_format, of "length us"] snoc by (simp add: nth_append)
    ultimately show "pairs_ok h hs \<and> (hs \<noteq> [] \<longrightarrow> converges h (last hs) c)" by (simp add: pairs_ok_def)
  next
    assume "pairs_ok h hs \<and> (hs \<noteq> [] \<longrightarrow> converges h (last hs) c)"
    then show "pairs_ok h (hs @ [c])"
      using snoc by (auto simp: pairs_ok_def nth_append less_Suc_eq)
  qed
qed (simp add: pairs_ok_def)

lemma pairs_ok_bound:
  assumes "pairs_ok h (c # hs)" and "\<And>d. d \<in> set hs \<Longrightarrow> \<not> truthy (dget d ''ok'') \<and> (\<exists>n. counted d (int n))"
    and "counted c (int n)"
  shows "length hs \<le> n"
  using assms
proof (induction hs arbitrary: c n)
  case (Cons d hs)
  from Cons.prems(2) [of d] obtain m where m: "counted d (int m)" and nok: "\<not> truthy (dget d ''ok'')" by auto
  have "converges h c d" using Cons.prems(1) [unfolded pairs_ok_def, rule_format, of 0] by simp
  from converges_decreases [OF this Cons.prems(3) m nok] have "m < n" by simp
  moreover have "pairs_ok h (d # hs)"
    unfolding pairs_ok_def using Cons.prems(1) [unfolded pairs_ok_def] by (metis length_Cons nth_Cons_Suc Suc_less_eq)
  then have "length hs \<le> m" using Cons.IH [OF _ _ m] Cons.prems(2) by simp
  ultimately show ?case by simp
qed simp

text \<open>Recording appends at most one checkpoint.\<close>

lemma record_cases:
  assumes "record_repair_validation h s = (out, s')" and "history_ok h s" and "best_ok h s"
  shows "history_ok h s' \<and> best_ok h s' \<and> (repair_history s' = repair_history s \<or> (\<exists>c. repair_history s' = repair_history s @ [c]))"
proof (cases "\<exists>v chapter c. rs_validation s = JObj v \<and> rs_chapter s = JStr chapter \<and>
    build_validation_checkpoint h v chapter = Inr c \<and> \<not> already_recorded (repair_history s) c")
  case False
  then have "s' = s"
    using assms(1) by (auto simp: record_repair_validation_def split: json.splits sum.splits if_splits)
  with assms(2,3) show ?thesis by simp
next
  case True
  then obtain v ch c where b: "build_validation_checkpoint h v ch = Inr c"
    and nr: "\<not> already_recorded (repair_history s) c" and j: "rs_validation s = JObj v" "rs_chapter s = JStr ch"
    by blast
  from built_fields [OF b] obtain n k where n: "counted c (int n)" and sha: "dget c ''chapter_sha256'' = JStr (sha256_hex h ch)"
    and k: "validation_quality_score c = Inr k" by blast
  let ?s = "s\<lparr>repair_history := repair_history s @ [c]\<rparr>"
  have s': "s' = (if better_score (score_key k) (best_repair_score s)
      then ?s\<lparr>best_repair_score := Some (score_key k), best_repair_chapter := Some ch, best_repair_validation := Some v\<rparr> else ?s)"
    using assms(1) b nr j k by (simp add: record_repair_validation_def Let_def split: if_splits)
  have "history_ok h s'" using assms(2) n k by (auto simp: s' history_ok_def simp del: split_paired_Ex)
  moreover have "best_ok h s'"
  proof (cases "better_score (score_key k) (best_repair_score s)")
    case True
    have "\<exists>l. validation_quality_score d = Inr l \<and> score_key k \<le> score_key l" if "d \<in> set (repair_history s)" for d
      using assms(3) that True unfolding best_ok_def better_score_def
      by (auto split: option.splits intro: order.trans less_imp_le)
    then show ?thesis using True k sha by (auto simp: s' best_ok_def simp del: split_paired_Ex split_paired_All)
  next
    case False
    then obtain b where b: "best_repair_score s = Some b" "b \<le> score_key k"
      by (auto simp: better_score_def not_less split: option.splits)
    with assms(3) obtain c0 k0 ch0 where best: "c0 \<in> set (repair_history s)" "validation_quality_score c0 = Inr k0" "b = score_key k0"
      "best_repair_chapter s = Some ch0" "dget c0 ''chapter_sha256'' = JStr (sha256_hex h ch0)"
      and least: "\<forall>d \<in> set (repair_history s). \<exists>l. validation_quality_score d = Inr l \<and> score_key k0 \<le> score_key l"
      unfolding best_ok_def by force
    have "repair_history s' = repair_history s @ [c]" "best_repair_score s' = Some (score_key k0)" "best_repair_chapter s' = Some ch0"
      using False b best by (simp_all add: s')
    moreover have "\<forall>d \<in> set (repair_history s @ [c]). \<exists>l. validation_quality_score d = Inr l \<and> score_key k0 \<le> score_key l"
      using least k b best(3) by (auto simp del: split_paired_Ex)
    ultimately show ?thesis using best unfolding best_ok_def by (intro disjI2 bexI [of _ c0] exI [of _ k0] exI [of _ ch0]) simp_all
  qed
  ultimately show ?thesis by (simp add: s')
qed


lemma latest_snoc:
  assumes "hs \<noteq> []"
  shows "latest_repair_transition h (s\<lparr>repair_history := hs @ [c]\<rparr>) =
     rbind (compare_validation_checkpoints h (last hs) c) (\<lambda>t. Inr (Some t))"
proof -
  have "(hs @ [c]) ! (length hs - 1) = last hs" using assms by (simp add: nth_append last_conv_nth)
  with assms show ?thesis by (cases hs rule: rev_cases) (auto simp: latest_repair_transition_def Let_def)
qed

lemma raise_if_Inr:
  assumes "raise_if_repair_not_converging h s = (Inr (), s')"
  shows "s' = s" and "repair_history s = hs @ [c] \<Longrightarrow> hs \<noteq> [] \<Longrightarrow> converges h (last hs) c"
proof -
  from assms show "s' = s"
    by (auto simp: raise_if_repair_not_converging_def split: sum.splits option.splits if_splits)
  assume "repair_history s = hs @ [c]" and "hs \<noteq> []"
  moreover from this have "s = s\<lparr>repair_history := hs @ [c]\<rparr>" by simp
  ultimately have "latest_repair_transition h s = rbind (compare_validation_checkpoints h (last hs) c) (\<lambda>t. Inr (Some t))"
    using latest_snoc by metis
  with assms show "converges h (last hs) c"
    by (auto simp: raise_if_repair_not_converging_def converges_def rbind_eq_Inr split: sum.splits option.splits if_splits)
qed

lemma raise_if_history: "repair_history (snd (raise_if_repair_not_converging h s)) = repair_history s"
  and raise_if_best: "best_ok h (snd (raise_if_repair_not_converging h s)) = best_ok h s"
  and raise_if_counts: "history_ok h (snd (raise_if_repair_not_converging h s)) = history_ok h s"
  by (auto simp: raise_if_repair_not_converging_def restore_best_def Let_def best_ok_def history_ok_def
      split: sum.splits option.splits)

definition rounds_ok :: "host \<Rightarrow> repair_state \<Rightarrow> bool" where
  "rounds_ok h s \<longleftrightarrow> history_ok h s \<and> best_ok h s \<and> pairs_ok h (repair_history s)"

lemma repair_round_keeps:
  assumes "repair_round h r s = (out, s')" and "rounds_ok h s"
  shows "history_ok h s' \<and> best_ok h s'" and "out = Inr () \<Longrightarrow> rounds_ok h s'"
proof -
  let ?s = "s\<lparr>rs_validation := JObj (fst r), rs_chapter := JStr (snd r)\<rparr>"
  obtain out1 s1 where rec: "record_repair_validation h ?s = (out1, s1)" by force
  have "history_ok h ?s" "best_ok h ?s" using assms(2) by (simp_all add: rounds_ok_def history_ok_def best_ok_def)
  note rc = record_cases [OF rec this]
  show "history_ok h s' \<and> best_ok h s'"
  proof (cases out1)
    case (Inl e)
    with assms(1) rec rc show ?thesis by (simp add: repair_round_def)
  next
    case (Inr u)
    with assms(1) rec have "s' = snd (raise_if_repair_not_converging h s1)" by (simp add: repair_round_def)
    with rc show ?thesis by (simp add: raise_if_best raise_if_counts)
  qed
  assume "out = Inr ()"
  with assms(1) rec have ra: "raise_if_repair_not_converging h s1 = (Inr (), s')"
    by (cases out1) (auto simp: repair_round_def)
  from raise_if_Inr(1) [OF ra] have s': "s' = s1" .
  have "pairs_ok h (repair_history s1)"
  proof -
    from rc consider "repair_history s1 = repair_history s" | c where "repair_history s1 = repair_history s @ [c]" by auto
    then show ?thesis
    proof cases
      case (2 c)
      with raise_if_Inr(2) [OF ra 2] assms(2) show ?thesis by (simp add: pairs_ok_snoc rounds_ok_def)
    qed (use assms(2) in \<open>simp add: rounds_ok_def\<close>)
  qed
  with rc show "rounds_ok h s'" by (simp add: s' rounds_ok_def)
qed

lemma repair_rounds_keep:
  "repair_rounds h rs s = (out, s') \<Longrightarrow> rounds_ok h s \<Longrightarrow> history_ok h s' \<and> best_ok h s' \<and> (out = Inr () \<longrightarrow> rounds_ok h s')"
proof (induction rs arbitrary: s)
  case (Cons r rs)
  obtain o1 s1 where r: "repair_round h r s = (o1, s1)" by force
  note k = repair_round_keeps [OF r Cons.prems(2)]
  show ?case
  proof (cases o1)
    case (Inl e)
    with r Cons.prems(1) k(1) show ?thesis by auto
  next
    case (Inr u)
    with r Cons.prems(1) Cons.IH [OF _ k(2)] show ?thesis by simp
  qed
qed (simp add: rounds_ok_def)

lemma no_repair_ok: "rounds_ok h no_repair"
  by (simp add: no_repair_def rounds_ok_def history_ok_def best_ok_def pairs_ok_def)

section \<open>Properties\<close>

text \<open>
  C28: the repair loop cannot go on for ever by rewording its findings. In rounds that the convergence
  check lets through and that never pass validation, the history never has more checkpoints than one
  plus the number of problems of the first: every new checkpoint has fewer problems than the last.
\<close>

theorem repair_history_is_bounded:
  assumes "repair_rounds h outcomes no_repair = (Inr (), s)" and "repair_history s = c # rest"
    and "\<forall>d \<in> set rest. \<not> truthy (dget d ''ok'')"
  shows "\<exists>n. dget c ''problem_count'' = JInt (int n) \<and> length (repair_history s) \<le> n + 1"
proof -
  have ok: "rounds_ok h s" using repair_rounds_keep [OF assms(1) no_repair_ok] by simp
  then obtain n where n: "counted c (int n)" using assms(2) by (auto simp: rounds_ok_def history_ok_def)
  have "length rest \<le> n"
    by (rule pairs_ok_bound [of h c, OF _ _ n]) (use ok assms(2,3) in \<open>auto simp: rounds_ok_def history_ok_def\<close>)
  with n assms(2) show ?thesis by (auto simp: counted_def)
qed

text \<open>
  Whatever happens in the rounds, also when they end in an error, the chapter kept as the best one
  is that of a recorded checkpoint whose quality score is the least of the history.
\<close>

lemma best_repair_is_least:
  assumes "repair_rounds h outcomes no_repair = (out, s)" and "repair_history s \<noteq> []"
  shows "\<exists>c \<in> set (repair_history s). \<exists>k chapter. validation_quality_score c = Inr k \<and>
     best_repair_score s = Some (score_key k) \<and> best_repair_chapter s = Some chapter \<and>
     dget c ''chapter_sha256'' = JStr (sha256_hex h chapter) \<and>
     (\<forall>d \<in> set (repair_history s). \<exists>l. validation_quality_score d = Inr l \<and> score_key k \<le> score_key l)"
  using repair_rounds_keep [OF assms(1) no_repair_ok] assms(2) by (simp add: best_ok_def)

text \<open>
  More budget only for real progress. If asking for elastic budget changes the tracker, the last
  two checkpoints exist, the later one did not pass, it has fewer problems than the one before, and
  none of its new problems is critical or ranks above every problem there was.
\<close>

lemma elastic_budget_needs_progress:
  assumes "authorize_elastic_repair_budget h s (Some t) = (out, Some t')" and "t' \<noteq> t"
  shows "\<exists>hs a b m n olds known fresh. repair_history s = hs @ [a, b] \<and> \<not> truthy (dget b ''ok'') \<and>
     int_or_zero a ''problem_count'' = Inr m \<and> int_or_zero b ''problem_count'' = Inr n \<and> n < m \<and>
     problem_items a = Inr olds \<and> value_set a ''problem_fingerprints'' = Inr known \<and>
     rbind (py_iter (py_or (dget b ''problems'') (JList []))) (new_problems known) = Inr fresh \<and>
     (\<forall>p \<in> set fresh. dget p ''severity'' \<noteq> JStr ''critical'' \<and> item_rank h p \<le> max_rank h olds)"
proof -
  from assms obtain tr where l: "latest_repair_transition h s = Inr (Some tr)"
    and e: "truthy (dget tr ''eligible_for_elastic_budget'')"
    by (auto simp: authorize_elastic_repair_budget_def split: sum.splits option.splits if_splits)
  then obtain hs a b where hs: "repair_history s = hs @ [a, b]"
    by (cases "repair_history s" rule: rev_cases)
       (auto simp: latest_repair_transition_def Let_def split: if_splits, metis append_Cons append_Nil append_assoc length_0_conv not_less_eq_eq rev_exhaust numeral_2_eq_2 le_0_eq Suc_leI not_less0 less_Suc0)
  with l have c: "compare_validation_checkpoints h a b = Inr tr"
    by (auto simp: latest_repair_transition_def Let_def rbind_eq_Inr nth_append)
  then obtain m n where m: "int_or_zero a ''problem_count'' = Inr m" and n: "int_or_zero b ''problem_count'' = Inr n"
    by (auto simp: compare_validation_checkpoints_def rbind_eq_Inr)
  show ?thesis
  proof (rule compare_Inr [OF c m n])
    fix fresh olds known
    assume p: "problem_items a = Inr olds" "value_set a ''problem_fingerprints'' = Inr known"
      "rbind (py_iter (py_or (dget b ''problems'') (JList []))) (new_problems known) = Inr fresh"
      and s: "dget tr ''status'' = JStr (fst (repair_status (truthy (dget b ''ok'')) m n (has_new_critical fresh) (has_more_severe h fresh olds)))"
      and el: "truthy (dget tr ''eligible_for_elastic_budget'') \<longleftrightarrow> dget tr ''status'' = JStr ''improved''"
    from s el e have "\<not> truthy (dget b ''ok'') \<and> n < m \<and> \<not> has_new_critical fresh \<and> \<not> has_more_severe h fresh olds"
      by (simp add: repair_status_improved)
    then show ?thesis using hs m n p
      by (fastforce simp: has_new_critical_def has_more_severe_def list_ex_iff not_less)
  qed
qed

text \<open>
  C38: a repair that comes back with the chapter and the report of the round before is not recorded, so the
  check compares the two checkpoints it compared before and lets the round through again.
\<close>

theorem unchanged_repair_is_let_through:
  assumes "repair_round h r s = (Inr (), s')"
  shows "repair_round h r s' = (Inr (), s')"
proof -
  let ?s = "s\<lparr>rs_validation := JObj (fst r), rs_chapter := JStr (snd r)\<rparr>"
  obtain u s1 where rec: "record_repair_validation h ?s = (Inr u, s1)" and ra: "raise_if_repair_not_converging h s1 = (Inr (), s')"
    using assms by (auto simp: repair_round_def split: prod.splits sum.splits)
  from raise_if_Inr(1) [OF ra] have s': "s' = s1" by simp
  from rec obtain c where c: "build_validation_checkpoint h (fst r) (snd r) = Inr c"
    by (auto simp: record_repair_validation_def split: sum.splits)
  then have id: "\<exists>x. dget c ''checkpoint_id'' = JStr x"
    by (auto simp: build_validation_checkpoint_def rbind_eq_Inr Let_def)
  have "already_recorded (repair_history s1) c \<and> rs_validation s1 = JObj (fst r) \<and> rs_chapter s1 = JStr (snd r)"
    using rec c id by (auto simp: record_repair_validation_def Let_def already_recorded_def split: sum.splits if_splits)
  then have "record_repair_validation h (s1\<lparr>rs_validation := JObj (fst r), rs_chapter := JStr (snd r)\<rparr>) = (Inr (), s1)"
    using c by (simp add: record_repair_validation_def)
  with ra show ?thesis by (simp add: repair_round_def s')
qed

definition tail_host :: host where
  "tail_host = example_host\<lparr>sha256_hex := \<lambda>s. rev (take 64 (rev s))\<rparr>"

definition example_outcomes :: "(dict \<times> string) list" where
  "example_outcomes =
     [([(''ok'', JBool False), (''problems'', JList [JObj [(''code'', JStr ''a''), (''severity'', JStr ''high'')], JObj [(''code'', JStr ''b'')]])], ''first''),
      ([(''ok'', JBool False), (''problems'', JList [JObj [(''code'', JStr ''b'')]])], ''second'')]"

definition example_repair :: repair_state where
  "example_repair = snd (repair_rounds tail_host example_outcomes no_repair)"

lemma example_repair_facts:
  "repair_rounds tail_host example_outcomes no_repair = (Inr (), example_repair)"
  "\<exists>c d. repair_history example_repair = [c, d] \<and> \<not> truthy (dget d ''ok'')"
proof -
  have e: "case repair_rounds tail_host example_outcomes no_repair of (out, s) \<Rightarrow>
      out = Inr () \<and> (case repair_history s of [c, d] \<Rightarrow> \<not> truthy (dget d ''ok'') | _ \<Rightarrow> False)"
    by code_simp
  then show "repair_rounds tail_host example_outcomes no_repair = (Inr (), example_repair)"
    unfolding example_repair_def by (simp add: split_def prod_eq_iff)
  from e show "\<exists>c d. repair_history example_repair = [c, d] \<and> \<not> truthy (dget d ''ok'')"
    unfolding example_repair_def by (auto simp: split_def split: list.splits)
qed

lemma repair_history_is_bounded_witness:
  "\<exists>c d n. repair_history example_repair = [c, d] \<and> dget c ''problem_count'' = JInt (int n) \<and> 2 \<le> n + 1"
proof -
  obtain c d where h: "repair_history example_repair = [c, d]" and d: "\<not> truthy (dget d ''ok'')"
    using example_repair_facts(2) by blast
  have "\<forall>e \<in> set [d]. \<not> truthy (dget e ''ok'')" using d by simp
  from repair_history_is_bounded [OF example_repair_facts(1) h this] h show ?thesis by auto
qed

lemma best_repair_is_least_witness:
  "\<exists>c \<in> set (repair_history example_repair). \<exists>k. validation_quality_score c = Inr k \<and> best_repair_score example_repair = Some (score_key k)"
proof -
  have "repair_history example_repair \<noteq> []" using example_repair_facts(2) by auto
  from best_repair_is_least [OF example_repair_facts(1) this] show ?thesis by blast
qed

lemma elastic_budget_needs_progress_witness:
  "\<exists>t' hs a b. authorize_elastic_repair_budget tail_host example_repair (Some (new_tracker example_limits 0)) = (Inr (), Some t') \<and>
     repair_history example_repair = hs @ [a, b] \<and> \<not> truthy (dget b ''ok'')"
proof -
  have "case authorize_elastic_repair_budget tail_host example_repair (Some (new_tracker example_limits 0)) of (out, b) \<Rightarrow>
      out = Inr () \<and> (case b of None \<Rightarrow> False | Some t \<Rightarrow> active_elastic_authorization_id t \<noteq> None)"
    by code_simp
  then obtain t' where a: "authorize_elastic_repair_budget tail_host example_repair (Some (new_tracker example_limits 0)) = (Inr (), Some t')"
    and "active_elastic_authorization_id t' \<noteq> None"
    by (auto split: prod.splits option.splits)
  then have "t' \<noteq> new_tracker example_limits 0" by (auto simp: new_tracker_def)
  from elastic_budget_needs_progress [OF a this] a show ?thesis by blast
qed

lemma unchanged_repair_is_let_through_witness:
  "let s1 = snd (repair_round tail_host (hd example_outcomes) no_repair);
       s2 = snd (repair_round tail_host (example_outcomes ! 1) s1)
   in repair_round tail_host (example_outcomes ! 1) s2 = (Inr (), s2)"
proof -
  let ?s1 = "snd (repair_round tail_host (hd example_outcomes) no_repair)"
  have "fst (repair_round tail_host (example_outcomes ! 1) ?s1) = Inr ()" by code_simp
  then have "repair_round tail_host (example_outcomes ! 1) ?s1 = (Inr (), snd (repair_round tail_host (example_outcomes ! 1) ?s1))"
    by (simp add: prod_eq_iff)
  from unchanged_repair_is_let_through [OF this] show ?thesis by (simp add: Let_def)
qed

end
