(* ===== verification/Memory_Documents.thy ===== *)
theory Memory_Documents
  imports Field_Checks
begin

text \<open>
  The documents of the memory system, \<open>core/memory_v2\<close>: reducer versions (\<open>versions.py\<close>), the empty
  canonical memory (\<open>models.py\<close>), patches (\<open>patch.py\<close>), and the validation of a canonical memory
  (\<open>typed.py\<close>, \<open>validator.py\<close>), which collects every error before it raises. The authoritative
  state (\<open>core/state/authoritative.py\<close>) is the argument \<open>authority\<close>: its validation, which raises
  with the codes of its findings, and the report on a change of it.
\<close>

record authority =
  validate_authoritative_state :: "dict \<Rightarrow> dict res"
  authoritative_delta :: "dict \<Rightarrow> dict \<Rightarrow> (string list + dict) res"

section \<open>Versions\<close>

definition legacy_reducer_version :: string where
  "legacy_reducer_version = ''memory-reducer-2.1''"

definition current_reducer_version :: string where
  "current_reducer_version = ''memory-reducer-2.2''"

definition supported_reducer_versions :: "string list" where
  "supported_reducer_versions = [legacy_reducer_version, current_reducer_version]"

definition require_supported_reducer_version :: "host \<Rightarrow> json \<Rightarrow> string res" where
  "require_supported_reducer_version h value =
     (case value of
        JStr s \<Rightarrow> if s \<in> set supported_reducer_versions then Inr s
                  else Inl (UnsupportedMemoryVersionError (''unsupported memory reducer_version: '' @ s))
      | _ \<Rightarrow> Inl (UnsupportedMemoryVersionError (''unsupported memory reducer_version: '' @ py_str h value)))"

section \<open>Empty memories\<close>

definition empty_authoritative_state :: dict where
  "empty_authoritative_state =
     [(''schema_version'', JStr ''1.0''),
      (''source_precedence'', JList [JStr ''story_project_standard'', JStr ''chapter_event'', JStr ''model_inference'']),
      (''characters'', JObj []), (''relationships'', JObj []), (''roster'', JObj []),
      (''numeric_counters'', JObj []), (''inventory'', JObj []), (''locations'', JObj []), (''events'', JObj [])]"

definition memory_created_by :: json where
  "memory_created_by = JStr ''NovelAgent Memory System V2''"

definition create_empty_typed_canonical_memory :: "json \<Rightarrow> json \<Rightarrow> json \<Rightarrow> json \<Rightarrow> dict res" where
  "create_empty_typed_canonical_memory book_id title language authority_epoch =
     (case strict_int authority_epoch of
        None \<Rightarrow> Inl (ValueError ''authority_epoch must be a positive integer'')
      | Some epoch \<Rightarrow>
          if epoch < 1 then Inl (ValueError ''authority_epoch must be a positive integer'')
          else Inr
            [(''schema_version'', JStr ''2.2''), (''revision'', JInt 1), (''head_event_hash'', JNull),
             (''authority_epoch'', JInt epoch), (''book_id'', book_id), (''title'', title), (''language'', language),
             (''world'', JObj []), (''current_state'', JObj []), (''characters'', JObj []), (''locations'', JObj []),
             (''relationships'', JObj []), (''injuries'', JObj []), (''inventories'', JObj []), (''resources'', JObj []),
             (''glossary'', JObj []), (''corruption'', JObj []),
             (''story_time'', JObj [(''label'', JStr ''unknown''), (''elapsed_minutes'', JInt 0),
                (''chapter_index'', JInt 0), (''scene_index'', JInt 0)]),
             (''foreshadowing'', JObj []), (''authoritative_state'', JObj empty_authoritative_state),
             (''timeline'', JList []), (''open_threads'', JList []), (''chapter_states'', JObj []),
             (''constraints'', JList []), (''style_rules'', JList []), (''source_index'', JObj []),
             (''source_resolution'', JObj []),
             (''metadata'', JObj [(''source'', JStr ''genesis''), (''created_by'', memory_created_by)])])"

definition create_empty_canonical_memory :: "json \<Rightarrow> json \<Rightarrow> json \<Rightarrow> string \<Rightarrow> json \<Rightarrow> dict res" where
  "create_empty_canonical_memory book_id title language schema_version authority_epoch =
     (if schema_version = ''2.2'' then create_empty_typed_canonical_memory book_id title language authority_epoch
      else if schema_version \<noteq> ''2.0''
      then Inl (ValueError (''unsupported canonical memory schema_version: '' @ schema_version))
      else Inr
        [(''schema_version'', JStr ''2.0''), (''revision'', JInt 1), (''book_id'', book_id), (''title'', title),
         (''language'', language), (''world'', JObj []), (''current_state'', JObj []), (''characters'', JObj []),
         (''locations'', JObj []), (''timeline'', JList []), (''open_threads'', JList []),
         (''chapter_states'', JObj []), (''constraints'', JList []), (''style_rules'', JList []),
         (''source_index'', JObj []), (''source_resolution'', JObj []),
         (''metadata'', JObj [(''source'', JStr ''empty''), (''created_by'', memory_created_by)])])"

section \<open>Patches\<close>

definition validate_memory_patch :: "host \<Rightarrow> json \<Rightarrow> dict res" where
  "validate_memory_patch h patch =
     (case patch of
        JObj d \<Rightarrow>
          (case validate_schema h patch ''memory_patch.schema.json'' of
             Inl (SchemaValidationError msg) \<Rightarrow> Inl (MemoryPatchValidationError msg)
           | Inl e \<Rightarrow> Inl e
           | Inr _ \<Rightarrow> Inr d)
      | _ \<Rightarrow> Inl (MemoryPatchValidationError ''memory patch must be a JSON object''))"

definition create_memory_patch ::
  "host \<Rightarrow> json \<Rightarrow> json \<Rightarrow> json option \<Rightarrow> json list option \<Rightarrow> dict option \<Rightarrow> dict res" where
  "create_memory_patch h patch_id source_kind source_path operations metadata =
     validate_memory_patch h (JObj
       [(''schema_version'', JStr ''2.1''), (''patch_id'', patch_id),
        (''source'', JObj ((''kind'', source_kind) # (case source_path of None \<Rightarrow> [] | Some p \<Rightarrow> [(''path'', p)]))),
        (''operations'', JList (case operations of None \<Rightarrow> [] | Some ops \<Rightarrow> ops)),
        (''metadata'', JObj (dupdate [(''created_by'', memory_created_by)] (case metadata of None \<Rightarrow> [] | Some m \<Rightarrow> m)))])"

section \<open>Field checks that collect errors\<close>

text \<open>Checks in sequence: an exception stops them, their errors are appended.\<close>

fun gather :: "string list res list \<Rightarrow> string list res" where
  "gather [] = Inr []"
| "gather (c # cs) = rbind c (\<lambda>es. rbind (gather cs) (\<lambda>fs. Inr (es @ fs)))"

definition complain :: "bool \<Rightarrow> string \<Rightarrow> string list res" where
  "complain wrong message = Inr (if wrong then [message] else [])"

definition character_statuses :: "string list" where
  "character_statuses = [''active'', ''dead'', ''missing'', ''unknown'']"

definition location_statuses :: "string list" where
  "location_statuses = [''active'', ''destroyed'', ''inaccessible'', ''unknown'']"

definition relationship_statuses :: "string list" where
  "relationship_statuses = [''active'', ''broken'', ''strained'', ''unknown'']"

definition injury_severities :: "string list" where
  "injury_severities = [''critical'', ''minor'', ''moderate'', ''severe'']"

definition injury_statuses :: "string list" where
  "injury_statuses = [''active'', ''healed'', ''healing'', ''permanent'']"

definition inventory_statuses :: "string list" where
  "inventory_statuses = [''consumed'', ''destroyed'', ''held'', ''lost'']"

definition resource_statuses :: "string list" where
  "resource_statuses = [''available'', ''depleted'', ''destroyed'', ''reserved'']"

definition glossary_statuses :: "string list" where
  "glossary_statuses = [''active'', ''deprecated'']"

definition corruption_statuses :: "string list" where
  "corruption_statuses = [''cleansed'', ''falling'', ''rising'', ''stable'']"

definition foreshadowing_statuses :: "string list" where
  "foreshadowing_statuses = [''abandoned'', ''developing'', ''resolved'', ''ripe'', ''seeded'']"

definition typed_collections :: "string list" where
  "typed_collections = [''characters'', ''locations'', ''relationships'', ''injuries'', ''inventories'',
     ''resources'', ''glossary'', ''corruption'', ''foreshadowing'']"

definition record_identity :: "string \<Rightarrow> dict \<Rightarrow> string \<Rightarrow> string list res" where
  "record_identity record_id r collection =
     complain (dget r ''id'' \<noteq> JStr record_id) (collection @ ''.'' @ record_id @ ''.id must equal its mapping key'')"

definition required_string :: "dict \<Rightarrow> string \<Rightarrow> string \<Rightarrow> string list res" where
  "required_string r field path = complain (\<not> nonblank (dget r field)) (path @ ''.'' @ field @ '' must be a non-empty string'')"

text \<open>\<open>value not in allowed\<close> hashes the value; \<open>sorted(allowed)\<close> is printed as a list.\<close>

definition status_error :: "host \<Rightarrow> dict \<Rightarrow> string \<Rightarrow> string list \<Rightarrow> string \<Rightarrow> string list res" where
  "status_error h r field allowed path =
     (let value = dget r field in
      if \<not> hashable value then Inl TypeError
      else complain (value \<notin> JStr ` set allowed)
        (path @ ''.'' @ field @ '' must be one of '' @ py_repr h (JList (map JStr (sort allowed)))))"

definition data_error :: "dict \<Rightarrow> string \<Rightarrow> string list res" where
  "data_error r path = complain (\<not> is_dict (dget r ''data'')) (path @ ''.data must be an object'')"

definition nonnegative_integer :: "dict \<Rightarrow> string \<Rightarrow> string \<Rightarrow> string list res" where
  "nonnegative_integer r field path =
     complain (case strict_int (dget r field) of None \<Rightarrow> True | Some i \<Rightarrow> i < 0)
       (path @ ''.'' @ field @ '' must be a non-negative integer'')"

text \<open>\<open>math.isfinite\<close> converts an \<open>int\<close> to a double first, which overflows from \<open>2^1024 - 2^970\<close> on.\<close>

definition finite_number :: "json \<Rightarrow> rat option res" where
  "finite_number v =
     (case v of
        JInt i \<Rightarrow> if \<bar>i\<bar> < 2 ^ 1024 - 2 ^ 970 then Inr (Some (of_int i)) else Inl OverflowError
      | JFloat (Finite r) \<Rightarrow> Inr (Some r)
      | _ \<Rightarrow> Inr None)"

definition nonnegative_number :: "dict \<Rightarrow> string \<Rightarrow> string \<Rightarrow> string list res" where
  "nonnegative_number r field path =
     rbind (finite_number (dget r field)) (\<lambda>q.
     complain (case q of None \<Rightarrow> True | Some x \<Rightarrow> x < 0) (path @ ''.'' @ field @ '' must be a non-negative number''))"

definition bounded_number :: "dict \<Rightarrow> string \<Rightarrow> int \<Rightarrow> int \<Rightarrow> string \<Rightarrow> string list res" where
  "bounded_number r field minimum maximum path =
     rbind (finite_number (dget r field)) (\<lambda>q.
     complain (case q of None \<Rightarrow> True | Some x \<Rightarrow> \<not> (of_int minimum \<le> x \<and> x \<le> of_int maximum))
       (path @ ''.'' @ field @ '' must be between '' @ show_int minimum @ '' and '' @ show_int maximum))"

definition hash_or_none :: "string \<Rightarrow> json \<Rightarrow> string list res" where
  "hash_or_none field value =
     complain (\<not> digest_or_null value) (field @ '' must be null or a lowercase SHA-256 digest'')"

text \<open>\<open>_mapping\<close> gives the empty mapping and an error for a field that is not an object.\<close>

definition mapping_of :: "dict \<Rightarrow> string \<Rightarrow> dict" where
  "mapping_of memory field = (case dget memory field of JObj d \<Rightarrow> d | _ \<Rightarrow> [])"

definition mapping_error :: "dict \<Rightarrow> string \<Rightarrow> string list res" where
  "mapping_error memory field = complain (\<not> is_dict (dget memory field)) (field @ '' must be an object'')"

text \<open>The loop over \<open>_records\<close>: keys and values are checked, objects go to the body of the loop.\<close>

definition each_record :: "string \<Rightarrow> dict \<Rightarrow> (string \<Rightarrow> dict \<Rightarrow> string list res) \<Rightarrow> string list res" where
  "each_record collection m body =
     gather (map (\<lambda>(record_id, r).
       gather [complain (record_id = []) (collection @ '' keys must be non-empty strings''),
         (case r of
            JObj d \<Rightarrow> body record_id d
          | _ \<Rightarrow> Inr [collection @ ''.'' @ record_id @ '' must be an object''])]) m)"

definition collection_errors ::
  "dict \<Rightarrow> string \<Rightarrow> (string \<Rightarrow> dict \<Rightarrow> string list res) \<Rightarrow> string list res" where
  "collection_errors memory collection body =
     gather [mapping_error memory collection, each_record collection (mapping_of memory collection) body]"

section \<open>The records of a typed memory\<close>

definition named_record :: "host \<Rightarrow> string \<Rightarrow> string list \<Rightarrow> string \<Rightarrow> dict \<Rightarrow> string list res" where
  "named_record h collection statuses record_id r =
     (let path = collection @ ''.'' @ record_id in
      gather [record_identity record_id r collection, required_string r ''name'' path,
              status_error h r ''status'' statuses path, data_error r path])"

text \<open>A reference that is a string must name a key of one of the allowed mappings.\<close>

definition unknown_reference :: "json \<Rightarrow> (string \<Rightarrow> bool) \<Rightarrow> bool" where
  "unknown_reference v known = (case v of JStr s \<Rightarrow> \<not> known s | _ \<Rightarrow> False)"

definition relationship_record :: "host \<Rightarrow> dict \<Rightarrow> string \<Rightarrow> dict \<Rightarrow> string list res" where
  "relationship_record h characters record_id r =
     (let path = ''relationships.'' @ record_id;
          source = dget r ''source_character_id''; target = dget r ''target_character_id'' in
      gather [record_identity record_id r ''relationships'',
        required_string r ''source_character_id'' path, required_string r ''target_character_id'' path,
        required_string r ''kind'' path, status_error h r ''status'' relationship_statuses path, data_error r path,
        complain (unknown_reference source (dhas characters)) (path @ ''.source_character_id references unknown character''),
        complain (unknown_reference target (dhas characters)) (path @ ''.target_character_id references unknown character''),
        complain (source = target \<and> is_str source) (path @ '' cannot relate a character to itself'')])"

definition injury_record :: "host \<Rightarrow> dict \<Rightarrow> string \<Rightarrow> dict \<Rightarrow> string list res" where
  "injury_record h characters record_id r =
     (let path = ''injuries.'' @ record_id in
      gather [record_identity record_id r ''injuries'', required_string r ''character_id'' path,
        required_string r ''description'' path, status_error h r ''severity'' injury_severities path,
        status_error h r ''status'' injury_statuses path, data_error r path,
        complain (unknown_reference (dget r ''character_id'') (dhas characters)) (path @ ''.character_id references unknown character'')])"

definition inventory_item :: "host \<Rightarrow> string \<Rightarrow> string \<times> json \<Rightarrow> string list res" where
  "inventory_item h record_id entry =
     (case entry of (item_id, item) \<Rightarrow>
        let path = ''inventories.'' @ record_id @ ''.items.'' @ item_id in
        gather [complain (item_id = []) (path @ '' id must be a non-empty string''),
          (case item of
             JObj d \<Rightarrow> gather [required_string d ''name'' path, nonnegative_number d ''quantity'' path,
                              status_error h d ''status'' inventory_statuses path]
           | _ \<Rightarrow> Inr [path @ '' must be an object''])])"

definition valid_owner :: "dict \<Rightarrow> dict \<Rightarrow> string \<Rightarrow> bool" where
  "valid_owner characters locations s \<longleftrightarrow> dhas characters s \<or> dhas locations s \<or> s = ''world''"

definition inventory_record :: "host \<Rightarrow> dict \<Rightarrow> dict \<Rightarrow> string \<Rightarrow> dict \<Rightarrow> string list res" where
  "inventory_record h characters locations record_id r =
     (let path = ''inventories.'' @ record_id in
      gather [record_identity record_id r ''inventories'', required_string r ''owner_id'' path, data_error r path,
        complain (unknown_reference (dget r ''owner_id'') (valid_owner characters locations)) (path @ ''.owner_id references unknown owner''),
        (case dget r ''items'' of
           JObj items \<Rightarrow> gather (map (inventory_item h record_id) items)
         | _ \<Rightarrow> Inr [path @ ''.items must be an object''])])"

definition resource_record :: "host \<Rightarrow> string \<Rightarrow> dict \<Rightarrow> string list res" where
  "resource_record h record_id r =
     (let path = ''resources.'' @ record_id in
      gather [record_identity record_id r ''resources'', required_string r ''name'' path,
        nonnegative_number r ''quantity'' path, required_string r ''unit'' path,
        status_error h r ''status'' resource_statuses path, data_error r path])"

definition glossary_record :: "host \<Rightarrow> string \<Rightarrow> dict \<Rightarrow> string list res" where
  "glossary_record h record_id r =
     (let path = ''glossary.'' @ record_id in
      gather [record_identity record_id r ''glossary'', required_string r ''term'' path,
        required_string r ''definition'' path, status_error h r ''status'' glossary_statuses path, data_error r path])"

definition corruption_record :: "host \<Rightarrow> dict \<Rightarrow> dict \<Rightarrow> string \<Rightarrow> dict \<Rightarrow> string list res" where
  "corruption_record h characters locations record_id r =
     (let path = ''corruption.'' @ record_id in
      gather [record_identity record_id r ''corruption'', required_string r ''subject_id'' path,
        bounded_number r ''level'' 0 100 path, status_error h r ''status'' corruption_statuses path, data_error r path,
        complain (unknown_reference (dget r ''subject_id'') (valid_owner characters locations)) (path @ ''.subject_id references unknown subject'')])"

text \<open>\<open>isinstance(v, int)\<close>, which a \<open>bool\<close> passes.\<close>

definition int_value :: "json \<Rightarrow> int option" where
  "int_value v = (case v of JInt i \<Rightarrow> Some i | JBool b \<Rightarrow> Some (if b then 1 else 0) | _ \<Rightarrow> None)"

definition resolution_error :: "string \<Rightarrow> dict \<Rightarrow> json \<Rightarrow> string list" where
  "resolution_error path r revision =
     (let introduced = int_value (dget r ''introduced_revision''); resolved = dget r ''resolved_revision'' in
      if dget r ''status'' \<in> {JStr ''resolved'', JStr ''abandoned''}
      then
        (case strict_int resolved of
           None \<Rightarrow> [path @ ''.resolved_revision is required for terminal lifecycle status'']
         | Some i \<Rightarrow>
             if i < 1 then [path @ ''.resolved_revision is required for terminal lifecycle status'']
             else if (case introduced of None \<Rightarrow> False | Some j \<Rightarrow> i < j)
             then [path @ ''.resolved_revision cannot precede introduced_revision'']
             else if (case int_value revision of None \<Rightarrow> False | Some k \<Rightarrow> k < i)
             then [path @ ''.resolved_revision cannot be in the future'']
             else [])
      else if resolved \<noteq> JNull then [path @ ''.resolved_revision must be null before terminal lifecycle status'']
      else [])"

definition foreshadowing_record :: "host \<Rightarrow> json \<Rightarrow> string \<Rightarrow> dict \<Rightarrow> string list res" where
  "foreshadowing_record h revision record_id r =
     (let path = ''foreshadowing.'' @ record_id in
      gather [record_identity record_id r ''foreshadowing'', required_string r ''description'' path,
        status_error h r ''status'' foreshadowing_statuses path, nonnegative_integer r ''introduced_revision'' path,
        data_error r path,
        complain (case (strict_int (dget r ''introduced_revision''), int_value revision) of
            (Some i, Some k) \<Rightarrow> k < i | _ \<Rightarrow> False) (path @ ''.introduced_revision cannot be in the future''),
        Inr (resolution_error path r revision)])"

definition story_time_errors :: "dict \<Rightarrow> string list res" where
  "story_time_errors memory =
     (case dget memory ''story_time'' of
        JObj st \<Rightarrow> gather (map (\<lambda>key. nonnegative_integer st key ''story_time'') [''elapsed_minutes'', ''chapter_index'', ''scene_index''])
      | _ \<Rightarrow> Inr [])"

definition authoritative_errors :: "authority \<Rightarrow> dict \<Rightarrow> string list res" where
  "authoritative_errors auth memory =
     (case dget memory ''authoritative_state'' of
        JNull \<Rightarrow> Inr []
      | JObj st \<Rightarrow>
          (case validate_authoritative_state auth st of
             Inl (AuthoritativeStateError codes) \<Rightarrow> Inr [''authoritative_state is invalid: '' @ py_join '', '' codes]
           | Inl e \<Rightarrow> Inl e
           | Inr _ \<Rightarrow> Inr [])
      | _ \<Rightarrow> Inr [''authoritative_state must be an object''])"

fun timeline_records :: "nat \<Rightarrow> string list \<Rightarrow> json list \<Rightarrow> string list res" where
  "timeline_records index seen [] = Inr []"
| "timeline_records index seen (v # vs) =
     (let path = ''timeline['' @ show_nat index @ '']'' in
      case v of
        JObj r \<Rightarrow>
          (let fresh = (case dget r ''id'' of JStr s \<Rightarrow> s \<noteq> [] \<and> s \<notin> set seen | _ \<Rightarrow> False);
               identity = (case dget r ''id'' of
                   JStr s \<Rightarrow> if s = [] then [path @ ''.id must be a non-empty string'']
                             else if s \<in> set seen then [path @ ''.id is duplicated''] else []
                 | _ \<Rightarrow> [path @ ''.id must be a non-empty string'']) in
           gather [Inr identity, required_string r ''summary'' path, data_error r path,
             (if dhas r ''chapter_index'' then nonnegative_integer r ''chapter_index'' path else Inr []),
             timeline_records (Suc index) (if fresh then (case dget r ''id'' of JStr s \<Rightarrow> s | _ \<Rightarrow> []) # seen else seen) vs])
      | _ \<Rightarrow> gather [Inr [path @ '' must be an object''], timeline_records (Suc index) seen vs])"

definition timeline_errors :: "json \<Rightarrow> string list res" where
  "timeline_errors value =
     (case value of JList vs \<Rightarrow> timeline_records 0 [] vs | _ \<Rightarrow> Inr [''timeline must be an array''])"

definition typed_memory_errors :: "host \<Rightarrow> authority \<Rightarrow> dict \<Rightarrow> string list res" where
  "typed_memory_errors h auth memory =
     (let characters = mapping_of memory ''characters''; locations = mapping_of memory ''locations'' in
      gather [hash_or_none ''head_event_hash'' (dget memory ''head_event_hash''),
        mapping_error memory ''characters'', mapping_error memory ''locations'',
        each_record ''characters'' characters (named_record h ''characters'' character_statuses),
        each_record ''locations'' locations (named_record h ''locations'' location_statuses),
        collection_errors memory ''relationships'' (relationship_record h characters),
        collection_errors memory ''injuries'' (injury_record h characters),
        collection_errors memory ''inventories'' (inventory_record h characters locations),
        collection_errors memory ''resources'' (resource_record h),
        collection_errors memory ''glossary'' (glossary_record h),
        collection_errors memory ''corruption'' (corruption_record h characters locations),
        collection_errors memory ''foreshadowing'' (foreshadowing_record h (dget memory ''revision'')),
        story_time_errors memory, authoritative_errors auth memory, timeline_errors (dget memory ''timeline'')])"

definition validate_typed_canonical_memory :: "host \<Rightarrow> authority \<Rightarrow> dict \<Rightarrow> dict res" where
  "validate_typed_canonical_memory h auth memory =
     rbind (typed_memory_errors h auth memory) (\<lambda>errors.
     if errors \<noteq> [] then Inl (TypedCanonicalMemoryError (''typed canonical memory: '' @ py_join ''; '' errors))
     else Inr memory)"

section \<open>Canonical memories\<close>

definition as_memory_error :: "'a res \<Rightarrow> 'a res" where
  "as_memory_error r =
     (case r of
        Inl (SchemaValidationError msg) \<Rightarrow> Inl (MemoryV2ValidationError msg)
      | Inl (TypedCanonicalMemoryError msg) \<Rightarrow> Inl (MemoryV2ValidationError msg)
      | _ \<Rightarrow> r)"

definition validate_canonical_memory :: "host \<Rightarrow> authority \<Rightarrow> json \<Rightarrow> dict res" where
  "validate_canonical_memory h auth memory =
     (case memory of
        JObj m \<Rightarrow>
          (let version = dget m ''schema_version'' in
           if version = JStr ''2.0''
           then as_memory_error (rbind (validate_schema h memory ''canonical_memory.schema.json'') (\<lambda>_. Inr m))
           else if version = JStr ''2.2''
           then as_memory_error (rbind (validate_schema h memory ''canonical_memory_v2_2.schema.json'')
                  (\<lambda>_. validate_typed_canonical_memory h auth m))
           else Inl (MemoryV2ValidationError (''unsupported canonical memory schema_version: '' @ py_str h version)))
      | _ \<Rightarrow> Inl (MemoryV2ValidationError ''canonical memory must be a JSON object''))"

section \<open>What a valid memory owes to the authority\<close>

text \<open>
  The contract of the module of the authoritative state: a state it validates is lawful. A valid memory of
  version 2.2 then holds a lawful state, if it holds one.
\<close>

lemma gather_empty: "gather ms = Inr [] \<Longrightarrow> m \<in> set ms \<Longrightarrow> m = Inr []"
  by (induction ms) (auto simp: rbind_eq_Inr)

locale checked_authority =
  fixes auth :: authority and lawful :: "dict \<Rightarrow> bool"
  assumes validated_is_lawful: "validate_authoritative_state auth d = Inr s \<Longrightarrow> lawful d"
begin

lemma valid_memory_is_lawful:
  assumes "validate_canonical_memory h auth (JObj m) = Inr w" and "dget m ''schema_version'' = JStr ''2.2''"
    and "dget m ''authoritative_state'' = JObj d"
  shows "lawful d"
proof -
  from assms(1,2) have "validate_typed_canonical_memory h auth m = Inr w"
    by (auto simp: validate_canonical_memory_def Let_def as_memory_error_def rbind_eq_Inr split: sum.splits exn.splits)
  then have "typed_memory_errors h auth m = Inr []"
    by (auto simp: validate_typed_canonical_memory_def rbind_eq_Inr split: if_splits)
  then have "authoritative_errors auth m = Inr []"
    unfolding typed_memory_errors_def Let_def by (rule gather_empty) simp
  with assms(3) obtain s where "validate_authoritative_state auth d = Inr s"
    by (auto simp: authoritative_errors_def split: sum.splits exn.splits)
  then show ?thesis by (rule validated_is_lawful)
qed

end

end
