(* ===== verification/Memory_Events.thy ===== *)
theory Memory_Events
  imports Memory_Documents Sealed
begin

text \<open>
  Memory events, \<open>core/memory_v2/events.py\<close>: the immutable log of a canonical memory. Events of
  version 2.0 have no hash, 2.1 are sealed, and 2.2 also carry a precondition and the prose they rest
  on. The log file is the list of its lines, each the JSON value it parses to, or \<open>None\<close>.
\<close>

section \<open>Evidence\<close>

definition memory_event_error :: "string \<Rightarrow> exn" where
  "memory_event_error = MemoryEventValidationError"

definition span_fields :: "dict \<Rightarrow> nat \<Rightarrow> (string \<times> string) res" where
  "span_fields raw_span index =
     (if same_keys raw_span [''start'', ''end'', ''quote''] then Inr (''start'', ''end'')
      else if same_keys raw_span [''start_char'', ''end_char'', ''quote''] then Inr (''start_char'', ''end_char'')
      else Inl (memory_event_error (''evidence_spans['' @ show_nat index @ ''] must contain only start, end, and quote'')))"

text \<open>One span against the chapter; \<open>chapter_body[start:end]\<close> is \<open>take\<close> of \<open>drop\<close>.\<close>

definition span_offsets :: "string option \<Rightarrow> nat \<Rightarrow> json \<Rightarrow> json \<Rightarrow> json \<Rightarrow> dict res" where
  "span_offsets chapter_body index v_start v_end v_quote =
     (let path = ''evidence_spans['' @ show_nat index @ '']'' in
      case strict_int v_start of
        None \<Rightarrow> Inl (memory_event_error (path @ ''.start is invalid''))
      | Some i \<Rightarrow>
          if i < 0 then Inl (memory_event_error (path @ ''.start is invalid''))
          else case strict_int v_end of
            None \<Rightarrow> Inl (memory_event_error (path @ ''.end is invalid''))
          | Some j \<Rightarrow>
              if j \<le> i then Inl (memory_event_error (path @ ''.end is invalid''))
              else case v_quote of
                JStr quote \<Rightarrow>
                  if quote = [] then Inl (memory_event_error (path @ ''.quote must be non-empty''))
                  else if int (length quote) \<noteq> j - i
                  then Inl (memory_event_error (path @ '' quote length does not match offsets''))
                  else if (case chapter_body of None \<Rightarrow> False
                     | Some body \<Rightarrow> j > int (length body) \<or> take (nat (j - i)) (drop (nat i) body) \<noteq> quote)
                  then Inl (memory_event_error (path @ '' does not match chapter_body''))
                  else Inr [(''start'', JInt i), (''end'', JInt j), (''quote'', JStr quote)]
              | _ \<Rightarrow> Inl (memory_event_error (path @ ''.quote must be non-empty'')))"

definition evidence_span :: "string option \<Rightarrow> nat \<times> json \<Rightarrow> dict res" where
  "evidence_span chapter_body entry =
     (case entry of (index, raw) \<Rightarrow>
       (case raw of
          JObj raw_span \<Rightarrow>
            rbind (span_fields raw_span index) (\<lambda>(start_field, end_field).
              span_offsets chapter_body index (dget raw_span start_field) (dget raw_span end_field) (dget raw_span ''quote''))
        | _ \<Rightarrow> Inl (memory_event_error (''evidence_spans['' @ show_nat index @ ''] must be an object''))))"

definition validated_evidence_spans :: "json \<Rightarrow> string option \<Rightarrow> dict list res" where
  "validated_evidence_spans value chapter_body =
     (case value of
        JList (x # xs) \<Rightarrow> rmap (evidence_span chapter_body) (enumerate 0 (x # xs))
      | _ \<Rightarrow> Inl (memory_event_error ''Memory 2.2 evidence_spans must contain at least one span''))"

definition spans_json :: "dict list \<Rightarrow> json" where
  "spans_json spans = JList (map JObj spans)"

section \<open>Validation\<close>

definition memory_event_hash :: "host \<Rightarrow> dict \<Rightarrow> string res" where
  "memory_event_hash h event = canonical_json_hash h [''event_hash''] True (JObj event)"

definition as_event_error :: "'a res \<Rightarrow> 'a res" where
  "as_event_error r =
     (case r of
        Inl (SchemaValidationError msg) \<Rightarrow> Inl (memory_event_error msg)
      | Inl (UnsupportedMemoryVersionError msg) \<Rightarrow> Inl (memory_event_error msg)
      | _ \<Rightarrow> r)"

definition check_current_reducer :: "host \<Rightarrow> json \<Rightarrow> string res" where
  "check_current_reducer h value =
     rbind (as_event_error (require_supported_reducer_version h value)) (\<lambda>reducer.
     if reducer \<noteq> current_reducer_version
     then Inl (memory_event_error ''Memory 2.2 events require memory-reducer-2.2'') else Inr reducer)"

definition check_event_source :: "dict \<Rightarrow> unit res" where
  "check_event_source event =
     (case dget event ''source'' of
        JObj source \<Rightarrow>
          rcheck (\<lambda>field. if \<not> nonblank (dget source field)
              then Inl (memory_event_error (''Memory 2.2 source.'' @ field @ '' must be a non-empty string'')) else Inr ())
            [''kind'', ''patch_id'']
      | _ \<Rightarrow> Inl (memory_event_error ''Memory 2.2 source must be an object''))"

definition check_event_digests :: "dict \<Rightarrow> unit res" where
  "check_event_digests event =
     rcheck (\<lambda>field. if \<not> json_sha256 (dget event field)
         then Inl (memory_event_error (''Memory 2.2 '' @ field @ '' must be a lowercase SHA-256 digest'')) else Inr ())
       [''event_hash'', ''chapter_body_sha256'']"

definition check_precondition :: "host \<Rightarrow> dict \<Rightarrow> unit res" where
  "check_precondition h event =
     (case dget event ''precondition'' of
        JObj precondition \<Rightarrow>
          rbind (on_item event ''revision'' py_int) (\<lambda>revision.
          if \<not> py_eq (dget precondition ''expected_revision'') (JInt (revision - 1))
          then Inl (memory_event_error ''Memory 2.2 precondition expected_revision mismatch'')
          else if \<not> digest_or_null (dget precondition ''expected_head_event_hash'')
          then Inl (memory_event_error ''expected_head_event_hash must be null or a lowercase SHA-256 digest'')
          else if \<not> json_sha256 (dget precondition ''expected_field_hash'')
          then Inl (memory_event_error ''expected_field_hash must be a lowercase SHA-256 digest'')
          else rbind (canonical_json_hash h [] True (dget event ''before'')) (\<lambda>before_hash.
            if dget precondition ''expected_field_hash'' \<noteq> JStr before_hash
            then Inl (memory_event_error ''Memory 2.2 precondition expected_field_hash mismatch'') else Inr ()))
      | _ \<Rightarrow> Inl (memory_event_error ''Memory 2.2 precondition must be an object''))"

definition check_chapter_body :: "host \<Rightarrow> dict \<Rightarrow> string option \<Rightarrow> unit res" where
  "check_chapter_body h event chapter_body =
     (case chapter_body of
        None \<Rightarrow> Inr ()
      | Some body \<Rightarrow> on_item event ''chapter_body_sha256'' (\<lambda>v.
          if v \<noteq> JStr (sha256_hex h body) then Inl (memory_event_error ''Memory 2.2 chapter_body_sha256 mismatch'') else Inr ()))"

definition validate_typed_memory_event :: "host \<Rightarrow> string option \<Rightarrow> dict \<Rightarrow> unit res" where
  "validate_typed_memory_event h chapter_body event =
     rbind (check_current_reducer h (dget event ''reducer_version'')) (\<lambda>_.
     rbind (check_event_source event) (\<lambda>_.
     rbind (check_event_digests event) (\<lambda>_.
     rbind (check_precondition h event) (\<lambda>_.
     rbind (validated_evidence_spans (dget event ''evidence_spans'') chapter_body) (\<lambda>_.
     rbind (check_chapter_body h event chapter_body) (\<lambda>_.
     on_item event ''event_hash'' (\<lambda>v.
     rbind (memory_event_hash h event) (\<lambda>expected.
     if v \<noteq> JStr expected then Inl (memory_event_error ''Memory 2.2 event_hash mismatch'') else Inr ()))))))))"

definition event_schema :: "host \<Rightarrow> json \<Rightarrow> string res" where
  "event_schema h version =
     (if \<not> hashable version then Inl TypeError
      else if version \<in> {JStr ''2.1'', JStr ''2.0''} then Inr ''memory_event.schema.json''
      else if version = JStr ''2.2'' then Inr ''memory_event_v2_2.schema.json''
      else Inl (memory_event_error (''unsupported memory event schema_version: '' @ py_str h version)))"

definition check_event_seal :: "host \<Rightarrow> dict \<Rightarrow> unit res" where
  "check_event_seal h event =
     (if \<not> json_sha256 (dget event ''event_hash'')
      then Inl (memory_event_error ''Memory 2.1 event_hash must be a lowercase SHA-256 digest'')
      else rbind (memory_event_hash h event) (\<lambda>expected.
        if dget event ''event_hash'' \<noteq> JStr expected
        then Inl (memory_event_error ''Memory 2.1 event_hash mismatch'') else Inr ()))"

definition validate_memory_event :: "host \<Rightarrow> string option \<Rightarrow> json \<Rightarrow> dict res" where
  "validate_memory_event h chapter_body event =
     (case event of
        JObj d \<Rightarrow>
          rbind (event_schema h (dget d ''schema_version'')) (\<lambda>schema.
          rbind (as_event_error (validate_schema h event schema)) (\<lambda>_.
          rbind (if dget d ''schema_version'' = JStr ''2.1'' then check_event_seal h d
                 else if dget d ''schema_version'' = JStr ''2.0''
                 then (if dhas d ''event_hash'' then Inl (memory_event_error ''Memory 2.0 events must not contain event_hash'') else Inr ())
                 else validate_typed_memory_event h chapter_body d) (\<lambda>_.
          Inr d)))
      | _ \<Rightarrow> Inl (memory_event_error ''memory event must be a JSON object''))"

definition upcast_memory_event :: "host \<Rightarrow> string option \<Rightarrow> json \<Rightarrow> dict res" where
  "upcast_memory_event h chapter_body event =
     rbind (validate_memory_event h chapter_body event) (\<lambda>validated.
     if dget validated ''schema_version'' \<noteq> JStr ''2.0'' then Inr validated
     else
       let upgraded = dset ''schema_version'' (JStr ''2.1'') validated in
       rbind (memory_event_hash h upgraded) (\<lambda>hash.
       validate_memory_event h chapter_body (JObj (dset ''event_hash'' (JStr hash) upgraded))))"

definition verify_memory_event_evidence :: "host \<Rightarrow> dict \<Rightarrow> string \<Rightarrow> bool res" where
  "verify_memory_event_evidence h event chapter_body =
     rbind (upcast_memory_event h (Some chapter_body) (JObj event)) (\<lambda>_. Inr True)"

definition reducer_version_for_event :: "host \<Rightarrow> dict \<Rightarrow> string res" where
  "reducer_version_for_event h event =
     rbind (upcast_memory_event h None (JObj event)) (\<lambda>validated.
     if dget validated ''schema_version'' \<in> {JStr ''2.0'', JStr ''2.1''} then Inr legacy_reducer_version
     else on_item validated ''reducer_version'' (\<lambda>v. Inr (py_str h v)))"

section \<open>Creation\<close>

record event_args =
  ev_event_id :: json
  ev_revision :: json
  ev_op :: json
  ev_source :: dict
  ev_subject_id :: json
  ev_field :: json
  ev_metadata :: dict

record typed_event_args =
  ty_before :: json
  ty_after :: json
  ty_precondition :: json
  ty_chapter_body :: json
  ty_chapter_body_sha256 :: json
  ty_evidence_spans :: json
  ty_authority_epoch :: json
  ty_reducer_version :: json

definition optional_item :: "string \<Rightarrow> json \<Rightarrow> dict \<Rightarrow> dict" where
  "optional_item k v d = (if v = JNull then d else dset k v d)"

definition event_metadata :: "dict \<Rightarrow> json" where
  "event_metadata metadata = JObj (dupdate [(''created_by'', memory_created_by)] metadata)"

definition untyped_event_body :: "string \<Rightarrow> event_args \<Rightarrow> json \<Rightarrow> json \<Rightarrow> dict" where
  "untyped_event_body schema_version a old_value new_value =
     optional_item ''field'' (ev_field a) (optional_item ''subject_id'' (ev_subject_id a)
       [(''schema_version'', JStr schema_version), (''event_id'', ev_event_id a), (''revision'', ev_revision a),
        (''op'', ev_op a), (''old_value'', old_value), (''new_value'', new_value), (''source'', JObj (ev_source a)),
        (''metadata'', event_metadata (ev_metadata a))])"

definition create_untyped_memory_event :: "host \<Rightarrow> string \<Rightarrow> event_args \<Rightarrow> json \<Rightarrow> json \<Rightarrow> dict res" where
  "create_untyped_memory_event h schema_version a old_value new_value =
     (let event = untyped_event_body schema_version a old_value new_value in
      rbind (if schema_version = ''2.1'' then rbind (memory_event_hash h event) (\<lambda>hash. Inr (dset ''event_hash'' (JStr hash) event))
             else Inr event) (\<lambda>sealed.
      validate_memory_event h None (JObj sealed)))"

definition typed_event_inputs :: "host \<Rightarrow> event_args \<Rightarrow> typed_event_args \<Rightarrow> (dict \<times> string \<times> dict list \<times> int) res" where
  "typed_event_inputs h a t =
     (if \<not> nonblank (ev_field a) then Inl (memory_event_error ''Memory 2.2 events require field'')
      else case ty_precondition t of
        JObj precondition \<Rightarrow>
          (case ty_chapter_body t of
             JStr body \<Rightarrow>
               if ty_chapter_body_sha256 t \<noteq> JNull \<and> ty_chapter_body_sha256 t \<noteq> JStr (sha256_hex h body)
               then Inl (memory_event_error ''chapter_body_sha256 does not match chapter_body'')
               else
                 rbind (validated_evidence_spans (ty_evidence_spans t) (Some body)) (\<lambda>spans.
                 rbind (check_current_reducer h (py_or (ty_reducer_version t) (JStr current_reducer_version))) (\<lambda>_.
                 case strict_int (ty_authority_epoch t) of
                   None \<Rightarrow> Inl (memory_event_error ''Memory 2.2 events require a positive authority_epoch'')
                 | Some epoch \<Rightarrow>
                     if epoch < 1 then Inl (memory_event_error ''Memory 2.2 events require a positive authority_epoch'')
                     else Inr (precondition, body, spans, epoch)))
           | _ \<Rightarrow> Inl (memory_event_error ''Memory 2.2 event creation requires chapter_body''))
      | _ \<Rightarrow> Inl (memory_event_error ''Memory 2.2 events require precondition''))"

definition typed_event_body :: "host \<Rightarrow> event_args \<Rightarrow> typed_event_args \<Rightarrow> dict \<times> string \<times> dict list \<times> int \<Rightarrow> dict" where
  "typed_event_body h a t inputs =
     (case inputs of (precondition, body, spans, epoch) \<Rightarrow>
        optional_item ''subject_id'' (ev_subject_id a)
          [(''schema_version'', JStr ''2.2''), (''event_id'', ev_event_id a), (''revision'', ev_revision a),
           (''op'', ev_op a), (''field'', ev_field a), (''before'', ty_before t), (''after'', ty_after t),
           (''precondition'', JObj precondition), (''chapter_body_sha256'', JStr (sha256_hex h body)),
           (''evidence_spans'', spans_json spans), (''authority_epoch'', JInt epoch),
           (''reducer_version'', JStr current_reducer_version), (''source'', JObj (ev_source a)),
           (''metadata'', event_metadata (ev_metadata a))])"

definition create_typed_memory_event :: "host \<Rightarrow> event_args \<Rightarrow> typed_event_args \<Rightarrow> dict res" where
  "create_typed_memory_event h a t =
     rbind (typed_event_inputs h a t) (\<lambda>inputs.
     let event = typed_event_body h a t inputs in
     rbind (memory_event_hash h event) (\<lambda>hash.
     validate_memory_event h (case ty_chapter_body t of JStr body \<Rightarrow> Some body | _ \<Rightarrow> None)
       (JObj (dset ''event_hash'' (JStr hash) event))))"

definition create_memory_event :: "host \<Rightarrow> string \<Rightarrow> event_args \<Rightarrow> json \<Rightarrow> json \<Rightarrow> typed_event_args \<Rightarrow> dict res" where
  "create_memory_event h schema_version a old_value new_value t =
     (if schema_version = ''2.2'' then create_typed_memory_event h a t
      else if schema_version \<notin> {''2.1'', ''2.0''}
      then Inl (memory_event_error (''unsupported memory event schema_version: '' @ schema_version))
      else create_untyped_memory_event h schema_version a old_value new_value)"

definition create_memory_event_context :: "host \<Rightarrow> json \<Rightarrow> json \<Rightarrow> json \<Rightarrow> dict res" where
  "create_memory_event_context h chapter_body evidence_spans authority_epoch =
     (case chapter_body of
        JStr body \<Rightarrow>
          rbind (validated_evidence_spans evidence_spans (Some body)) (\<lambda>spans.
          case strict_int authority_epoch of
            None \<Rightarrow> Inl (memory_event_error ''authority_epoch must be a positive integer'')
          | Some epoch \<Rightarrow>
              if epoch < 1 then Inl (memory_event_error ''authority_epoch must be a positive integer'')
              else Inr [(''chapter_body'', JStr body), (''chapter_body_sha256'', JStr (sha256_hex h body)),
                        (''evidence_spans'', spans_json spans), (''authority_epoch'', JInt epoch)])
      | _ \<Rightarrow> Inl (memory_event_error ''chapter_body must be a string''))"

section \<open>The log file\<close>

text \<open>A line of the file: blank, or the value \<open>json.loads\<close> gives for it (\<open>None\<close> for an error).\<close>

datatype log_line = Blank | Line "json option"

definition append_memory_events :: "host \<Rightarrow> json list \<Rightarrow> log_line list \<Rightarrow> dict list res \<times> log_line list" where
  "append_memory_events h events entries =
     (case rmap (validate_memory_event h None) events of
        Inl e \<Rightarrow> (Inl e, entries)
      | Inr validated \<Rightarrow> (Inr validated, entries @ map (\<lambda>d. Line (Some (JObj d))) validated))"

definition append_memory_event :: "host \<Rightarrow> json \<Rightarrow> log_line list \<Rightarrow> dict res \<times> log_line list" where
  "append_memory_event h event entries =
     (case validate_memory_event h None event of
        Inl e \<Rightarrow> (Inl e, entries)
      | Inr validated \<Rightarrow>
          (case append_memory_events h [JObj validated] entries of
             (Inl e, entries') \<Rightarrow> (Inl e, entries')
           | (Inr _, entries') \<Rightarrow> (Inr validated, entries')))"

fun load_lines :: "host \<Rightarrow> string \<Rightarrow> nat \<Rightarrow> log_line list \<Rightarrow> dict list res" where
  "load_lines h path n [] = Inr []"
| "load_lines h path n (Blank # lines) = load_lines h path (Suc n) lines"
| "load_lines h path n (Line None # lines) =
     Inl (memory_event_error (path @ '' line '' @ show_nat n @ '' is not valid JSON''))"
| "load_lines h path n (Line (Some (JObj d)) # lines) =
     rbind (upcast_memory_event h None (JObj d)) (\<lambda>event.
     rbind (load_lines h path (Suc n) lines) (\<lambda>events. Inr (event # events)))"
| "load_lines h path n (Line (Some v) # lines) =
     Inl (memory_event_error (path @ '' line '' @ show_nat n @ '' must be a JSON object''))"

definition load_memory_events :: "host \<Rightarrow> string \<Rightarrow> log_line list option \<Rightarrow> dict list res" where
  "load_memory_events h path file = (case file of None \<Rightarrow> Inr [] | Some lines \<Rightarrow> load_lines h path 1 lines)"

section \<open>Validated events\<close>

lemma as_event_error_Inr [simp]: "as_event_error r = Inr x \<longleftrightarrow> r = Inr x"
  by (auto simp: as_event_error_def split: sum.splits exn.splits)

lemma ex_validate_schema: "(\<exists>w. validate_schema h v s = Inr w \<and> P) \<longleftrightarrow> validate_schema h v s = Inr v \<and> P"
  using validate_schema_id by auto

lemma validate_memory_event_Inr:
  "validate_memory_event h body v = Inr d \<longleftrightarrow>
     v = JObj d \<and>
     (\<exists>schema. event_schema h (dget d ''schema_version'') = Inr schema \<and> validate_schema h v schema = Inr v) \<and>
     (if dget d ''schema_version'' = JStr ''2.1'' then check_event_seal h d = Inr ()
      else if dget d ''schema_version'' = JStr ''2.0'' then \<not> dhas d ''event_hash''
      else validate_typed_memory_event h body d = Inr ())"
  by (cases v)
     (simp_all add: validate_memory_event_def rbind_eq_Inr ex_validate_schema, (cases "dget d ''schema_version'' = JStr ''2.1''"; cases "dget d ''schema_version'' = JStr ''2.0''"; (auto; blast dest: validate_schema_id)))

lemma event_schema_version:
  "event_schema h v = Inr s \<Longrightarrow> v \<in> {JStr ''2.0'', JStr ''2.1'', JStr ''2.2''}"
  by (auto simp: event_schema_def split: if_splits)

lemma validate_memory_event_id: "validate_memory_event h body v = Inr d \<Longrightarrow> v = JObj d"
  by (simp add: validate_memory_event_Inr)

lemma typed_event_seal:
  "validate_typed_memory_event h body d = Inr () \<Longrightarrow>
     \<exists>x. map_of d ''event_hash'' = Some (JStr x) \<and> memory_event_hash h d = Inr x"
  by (auto simp: validate_typed_memory_event_def rbind_eq_Inr on_item_eq_Inr)

text \<open>An event of the log that carries a hash: version 2.1 or 2.2.\<close>

definition sealed_event :: "host \<Rightarrow> string option \<Rightarrow> json \<Rightarrow> json res" where
  "sealed_event h body v =
     rbind (validate_memory_event h body v) (\<lambda>d.
     if dget d ''schema_version'' = JStr ''2.0'' then Inl (memory_event_error ''Memory 2.0 events have no hash'') else Inr v)"

lemma sealed_event_Inr: "sealed_event h body v = Inr w \<longleftrightarrow>
   (\<exists>d. validate_memory_event h body v = Inr d \<and> dget d ''schema_version'' \<noteq> JStr ''2.0'' \<and> w = v)"
  by (auto simp: sealed_event_def rbind_eq_Inr)

interpretation event: sealed_record h "''event_hash''" True "sealed_event h body" for h body
proof
  fix v w assume s: "sealed_event h body v = Inr w"
  then show "w = v" by (auto simp: sealed_event_Inr)
  from s obtain d where v: "validate_memory_event h body v = Inr d" and n: "dget d ''schema_version'' \<noteq> JStr ''2.0''"
    by (auto simp: sealed_event_Inr)
  show "\<exists>d x. v = JObj d \<and> map_of d ''event_hash'' = Some (JStr x) \<and> canonical_json_hash h [''event_hash''] True (JObj d) = Inr x"
  proof (cases "dget d ''schema_version'' = JStr ''2.1''")
    case True
    with v have "check_event_seal h d = Inr ()" by (simp add: validate_memory_event_Inr)
    then obtain x where "memory_event_hash h d = Inr x" and "dget d ''event_hash'' = JStr x"
      by (auto simp: check_event_seal_def rbind_eq_Inr)
    with v show ?thesis by (auto simp: memory_event_hash_def dget_eq_JStr validate_memory_event_Inr)
  next
    case False
    with v n have "validate_typed_memory_event h body d = Inr ()" by (simp add: validate_memory_event_Inr)
    from typed_event_seal [OF this] v show ?thesis by (auto simp: memory_event_hash_def validate_memory_event_Inr)
  qed
qed

lemma upcast_Inr_valid:
  "upcast_memory_event h body v = Inr e \<Longrightarrow>
     validate_memory_event h body (JObj e) = Inr e \<and> dget e ''schema_version'' \<noteq> JStr ''2.0''"
proof -
  assume "upcast_memory_event h body v = Inr e"
  then consider "validate_memory_event h body v = Inr e" "dget e ''schema_version'' \<noteq> JStr ''2.0''"
    | d x where "validate_memory_event h body (JObj (dset ''event_hash'' (JStr x) (dset ''schema_version'' (JStr ''2.1'') d))) = Inr e"
    by (auto simp: upcast_memory_event_def rbind_eq_Inr Let_def split: if_splits)
  then show ?thesis
  proof cases
    case 1
    with validate_memory_event_id [OF 1(1)] show ?thesis by simp
  next
    case (2 d x)
    from validate_memory_event_id [OF this] have "e = dset ''event_hash'' (JStr x) (dset ''schema_version'' (JStr ''2.1'') d)" by simp
    with 2 show ?thesis by simp
  qed
qed

lemma upcast_current: "validate_memory_event h body (JObj e) = Inr e \<Longrightarrow> dget e ''schema_version'' \<noteq> JStr ''2.0'' \<Longrightarrow>
  upcast_memory_event h body (JObj e) = Inr e"
  by (simp add: upcast_memory_event_def)

section \<open>Evidence\<close>

text \<open>A span that is what the chapter says between its offsets.\<close>

definition quotes :: "string \<Rightarrow> dict \<Rightarrow> bool" where
  "quotes body r \<longleftrightarrow>
     (\<exists>i j quote. r = [(''start'', JInt i), (''end'', JInt j), (''quote'', JStr quote)] \<and>
        0 \<le> i \<and> i < j \<and> j \<le> int (length body) \<and> quote = take (nat (j - i)) (drop (nat i) body) \<and> quote \<noteq> [])"

lemma span_offsets_quotes:
  "span_offsets (Some body) n a b c = Inr r \<Longrightarrow> quotes body r"
  by (auto simp: span_offsets_def quotes_def Let_def strict_int_def split: json.splits option.splits if_splits)

lemma evidence_span_quotes: "evidence_span (Some body) e = Inr r \<Longrightarrow> quotes body r"
  by (auto simp: evidence_span_def rbind_eq_Inr dest: span_offsets_quotes split: prod.splits json.splits)

lemma validated_spans_quote:
  assumes "validated_evidence_spans v (Some body) = Inr spans"
  shows "spans \<noteq> []" and "r \<in> set spans \<Longrightarrow> quotes body r"
proof -
  from assms obtain x xs where e: "rmap (evidence_span (Some body)) (enumerate 0 (x # xs)) = Inr spans"
    by (auto simp: validated_evidence_spans_def split: json.splits list.splits)
  then have "length spans = length (enumerate 0 (x # xs))" by (rule rmap_length)
  then show "spans \<noteq> []" by auto
  assume "r \<in> set spans"
  with e show "quotes body r"
  proof -
    have "rmap (evidence_span (Some body)) es = Inr rs \<Longrightarrow> r \<in> set rs \<Longrightarrow> quotes body r" for es rs
      by (induction es arbitrary: rs) (auto simp: rbind_eq_Inr dest: evidence_span_quotes)
    with e \<open>r \<in> set spans\<close> show ?thesis by blast
  qed
qed

text \<open>What validates against the chapter validates without it.\<close>

lemma span_offsets_without_body: "span_offsets body n a b c = Inr r \<Longrightarrow> span_offsets None n a b c = Inr r"
  by (auto simp: span_offsets_def Let_def split: json.splits option.splits if_splits)

lemma spans_without_body:
  assumes "validated_evidence_spans v body = Inr spans"
  shows "validated_evidence_spans v None = Inr spans"
proof -
  have one: "evidence_span body e = Inr r \<Longrightarrow> evidence_span None e = Inr r" for e r
    by (cases e; cases "snd e") (auto simp: evidence_span_def rbind_eq_Inr intro: span_offsets_without_body)
  have "rmap (evidence_span body) es = Inr rs \<Longrightarrow> rmap (evidence_span None) es = Inr rs" for es rs
    by (induction es arbitrary: rs) (auto simp: rbind_eq_Inr dest: one)
  with assms show ?thesis
    by (auto simp: validated_evidence_spans_def simp del: rmap.simps split: json.splits list.splits)
qed

lemma validate_without_body:
  assumes "validate_memory_event h body v = Inr d"
  shows "validate_memory_event h None v = Inr d"
proof -
  have "validate_typed_memory_event h body d = Inr () \<Longrightarrow> validate_typed_memory_event h None d = Inr ()"
    by (auto simp: validate_typed_memory_event_def rbind_eq_Inr check_chapter_body_def dest: spans_without_body)
  with assms show ?thesis by (auto simp: validate_memory_event_Inr)
qed

text \<open>Spans in the form in which they are stored pass the check as they are.\<close>

lemma quotes_span: "quotes body r \<Longrightarrow> evidence_span (Some body) (n, JObj r) = Inr r"
  by (auto simp: quotes_def evidence_span_def span_fields_def span_offsets_def same_keys_def dkeys_def dhas_def dget_def
      strict_int_def Let_def rbind_eq_Inr)

section \<open>The log\<close>

lemma load_lines_append:
  "load_lines h path n (ls @ ms) =
     rbind (load_lines h path n ls) (\<lambda>a. rbind (load_lines h path (n + length ls) ms) (\<lambda>b. Inr (a @ b)))"
proof (induction h path n ls rule: load_lines.induct)
  case (4 h path n d lines)
  then show ?case
    by (cases "upcast_memory_event h None (JObj d)"; cases "load_lines h path (Suc n) lines";
        cases "load_lines h path (Suc (n + length lines)) ms") auto
next
  case (1 h path n)
  then show ?case by (cases "load_lines h path n ms") auto
qed auto

lemma load_lines_events:
  "(\<And>e. e \<in> set es \<Longrightarrow> upcast_memory_event h None (JObj e) = Inr e) \<Longrightarrow>
     load_lines h path n (map (\<lambda>d. Line (Some (JObj d))) es) = Inr es"
  by (induction es arbitrary: n) auto

section \<open>Created events\<close>

lemma typed_inputs_Inr:
  assumes "typed_event_inputs h a t = Inr (precondition, body, spans, epoch)"
  shows "ty_chapter_body t = JStr body" and "validated_evidence_spans (ty_evidence_spans t) (Some body) = Inr spans"
    and "ty_precondition t = JObj precondition" and "1 \<le> epoch"
  using assms
  by (auto simp: typed_event_inputs_def rbind_eq_Inr split: json.splits option.splits if_splits)

lemma dget_optional_item: "dget (optional_item k v d) j = (if j = k \<and> v \<noteq> JNull then v else dget d j)"
  by (simp add: optional_item_def)

lemma created_typed_event:
  assumes "create_typed_memory_event h a t = Inr e"
  obtains precondition body spans epoch x where "typed_event_inputs h a t = Inr (precondition, body, spans, epoch)"
    and "e = dset ''event_hash'' (JStr x) (typed_event_body h a t (precondition, body, spans, epoch))"
    and "validate_memory_event h (Some body) (JObj e) = Inr e"
proof -
  from assms obtain precondition body spans epoch x where i: "typed_event_inputs h a t = Inr (precondition, body, spans, epoch)"
    and v: "validate_memory_event h (case ty_chapter_body t of JStr body \<Rightarrow> Some body | _ \<Rightarrow> None)
       (JObj (dset ''event_hash'' (JStr x) (typed_event_body h a t (precondition, body, spans, epoch)))) = Inr e"
    by (auto simp: create_typed_memory_event_def rbind_eq_Inr Let_def)
  from validate_memory_event_id [OF v] have "e = dset ''event_hash'' (JStr x) (typed_event_body h a t (precondition, body, spans, epoch))"
    by simp
  with that [OF i this] v typed_inputs_Inr(1) [OF i] show thesis by simp
qed

section \<open>Properties\<close>

text \<open>
  Reading is stable. The upcast of an event is an event of version 2.1 or 2.2 that validates, and
  reading it again, as every reader of the log does, gives the same event.
\<close>

lemma upcast_is_stable:
  assumes "upcast_memory_event h body v = Inr e"
  shows "validate_memory_event h body (JObj e) = Inr e \<and> dget e ''schema_version'' \<in> {JStr ''2.1'', JStr ''2.2''} \<and>
     upcast_memory_event h body (JObj e) = Inr e"
proof (intro conjI)
  from upcast_Inr_valid [OF assms] have v: "validate_memory_event h body (JObj e) = Inr e"
    and n: "dget e ''schema_version'' \<noteq> JStr ''2.0''" by simp_all
  show "validate_memory_event h body (JObj e) = Inr e" by (rule v)
  show "dget e ''schema_version'' \<in> {JStr ''2.1'', JStr ''2.2''}"
    using v n event_schema_version by (fastforce simp: validate_memory_event_Inr)
  show "upcast_memory_event h body (JObj e) = Inr e" by (rule upcast_current [OF v n])
qed


text \<open>
  C29: a typed event is backed by its chapter. An event that \<open>create_memory_event\<close> returns validates
  against the chapter it was made for, has at least one evidence span, and every span is a quotation of
  the chapter at its offsets; its precondition carries the hash of the value it replaces.
\<close>

theorem typed_event_is_evidenced:
  assumes "create_memory_event h ''2.2'' a old new t = Inr e"
  shows "\<exists>body spans pre x. ty_chapter_body t = JStr body \<and> verify_memory_event_evidence h e body = Inr True \<and>
     dget e ''evidence_spans'' = spans_json spans \<and> spans \<noteq> [] \<and> (\<forall>r \<in> set spans. quotes body r) \<and>
     dget e ''precondition'' = JObj pre \<and> dget pre ''expected_field_hash'' = JStr x \<and>
     canonical_json_hash h [] True (ty_before t) = Inr x"
proof -
  from assms have "create_typed_memory_event h a t = Inr e" by (simp add: create_memory_event_def)
  then obtain pre body spans epoch x where i: "typed_event_inputs h a t = Inr (pre, body, spans, epoch)"
    and e: "e = dset ''event_hash'' (JStr x) (typed_event_body h a t (pre, body, spans, epoch))"
    and v: "validate_memory_event h (Some body) (JObj e) = Inr e" by (rule created_typed_event)
  note inp = typed_inputs_Inr [OF i]
  have fields: "dget e ''schema_version'' = JStr ''2.2''" "dget e ''evidence_spans'' = spans_json spans"
    "dget e ''precondition'' = JObj pre" "dget e ''before'' = ty_before t"
    by (simp_all add: e typed_event_body_def dget_optional_item) (simp_all add: dget_def)
  from v fields(1) have "validate_typed_memory_event h (Some body) e = Inr ()" by (simp add: validate_memory_event_Inr)
  then have "check_precondition h e = Inr ()" by (auto simp: validate_typed_memory_event_def rbind_eq_Inr)
  then obtain y where "canonical_json_hash h [] True (ty_before t) = Inr y" "dget pre ''expected_field_hash'' = JStr y"
    by (auto simp: check_precondition_def rbind_eq_Inr fields on_item_eq_Inr split: if_splits)
  moreover have "verify_memory_event_evidence h e body = Inr True"
    using upcast_current [OF v] fields(1) by (simp add: verify_memory_event_evidence_def)
  ultimately show ?thesis using inp fields validated_spans_quote [OF inp(2)] by blast
qed

text \<open>
  The hash of an event fixes the event: two events of the log with one \<open>event_hash\<close> cover the same
  content, or SHA-256 has a collision.
\<close>

lemma event_hash_fixes_event:
  assumes "upcast_memory_event h b1 v1 = Inr d" and "upcast_memory_event h b2 v2 = Inr e"
    and "dget d ''event_hash'' = dget e ''event_hash''" and "float_free (JObj d)" and "float_free (JObj e)"
  shows "covered ''event_hash'' True (JObj d) = covered ''event_hash'' True (JObj e) \<or> sha_collision h"
proof -
  from upcast_Inr_valid [OF assms(1)] have "sealed_event h None (JObj d) = Inr (JObj d)"
    by (auto simp: sealed_event_Inr dest: validate_without_body)
  moreover from upcast_Inr_valid [OF assms(2)] have "sealed_event h None (JObj e) = Inr (JObj e)"
    by (auto simp: sealed_event_Inr dest: validate_without_body)
  ultimately show ?thesis using event.same_hash_same_content assms(3-5) by blast
qed

definition example_span :: json where
  "example_span = JObj [(''start'', JInt 0), (''end'', JInt 1), (''quote'', JStr ''a'')]"

definition example_event_args :: event_args where
  "example_event_args = \<lparr>ev_event_id = JStr ''e'', ev_revision = JInt 2, ev_op = JStr ''update_world'',
     ev_source = [(''kind'', JStr ''k''), (''patch_id'', JStr ''p'')], ev_subject_id = JNull, ev_field = JStr ''world'',
     ev_metadata = []\<rparr>"

definition example_typed_args :: typed_event_args where
  "example_typed_args = \<lparr>ty_before = JNull, ty_after = JNull,
     ty_precondition = JObj [(''expected_revision'', JInt 1), (''expected_head_event_hash'', JNull),
       (''expected_field_hash'', JStr zero_digest)],
     ty_chapter_body = JStr ''ab'', ty_chapter_body_sha256 = JNull, ty_evidence_spans = JList [example_span],
     ty_authority_epoch = JInt 1, ty_reducer_version = JNull\<rparr>"

definition example_event :: dict where
  "example_event = (case create_memory_event example_host ''2.2'' example_event_args JNull JNull example_typed_args of
     Inr e \<Rightarrow> e | Inl _ \<Rightarrow> [])"

lemma example_event_facts:
  "create_memory_event example_host ''2.2'' example_event_args JNull JNull example_typed_args = Inr example_event"
  "float_free (JObj example_event)"
proof -
  have e: "case create_memory_event example_host ''2.2'' example_event_args JNull JNull example_typed_args of
      Inl _ \<Rightarrow> False | Inr e \<Rightarrow> float_free (JObj e)" by code_simp
  then show "create_memory_event example_host ''2.2'' example_event_args JNull JNull example_typed_args = Inr example_event"
    and "float_free (JObj example_event)" unfolding example_event_def by (auto split: sum.splits)
qed

lemma example_event_upcast: "upcast_memory_event example_host None (JObj example_event) = Inr example_event"
proof -
  obtain pre body spans epoch x where e: "example_event = dset ''event_hash'' (JStr x)
      (typed_event_body example_host example_event_args example_typed_args (pre, body, spans, epoch))"
    and v: "validate_memory_event example_host (Some body) (JObj example_event) = Inr example_event"
    using example_event_facts(1) created_typed_event by (metis create_memory_event_def)
  have "dget example_event ''schema_version'' = JStr ''2.2''"
    by (simp add: e typed_event_body_def dget_optional_item) (simp add: dget_def)
  with upcast_current [OF validate_without_body [OF v]] show ?thesis by simp
qed

lemma upcast_is_stable_witness: "upcast_memory_event example_host None (JObj example_event) = Inr example_event"
  using upcast_is_stable [OF example_event_upcast] by blast


lemma typed_event_is_evidenced_witness:
  "\<exists>body spans. verify_memory_event_evidence example_host example_event body = Inr True \<and>
     dget example_event ''evidence_spans'' = spans_json spans \<and> spans \<noteq> []"
  using typed_event_is_evidenced [OF example_event_facts(1)] by blast

lemma event_hash_fixes_event_witness:
  "covered ''event_hash'' True (JObj example_event) = covered ''event_hash'' True (JObj example_event) \<or> sha_collision example_host"
  by (rule event_hash_fixes_event [OF example_event_upcast example_event_upcast refl example_event_facts(2,2)])

end
