(* ===== verification/Memory_Reducer.thy ===== *)
theory Memory_Reducer
  imports Memory_Events
begin

text \<open>
  The memory reducer, \<open>core/memory_v2/reducer.py\<close>: a patch is applied to a canonical memory operation
  by operation, each giving an event. The reducer of version 2.1 works on memories of version 2.0; the
  one of version 2.2 also checks the memory after every operation, and its events can be replayed. The
  code mutates a private copy of the memory, so an operation is a function from memory to memory.
\<close>

definition reducer_error :: "string \<Rightarrow> exn" where
  "reducer_error = MemoryReducerError"

section \<open>Operations\<close>

definition operation_id :: "host \<Rightarrow> dict \<Rightarrow> string res" where
  "operation_id h operation =
     (case dget operation ''id'' of
        JStr s \<Rightarrow> if py_strip s = [] then Inl (reducer_error (py_str h (dget operation ''op'') @ '' requires an id''))
                  else Inr (py_strip s)
      | _ \<Rightarrow> Inl (reducer_error (py_str h (dget operation ''op'') @ '' requires an id'')))"

definition operation_value_object :: "host \<Rightarrow> dict \<Rightarrow> dict res" where
  "operation_value_object h operation =
     (case dget_or operation ''value'' (JObj []) of
        JNull \<Rightarrow> Inr []
      | JObj d \<Rightarrow> Inr d
      | _ \<Rightarrow> Inl (reducer_error (py_str h (dget operation ''op'') @ '' value must be an object'')))"

text \<open>\<open>_ensure_dict\<close> and \<open>_ensure_list\<close>: the field (\<open>setdefault\<close>) and the memory that has it.\<close>

definition ensure_dict :: "dict \<Rightarrow> string \<Rightarrow> (dict \<times> dict) res" where
  "ensure_dict memory k =
     (let memory = dsetdefault k (JObj []) memory in
      case dget memory k of
        JObj d \<Rightarrow> Inr (d, memory)
      | _ \<Rightarrow> Inl (reducer_error (''canonical_memory.'' @ k @ '' must be an object'')))"

definition ensure_list :: "dict \<Rightarrow> string \<Rightarrow> (json list \<times> dict) res" where
  "ensure_list memory k =
     (let memory = dsetdefault k (JList []) memory in
      case dget memory k of
        JList xs \<Rightarrow> Inr (xs, memory)
      | _ \<Rightarrow> Inl (reducer_error (''canonical_memory.'' @ k @ '' must be a list'')))"

fun find_record_index :: "json list \<Rightarrow> string \<Rightarrow> nat option" where
  "find_record_index [] subject_id = None"
| "find_record_index (x # xs) subject_id =
     (if (case x of JObj r \<Rightarrow> dget r ''id'' = JStr subject_id | _ \<Rightarrow> False) then Some 0
      else map_option Suc (find_record_index xs subject_id))"

definition record_at :: "json list \<Rightarrow> nat option \<Rightarrow> json" where
  "record_at records index = (case index of None \<Rightarrow> JNull | Some i \<Rightarrow> records ! i)"

definition put_record :: "json list \<Rightarrow> nat option \<Rightarrow> json \<Rightarrow> json list" where
  "put_record records index r = (case index of None \<Rightarrow> records @ [r] | Some i \<Rightarrow> records[i := r])"

text \<open>\<open>_merge_record\<close>; a record that is not an object raises at its first item, or not at all.\<close>

fun merge_items :: "dict \<Rightarrow> dict \<Rightarrow> dict" where
  "merge_items merged [] = merged"
| "merge_items merged ((k, v) # items) =
     merge_items
       (case (k = ''data'', dget merged ''data'', v) of
          (True, JObj old, JObj new) \<Rightarrow> dset ''data'' (JObj (dupdate old new)) merged
        | _ \<Rightarrow> dset k v merged) items"

definition merge_record :: "json \<Rightarrow> dict \<Rightarrow> json res" where
  "merge_record old_value new_value =
     (case old_value of
        JObj d \<Rightarrow> Inr (JObj (merge_items d new_value))
      | _ \<Rightarrow> (case new_value of
           [] \<Rightarrow> Inr old_value
         | (k, v) # _ \<Rightarrow> if k = ''data'' then Inl AttributeError else Inl TypeError))"

fun get_path :: "json \<Rightarrow> string list \<Rightarrow> json" where
  "get_path current [] = current"
| "get_path current (part # parts) =
     (case current of
        JObj d \<Rightarrow> (case map_of d part of None \<Rightarrow> JNull | Some child \<Rightarrow> get_path child parts)
      | _ \<Rightarrow> JNull)"

definition get_dotted_value :: "json \<Rightarrow> string \<Rightarrow> json" where
  "get_dotted_value r field_path = get_path r (py_split (CHR ''.'') field_path)"

fun set_path :: "dict \<Rightarrow> string list \<Rightarrow> json \<Rightarrow> dict res" where
  "set_path current [] v = Inl (reducer_error ''field path must not be empty'')"
| "set_path current [part] v = Inr (dset part v current)"
| "set_path current (part # q # parts) v =
     (case dget_or current part (JObj []) of
        JObj child \<Rightarrow> rbind (set_path child (q # parts) v) (\<lambda>new. Inr (dset part (JObj new) current))
      | _ \<Rightarrow> Inl (reducer_error (''field path segment '' @ part @ '' is not an object'')))"

text \<open>A record that is not an object raises where the code first uses it as one.\<close>

definition set_dotted_value :: "json \<Rightarrow> string \<Rightarrow> json \<Rightarrow> json res" where
  "set_dotted_value r field_path v =
     (let parts = filter (\<lambda>p. p \<noteq> []) (py_split (CHR ''.'') field_path) in
      case r of
        JObj d \<Rightarrow> rbind (set_path d parts v) (\<lambda>new. Inr (JObj new))
      | _ \<Rightarrow> (case parts of
           [] \<Rightarrow> Inl (reducer_error ''field path must not be empty'')
         | [_] \<Rightarrow> Inl TypeError
         | _ \<Rightarrow> Inl AttributeError))"

definition canonical_timeline_record :: "host \<Rightarrow> string \<Rightarrow> dict \<Rightarrow> dict" where
  "canonical_timeline_record h subject_id d =
     (let data0 = (case dget d ''data'' of JObj x \<Rightarrow> x | _ \<Rightarrow> []);
          extra = filter (\<lambda>(k, v). k \<notin> {''id'', ''name'', ''chapter_index'', ''summary'', ''data''}) d;
          data = fold (\<lambda>(k, v) x. dsetdefault k v x) extra data0;
          summary = py_or (py_or (py_or (dget d ''summary'') (dget d ''event'')) (dget d ''text'')) (JStr subject_id)
      in [(''id'', JStr subject_id), (''summary'', JStr (py_str h summary)), (''data'', JObj data)] @
         (if nonblank (dget d ''name'') then [(''name'', dget d ''name'')] else []) @
         (case strict_int (dget d ''chapter_index'') of None \<Rightarrow> [] | Some i \<Rightarrow> [(''chapter_index'', JInt i)]))"

section \<open>Bookkeeping\<close>

definition patch_source :: "dict \<Rightarrow> dict res" where
  "patch_source patch =
     rbind (ditem patch ''patch_id'') (\<lambda>patch_id.
     case dget_or patch ''source'' (JObj []) of
       JObj s \<Rightarrow> Inr (dset ''patch_id'' patch_id s)
     | _ \<Rightarrow> Inl TypeError)"

definition record_source_index :: "host \<Rightarrow> dict \<Rightarrow> dict \<Rightarrow> dict res" where
  "record_source_index h memory patch =
     rbind (ensure_dict memory ''source_index'') (\<lambda>(index, memory).
     rbind (ditem patch ''patch_id'') (\<lambda>patch_id.
     Inr (dset ''source_index'' (JObj (dset (py_str h patch_id) (dget_or patch ''source'' (JObj [])) index)) memory)))"

definition record_source_resolution :: "dict \<Rightarrow> dict \<Rightarrow> string \<Rightarrow> dict res" where
  "record_source_resolution memory event patch_id =
     (case dget event ''field'' of
        JStr field \<Rightarrow>
          if field = [] then Inr memory
          else rbind (ensure_dict memory ''source_resolution'') (\<lambda>(resolution, memory).
            Inr (dset ''source_resolution'' (JObj (dset field
              (JObj [(''chosen_source'', JStr patch_id), (''reason'', JStr ''latest_patch_operation'')]) resolution)) memory))
      | _ \<Rightarrow> Inr memory)"

definition operation_metadata :: "dict \<Rightarrow> dict" where
  "operation_metadata operation =
     (case dget operation ''data'' of
        JObj d \<Rightarrow> if d = [] then [] else [(''operation_data'', JObj d)]
      | _ \<Rightarrow> [])"

definition event_id_of :: "int \<Rightarrow> json" where
  "event_id_of revision = JStr (''evt_'' @ show_06d revision)"

definition operation_event_args :: "dict \<Rightarrow> int \<Rightarrow> string \<Rightarrow> dict \<Rightarrow> json \<Rightarrow> string \<Rightarrow> event_args" where
  "operation_event_args operation revision op source subject_id field =
     \<lparr>ev_event_id = event_id_of revision, ev_revision = JInt revision, ev_op = JStr op, ev_source = source,
      ev_subject_id = subject_id, ev_field = JStr field, ev_metadata = operation_metadata operation\<rparr>"

section \<open>The reducer of version 2.1\<close>

definition supported_reducer_ops :: "string list" where
  "supported_reducer_ops = [''append_timeline_event'', ''update_character_state'', ''update_current_state'', ''update_world'',
     ''upsert_character'', ''upsert_constraint'', ''upsert_location'', ''upsert_open_thread'']"

text \<open>The event of a change: \<open>_event\<close>, with the memory after it.\<close>

definition operation_event ::
  "host \<Rightarrow> dict \<Rightarrow> int \<Rightarrow> dict \<Rightarrow> json \<Rightarrow> string \<Rightarrow> json \<Rightarrow> json \<Rightarrow> dict res" where
  "operation_event h operation revision source subject_id field old_value new_value =
     rbind (ditem operation ''op'') (\<lambda>op.
     create_untyped_memory_event h ''2.1''
       (operation_event_args operation revision (py_str h op) source subject_id field) old_value new_value)"

definition fill_map_record :: "string \<Rightarrow> string \<Rightarrow> json \<Rightarrow> json res" where
  "fill_map_record default_name_prefix subject_id merged =
     (case merged of
        JObj r \<Rightarrow>
          (let r = (if \<not> nonblank (dget r ''name'') then dset ''name'' (JStr (default_name_prefix @ ''_'' @ subject_id)) r else r);
               r = (if \<not> is_dict (dget r ''data'') then dset ''data'' (JObj []) r else r)
           in Inr (JObj r))
      | _ \<Rightarrow> Inl AttributeError)"

definition upsert_map_record ::
  "host \<Rightarrow> dict \<Rightarrow> dict \<Rightarrow> int \<Rightarrow> dict \<Rightarrow> string \<Rightarrow> string \<Rightarrow> (dict \<times> dict) res" where
  "upsert_map_record h memory operation revision source collection default_name_prefix =
     rbind (operation_id h operation) (\<lambda>subject_id.
     rbind (ensure_dict memory collection) (\<lambda>(records, memory).
     rbind (operation_value_object h operation) (\<lambda>v.
     let old_value = dget records subject_id in
     rbind (merge_record (if old_value = JNull then JObj [(''name'', JStr subject_id), (''data'', JObj [])] else old_value) v) (\<lambda>merged.
     rbind (fill_map_record default_name_prefix subject_id merged) (\<lambda>new_value.
     rbind (operation_event h operation revision source (JStr subject_id) (collection @ ''.'' @ subject_id) old_value new_value) (\<lambda>event.
     Inr (dset collection (JObj (dset subject_id new_value records)) memory, event)))))))"

definition list_record_value :: "host \<Rightarrow> string \<Rightarrow> string option \<Rightarrow> bool \<Rightarrow> dict \<Rightarrow> dict" where
  "list_record_value h subject_id default_status default_summary v =
     (let v = dset ''id'' (JStr subject_id) v;
          v = (if default_summary then canonical_timeline_record h subject_id v else v);
          v = (case default_status of None \<Rightarrow> v | Some s \<Rightarrow> dsetdefault ''status'' (JStr s) v);
          v = dsetdefault ''data'' (JObj []) v
      in if \<not> is_dict (dget v ''data'') then dset ''data'' (JObj [(''value'', dget v ''data'')]) v else v)"

definition upsert_list_record ::
  "host \<Rightarrow> dict \<Rightarrow> dict \<Rightarrow> int \<Rightarrow> dict \<Rightarrow> string \<Rightarrow> string option \<Rightarrow> bool \<Rightarrow> (dict \<times> dict) res" where
  "upsert_list_record h memory operation revision source collection default_status default_summary =
     rbind (operation_id h operation) (\<lambda>subject_id.
     rbind (ensure_list memory collection) (\<lambda>(records, memory).
     rbind (operation_value_object h operation) (\<lambda>v.
     let index = find_record_index records subject_id;
         old_value = record_at records index in
     rbind (merge_record (py_or old_value (JObj [])) (list_record_value h subject_id default_status default_summary v)) (\<lambda>new_value.
     rbind (operation_event h operation revision source (JStr subject_id) (collection @ ''.'' @ subject_id) old_value new_value) (\<lambda>event.
     Inr (dset collection (JList (put_record records index new_value)) memory, event))))))"

definition selected :: "dict \<Rightarrow> string list \<Rightarrow> dict" where
  "selected d ks = map (\<lambda>k. (k, dget d k)) ks"

definition update_section ::
  "host \<Rightarrow> dict \<Rightarrow> dict \<Rightarrow> int \<Rightarrow> dict \<Rightarrow> string \<Rightarrow> dict \<Rightarrow> (dict \<times> dict) res" where
  "update_section h memory operation revision source field v =
     rbind (ensure_dict memory field) (\<lambda>(current, memory).
     let new = dupdate current v in
     rbind (operation_event h operation revision source JNull field
        (JObj (selected current (dkeys v))) (JObj (selected new (dkeys v)))) (\<lambda>event.
     Inr (dset field (JObj new) memory, event)))"

definition update_current_state :: "host \<Rightarrow> dict \<Rightarrow> dict \<Rightarrow> int \<Rightarrow> dict \<Rightarrow> (dict \<times> dict) res" where
  "update_current_state h memory operation revision source =
     rbind (operation_value_object h operation) (\<lambda>v.
     update_section h memory operation revision source ''current_state'' v)"

definition update_world :: "host \<Rightarrow> dict \<Rightarrow> dict \<Rightarrow> int \<Rightarrow> dict \<Rightarrow> (dict \<times> dict) res" where
  "update_world h memory operation revision source =
     (case dget_or operation ''value'' (JObj []) of
        JObj v \<Rightarrow> update_section h memory operation revision source ''world'' v
      | _ \<Rightarrow> Inl (reducer_error ''update_world value must be an object''))"

definition update_character_state :: "host \<Rightarrow> dict \<Rightarrow> dict \<Rightarrow> int \<Rightarrow> dict \<Rightarrow> (dict \<times> dict) res" where
  "update_character_state h memory operation revision source =
     rbind (operation_id h operation) (\<lambda>subject_id.
     if \<not> nonblank (dget operation ''field'') then Inl (reducer_error ''update_character_state requires a field'')
     else
       let field_path = (case dget operation ''field'' of JStr s \<Rightarrow> s | _ \<Rightarrow> []) in
       rbind (ensure_dict memory ''characters'') (\<lambda>(characters, memory).
       case dget_or characters subject_id (JObj [(''name'', JStr subject_id), (''data'', JObj [])]) of
         JObj c \<Rightarrow>
           (let character = dsetdefault ''data'' (JObj []) (dsetdefault ''name'' (JStr subject_id) c) in
            rbind (set_dotted_value (JObj character) field_path (dget operation ''value'')) (\<lambda>new.
            rbind (operation_event h operation revision source (JStr subject_id)
                (''characters.'' @ subject_id @ ''.'' @ field_path)
                (get_dotted_value (JObj character) field_path) (get_dotted_value new field_path)) (\<lambda>event.
            Inr (dset ''characters'' (JObj (dset subject_id new characters)) memory, event))))
       | _ \<Rightarrow> Inl (reducer_error (''character '' @ subject_id @ '' must be an object''))))"

definition apply_operation :: "host \<Rightarrow> dict \<Rightarrow> dict \<Rightarrow> int \<Rightarrow> dict \<Rightarrow> (dict \<times> dict) res" where
  "apply_operation h memory operation revision source =
     rbind (ditem operation ''op'') (\<lambda>v.
     let op = py_str h v in
     if op = ''upsert_character'' then upsert_map_record h memory operation revision source ''characters'' ''character''
     else if op = ''upsert_location'' then upsert_map_record h memory operation revision source ''locations'' ''location''
     else if op = ''upsert_constraint'' then upsert_list_record h memory operation revision source ''constraints'' (Some ''active'') False
     else if op = ''append_timeline_event'' then upsert_list_record h memory operation revision source ''timeline'' None True
     else if op = ''update_current_state'' then update_current_state h memory operation revision source
     else if op = ''upsert_open_thread'' then upsert_list_record h memory operation revision source ''open_threads'' (Some ''open'') False
     else if op = ''update_character_state'' then update_character_state h memory operation revision source
     else if op = ''update_world'' then update_world h memory operation revision source
     else Inl (reducer_error (''unsupported memory operation: '' @ op)))"

definition operation_op :: "host \<Rightarrow> json \<Rightarrow> (dict \<times> string) res" where
  "operation_op h operation =
     (case operation of
        JObj d \<Rightarrow> Inr (d, py_str h (py_or (dget d ''op'') (JStr [])))
      | _ \<Rightarrow> Inl AttributeError)"

fun operations_v21 :: "host \<Rightarrow> dict \<Rightarrow> string \<Rightarrow> dict \<Rightarrow> int \<Rightarrow> json list \<Rightarrow> (dict \<times> dict list) res" where
  "operations_v21 h source patch_id working revision [] = Inr (working, [])"
| "operations_v21 h source patch_id working revision (x # xs) =
     rbind (operation_op h x) (\<lambda>(operation, op).
     if op \<notin> set supported_reducer_ops then Inl (reducer_error (''unsupported memory operation: '' @ op))
     else
       rbind (apply_operation h working operation (revision + 1) source) (\<lambda>(changed, event).
       rbind (validate_memory_event h None (JObj event)) (\<lambda>_.
       rbind (record_source_resolution (dset ''revision'' (JInt (revision + 1)) changed) event patch_id) (\<lambda>working'.
       rbind (operations_v21 h source patch_id working' (revision + 1) xs) (\<lambda>(final, events).
       Inr (final, event # events))))))"

definition apply_memory_patch_v21 :: "host \<Rightarrow> authority \<Rightarrow> json \<Rightarrow> json \<Rightarrow> (dict \<times> dict list) res" where
  "apply_memory_patch_v21 h auth canonical_memory patch =
     rbind (validate_canonical_memory h auth canonical_memory) (\<lambda>memory.
     if dget memory ''schema_version'' \<noteq> JStr ''2.0''
     then Inl (reducer_error ''memory-reducer-2.1 requires CanonicalMemory 2.0'')
     else
       rbind (validate_memory_patch h patch) (\<lambda>p.
       let operations = dget_or p ''operations'' (JList []) in
       if \<not> truthy operations then Inr (memory, [])
       else
         rbind (patch_source p) (\<lambda>source.
         rbind (ditem p ''patch_id'') (\<lambda>patch_id.
         rbind (record_source_index h memory p) (\<lambda>working.
         rbind (py_int (dget_or working ''revision'' (JInt 1))) (\<lambda>revision.
         rbind (py_iter operations) (\<lambda>ops.
         rbind (operations_v21 h source (py_str h patch_id) working revision ops) (\<lambda>(final, events).
         rbind (validate_canonical_memory h auth (JObj final)) (\<lambda>_.
         Inr (final, events))))))))))"

section \<open>The authoritative state of a version 2.2 memory\<close>

definition authority_collections :: "string list" where
  "authority_collections = [''characters'', ''relationships'', ''roster'', ''numeric_counters'', ''inventory'', ''locations'', ''events'']"

text \<open>\<open>(memory.get(key) or {}).items()\<close>.\<close>

definition items_of :: "dict \<Rightarrow> string \<Rightarrow> dict res" where
  "items_of d k = (case py_or (dget d k) (JObj []) of JObj m \<Rightarrow> Inr m | _ \<Rightarrow> Inl AttributeError)"

definition str_or :: "host \<Rightarrow> json \<Rightarrow> json \<Rightarrow> string" where
  "str_or h a b = py_str h (py_or a b)"

definition sub_dict :: "dict \<Rightarrow> string \<Rightarrow> dict" where
  "sub_dict d k = (case dget d k of JObj m \<Rightarrow> m | _ \<Rightarrow> [])"

definition put_in :: "string \<Rightarrow> string \<Rightarrow> dict \<Rightarrow> dict \<Rightarrow> dict" where
  "put_in collection k r state = dset collection (JObj (dset k (JObj r) (sub_dict state collection))) state"

definition legacy_seed_source_tier :: "host \<Rightarrow> dict \<Rightarrow> string res" where
  "legacy_seed_source_tier h memory =
     (case py_or (dget memory ''source_index'') (JObj []) of
        JObj index \<Rightarrow>
          (let kinds = concat (map (\<lambda>(k, v). case v of JObj item \<Rightarrow> [str_or h (dget item ''kind'') (JStr [])] | _ \<Rightarrow> []) index)
           in Inr (if list_ex (\<lambda>k. k \<in> {''story_project'', ''source_sync'', ''migration''}) kinds
                   then ''story_project_standard'' else ''model_inference''))
      | _ \<Rightarrow> Inl AttributeError)"

definition seed_character :: "host \<Rightarrow> string \<Rightarrow> string \<times> json \<Rightarrow> dict \<Rightarrow> dict res" where
  "seed_character h tier entry state =
     (case entry of (character_id, raw_value) \<Rightarrow>
       (case raw_value of
          JObj raw \<Rightarrow>
            (let data = sub_dict raw ''data'' in
             rbind (py_iter (py_or (dget data ''aliases'') (JList []))) (\<lambda>aliases.
             let state = put_in ''characters'' character_id
                   [(''character_id'', JStr character_id),
                    (''canonical_name'', JStr (str_or h (dget raw ''name'') (JStr character_id))),
                    (''aliases'', JList aliases),
                    (''identity'', JStr (str_or h (py_or (dget data ''identity'') (dget data ''role'')) (JStr []))),
                    (''status'', JStr (str_or h (py_or (dget raw ''status'') (dget data ''status'')) (JStr ''unknown''))),
                    (''source_tier'', JStr tier)] state;
                 location = dget_or (sub_dict raw ''state'') ''current_location'' (dget data ''current_location'')
             in Inr (if location = JNull \<or> location = JStr [] then state
                     else put_in ''locations'' character_id
                       [(''entity_id'', JStr character_id), (''location_id'', location), (''source_tier'', JStr tier)] state)))
        | _ \<Rightarrow> Inr state))"

definition seed_relationship :: "host \<Rightarrow> string \<Rightarrow> string \<times> json \<Rightarrow> dict \<Rightarrow> dict" where
  "seed_relationship h tier entry state =
     (case entry of (relationship_id, raw_value) \<Rightarrow>
       (case raw_value of
          JObj raw \<Rightarrow>
            (let source_id = str_or h (dget raw ''source_character_id'') (JStr []);
                 target_id = str_or h (dget raw ''target_character_id'') (JStr []);
                 relation_type = str_or h (py_or (dget raw ''type'') (dget raw ''kind'')) (JStr [])
             in if source_id \<noteq> [] \<and> target_id \<noteq> [] \<and> relation_type \<noteq> []
                then put_in ''relationships'' relationship_id
                  (dupdate raw [(''relationship_id'', JStr relationship_id), (''source_character_id'', JStr source_id),
                     (''target_character_id'', JStr target_id), (''type'', JStr relation_type), (''source_tier'', JStr tier)]) state
                else state)
        | _ \<Rightarrow> state))"

definition seed_item :: "string \<Rightarrow> string \<Rightarrow> string \<times> json \<Rightarrow> dict \<Rightarrow> dict" where
  "seed_item tier owner_id entry state =
     (case entry of (item_id, v) \<Rightarrow>
       (case v of
          JObj item \<Rightarrow>
            (let key = owner_id @ '':'' @ item_id in
             put_in ''inventory'' key
               [(''inventory_id'', JStr key), (''owner_id'', JStr owner_id), (''item_id'', JStr item_id),
                (''quantity'', dget_or item ''quantity'' (JInt 0)), (''source_tier'', JStr tier)] state)
        | _ \<Rightarrow> state))"

definition seed_inventory :: "host \<Rightarrow> string \<Rightarrow> string \<times> json \<Rightarrow> dict \<Rightarrow> dict res" where
  "seed_inventory h tier entry state =
     (case snd entry of
        JObj raw \<Rightarrow>
          rbind (items_of raw ''items'') (\<lambda>items.
          Inr (fold (seed_item tier (str_or h (dget raw ''owner_id'') (JStr ''world''))) items state))
      | _ \<Rightarrow> Inr state)"

definition seed_from_records :: "host \<Rightarrow> authority \<Rightarrow> dict \<Rightarrow> dict res" where
  "seed_from_records h auth memory =
     rbind (legacy_seed_source_tier h memory) (\<lambda>tier.
     rbind (items_of memory ''characters'') (\<lambda>characters.
     rbind (rfold (seed_character h tier) characters empty_authoritative_state) (\<lambda>state.
     rbind (items_of memory ''relationships'') (\<lambda>relationships.
     let state = fold (seed_relationship h tier) relationships state in
     rbind (items_of memory ''inventories'') (\<lambda>inventories.
     rbind (rfold (seed_inventory h tier) inventories state) (\<lambda>state.
     validate_authoritative_state auth state))))))"

definition seed_authoritative_state :: "host \<Rightarrow> authority \<Rightarrow> dict \<Rightarrow> dict res" where
  "seed_authoritative_state h auth memory =
     (case dget memory ''authoritative_state'' of
        JObj existing \<Rightarrow>
          if list_ex (\<lambda>k. truthy (dget existing k)) authority_collections then validate_authoritative_state auth existing
          else seed_from_records h auth memory
      | _ \<Rightarrow> seed_from_records h auth memory)"

definition merge_collection :: "dict \<Rightarrow> string \<Rightarrow> dict \<Rightarrow> dict res" where
  "merge_collection baseline collection merged =
     rbind (ditem merged collection) (\<lambda>a.
     rbind (ditem baseline collection) (\<lambda>b.
     case a of
       JObj x \<Rightarrow> (case b of JObj y \<Rightarrow> Inr (dset collection (JObj (dupdate x y)) merged) | _ \<Rightarrow> Inl TypeError)
     | _ \<Rightarrow> Inl AttributeError))"

definition joined_codes :: "string list \<Rightarrow> string" where
  "joined_codes codes = (let s = py_join '', '' codes in if s = [] then ''unknown'' else s)"

definition merge_authoritative_baseline :: "authority \<Rightarrow> dict \<Rightarrow> dict \<Rightarrow> dict res" where
  "merge_authoritative_baseline auth current baseline =
     rbind (validate_authoritative_state auth current) (\<lambda>merged.
     rbind (validate_authoritative_state auth baseline) (\<lambda>validated.
     rbind (rfold (merge_collection validated) authority_collections merged) (\<lambda>merged'.
     case validate_authoritative_state auth merged' of
       Inl (AuthoritativeStateError codes) \<Rightarrow>
         Inl (reducer_error (''authoritative StoryProject baseline conflict: '' @ joined_codes codes))
     | r \<Rightarrow> r)))"

section \<open>The operations of version 2.2\<close>

text \<open>The subject, the field, the value before and the value after of a change, and the memory.\<close>

type_synonym mutation = "json \<times> string \<times> json \<times> json \<times> dict"

definition typed_record_defaults :: "string \<Rightarrow> string \<Rightarrow> int \<Rightarrow> dict" where
  "typed_record_defaults collection record_id revision =
     (let i = (''id'', JStr record_id); d = (''data'', JObj []); s = (\<lambda>x. (''status'', JStr x)) in
      if collection \<in> {''characters'', ''locations''} then [i, (''name'', JStr record_id), s ''unknown'', d]
      else if collection = ''relationships'' then [i, (''kind'', JStr ''unknown''), s ''unknown'', d]
      else if collection = ''injuries''
      then [i, (''description'', JStr record_id), (''severity'', JStr ''minor''), s ''active'', d]
      else if collection = ''inventories'' then [i, (''owner_id'', JStr ''world''), (''items'', JObj []), d]
      else if collection = ''resources''
      then [i, (''name'', JStr record_id), (''quantity'', JInt 0), (''unit'', JStr ''unit''), s ''available'', d]
      else if collection = ''glossary''
      then [i, (''term'', JStr record_id), (''definition'', JStr record_id), s ''active'', d]
      else if collection = ''corruption''
      then [i, (''subject_id'', JStr ''world''), (''level'', JInt 0), s ''stable'', d]
      else [i, (''description'', JStr record_id), s ''seeded'', (''introduced_revision'', JInt revision),
            (''resolved_revision'', JNull), d])"

definition collection_by_op :: "(string \<times> string) list" where
  "collection_by_op =
     [(''upsert_character'', ''characters''), (''upsert_location'', ''locations''), (''upsert_relationship'', ''relationships''),
      (''upsert_injury'', ''injuries''), (''upsert_inventory'', ''inventories''), (''upsert_resource'', ''resources''),
      (''upsert_glossary_entry'', ''glossary''), (''upsert_corruption'', ''corruption''), (''upsert_foreshadowing'', ''foreshadowing'')]"

definition mutate_authoritative_state :: "host \<Rightarrow> authority \<Rightarrow> dict \<Rightarrow> dict \<Rightarrow> mutation res" where
  "mutate_authoritative_state h auth memory operation =
     rbind (seed_authoritative_state h auth memory) (\<lambda>base0.
     rbind (operation_value_object h operation) (\<lambda>v.
     rbind (case dget v ''baseline_state'' of
              JObj baseline \<Rightarrow> if baseline = [] then Inr base0 else merge_authoritative_baseline auth base0 baseline
            | _ \<Rightarrow> Inr base0) (\<lambda>base.
     rbind (authoritative_delta auth base (dpop ''baseline_state'' v)) (\<lambda>report.
     case report of
       Inl codes \<Rightarrow> Inl (reducer_error (''authoritative state conflict: '' @ joined_codes codes))
     | Inr after \<Rightarrow> Inr (JNull, ''authoritative_state'', dget memory ''authoritative_state'', JObj after,
                        dset ''authoritative_state'' (JObj after) memory)))))"

definition mutate_record :: "host \<Rightarrow> dict \<Rightarrow> dict \<Rightarrow> int \<Rightarrow> string \<Rightarrow> mutation res" where
  "mutate_record h memory operation revision collection =
     rbind (operation_id h operation) (\<lambda>record_id.
     rbind (ensure_dict memory collection) (\<lambda>(records, memory).
     let before = dget records record_id in
     rbind (operation_value_object h operation) (\<lambda>v.
     rbind (if before \<noteq> JNull \<and> \<not> is_dict before \<and> v = [] then Inl TypeError
            else merge_record (if before = JNull then JObj (typed_record_defaults collection record_id revision) else before) v) (\<lambda>merged.
     case merged of
       JObj r \<Rightarrow>
         (let after = JObj (dsetdefault ''data'' (JObj []) (dset ''id'' (JStr record_id) r)) in
          Inr (JStr record_id, collection @ ''.'' @ record_id, before, after,
               dset collection (JObj (dset record_id after records)) memory))
     | _ \<Rightarrow> Inl TypeError))))"

definition mutate_delete :: "host \<Rightarrow> dict \<Rightarrow> dict \<Rightarrow> mutation res" where
  "mutate_delete h memory operation =
     (case dget operation ''field'' of
        JStr collection \<Rightarrow>
          if collection \<notin> set typed_collections then Inl (reducer_error ''delete_record field must name a typed collection'')
          else
            rbind (operation_id h operation) (\<lambda>record_id.
            rbind (ensure_dict memory collection) (\<lambda>(records, memory).
            if \<not> dhas records record_id
            then Inl (reducer_error (''cannot delete missing '' @ collection @ ''.'' @ record_id))
            else Inr (JStr record_id, collection @ ''.'' @ record_id, dget records record_id, JNull,
                      dset collection (JObj (dpop record_id records)) memory)))
      | _ \<Rightarrow> Inl (reducer_error ''delete_record field must name a typed collection''))"

definition mutate_story_time :: "host \<Rightarrow> dict \<Rightarrow> dict \<Rightarrow> mutation res" where
  "mutate_story_time h memory operation =
     rbind (ditem memory ''story_time'') (\<lambda>before.
     rbind (operation_value_object h operation) (\<lambda>v.
     case before of
       JObj b \<Rightarrow>
         (let after = JObj (dupdate b v) in
          Inr (JNull, ''story_time'', before, after, dset ''story_time'' after memory))
     | _ \<Rightarrow> Inl TypeError))"

definition mutate_section :: "host \<Rightarrow> dict \<Rightarrow> dict \<Rightarrow> string \<Rightarrow> mutation res" where
  "mutate_section h memory operation field =
     rbind (operation_value_object h operation) (\<lambda>v.
     rbind (ensure_dict memory field) (\<lambda>(current, memory).
     let after = JObj (dupdate current v) in
     Inr (JNull, field, JObj current, after, dset field after memory)))"

definition mutate_character_state :: "host \<Rightarrow> dict \<Rightarrow> dict \<Rightarrow> int \<Rightarrow> mutation res" where
  "mutate_character_state h memory operation revision =
     rbind (operation_id h operation) (\<lambda>character_id.
     if \<not> nonblank (dget operation ''field'') then Inl (reducer_error ''update_character_state requires a field'')
     else
       let field_path = (case dget operation ''field'' of JStr s \<Rightarrow> s | _ \<Rightarrow> []) in
       rbind (ensure_dict memory ''characters'') (\<lambda>(characters, memory).
       let character = dget_or characters character_id (JObj (typed_record_defaults ''characters'' character_id revision)) in
       rbind (set_dotted_value character field_path (dget operation ''value'')) (\<lambda>new.
       Inr (JStr character_id, ''characters.'' @ character_id @ ''.'' @ field_path,
            get_dotted_value character field_path, get_dotted_value new field_path,
            dset ''characters'' (JObj (dset character_id new characters)) memory))))"

definition mutate_timeline :: "host \<Rightarrow> dict \<Rightarrow> dict \<Rightarrow> mutation res" where
  "mutate_timeline h memory operation =
     rbind (operation_id h operation) (\<lambda>event_id.
     rbind (ensure_list memory ''timeline'') (\<lambda>(timeline, memory).
     let index = find_record_index timeline event_id;
         before = record_at timeline index in
     rbind (operation_value_object h operation) (\<lambda>v.
     rbind (merge_record (py_or before (JObj [])) (canonical_timeline_record h event_id v)) (\<lambda>after.
     Inr (JStr event_id, ''timeline.'' @ event_id, before, after,
          dset ''timeline'' (JList (put_record timeline index after)) memory)))))"

definition mutate_list_record :: "host \<Rightarrow> dict \<Rightarrow> dict \<Rightarrow> string \<Rightarrow> string \<Rightarrow> mutation res" where
  "mutate_list_record h memory operation collection default_status =
     rbind (operation_id h operation) (\<lambda>record_id.
     rbind (ensure_list memory collection) (\<lambda>(records, memory).
     let index = find_record_index records record_id;
         before = record_at records index in
     rbind (operation_value_object h operation) (\<lambda>v.
     let filled = dsetdefault ''data'' (JObj []) (dsetdefault ''status'' (JStr default_status) (dset ''id'' (JStr record_id) v)) in
     rbind (merge_record (py_or before (JObj [])) filled) (\<lambda>after.
     Inr (JStr record_id, collection @ ''.'' @ record_id, before, after,
          dset collection (JList (put_record records index after)) memory)))))"

definition mutate_operation_v22 :: "host \<Rightarrow> authority \<Rightarrow> dict \<Rightarrow> dict \<Rightarrow> int \<Rightarrow> mutation res" where
  "mutate_operation_v22 h auth memory operation revision =
     rbind (ditem operation ''op'') (\<lambda>w.
     let op = py_str h w in
     if op = ''update_authoritative_state'' then mutate_authoritative_state h auth memory operation
     else (case map_of collection_by_op op of
        Some collection \<Rightarrow> mutate_record h memory operation revision collection
      | None \<Rightarrow>
         if op = ''delete_record'' then mutate_delete h memory operation
         else if op = ''update_story_time'' then mutate_story_time h memory operation
         else if op = ''update_world'' then mutate_section h memory operation ''world''
         else if op = ''update_current_state'' then mutate_section h memory operation ''current_state''
         else if op = ''update_character_state'' then mutate_character_state h memory operation revision
         else if op = ''append_timeline_event'' then mutate_timeline h memory operation
         else if op = ''upsert_constraint'' then mutate_list_record h memory operation ''constraints'' ''active''
         else if op = ''upsert_open_thread'' then mutate_list_record h memory operation ''open_threads'' ''open''
         else Inl (reducer_error (''unsupported memory operation for memory-reducer-2.2: '' @ op))))"

section \<open>The reducer of version 2.2\<close>

definition typed_reducer_ops :: "string list" where
  "typed_reducer_ops = supported_reducer_ops @ [''delete_record'', ''update_story_time'', ''upsert_corruption'',
     ''upsert_foreshadowing'', ''upsert_glossary_entry'', ''upsert_injury'', ''upsert_inventory'', ''upsert_relationship'',
     ''upsert_resource'', ''update_authoritative_state'']"

text \<open>The chapter, its hash, the spans and the epoch of an event context that was checked.\<close>

record event_context =
  cx_chapter_body :: string
  cx_chapter_body_sha256 :: string
  cx_evidence_spans :: json
  cx_authority_epoch :: int

definition validate_event_context :: "host \<Rightarrow> json \<Rightarrow> dict \<Rightarrow> event_context res" where
  "validate_event_context h event_context memory =
     (case event_context of
        JObj context \<Rightarrow>
          (case strict_int (dget context ''authority_epoch'') of
             None \<Rightarrow> Inl (reducer_error ''event_context authority_epoch must be a positive integer'')
           | Some epoch \<Rightarrow>
               rbind (rbind (ditem memory ''authority_epoch'') py_int) (\<lambda>memory_epoch.
               if epoch \<noteq> memory_epoch
               then Inl (reducer_error ''event_context authority_epoch does not match canonical memory'')
               else (case dget context ''chapter_body'' of
                  JStr body \<Rightarrow>
                    (case dget context ''evidence_spans'' of
                       JList (x # xs) \<Rightarrow>
                         if dget context ''chapter_body_sha256'' \<noteq> JNull \<and>
                            dget context ''chapter_body_sha256'' \<noteq> JStr (sha256_hex h body)
                         then Inl (reducer_error ''event_context chapter_body_sha256 mismatch'')
                         else Inr \<lparr>cx_chapter_body = body, cx_chapter_body_sha256 = sha256_hex h body,
                                  cx_evidence_spans = JList (x # xs), cx_authority_epoch = epoch\<rparr>
                     | _ \<Rightarrow> Inl (reducer_error ''event_context requires evidence_spans''))
                | _ \<Rightarrow> Inl (reducer_error ''event_context requires chapter_body so evidence offsets can be verified''))))
      | _ \<Rightarrow> Inl (reducer_error ''memory-reducer-2.2 requires event_context''))"

definition v22_event_args :: "json \<Rightarrow> json \<Rightarrow> event_context \<Rightarrow> int \<Rightarrow> json \<Rightarrow> string \<Rightarrow> typed_event_args" where
  "v22_event_args before after context previous_revision previous_head before_hash =
     \<lparr>ty_before = before, ty_after = after,
      ty_precondition = JObj [(''expected_revision'', JInt previous_revision),
        (''expected_head_event_hash'', previous_head), (''expected_field_hash'', JStr before_hash)],
      ty_chapter_body = JStr (cx_chapter_body context), ty_chapter_body_sha256 = JStr (cx_chapter_body_sha256 context),
      ty_evidence_spans = cx_evidence_spans context, ty_authority_epoch = JInt (cx_authority_epoch context),
      ty_reducer_version = JStr current_reducer_version\<rparr>"

text \<open>One turn of the loop: the memory after the operation, and its event.\<close>

definition step_v22 ::
  "host \<Rightarrow> authority \<Rightarrow> event_context \<Rightarrow> dict \<Rightarrow> string \<Rightarrow> dict \<Rightarrow> json \<Rightarrow> (dict \<times> dict) res" where
  "step_v22 h auth context source patch_id working x =
     rbind (operation_op h x) (\<lambda>(operation, op).
     if op \<notin> set typed_reducer_ops
     then Inl (reducer_error (''unsupported memory operation for memory-reducer-2.2: '' @ op))
     else
       rbind (rbind (ditem working ''revision'') py_int) (\<lambda>previous_revision.
       rbind (mutate_operation_v22 h auth working operation (previous_revision + 1)) (\<lambda>(subject_id, field, before, after, changed).
       rbind (canonical_json_hash h [] True before) (\<lambda>before_hash.
       rbind (create_typed_memory_event h
           (operation_event_args operation (previous_revision + 1) op source subject_id field)
           (v22_event_args before after context previous_revision (dget working ''head_event_hash'') before_hash)) (\<lambda>event.
       rbind (ditem event ''event_hash'') (\<lambda>event_hash.
       rbind (record_source_resolution
           (dset ''head_event_hash'' event_hash (dset ''revision'' (JInt (previous_revision + 1)) changed)) event patch_id) (\<lambda>working'.
       rbind (validate_canonical_memory h auth (JObj working')) (\<lambda>_.
       Inr (working', event)))))))))"

fun steps_v22 ::
  "host \<Rightarrow> authority \<Rightarrow> event_context \<Rightarrow> dict \<Rightarrow> string \<Rightarrow> dict \<Rightarrow> json list \<Rightarrow> (dict \<times> dict list) res" where
  "steps_v22 h auth context source patch_id working [] = Inr (working, [])"
| "steps_v22 h auth context source patch_id working (x # xs) =
     rbind (step_v22 h auth context source patch_id working x) (\<lambda>(working', event).
     rbind (steps_v22 h auth context source patch_id working' xs) (\<lambda>(final, events).
     Inr (final, event # events)))"

definition apply_memory_patch_v22 ::
  "host \<Rightarrow> authority \<Rightarrow> json \<Rightarrow> json \<Rightarrow> json \<Rightarrow> (dict \<times> dict list) res" where
  "apply_memory_patch_v22 h auth canonical_memory patch event_context =
     rbind (validate_canonical_memory h auth canonical_memory) (\<lambda>memory.
     if dget memory ''schema_version'' \<noteq> JStr ''2.2''
     then Inl (reducer_error ''memory-reducer-2.2 requires CanonicalMemory 2.2'')
     else
       rbind (validate_memory_patch h patch) (\<lambda>p.
       let operations = dget_or p ''operations'' (JList []) in
       if \<not> truthy operations then Inr (memory, [])
       else
         rbind (validate_event_context h event_context memory) (\<lambda>context.
         rbind (patch_source p) (\<lambda>source.
         rbind (ditem p ''patch_id'') (\<lambda>patch_id.
         rbind (record_source_index h memory p) (\<lambda>working.
         rbind (py_iter operations) (\<lambda>ops.
         steps_v22 h auth context source (py_str h patch_id) working ops)))))))"

definition validated_reducer_version :: "host \<Rightarrow> json \<Rightarrow> string res" where
  "validated_reducer_version h v =
     (case require_supported_reducer_version h v of
        Inl (UnsupportedMemoryVersionError msg) \<Rightarrow> Inl (reducer_error msg)
      | r \<Rightarrow> r)"

definition apply_memory_patch ::
  "host \<Rightarrow> authority \<Rightarrow> dict \<Rightarrow> json \<Rightarrow> json \<Rightarrow> json \<Rightarrow> (dict \<times> dict list) res" where
  "apply_memory_patch h auth canonical_memory patch reducer_version event_context =
     (let inferred = (if dget canonical_memory ''schema_version'' = JStr ''2.2'' then current_reducer_version else legacy_reducer_version) in
      rbind (validated_reducer_version h (py_or reducer_version (JStr inferred))) (\<lambda>version.
      if version = legacy_reducer_version then apply_memory_patch_v21 h auth (JObj canonical_memory) patch
      else apply_memory_patch_v22 h auth (JObj canonical_memory) patch event_context))"

section \<open>Replay\<close>

definition record_lists :: "string list" where
  "record_lists = [''timeline'', ''constraints'', ''open_threads'']"

definition list_field :: "string list \<Rightarrow> bool" where
  "list_field parts \<longleftrightarrow> length parts = 2 \<and> hd parts \<in> set record_lists"

definition read_event_field :: "dict \<Rightarrow> string \<Rightarrow> json" where
  "read_event_field memory field =
     (if field = ''$'' then JObj memory
      else
        let parts = py_split (CHR ''.'') field in
        if list_field parts
        then (case dget_or memory (hd parts) (JList []) of
                JList records \<Rightarrow> record_at records (find_record_index records (parts ! 1))
              | _ \<Rightarrow> JNull)
        else get_dotted_value (JObj memory) field)"

definition remove_at :: "nat \<Rightarrow> 'a list \<Rightarrow> 'a list" where
  "remove_at i xs = take i xs @ drop (Suc i) xs"

text \<open>\<open>drop\<close>: whether the last segment is deleted when the value is \<open>None\<close>.\<close>

fun write_path :: "bool \<Rightarrow> dict \<Rightarrow> string list \<Rightarrow> json \<Rightarrow> dict res" where
  "write_path delete current [] v = Inr current"
| "write_path delete current [part] v = Inr (if v = JNull \<and> delete then dpop part current else dset part v current)"
| "write_path delete current (part # q # parts) v =
     (case dget current part of
        JObj child \<Rightarrow> rbind (write_path delete child (q # parts) v) (\<lambda>new. Inr (dset part (JObj new) current))
      | _ \<Rightarrow> Inl (reducer_error (''event field path segment '' @ part @ '' is not an object'')))"

definition write_event_field :: "dict \<Rightarrow> string \<Rightarrow> json \<Rightarrow> dict res" where
  "write_event_field memory field v =
     (if field = ''$'' then Inl (reducer_error ''root replacement is allowed only for genesis'')
      else
        let parts = py_split (CHR ''.'') field in
        if list_field parts
        then rbind (ensure_list memory (hd parts)) (\<lambda>(records, memory).
          let index = find_record_index records (parts ! 1);
              new = (if v = JNull then (case index of None \<Rightarrow> records | Some i \<Rightarrow> remove_at i records)
                     else put_record records index v)
          in Inr (dset (hd parts) (JList new) memory))
        else write_path (length parts = 2 \<and> hd parts \<in> set typed_collections) memory parts v)"

text \<open>The patch of a source whose \<open>patch_id\<close> is a string.\<close>

definition source_patch :: "dict \<Rightarrow> (string \<times> dict) option" where
  "source_patch event =
     (case dget event ''source'' of
        JObj source \<Rightarrow> (case dget source ''patch_id'' of JStr p \<Rightarrow> Some (p, source) | _ \<Rightarrow> None)
      | _ \<Rightarrow> None)"

definition index_source :: "dict \<Rightarrow> dict \<Rightarrow> dict res" where
  "index_source event working =
     (case source_patch event of
        None \<Rightarrow> Inr working
      | Some (p, source) \<Rightarrow>
          rbind (ensure_dict working ''source_index'') (\<lambda>(index, working).
          Inr (dset ''source_index'' (JObj (dsetdefault p (JObj (dpop ''patch_id'' source)) index)) working)))"

definition same_int :: "dict \<Rightarrow> string \<Rightarrow> dict \<Rightarrow> string \<Rightarrow> bool res" where
  "same_int a j b k =
     rbind (rbind (ditem a j) py_int) (\<lambda>x. rbind (rbind (ditem b k) py_int) (\<lambda>y. Inr (x = y)))"

definition check_replay_event :: "dict \<Rightarrow> dict \<Rightarrow> dict \<Rightarrow> unit res" where
  "check_replay_event working event precondition =
     rbind (same_int event ''authority_epoch'' working ''authority_epoch'') (\<lambda>epoch.
     if \<not> epoch then Inl (reducer_error ''event authority_epoch does not match canonical memory'')
     else rbind (same_int precondition ''expected_revision'' working ''revision'') (\<lambda>revision.
       if \<not> revision then Inl (reducer_error ''event expected_revision does not match canonical memory'')
       else rbind (ditem precondition ''expected_head_event_hash'') (\<lambda>expected_head.
         if \<not> py_eq expected_head (dget working ''head_event_hash'')
         then Inl (reducer_error ''event expected_head_event_hash does not match canonical memory'')
         else Inr ())))"

definition check_replay_before :: "host \<Rightarrow> dict \<Rightarrow> dict \<Rightarrow> dict \<Rightarrow> string \<Rightarrow> unit res" where
  "check_replay_before h working event precondition field =
     (let actual = read_event_field working field in
      rbind (ditem event ''before'') (\<lambda>before.
      if \<not> py_eq actual before then Inl (reducer_error ''event before value does not match canonical memory'')
      else rbind (canonical_json_hash h [] True actual) (\<lambda>actual_hash.
        rbind (ditem precondition ''expected_field_hash'') (\<lambda>expected.
        if expected \<noteq> JStr actual_hash
        then Inl (reducer_error ''event expected_field_hash does not match canonical memory'') else Inr ()))))"

definition replay_event :: "host \<Rightarrow> authority \<Rightarrow> dict \<Rightarrow> dict \<Rightarrow> dict res" where
  "replay_event h auth raw_event working =
     rbind (upcast_memory_event h None (JObj raw_event)) (\<lambda>event.
     if dget event ''schema_version'' \<noteq> JStr ''2.2'' \<or> dget event ''reducer_version'' \<noteq> JStr current_reducer_version
     then Inl (reducer_error ''event schema/reducer does not match memory-reducer-2.2'')
     else
       rbind (ditem event ''precondition'') (\<lambda>pre.
       let precondition = (case pre of JObj d \<Rightarrow> d | _ \<Rightarrow> []) in
       rbind (check_replay_event working event precondition) (\<lambda>_.
       rbind (index_source event working) (\<lambda>indexed.
       rbind (ditem event ''field'') (\<lambda>f.
       let field = py_str h f in
       rbind (check_replay_before h indexed event precondition field) (\<lambda>_.
       rbind (ditem event ''after'') (\<lambda>after.
       rbind (write_event_field indexed field after) (\<lambda>written.
       rbind (rbind (ditem event ''revision'') py_int) (\<lambda>revision.
       rbind (ditem event ''event_hash'') (\<lambda>event_hash.
       let headed = dset ''head_event_hash'' (JStr (py_str h event_hash)) (dset ''revision'' (JInt revision) written) in
       rbind (case source_patch event of None \<Rightarrow> Inr headed | Some (p, _) \<Rightarrow> record_source_resolution headed event p) (\<lambda>final.
       validate_canonical_memory h auth (JObj final))))))))))))"

definition apply_memory_events :: "host \<Rightarrow> authority \<Rightarrow> json \<Rightarrow> dict list \<Rightarrow> json \<Rightarrow> dict res" where
  "apply_memory_events h auth canonical_memory events reducer_version =
     rbind (validated_reducer_version h reducer_version) (\<lambda>version.
     if version \<noteq> current_reducer_version
     then Inl (reducer_error ''direct event replay is available only for Memory 2.2 events'')
     else
       rbind (validate_canonical_memory h auth canonical_memory) (\<lambda>working.
       if dget working ''schema_version'' \<noteq> JStr ''2.2''
       then Inl (reducer_error ''memory-reducer-2.2 requires CanonicalMemory 2.2'')
       else rfold (replay_event h auth) events working))"

definition genesis_precondition :: "string \<Rightarrow> dict" where
  "genesis_precondition null_hash =
     [(''expected_revision'', JInt 0), (''expected_head_event_hash'', JNull), (''expected_field_hash'', JStr null_hash)]"

definition check_genesis_memory :: "dict \<Rightarrow> dict \<Rightarrow> unit res" where
  "check_genesis_memory validated projection =
     rbind (if dget projection ''schema_version'' \<noteq> JStr ''2.2'' then Inr True
            else rbind (rbind (ditem projection ''revision'') py_int) (\<lambda>r. Inr (r \<noteq> 1))) (\<lambda>wrong.
     if wrong then Inl (reducer_error ''genesis event after value must be CanonicalMemory 2.2 revision 1'')
     else if dget projection ''head_event_hash'' \<noteq> JNull
     then Inl (reducer_error ''genesis event after value must have a null pre-genesis head'')
     else rbind (same_int projection ''authority_epoch'' validated ''authority_epoch'') (\<lambda>same.
       if \<not> same then Inl (reducer_error ''genesis authority_epoch mismatch'') else Inr ()))"

definition apply_genesis_event :: "host \<Rightarrow> authority \<Rightarrow> json \<Rightarrow> dict res" where
  "apply_genesis_event h auth event =
     rbind (validate_memory_event h None event) (\<lambda>validated.
     if dget validated ''schema_version'' \<noteq> JStr ''2.2'' \<or> dget validated ''op'' \<noteq> JStr ''genesis''
     then Inl (reducer_error ''genesis requires a Memory 2.2 genesis event'')
     else if dget validated ''field'' \<noteq> JStr ''$'' \<or> dget validated ''before'' \<noteq> JNull
     then Inl (reducer_error ''genesis event must replace the empty root'')
     else
       rbind (ditem validated ''precondition'') (\<lambda>precondition.
       rbind (canonical_json_hash h [] True JNull) (\<lambda>null_hash.
       if \<not> py_eq precondition (JObj (genesis_precondition null_hash))
       then Inl (reducer_error ''genesis event has an invalid precondition'')
       else
         rbind (ditem validated ''after'') (\<lambda>after.
         rbind (validate_canonical_memory h auth after) (\<lambda>projection.
         rbind (check_genesis_memory validated projection) (\<lambda>_.
         rbind (ditem validated ''event_hash'') (\<lambda>event_hash.
         validate_canonical_memory h auth (JObj (dset ''head_event_hash'' (JStr (py_str h event_hash)) projection)))))))))"

section \<open>Where an operation may write\<close>

definition content_fields :: "string list" where
  "content_fields = typed_collections @ record_lists @ [''world'', ''current_state'', ''story_time'', ''authoritative_state'']"

definition sections_ok :: "dict \<Rightarrow> bool" where
  "sections_ok memory \<longleftrightarrow>
     (\<forall>k \<in> set (typed_collections @ [''world'', ''current_state'']). is_dict (dget memory k)) \<and>
     (\<forall>k \<in> set record_lists. is_list (dget memory k))"

lemma is_dict_iff: "is_dict v \<longleftrightarrow> (\<exists>d. v = JObj d)"
  by (cases v) (auto simp: is_dict_def)

lemma is_list_iff: "is_list v \<longleftrightarrow> (\<exists>d. v = JList d)"
  by (cases v) (auto simp: is_list_def)

lemma ensure_dict_present:
  assumes "is_dict (dget memory k)"
  shows "\<exists>d. dget memory k = JObj d \<and> ensure_dict memory k = Inr (d, memory)"
  using assms by (auto simp: ensure_dict_def Let_def is_dict_iff dsetdefault_def dhas_def dget_def split: option.splits)

lemma ensure_list_present:
  assumes "is_list (dget memory k)"
  shows "\<exists>d. dget memory k = JList d \<and> ensure_list memory k = Inr (d, memory)"
  using assms by (auto simp: ensure_list_def Let_def is_list_iff dsetdefault_def dhas_def dget_def split: option.splits)

text \<open>
  An operation that replay can follow: the identifier is one segment of a path, and the operation does
  not set a field inside a character, which may have to be created first.
\<close>

definition replayable :: "host \<Rightarrow> dict \<Rightarrow> bool" where
  "replayable h operation \<longleftrightarrow>
     py_str h (dget operation ''op'') \<noteq> ''update_character_state'' \<and>
     (case dget operation ''id'' of JStr s \<Rightarrow> CHR ''.'' \<notin> set s | _ \<Rightarrow> True)"

lemma py_strip_subset: "set (py_strip s) \<subseteq> set s"
  by (auto simp: py_strip_def dest!: set_dropWhileD)

lemma replayable_id:
  "replayable h operation \<Longrightarrow> operation_id h operation = Inr i \<Longrightarrow> CHR ''.'' \<notin> set i"
  using py_strip_subset by (fastforce simp: replayable_def operation_id_def split: json.splits if_splits)

lemma split_two: "CHR ''.'' \<notin> set c \<Longrightarrow> CHR ''.'' \<notin> set i \<Longrightarrow> py_split (CHR ''.'') (c @ ''.'' @ i) = [c, i]"
  by (simp add: py_split_append py_split_no_sep)

text \<open>What replay does with the field of an operation.\<close>

definition written :: "dict \<Rightarrow> string \<Rightarrow> json \<Rightarrow> json \<Rightarrow> dict \<Rightarrow> bool" where
  "written memory field before after changed \<longleftrightarrow>
     read_event_field memory field = before \<and> write_event_field memory field after = Inr changed \<and>
     (\<exists>k v. changed = dset k v memory \<and> k \<in> set content_fields) \<and> sections_ok changed"

lemma sections_ok_dset_dict:
  "sections_ok memory \<Longrightarrow> k \<notin> set record_lists \<Longrightarrow> sections_ok (dset k (JObj d) memory)"
  unfolding sections_ok_def by (metis dget_dset is_dict_iff)

lemma sections_ok_dset_list: "sections_ok memory \<Longrightarrow> k \<in> set record_lists \<Longrightarrow> sections_ok (dset k (JList xs) memory)"
proof -
  assume "sections_ok memory" and k: "k \<in> set record_lists"
  moreover have "j \<noteq> k" if "j \<in> set (typed_collections @ [''world'', ''current_state''])" for j
    using that k by (auto simp: typed_collections_def record_lists_def)
  ultimately show ?thesis unfolding sections_ok_def by (metis dget_dset is_list_iff)
qed

lemma collection_no_dot: "k \<in> set (typed_collections @ record_lists) \<Longrightarrow> CHR ''.'' \<notin> set k"
  by (auto simp: typed_collections_def record_lists_def)

lemma written_record:
  assumes s: "sections_ok memory" and c: "collection \<in> set typed_collections" and i: "CHR ''.'' \<notin> set i"
    and r: "dget memory collection = JObj records" and a: "after \<noteq> JNull \<Longrightarrow> new = dset i after records"
    and n: "after = JNull \<Longrightarrow> new = dpop i records"
  shows "written memory (collection @ ''.'' @ i) (dget records i) after (dset collection (JObj new) memory)"
proof -
  have sp: "py_split (CHR ''.'') (collection @ ''.'' @ i) = [collection, i]"
    using c i collection_no_dot by (intro split_two) auto
  have nd: "collection @ ''.'' @ i \<noteq> ''$''" using c by (auto simp: typed_collections_def)
  have nl: "\<not> list_field [collection, i]" and nr: "collection \<notin> set record_lists"
    using c by (auto simp: list_field_def record_lists_def typed_collections_def)
  have "map_of memory collection = Some (JObj records)" using r by (simp add: dget_def split: option.splits)
  then have "read_event_field memory (collection @ ''.'' @ i) = dget records i"
    using sp nd nl by (simp add: read_event_field_def get_dotted_value_def dget_def Let_def split: option.splits)
  moreover have "write_event_field memory (collection @ ''.'' @ i) after = Inr (dset collection (JObj new) memory)"
    using sp nd nl r c a n by (cases "after = JNull") (simp_all add: write_event_field_def Let_def)
  moreover have "sections_ok (dset collection (JObj new) memory)" by (rule sections_ok_dset_dict [OF s nr])
  ultimately show ?thesis using c by (auto simp: written_def content_fields_def)
qed

lemma written_list:
  assumes s: "sections_ok memory" and c: "collection \<in> set record_lists" and i: "CHR ''.'' \<notin> set i"
    and r: "dget memory collection = JList records" and a: "after \<noteq> JNull"
  shows "written memory (collection @ ''.'' @ i) (record_at records (find_record_index records i)) after
     (dset collection (JList (put_record records (find_record_index records i) after)) memory)"
proof -
  have sp: "py_split (CHR ''.'') (collection @ ''.'' @ i) = [collection, i]"
    using c i collection_no_dot by (intro split_two) auto
  have nd: "collection @ ''.'' @ i \<noteq> ''$''" using c by (auto simp: record_lists_def)
  have l: "list_field [collection, i]" using c by (simp add: list_field_def)
  have "map_of memory collection = Some (JList records)" using r by (simp add: dget_def split: option.splits)
  then have "read_event_field memory (collection @ ''.'' @ i) = record_at records (find_record_index records i)"
    using sp nd l by (simp add: read_event_field_def dget_or_def Let_def)
  moreover have "ensure_list memory collection = Inr (records, memory)"
    using ensure_list_present [of memory collection] r by (auto simp: is_list_def)
  then have "write_event_field memory (collection @ ''.'' @ i) after =
      Inr (dset collection (JList (put_record records (find_record_index records i) after)) memory)"
    using sp nd l a by (simp add: write_event_field_def Let_def)
  ultimately show ?thesis using c sections_ok_dset_list [OF s c] by (auto simp: written_def content_fields_def)
qed

lemma written_section:
  assumes s: "sections_ok memory" and k: "k \<in> {''world'', ''current_state'', ''story_time'', ''authoritative_state''}"
  shows "written memory k (dget memory k) (JObj d) (dset k (JObj d) memory)"
proof -
  have sp: "py_split (CHR ''.'') k = [k]" using k by (intro py_split_no_sep) auto
  have nd: "k \<noteq> ''$''" and nr: "k \<notin> set record_lists" using k by (auto simp: record_lists_def)
  have "read_event_field memory k = dget memory k"
    using sp nd by (auto simp: read_event_field_def get_dotted_value_def list_field_def dget_def Let_def split: option.splits)
  moreover have "write_event_field memory k (JObj d) = Inr (dset k (JObj d) memory)"
    using sp nd by (simp add: write_event_field_def list_field_def Let_def)
  ultimately show ?thesis using k sections_ok_dset_dict [OF s nr] by (auto simp: written_def content_fields_def)
qed

lemma merge_record_object: "merge_record (JObj d) v = Inr r \<Longrightarrow> \<exists>e. r = JObj e"
  by (auto simp: merge_record_def)

lemma record_at_or_empty:
  "find_record_index records i = index \<Longrightarrow> \<exists>d. py_or (record_at records index) (JObj []) = JObj d"
proof (induction records arbitrary: index)
  case (Cons x xs)
  show ?case
  proof (cases "case x of JObj r \<Rightarrow> dget r ''id'' = JStr i | _ \<Rightarrow> False")
    case True
    with Cons.prems show ?thesis by (auto simp: record_at_def py_or_def split: json.splits)
  next
    case False
    with Cons.prems Cons.IH [of "find_record_index xs i"] show ?thesis
      by (auto simp: record_at_def split: option.splits)
  qed
qed (simp add: record_at_def py_or_def truthy_def)

lemma collection_by_op_typed: "map_of collection_by_op op = Some c \<Longrightarrow> c \<in> set typed_collections"
  by (auto simp: collection_by_op_def typed_collections_def split: if_splits)

lemma mutate_record_written:
  assumes s: "sections_ok memory" and c: "c \<in> set typed_collections" and r: "replayable h operation"
    and m: "mutate_record h memory operation revision c = Inr (sid, field, before, after, changed)"
  shows "written memory field before after changed"
proof -
  from s c have "is_dict (dget memory c)" by (simp add: sections_ok_def)
  from ensure_dict_present [OF this] obtain records where rs: "dget memory c = JObj records" and e: "ensure_dict memory c = Inr (records, memory)"
    by blast
  with m obtain i rec where i: "operation_id h operation = Inr i"
    and f: "field = c @ ''.'' @ i" "before = dget records i" "after = JObj rec" "changed = dset c (JObj (dset i (JObj rec) records)) memory"
    by (auto simp: mutate_record_def rbind_eq_Inr Let_def case_obj_Inr simp del: if_split)
  show ?thesis unfolding f by (rule written_record [OF s c replayable_id [OF r i] rs]) simp_all
qed

lemma mutate_delete_written:
  assumes s: "sections_ok memory" and r: "replayable h operation"
    and m: "mutate_delete h memory operation = Inr (sid, field, before, after, changed)"
  shows "written memory field before after changed"
proof -
  from m obtain c where c: "c \<in> set typed_collections" "dget operation ''field'' = JStr c"
    by (auto simp: mutate_delete_def split: json.splits if_splits)
  from s c have "is_dict (dget memory c)" by (simp add: sections_ok_def)
  from ensure_dict_present [OF this] obtain records where rs: "dget memory c = JObj records" and e: "ensure_dict memory c = Inr (records, memory)"
    by blast
  with m c obtain i where i: "operation_id h operation = Inr i"
    and f: "field = c @ ''.'' @ i" "before = dget records i" "after = JNull" "changed = dset c (JObj (dpop i records)) memory"
    by (auto simp: mutate_delete_def rbind_eq_Inr)
  show ?thesis unfolding f by (rule written_record [OF s c(1) replayable_id [OF r i] rs]) simp_all
qed

lemma mutate_timeline_written:
  assumes s: "sections_ok memory" and r: "replayable h operation"
    and m: "mutate_timeline h memory operation = Inr (sid, field, before, after, changed)"
  shows "written memory field before after changed"
proof -
  have c: "''timeline'' \<in> set record_lists" by (simp add: record_lists_def)
  with s have "is_list (dget memory ''timeline'')" by (simp add: sections_ok_def)
  from ensure_list_present [OF this] obtain records where rs: "dget memory ''timeline'' = JList records"
    and e: "ensure_list memory ''timeline'' = Inr (records, memory)" by blast
  with m obtain i v where i: "operation_id h operation = Inr i"
    and f: "field = ''timeline'' @ ''.'' @ i" "before = record_at records (find_record_index records i)"
      "changed = dset ''timeline'' (JList (put_record records (find_record_index records i) after)) memory"
    and mr: "merge_record (py_or (record_at records (find_record_index records i)) (JObj [])) (canonical_timeline_record h i v) = Inr after"
    by (auto simp: mutate_timeline_def rbind_eq_Inr Let_def)
  have "after \<noteq> JNull" using mr record_at_or_empty [OF refl, of records i] merge_record_object by fastforce
  then show ?thesis unfolding f by (intro written_list [OF s c replayable_id [OF r i] rs])
qed

lemma mutate_list_written:
  assumes s: "sections_ok memory" and r: "replayable h operation" and c: "c \<in> set record_lists"
    and m: "mutate_list_record h memory operation c st = Inr (sid, field, before, after, changed)"
  shows "written memory field before after changed"
proof -
  from s c have "is_list (dget memory c)" by (simp add: sections_ok_def)
  from ensure_list_present [OF this] obtain records where rs: "dget memory c = JList records"
    and e: "ensure_list memory c = Inr (records, memory)" by blast
  with m obtain i v where i: "operation_id h operation = Inr i"
    and f: "field = c @ ''.'' @ i" "before = record_at records (find_record_index records i)"
      "changed = dset c (JList (put_record records (find_record_index records i) after)) memory"
    and mr: "merge_record (py_or (record_at records (find_record_index records i)) (JObj []))
        (dsetdefault ''data'' (JObj []) (dsetdefault ''status'' (JStr st) (dset ''id'' (JStr i) v))) = Inr after"
    by (auto simp: mutate_list_record_def rbind_eq_Inr Let_def)
  have "after \<noteq> JNull" using mr record_at_or_empty [OF refl, of records i] merge_record_object by fastforce
  then show ?thesis unfolding f by (intro written_list [OF s c replayable_id [OF r i] rs])
qed

lemma mutate_section_written:
  assumes s: "sections_ok memory" and k: "k \<in> {''world'', ''current_state''}"
    and m: "mutate_section h memory operation k = Inr (sid, field, before, after, changed)"
  shows "written memory field before after changed"
proof -
  from s k have "is_dict (dget memory k)" by (auto simp: sections_ok_def)
  from ensure_dict_present [OF this] obtain d where "dget memory k = JObj d" "ensure_dict memory k = Inr (d, memory)" by blast
  with m obtain e where "field = k" "before = dget memory k" "after = JObj e" "changed = dset k (JObj e) memory"
    by (auto simp: mutate_section_def rbind_eq_Inr Let_def)
  with written_section [OF s, of k e] k show ?thesis by auto
qed

lemma mutate_story_time_written:
  assumes s: "sections_ok memory" and m: "mutate_story_time h memory operation = Inr (sid, field, before, after, changed)"
  shows "written memory field before after changed"
proof -
  from m obtain e where "field = ''story_time''" "before = dget memory ''story_time''" "after = JObj e"
    "changed = dset ''story_time'' (JObj e) memory"
    by (auto simp: mutate_story_time_def rbind_eq_Inr Let_def ditem_Inr dget_def case_obj_Inr)
  with written_section [OF s, of "''story_time''" e] show ?thesis by simp
qed

lemma mutate_authoritative_written:
  assumes s: "sections_ok memory" and m: "mutate_authoritative_state h auth memory operation = Inr (sid, field, before, after, changed)"
  shows "written memory field before after changed"
proof -
  from m obtain e where "field = ''authoritative_state''" "before = dget memory ''authoritative_state''" "after = JObj e"
    "changed = dset ''authoritative_state'' (JObj e) memory"
    by (auto simp: mutate_authoritative_state_def rbind_eq_Inr case_sum_Inr)
  with written_section [OF s, of "''authoritative_state''" e] show ?thesis by simp
qed

lemma mutate_written:
  assumes s: "sections_ok memory" and r: "replayable h operation"
    and m: "mutate_operation_v22 h auth memory operation revision = Inr (sid, field, before, after, changed)"
  shows "written memory field before after changed"
proof -
  from m obtain w where w: "map_of operation ''op'' = Some w"
    by (auto simp: mutate_operation_v22_def rbind_eq_Inr ditem_Inr)
  let ?op = "py_str h w"
  from r w have ne: "?op \<noteq> ''update_character_state''" by (simp add: replayable_def dget_def)
  have m': "(if ?op = ''update_authoritative_state'' then mutate_authoritative_state h auth memory operation
     else (case map_of collection_by_op ?op of
        Some collection \<Rightarrow> mutate_record h memory operation revision collection
      | None \<Rightarrow>
         if ?op = ''delete_record'' then mutate_delete h memory operation
         else if ?op = ''update_story_time'' then mutate_story_time h memory operation
         else if ?op = ''update_world'' then mutate_section h memory operation ''world''
         else if ?op = ''update_current_state'' then mutate_section h memory operation ''current_state''
         else if ?op = ''update_character_state'' then mutate_character_state h memory operation revision
         else if ?op = ''append_timeline_event'' then mutate_timeline h memory operation
         else if ?op = ''upsert_constraint'' then mutate_list_record h memory operation ''constraints'' ''active''
         else if ?op = ''upsert_open_thread'' then mutate_list_record h memory operation ''open_threads'' ''open''
         else Inl (reducer_error (''unsupported memory operation for memory-reducer-2.2: '' @ ?op))))
     = Inr (sid, field, before, after, changed)"
    using m w by (simp add: mutate_operation_v22_def Let_def ditem_def)
  show ?thesis
  proof (cases "map_of collection_by_op ?op")
    case (Some c)
    with m' show ?thesis
      using mutate_authoritative_written [OF s] mutate_record_written [OF s collection_by_op_typed [OF Some] r]
      by (auto split: if_splits)
  next
    case None
    have "''constraints'' \<in> set record_lists" "''open_threads'' \<in> set record_lists" by (simp_all add: record_lists_def)
    note l = mutate_list_written [OF s r this(1)] mutate_list_written [OF s r this(2)]
    show ?thesis
      using m' None ne mutate_authoritative_written [OF s] mutate_delete_written [OF s r] mutate_story_time_written [OF s]
        mutate_section_written [OF s, of "''world''"] mutate_section_written [OF s, of "''current_state''"]
        mutate_timeline_written [OF s r] l
      by (simp split: if_splits)
  qed
qed

section \<open>An event of the reducer, replayed\<close>

lemma map_of_optional_item: "map_of (optional_item k v d) j = (if j = k \<and> v \<noteq> JNull then Some v else map_of d j)"
  by (simp add: optional_item_def)

lemma created_fields:
  assumes "create_typed_memory_event h a t = Inr e"
  obtains body x where "validate_memory_event h (Some body) (JObj e) = Inr e"
    and "map_of e ''schema_version'' = Some (JStr ''2.2'')" and "map_of e ''reducer_version'' = Some (JStr current_reducer_version)"
    and "map_of e ''revision'' = Some (ev_revision a)" and "map_of e ''field'' = Some (ev_field a)"
    and "map_of e ''before'' = Some (ty_before t)" and "map_of e ''after'' = Some (ty_after t)"
    and "map_of e ''precondition'' = Some (ty_precondition t)" and "map_of e ''authority_epoch'' = Some (ty_authority_epoch t)"
    and "map_of e ''source'' = Some (JObj (ev_source a))" and "map_of e ''event_hash'' = Some (JStr x)"
proof -
  from created_typed_event [OF assms] obtain pre body spans epoch x
    where i: "typed_event_inputs h a t = Inr (pre, body, spans, epoch)"
      and e: "e = dset ''event_hash'' (JStr x) (typed_event_body h a t (pre, body, spans, epoch))"
      and v: "validate_memory_event h (Some body) (JObj e) = Inr e" .
  have ep: "ty_authority_epoch t = JInt epoch"
    using i by (auto simp: typed_event_inputs_def rbind_eq_Inr strict_int_def split: json.splits option.splits if_splits)
  show thesis
    by (rule that [OF v]) (simp_all add: e typed_event_body_def map_of_optional_item typed_inputs_Inr(3) [OF i] ep)
qed

lemma py_eq_head: "digest_or_null v \<Longrightarrow> py_eq v v"
  by (auto simp: digest_or_null_def dest: json_sha256D)

lemma precondition_head:
  assumes "validate_memory_event h body (JObj e) = Inr e" and "map_of e ''schema_version'' = Some (JStr ''2.2'')"
    and "map_of e ''precondition'' = Some (JObj p)"
  shows "digest_or_null (dget p ''expected_head_event_hash'')"
proof -
  have "validate_typed_memory_event h body e = Inr ()"
    using assms(1,2) by (simp add: validate_memory_event_Inr dget_def)
  then have "check_precondition h e = Inr ()" by (auto simp: validate_typed_memory_event_def rbind_eq_Inr)
  with assms(3) show ?thesis by (auto simp: check_precondition_def rbind_eq_Inr dget_def split: if_splits)
qed

definition indexed :: "string \<Rightarrow> dict \<Rightarrow> bool" where
  "indexed p w \<longleftrightarrow> (\<exists>idx. map_of w ''source_index'' = Some (JObj idx) \<and> dhas idx p)"

lemma content_not_bookkeeping:
  "k \<in> set content_fields \<Longrightarrow>
     k \<notin> {''revision'', ''head_event_hash'', ''authority_epoch'', ''source_index'', ''source_resolution'', ''schema_version''}"
  by (auto simp: content_fields_def typed_collections_def record_lists_def)

lemma resolution_keeps:
  assumes "record_source_resolution w e p = Inr w'"
  shows "j \<noteq> ''source_resolution'' \<Longrightarrow> map_of w' j = map_of w j" and "sections_ok w \<Longrightarrow> sections_ok w'"
proof -
  show *: "map_of w' j = map_of w j" if "j \<noteq> ''source_resolution''" for j
    using assms that
    by (auto simp: record_source_resolution_def ensure_dict_def Let_def rbind_eq_Inr case_obj_Inr split: json.splits if_splits)
  have "dget w' k = dget w k" if "k \<in> set (typed_collections @ [''world'', ''current_state''] @ record_lists)" for k
  proof -
    have "k \<noteq> ''source_resolution''" using that by (auto simp: typed_collections_def record_lists_def)
    from * [OF this] show ?thesis by (simp add: dget_def)
  qed
  then show "sections_ok w \<Longrightarrow> sections_ok w'" by (simp add: sections_ok_def)
qed

lemma replay_step:
  assumes st: "step_v22 h auth cx source p working (JObj operation) = Inr (w', e)"
    and ok: "sections_ok working" and r: "replayable h operation"
    and ep: "rbind (ditem working ''authority_epoch'') py_int = Inr (cx_authority_epoch cx)"
    and src: "dget source ''patch_id'' = JStr p"
    and ix: "\<And>e. map_of e ''source'' = Some (JObj source) \<Longrightarrow> index_source e w0 = Inr working"
    and w0: "\<And>k. k \<noteq> ''source_index'' \<Longrightarrow> map_of w0 k = map_of working k"
    and refl: "py_eq (dget e ''before'') (dget e ''before'')"
  shows "replay_event h auth e w0 = Inr w'" and "sections_ok w'"
    and "rbind (ditem w' ''authority_epoch'') py_int = Inr (cx_authority_epoch cx)"
    and "map_of w' ''source_index'' = map_of working ''source_index''"
proof -
  from st obtain op prev sid field before after changed bh hash where
      pr: "rbind (ditem working ''revision'') py_int = Inr prev"
    and m: "mutate_operation_v22 h auth working operation (prev + 1) = Inr (sid, field, before, after, changed)"
    and bh: "canonical_json_hash h [] True before = Inr bh"
    and c: "create_typed_memory_event h (operation_event_args operation (prev + 1) op source sid field)
        (v22_event_args before after cx prev (dget working ''head_event_hash'') bh) = Inr e"
    and hash: "ditem e ''event_hash'' = Inr hash"
    and rs: "record_source_resolution (dset ''head_event_hash'' hash (dset ''revision'' (JInt (prev + 1)) changed)) e p = Inr w'"
    and val: "\<exists>u. validate_canonical_memory h auth (JObj w') = Inr u"
    by (auto simp: step_v22_def rbind_eq_Inr operation_op_def split: if_splits prod.splits)
  from mutate_written [OF ok r m] have wr: "written working field before after changed" .
  obtain body x where v: "validate_memory_event h (Some body) (JObj e) = Inr e"
    and f: "map_of e ''schema_version'' = Some (JStr ''2.2'')" "map_of e ''reducer_version'' = Some (JStr current_reducer_version)"
      "map_of e ''revision'' = Some (JInt (prev + 1))" "map_of e ''field'' = Some (JStr field)" "map_of e ''before'' = Some before"
      "map_of e ''after'' = Some after" "map_of e ''authority_epoch'' = Some (JInt (cx_authority_epoch cx))"
      "map_of e ''source'' = Some (JObj source)" "map_of e ''event_hash'' = Some (JStr x)"
      "map_of e ''precondition'' = Some (JObj [(''expected_revision'', JInt prev),
         (''expected_head_event_hash'', dget working ''head_event_hash''), (''expected_field_hash'', JStr bh)])"
    by (rule created_fields [OF c]) (auto simp: operation_event_args_def v22_event_args_def)
  have up: "upcast_memory_event h None (JObj e) = Inr e"
    by (rule upcast_current [OF validate_without_body [OF v]]) (simp add: f dget_def)
  have head: "py_eq (dget working ''head_event_hash'') (dget working ''head_event_hash'')"
    using precondition_head [OF v f(1) f(10)] by (intro py_eq_head) (simp add: dget_def)
  have sp: "source_patch e = Some (p, source)" using f(8) src by (simp add: source_patch_def dget_def)
  have eq: "ditem w0 k = ditem working k" "dget w0 k = dget working k" if "k \<noteq> ''source_index''" for k
    using w0 [OF that] by (simp_all add: ditem_def dget_def)
  from val have val': "validate_canonical_memory h auth (JObj w') = Inr w'"
    by (auto simp: validate_canonical_memory_def Let_def as_memory_error_def rbind_eq_Inr validate_typed_canonical_memory_def
        split: if_splits sum.splits exn.splits)
  have h: "hash = JStr x" using hash f(9) by (simp add: ditem_def)
  have chk: "check_replay_event w0 e [(''expected_revision'', JInt prev),
         (''expected_head_event_hash'', dget working ''head_event_hash''), (''expected_field_hash'', JStr bh)] = Inr ()"
    using pr ep head f(7) eq by (auto simp: check_replay_event_def same_int_def ditem_def rbind_eq_Inr split: option.splits)
  have bef: "check_replay_before h working e [(''expected_revision'', JInt prev),
         (''expected_head_event_hash'', dget working ''head_event_hash''), (''expected_field_hash'', JStr bh)] field = Inr ()"
    using wr refl f(5) bh by (simp add: check_replay_before_def written_def ditem_def dget_def)
  have wf: "write_event_field working field after = Inr changed" using wr by (simp add: written_def)
  show "replay_event h auth e w0 = Inr w'"
    using up f chk ix [OF f(8)] bef wf sp rs h val'
    by (simp add: replay_event_def ditem_def dget_def)
  from wr obtain k u where ch: "changed = dset k u working" and k: "k \<in> set content_fields" by (auto simp: written_def)
  note nb = content_not_bookkeeping [OF k]
  show "sections_ok w'"
  proof (rule resolution_keeps(2) [OF rs])
    have "dget (dset ''head_event_hash'' hash (dset ''revision'' (JInt (prev + 1)) changed)) j = dget changed j"
      if "j \<in> set (typed_collections @ [''world'', ''current_state''] @ record_lists)" for j
      using that by (auto simp: typed_collections_def record_lists_def)
    then show "sections_ok (dset ''head_event_hash'' hash (dset ''revision'' (JInt (prev + 1)) changed))"
      using wr by (simp add: written_def sections_ok_def)
  qed
  have same: "map_of w' j = map_of working j" if "j \<in> {''authority_epoch'', ''source_index''}" for j
    using resolution_keeps(1) [OF rs, of j] that nb by (auto simp: ch)
  show "rbind (ditem w' ''authority_epoch'') py_int = Inr (cx_authority_epoch cx)"
    using ep same [of "''authority_epoch''"] by (simp add: ditem_def)
  show "map_of w' ''source_index'' = map_of working ''source_index''" by (rule same) simp
qed

lemma dpop_dset_fresh: "\<not> dhas s k \<Longrightarrow> dpop k (dset k v s) = s"
  by (induction s) (auto simp: dpop_def dset_def dhas_def AList.delete_eq split: if_splits)

lemma index_source_first:
  assumes i: "record_source_index h memory pt = Inr working" and s: "dget_or pt ''source'' (JObj []) = JObj s"
    and src: "source = dset ''patch_id'' (JStr p) s" and pid: "map_of pt ''patch_id'' = Some (JStr p)"
    and fs: "\<not> dhas s ''patch_id''" and fresh: "\<And>idx. dget memory ''source_index'' = JObj idx \<Longrightarrow> \<not> dhas idx p"
    and e: "map_of e ''source'' = Some (JObj source)"
  shows "index_source e memory = Inr working" and "indexed p working" and "k \<noteq> ''source_index'' \<Longrightarrow> map_of memory k = map_of working k"
proof -
  from i obtain idx mem where en: "ensure_dict memory ''source_index'' = Inr (idx, mem)"
    and w: "working = dset ''source_index'' (JObj (dset p (JObj s) idx)) mem"
    using s pid by (auto simp: record_source_index_def rbind_eq_Inr ditem_def)
  from en have m: "mem = dsetdefault ''source_index'' (JObj []) memory" and "dget mem ''source_index'' = JObj idx"
    by (auto simp: ensure_dict_def Let_def case_obj_Inr)
  then have "dget memory ''source_index'' = JObj idx \<or> idx = []"
    by (auto simp: dget_def split: option.splits if_splits)
  then have nf: "\<not> dhas idx p" using fresh by (auto simp: dhas_def)
  have "source_patch e = Some (p, source)" using e src by (simp add: source_patch_def dget_def)
  then show "index_source e memory = Inr working"
    using en nf by (simp add: index_source_def dsetdefault_def src dpop_dset_fresh [OF fs] w)
  show "indexed p working" by (simp add: indexed_def w dhas_def)
  show "k \<noteq> ''source_index'' \<Longrightarrow> map_of memory k = map_of working k" by (simp add: w m)
qed

lemma index_source_again:
  assumes "indexed p w" and "dget source ''patch_id'' = JStr p" and "map_of e ''source'' = Some (JObj source)"
  shows "index_source e w = Inr w"
proof -
  from assms(1) obtain idx where i: "map_of w ''source_index'' = Some (JObj idx)" "dhas idx p" by (auto simp: indexed_def)
  have "source_patch e = Some (p, source)" using assms(2,3) by (simp add: source_patch_def dget_def)
  moreover have "ensure_dict w ''source_index'' = Inr (idx, w)"
    using i by (simp add: ensure_dict_def Let_def dsetdefault_def dhas_def dget_def)
  ultimately show ?thesis using i by (simp add: index_source_def dsetdefault_def dset_same)
qed

lemma steps_replay:
  assumes "steps_v22 h auth cx source p working xs = Inr (final, events)" and "sections_ok working"
    and "\<And>op. JObj op \<in> set xs \<Longrightarrow> replayable h op"
    and "rbind (ditem working ''authority_epoch'') py_int = Inr (cx_authority_epoch cx)"
    and "dget source ''patch_id'' = JStr p" and "indexed p working"
    and "\<And>e. e \<in> set events \<Longrightarrow> py_eq (dget e ''before'') (dget e ''before'')"
    and "xs \<noteq> [] \<Longrightarrow> w0 = working \<or> ((\<forall>k. k \<noteq> ''source_index'' \<longrightarrow> map_of w0 k = map_of working k) \<and>
       (\<forall>e. map_of e ''source'' = Some (JObj source) \<longrightarrow> index_source e w0 = Inr working))"
  shows "rfold (replay_event h auth) events (if xs = [] then working else w0) = Inr final"
  using assms
proof (induction xs arbitrary: working events w0)
  case (Cons x xs)
  from Cons.prems(1) obtain w' e es where st: "step_v22 h auth cx source p working x = Inr (w', e)"
    and rest: "steps_v22 h auth cx source p w' xs = Inr (final, es)" and ev: "events = e # es"
    by (auto simp: rbind_eq_Inr)
  from st obtain op where x: "x = JObj op" by (auto simp: step_v22_def rbind_eq_Inr operation_op_def split: json.splits)
  have ix: "index_source e w0 = Inr working" if "map_of e ''source'' = Some (JObj source)" for e
    using Cons.prems(8) index_source_again [OF Cons.prems(6,5) that] that by auto
  have w0: "map_of w0 k = map_of working k" if "k \<noteq> ''source_index''" for k using Cons.prems(8) that by auto
  have refl: "py_eq (dget e ''before'') (dget e ''before'')" using Cons.prems(7) ev by simp
  have rep: "replayable h op" using Cons.prems(3) x by simp
  note rs = replay_step [OF st [unfolded x] Cons.prems(2) rep Cons.prems(4,5) ix w0 refl]
  have "indexed p w'" using Cons.prems(6) rs(4) by (simp add: indexed_def)
  from Cons.IH [OF rest rs(2) _ rs(3) Cons.prems(5) this, of w'] Cons.prems(3,7) ev
  have "rfold (replay_event h auth) es w' = Inr final" by (auto split: if_splits)
  with rs(1) show ?case by (simp add: ev)
qed simp

lemma validate_canonical_memory_object: "validate_canonical_memory h auth (JObj m) = Inr w \<Longrightarrow> w = m"
  by (auto simp: validate_canonical_memory_def Let_def as_memory_error_def rbind_eq_Inr validate_typed_canonical_memory_def
      split: if_splits sum.splits exn.splits)

definition fresh_patch :: "dict \<Rightarrow> dict \<Rightarrow> string \<Rightarrow> bool" where
  "fresh_patch memory patch p \<longleftrightarrow>
     map_of patch ''patch_id'' = Some (JStr p) \<and>
     (case dget_or patch ''source'' (JObj []) of JObj s \<Rightarrow> \<not> dhas s ''patch_id'' | _ \<Rightarrow> True) \<and>
     (case dget memory ''source_index'' of JObj idx \<Rightarrow> \<not> dhas idx p | _ \<Rightarrow> True)"

definition patch_operations :: "dict \<Rightarrow> dict list" where
  "patch_operations patch =
     (case dget patch ''operations'' of JList xs \<Rightarrow> concat (map (\<lambda>x. case x of JObj d \<Rightarrow> [d] | _ \<Rightarrow> []) xs) | _ \<Rightarrow> [])"

lemma validate_memory_patch_Inr: "validate_memory_patch h (JObj p) = Inr w \<Longrightarrow> w = p"
  by (auto simp: validate_memory_patch_def split: sum.splits exn.splits)


text \<open>A chain of typed events: each names the revision and the hash of the one before.\<close>

fun event_chain :: "host \<Rightarrow> int \<Rightarrow> json \<Rightarrow> dict list \<Rightarrow> bool" where
  "event_chain h revn head [] = True"
| "event_chain h revn head (e # es) =
     (upcast_memory_event h None (JObj e) = Inr e \<and> dget e ''schema_version'' = JStr ''2.2'' \<and>
      dget e ''revision'' = JInt (revn + 1) \<and>
      (case dget e ''precondition'' of
         JObj pre \<Rightarrow> dget pre ''expected_revision'' = JInt revn \<and> dget pre ''expected_head_event_hash'' = head
       | _ \<Rightarrow> False) \<and>
      event_chain h (revn + 1) (dget e ''event_hash'') es)"

lemma step_v22_chain:
  assumes "step_v22 h auth cx source p working x = Inr (w', e)" and "rbind (ditem working ''revision'') py_int = Inr revn"
  shows "event_chain h revn (dget working ''head_event_hash'') [e]" and "map_of w' ''revision'' = Some (JInt (revn + 1))"
    and "dget w' ''head_event_hash'' = dget e ''event_hash''" and "validate_canonical_memory h auth (JObj w') = Inr w'"
proof -
  from assms obtain operation op sid field before after changed bh hash where
      c: "create_typed_memory_event h (operation_event_args operation (revn + 1) op source sid field)
        (v22_event_args before after cx revn (dget working ''head_event_hash'') bh) = Inr e"
    and hash: "ditem e ''event_hash'' = Inr hash"
    and rs: "record_source_resolution (dset ''head_event_hash'' hash (dset ''revision'' (JInt (revn + 1)) changed)) e p = Inr w'"
    and val: "\<exists>u. validate_canonical_memory h auth (JObj w') = Inr u"
    by (auto simp: step_v22_def rbind_eq_Inr split: if_splits prod.splits)
  show "map_of w' ''revision'' = Some (JInt (revn + 1))" using resolution_keeps(1) [OF rs] by simp
  show "dget w' ''head_event_hash'' = dget e ''event_hash''"
    using resolution_keeps(1) [OF rs, of "''head_event_hash''"] hash by (simp add: dget_def ditem_Inr)
  show "validate_canonical_memory h auth (JObj w') = Inr w'" using val validate_canonical_memory_object by blast
  obtain body x where v: "validate_memory_event h (Some body) (JObj e) = Inr e"
    and f: "map_of e ''schema_version'' = Some (JStr ''2.2'')" "map_of e ''revision'' = Some (JInt (revn + 1))"
      "map_of e ''precondition'' = Some (JObj [(''expected_revision'', JInt revn),
         (''expected_head_event_hash'', dget working ''head_event_hash''), (''expected_field_hash'', JStr bh)])"
    by (rule created_fields [OF c]) (auto simp: operation_event_args_def v22_event_args_def)
  have "upcast_memory_event h None (JObj e) = Inr e"
    by (rule upcast_current [OF validate_without_body [OF v]]) (simp add: f dget_def)
  with f show "event_chain h revn (dget working ''head_event_hash'') [e]" by (simp add: dget_def)
qed

lemma steps_v22_chain:
  "steps_v22 h auth cx source p working xs = Inr (final, events) \<Longrightarrow> xs \<noteq> [] \<Longrightarrow>
     \<exists>revn. rbind (ditem working ''revision'') py_int = Inr revn \<and> event_chain h revn (dget working ''head_event_hash'') events \<and>
       events \<noteq> [] \<and> dget final ''revision'' = JInt (revn + int (length events)) \<and>
       dget final ''head_event_hash'' = dget (last events) ''event_hash'' \<and> validate_canonical_memory h auth (JObj final) = Inr final"
proof (induction xs arbitrary: working events)
  case (Cons x xs)
  from Cons.prems(1) obtain w' e es where st: "step_v22 h auth cx source p working x = Inr (w', e)"
    and rest: "steps_v22 h auth cx source p w' xs = Inr (final, es)" and ev: "events = e # es"
    by (auto simp: rbind_eq_Inr)
  from st obtain revn where revn: "rbind (ditem working ''revision'') py_int = Inr revn"
    by (auto simp: step_v22_def rbind_eq_Inr split: if_splits prod.splits)
  note sc = step_v22_chain [OF st revn]
  show ?case
  proof (cases "xs = []")
    case True
    with rest ev revn sc show ?thesis by (simp add: dget_def)
  next
    case False
    from Cons.IH [OF rest this] obtain revn' where "rbind (ditem w' ''revision'') py_int = Inr revn'"
      and r: "event_chain h revn' (dget w' ''head_event_hash'') es" "es \<noteq> []" "dget final ''revision'' = JInt (revn' + int (length es))"
      "dget final ''head_event_hash'' = dget (last es) ''event_hash''" "validate_canonical_memory h auth (JObj final) = Inr final" by blast
    then have "revn' = revn + 1" using sc(2) by (simp add: ditem_def)
    with r sc ev revn show ?thesis by (simp add: algebra_simps)
  qed
qed simp

text \<open>
  C27: a patch extends the event log of its memory. The memory that the reducer of version 2.2 returns is
  valid, and its events are valid, number the revisions that follow that of the memory, and name one
  another's hashes from the head of the memory on; the new head and revision are those of the last one.
\<close>

theorem patch_extends_event_chain:
  assumes "apply_memory_patch_v22 h auth (JObj memory) patch context = Inr (final, events)"
  shows "validate_canonical_memory h auth (JObj final) = Inr final \<and>
     (events = [] \<and> final = memory \<or>
      (\<exists>revn. rbind (ditem memory ''revision'') py_int = Inr revn \<and> event_chain h revn (dget memory ''head_event_hash'') events \<and>
         dget final ''revision'' = JInt (revn + int (length events)) \<and>
         dget final ''head_event_hash'' = dget (last events) ''event_hash''))"
proof -
  from assms have val: "validate_canonical_memory h auth (JObj memory) = Inr memory"
    by (auto simp: apply_memory_patch_v22_def rbind_eq_Inr dest: validate_canonical_memory_object)
  from assms obtain pt where p: "validate_memory_patch h patch = Inr pt"
    by (auto simp: apply_memory_patch_v22_def rbind_eq_Inr split: if_splits)
  let ?ops = "dget_or pt ''operations'' (JList [])"
  show ?thesis
  proof (cases "truthy ?ops")
    case False
    with assms val p have "final = memory \<and> events = []"
      by (auto simp: apply_memory_patch_v22_def Let_def split: if_splits)
    with val show ?thesis by simp
  next
    case True
    with assms val p obtain cx source pj working ops where ix: "record_source_index h memory pt = Inr working"
      and it: "py_iter ?ops = Inr ops" and st: "steps_v22 h auth cx source (py_str h pj) working ops = Inr (final, events)"
      by (auto simp: apply_memory_patch_v22_def Let_def rbind_eq_Inr split: if_splits)
    have ne: "ops \<noteq> []"
      using it True by (auto simp: py_iter_def truthy_def dkeys_def split: json.splits)
    have "map_of working k = map_of memory k" if "k \<noteq> ''source_index''" for k
      using ix that by (auto simp: record_source_index_def rbind_eq_Inr ensure_dict_def Let_def case_obj_Inr)
    then have "ditem working ''revision'' = ditem memory ''revision''" "dget working ''head_event_hash'' = dget memory ''head_event_hash''"
      by (simp_all add: ditem_def dget_def)
    with steps_v22_chain [OF st ne] show ?thesis by auto
  qed
qed

section \<open>Witnesses\<close>

definition example_authority :: authority where
  "example_authority = \<lparr>validate_authoritative_state = Inr, authoritative_delta = (\<lambda>b v. Inr (Inr b))\<rparr>"

definition example_memory :: dict where
  "example_memory =
     (case create_empty_typed_canonical_memory (JStr ''b'') (JStr ''t'') (JStr ''en'') (JInt 1) of Inr m \<Rightarrow> m | Inl _ \<Rightarrow> [])"

definition example_patch :: dict where
  "example_patch = [(''patch_id'', JStr ''p''), (''source'', JObj [(''kind'', JStr ''k'')]),
     (''operations'', JList [JObj [(''op'', JStr ''upsert_character''), (''id'', JStr ''a'')],
        JObj [(''op'', JStr ''update_world''), (''value'', JObj [(''sky'', JStr ''red'')])]])]"

definition example_context :: json where
  "example_context = JObj [(''authority_epoch'', JInt 1), (''chapter_body'', JStr ''ab''), (''evidence_spans'', JList [example_span])]"

lemma example_patch_applies:
  obtains final events where
    "apply_memory_patch_v22 example_host example_authority (JObj example_memory) (JObj example_patch) example_context = Inr (final, events)"
    and "length events = 2" and "\<forall>e \<in> set events. py_eq (dget e ''before'') (dget e ''before'')"
proof -
  have "case apply_memory_patch_v22 example_host example_authority (JObj example_memory) (JObj example_patch) example_context of
      Inl e \<Rightarrow> False
    | Inr (final, events) \<Rightarrow> length events = 2 \<and> list_all (\<lambda>e. py_eq (dget e ''before'') (dget e ''before'')) events"
    by code_simp
  with that show thesis by (auto simp: list_all_iff split: sum.splits)
qed


lemma patch_extends_event_chain_witness:
  "\<exists>final events. apply_memory_patch_v22 example_host example_authority (JObj example_memory) (JObj example_patch) example_context = Inr (final, events) \<and>
     events \<noteq> [] \<and> validate_canonical_memory example_host example_authority (JObj final) = Inr final"
proof (rule example_patch_applies)
  fix final events
  assume a: "apply_memory_patch_v22 example_host example_authority (JObj example_memory) (JObj example_patch) example_context = Inr (final, events)"
    and n: "length events = 2"
  from patch_extends_event_chain [OF a] a n show ?thesis by (intro exI [of _ final] exI [of _ events]) auto
qed

definition example_dotted_patch :: dict where
  "example_dotted_patch = [(''patch_id'', JStr ''p''), (''source'', JObj [(''kind'', JStr ''k'')]),
     (''operations'', JList [JObj [(''op'', JStr ''upsert_character''), (''id'', JStr ''a.b'')]])]"

definition example_state_patch :: dict where
  "example_state_patch = [(''patch_id'', JStr ''p''), (''source'', JObj [(''kind'', JStr ''k'')]),
     (''operations'', JList [JObj [(''op'', JStr ''update_character_state''), (''id'', JStr ''a''),
        (''field'', JStr ''data.mood''), (''value'', JStr ''x'')]])]"

text \<open>The reducer accepts the patch, and the replay of the events it returns is refused with the error.\<close>

definition replay_refused :: "host \<Rightarrow> authority \<Rightarrow> dict \<Rightarrow> dict \<Rightarrow> json \<Rightarrow> exn \<Rightarrow> bool" where
  "replay_refused h auth memory patch context e \<longleftrightarrow>
     (case apply_memory_patch_v22 h auth (JObj memory) (JObj patch) context of
        Inl _ \<Rightarrow> False
      | Inr (final, events) \<Rightarrow> apply_memory_events h auth (JObj memory) events (JStr current_reducer_version) = Inl e)"


section \<open>Operations leave the version alone\<close>

lemma mutate_keeps_version:
  assumes "mutate_operation_v22 h auth memory operation revision = Inr (sid, field, before, after, changed)"
  shows "map_of changed ''schema_version'' = map_of memory ''schema_version''"
proof -
  have keyed: "map_of changed ''schema_version'' = map_of memory ''schema_version''"
    if "mutate_record h memory operation revision c = Inr (sid, field, before, after, changed)" "c \<in> set typed_collections" for c
    using that by (auto simp: mutate_record_def ensure_dict_def typed_collections_def Let_def rbind_eq_Inr case_obj_Inr split: if_splits)
  have listed: "map_of changed ''schema_version'' = map_of memory ''schema_version''"
    if "mutate_list_record h memory operation c st = Inr (sid, field, before, after, changed)" "c \<noteq> ''schema_version''" for c st
    using that by (auto simp: mutate_list_record_def ensure_list_def Let_def rbind_eq_Inr split: json.splits)
  have "mutate_delete h memory operation = Inr (sid, field, before, after, changed) \<Longrightarrow> ?thesis"
    by (auto simp: mutate_delete_def ensure_dict_def typed_collections_def Let_def rbind_eq_Inr case_obj_Inr split: json.splits if_splits)
  moreover have "mutate_section h memory operation c = Inr (sid, field, before, after, changed) \<Longrightarrow> c \<noteq> ''schema_version'' \<Longrightarrow> ?thesis" for c
    by (auto simp: mutate_section_def ensure_dict_def Let_def rbind_eq_Inr case_obj_Inr)
  moreover have "mutate_story_time h memory operation = Inr (sid, field, before, after, changed) \<Longrightarrow> ?thesis"
    by (auto simp: mutate_story_time_def Let_def rbind_eq_Inr case_obj_Inr)
  moreover have "mutate_timeline h memory operation = Inr (sid, field, before, after, changed) \<Longrightarrow> ?thesis"
    by (auto simp: mutate_timeline_def ensure_list_def Let_def rbind_eq_Inr split: json.splits)
  moreover have "mutate_character_state h memory operation revision = Inr (sid, field, before, after, changed) \<Longrightarrow> ?thesis"
    by (auto simp: mutate_character_state_def ensure_dict_def Let_def rbind_eq_Inr case_obj_Inr split: if_splits)
  moreover have "mutate_authoritative_state h auth memory operation = Inr (sid, field, before, after, changed) \<Longrightarrow> ?thesis"
    by (auto simp: mutate_authoritative_state_def Let_def rbind_eq_Inr case_sum_Inr)
  ultimately show ?thesis
    using assms keyed [OF _ collection_by_op_typed] listed
    by (simp add: mutate_operation_v22_def Let_def rbind_eq_Inr split: if_splits option.splits) blast+
qed

lemma step_v22_keeps_version:
  assumes "step_v22 h auth cx source p working x = Inr (w', e)"
  shows "map_of w' ''schema_version'' = map_of working ''schema_version''"
  using assms by (auto simp: step_v22_def rbind_eq_Inr resolution_keeps(1) dest: mutate_keeps_version split: if_splits prod.splits)

lemma steps_v22_keep_version:
  "steps_v22 h auth cx source p working xs = Inr (final, events) \<Longrightarrow> map_of final ''schema_version'' = map_of working ''schema_version''"
  by (induction xs arbitrary: working events) (auto simp: rbind_eq_Inr dest: step_v22_keeps_version)

lemma patch_v22_keeps_version:
  assumes "apply_memory_patch_v22 h auth (JObj memory) patch context = Inr (final, events)"
  shows "dget final ''schema_version'' = JStr ''2.2''"
proof -
  have index: "map_of w ''schema_version'' = map_of memory ''schema_version''" if "record_source_index h memory pt = Inr w" for pt w
    using that by (auto simp: record_source_index_def ensure_dict_def Let_def rbind_eq_Inr case_obj_Inr)
  from assms show ?thesis
    by (auto simp: apply_memory_patch_v22_def Let_def rbind_eq_Inr dget_def index
        dest!: validate_canonical_memory_object steps_v22_keep_version split: if_splits)
qed

lemma patch_v22_result_valid:
  assumes "apply_memory_patch_v22 h auth (JObj memory) patch context = Inr (final, events)"
  shows "validate_canonical_memory h auth (JObj final) = Inr final"
proof -
  from assms have val: "validate_canonical_memory h auth (JObj memory) = Inr memory"
    by (auto simp: apply_memory_patch_v22_def rbind_eq_Inr dest: validate_canonical_memory_object)
  from assms obtain pt where p: "validate_memory_patch h patch = Inr pt"
    by (auto simp: apply_memory_patch_v22_def rbind_eq_Inr split: if_splits)
  let ?ops = "dget_or pt ''operations'' (JList [])"
  show ?thesis
  proof (cases "truthy ?ops")
    case False
    with assms val p have "final = memory"
      by (auto simp: apply_memory_patch_v22_def Let_def split: if_splits)
    with val show ?thesis by simp
  next
    case True
    with assms val p obtain cx source pj working ops where it: "py_iter ?ops = Inr ops"
      and st: "steps_v22 h auth cx source (py_str h pj) working ops = Inr (final, events)"
      by (auto simp: apply_memory_patch_v22_def Let_def rbind_eq_Inr split: if_splits)
    have "ops \<noteq> []"
      using it True by (auto simp: py_iter_def truthy_def dkeys_def split: json.splits)
    with steps_v22_chain [OF st] show ?thesis by blast
  qed
qed

context checked_authority begin

lemma patch_result_is_lawful:
  assumes "apply_memory_patch_v22 h auth (JObj memory) patch context = Inr (final, events)"
    and "dget final ''authoritative_state'' = JObj d"
  shows "lawful d"
  using valid_memory_is_lawful [OF patch_v22_result_valid [OF assms(1)] patch_v22_keeps_version [OF assms(1)] assms(2)] .

end

end
