(* ===== verification/Roster.thy ===== *)
theory Roster
  imports Field_Checks
begin

text \<open>
  The rosters of the authoritative state (\<open>core/state/roster.py\<close>): groups of people of which some
  are named members and the rest an unresolved count. \<open>reduce_roster_mutation\<close> applies one mutation
  to one roster and collects the issues it finds; it never raises for a bad mutation, but a member
  list that is not iterable makes the language raise. The events of the current delta are a dictionary
  from identifiers to events. The lemmas follow the head count through each operation.
\<close>

section \<open>Fields and names\<close>

text \<open>\<open>d.get(k1) or d.get(k2) or ... or ""\<close>, its text, and its text without the white space around it.\<close>

fun first_truthy :: "dict \<Rightarrow> string list \<Rightarrow> json" where
  "first_truthy d [] = JStr []"
| "first_truthy d (k # ks) = py_or (dget d k) (first_truthy d ks)"

definition text_field :: "host \<Rightarrow> dict \<Rightarrow> string list \<Rightarrow> string" where
  "text_field h d ks = py_str h (first_truthy d ks)"

definition id_field :: "host \<Rightarrow> dict \<Rightarrow> string list \<Rightarrow> string" where
  "id_field h d ks = py_strip (text_field h d ks)"

definition integer_value :: "json \<Rightarrow> int option" where
  "integer_value v = (case v of JInt i \<Rightarrow> Some i | _ \<Rightarrow> None)"

definition nonnegative_int :: "json \<Rightarrow> int option" where
  "nonnegative_int v = (case v of JInt i \<Rightarrow> if 0 \<le> i then Some i else None | _ \<Rightarrow> None)"

definition string_values :: "host \<Rightarrow> json \<Rightarrow> string list" where
  "string_values h v =
     (case v of
        JStr s \<Rightarrow> if py_strip s = [] then [] else [s]
      | JList xs \<Rightarrow> filter (\<lambda>s. py_strip s \<noteq> []) (map (py_str h) xs)
      | _ \<Rightarrow> [])"

text \<open>The elements of a list, each at its first occurrence.\<close>

definition in_order :: "'a list \<Rightarrow> 'a list" where
  "in_order xs = fold (\<lambda>x seen. if x \<in> set seen then seen else seen @ [x]) xs []"

definition unique_strings :: "string list \<Rightarrow> string list" where
  "unique_strings xs = in_order (filter (\<lambda>s. s \<noteq> []) (map py_strip xs))"

definition issue :: "string \<Rightarrow> string \<Rightarrow> dict \<Rightarrow> dict" where
  "issue kind_of message evidence =
     [(''code'', JStr kind_of), (''message'', JStr message), (''evidence'', JObj evidence)]"

definition invalid_mutation :: string where
  "invalid_mutation = ''invalid_roster_mutation''"

definition strs :: "string list \<Rightarrow> json" where
  "strs xs = JList (map JStr xs)"

text \<open>
  \<open>unicodedata.normalize("NFKC", s).casefold()\<close> without the characters that are not letters or digits.
  Below 256 the compatibility forms are the superscripts, the ordinal indicators and the fractions,
  and the only case folding that is not one to one is that of the sharp s. The micro sign, which
  becomes a Greek letter, stands for that letter.
\<close>

definition alias_char :: "char \<Rightarrow> string" where
  "alias_char c =
     (let n = code c in
      if 97 \<le> n \<and> n \<le> 122 \<or> 48 \<le> n \<and> n \<le> 57 \<or> n = 181 \<or> 224 \<le> n \<and> n \<noteq> 247 then [c]
      else if 65 \<le> n \<and> n \<le> 90 \<or> 192 \<le> n \<and> n \<le> 222 \<and> n \<noteq> 215 then [char_of (n + 32)]
      else if n = 223 then ''ss'' else if n = 170 then ''a'' else if n = 186 then ''o''
      else if n = 185 then ''1'' else if n = 178 then ''2'' else if n = 179 then ''3''
      else if n = 188 then ''14'' else if n = 189 then ''12'' else if n = 190 then ''34''
      else [])"

definition normalize_alias :: "string \<Rightarrow> string" where
  "normalize_alias s = concat (map alias_char s)"

definition normalize_roster_alias :: "host \<Rightarrow> json \<Rightarrow> string" where
  "normalize_roster_alias h v = normalize_alias (py_str h (py_or v (JStr [])))"

section \<open>What a generation sees\<close>

definition generation_omitted_fields :: "string list" where
  "generation_omitted_fields =
     [''baseline_evidence'', ''introduced_chapter'', ''introduced_event_id'', ''baseline_source'', ''migration_id'']"

definition project_roster_for_generation :: "json \<Rightarrow> dict" where
  "project_roster_for_generation r =
     (case r of JObj d \<Rightarrow> filter (\<lambda>(k, v). k \<notin> set generation_omitted_fields) d | _ \<Rightarrow> [])"

section \<open>Members\<close>

definition member_step :: "host \<Rightarrow> string \<Rightarrow> string \<Rightarrow> json \<Rightarrow> dict \<times> dict list \<Rightarrow> dict \<times> dict list" where
  "member_step h roster_id source raw state =
     (let members = fst state; issues = snd state;
          head = [(''roster_id'', JStr roster_id), (''source'', JStr source)] in
      case raw of
        JObj d \<Rightarrow>
          (let member_id = id_field h d [''member_id''] in
           if member_id = []
           then (members, issues @ [issue invalid_mutation
                   (''Roster '' @ roster_id @ '' member records require stable member_id values.'') (head @ [(''member'', raw)])])
           else if dhas members member_id
           then (members, issues @ [issue invalid_mutation
                   (''Roster '' @ roster_id @ '' repeats member_id '' @ member_id @ ''.'') (head @ [(''member_id'', JStr member_id)])])
           else (dset member_id (JObj (dset ''member_id'' (JStr member_id) d)) members, issues))
      | _ \<Rightarrow> (members, issues @ [issue invalid_mutation
                (''Roster '' @ roster_id @ '' member records must be objects.'') (head @ [(''member'', raw)])]))"

definition member_map :: "host \<Rightarrow> json \<Rightarrow> string \<Rightarrow> string \<Rightarrow> dict \<times> dict list" where
  "member_map h v roster_id source =
     (case v of
        JNull \<Rightarrow> ([], [])
      | JList xs \<Rightarrow> fold (member_step h roster_id source) xs ([], [])
      | _ \<Rightarrow> ([], [issue invalid_mutation (''Roster '' @ roster_id @ '' members must be an array.'')
                    [(''roster_id'', JStr roster_id), (''source'', JStr source), (''members'', v)]]))"

definition member_id_list :: "host \<Rightarrow> json \<Rightarrow> string \<Rightarrow> string list \<times> dict list" where
  "member_id_list h v roster_id =
     (case v of
        JNull \<Rightarrow> ([], [])
      | JList xs \<Rightarrow>
          (let values = filter (\<lambda>s. s \<noteq> []) (map (py_strip \<circ> py_str h) xs) in
           if \<not> distinct values
           then (in_order values, [issue invalid_mutation (''Roster '' @ roster_id @ '' member_ids must be unique.'')
                   [(''roster_id'', JStr roster_id), (''member_ids'', strs values)]])
           else (values, []))
      | _ \<Rightarrow> ([], [issue invalid_mutation (''Roster '' @ roster_id @ '' member_ids must be an array.'')
                    [(''roster_id'', JStr roster_id), (''member_ids'', v)]]))"

definition set_value :: "json \<Rightarrow> bool" where
  "set_value v \<longleftrightarrow> v \<noteq> JNull \<and> v \<noteq> JStr []"

definition member_identity_changed :: "json \<Rightarrow> json \<Rightarrow> bool" where
  "member_identity_changed before after =
     (case (before, after) of
        (JObj b, JObj a) \<Rightarrow>
          list_ex (\<lambda>f. set_value (dget b f) \<and> set_value (dget a f) \<and> \<not> py_eq (dget b f) (dget a f))
            [''character_id'', ''descriptor'']
      | _ \<Rightarrow> False)"

text \<open>A replacement keeps the record of a member whose identity fields it would change.\<close>

definition keep_identity :: "string \<Rightarrow> string \<Rightarrow> dict \<Rightarrow> string \<times> json \<Rightarrow> (string \<times> json) \<times> dict list" where
  "keep_identity roster_id operation existing entry =
     (let member_id = fst entry; member = snd entry; prior = dget existing member_id in
      if operation = ''replace'' \<and> is_dict prior \<and> member_identity_changed prior member
      then ((member_id, prior),
            [issue ''roster_member_identity_drift'' (''Roster member '' @ member_id @ '' changed identity fields.'')
               [(''roster_id'', JStr roster_id), (''member_id'', JStr member_id), (''before'', prior), (''after'', member)]])
      else (entry, []))"

section \<open>Events\<close>

definition current_event_index :: "dict \<Rightarrow> dict" where
  "current_event_index events =
     fold (\<lambda>(event_id, raw) index.
        if py_strip event_id = [] then index
        else dset event_id
          (case raw of JObj d \<Rightarrow> (case integer_value (dget d ''scene_index'') of Some i \<Rightarrow> JInt i | None \<Rightarrow> JNull) | _ \<Rightarrow> JNull)
          index) events []"

definition member_event_ids :: "host \<Rightarrow> json list \<Rightarrow> string list" where
  "member_event_ids h members =
     filter (\<lambda>s. s \<noteq> []) (concat (map (\<lambda>m. case m of
        JObj d \<Rightarrow> [id_field h d [''source_event_id'', ''reason_event_id'', ''resolved_event_id'', ''joined_event_id'']]
      | _ \<Rightarrow> []) members))"

definition event_reference_ok :: "dict \<Rightarrow> json \<Rightarrow> string \<Rightarrow> bool" where
  "event_reference_ok index scene_index event_id \<longleftrightarrow>
     dhas index event_id \<and>
     (scene_index = JNull \<or> dget index event_id = JNull \<or> py_eq (dget index event_id) scene_index)"

definition validate_event_references ::
  "host \<Rightarrow> string \<Rightarrow> dict \<Rightarrow> dict \<Rightarrow> bool \<Rightarrow> (bool \<times> dict list) res" where
  "validate_event_references h roster_id mutation index require_current_event =
     rbind (py_iter (py_or (dget mutation ''members'') (JList []))) (\<lambda>members.
     let primary = id_field h mutation [''source_event_id'', ''reason_event_id''];
         referenced = (if primary = [] then [] else [primary]) @ member_event_ids h members;
         scene_index = dget mutation ''scene_index'';
         invalid = sort (remdups (filter (\<lambda>e. \<not> event_reference_ok index scene_index e) referenced));
         missing = (if require_current_event \<and> primary = []
                    then [issue ''missing_authority_event_reference''
                            (''Roster '' @ roster_id @ '' mutation requires a current Scene event reference.'')
                            [(''ledger'', JStr ''roster''), (''roster_id'', JStr roster_id), (''mutation'', JObj mutation)]]
                    else []);
         wrong = (if invalid \<noteq> []
                  then [issue ''invalid_authority_event_reference''
                          (''Roster '' @ roster_id @ '' mutation must reference an event from the current Scene.'')
                          [(''ledger'', JStr ''roster''), (''roster_id'', JStr roster_id), (''event_ids'', strs invalid),
                           (''scene_index'', scene_index), (''current_event_ids'', strs (sort (dkeys index))),
                           (''mutation'', JObj mutation)]]
                  else [])
     in Inr (primary \<noteq> [] \<and> dhas index primary \<and> primary \<notin> set invalid, missing @ wrong))"

section \<open>The unresolved count\<close>

definition unresolved_evidence :: "string \<Rightarrow> json \<Rightarrow> json \<Rightarrow> dict" where
  "unresolved_evidence roster_id before delta =
     [(''roster_id'', JStr roster_id), (''unresolved_before'', before), (''unresolved_delta'', delta)]"

definition stale_issue :: "string \<Rightarrow> string \<Rightarrow> int \<Rightarrow> json \<Rightarrow> dict" where
  "stale_issue roster_id what existing before =
     issue ''roster_state_rollback'' (''Roster '' @ roster_id @ '' '' @ what @ '' starts from stale unresolved_count.'')
       [(''roster_id'', JStr roster_id), (''expected_before'', JInt existing), (''declared_before'', before)]"

definition unresolved_replace :: "string \<Rightarrow> int \<Rightarrow> json \<Rightarrow> json \<Rightarrow> json \<Rightarrow> int \<times> dict list" where
  "unresolved_replace roster_id existing before delta count_value =
     (let i1 = (if delta \<noteq> JNull
                then [issue invalid_mutation (''Roster '' @ roster_id @ '' replace must use unresolved_count, not unresolved_delta.'')
                        [(''roster_id'', JStr roster_id), (''unresolved_delta'', delta)]] else [])
      in if count_value = JNull \<and> existing = 0 then (0, i1)
         else
           let i2 = (case nonnegative_int before of
                       None \<Rightarrow> [issue invalid_mutation (''Roster '' @ roster_id @ '' aggregate replace requires unresolved_before.'')
                                 [(''roster_id'', JStr roster_id), (''unresolved_before'', before)]]
                     | Some b \<Rightarrow> if b \<noteq> existing then [stale_issue roster_id ''aggregate replace'' existing before] else [])
           in case nonnegative_int count_value of
                None \<Rightarrow> (existing, i1 @ i2 @
                  [issue invalid_mutation (''Roster '' @ roster_id @ '' replace requires a non-negative unresolved_count.'')
                     [(''roster_id'', JStr roster_id), (''unresolved_count'', count_value)]])
              | Some c \<Rightarrow> (if nonnegative_int before \<noteq> Some existing \<or> delta \<noteq> JNull then (existing, i1 @ i2) else (c, i1 @ i2)))"

definition unresolved_resolve :: "string \<Rightarrow> int \<Rightarrow> json \<Rightarrow> json \<Rightarrow> int \<Rightarrow> int \<times> dict list" where
  "unresolved_resolve roster_id existing before delta resolved =
     (let i1 = (if resolved < 1
                then [issue ''roster_resolution_arithmetic_mismatch''
                        (''Roster '' @ roster_id @ '' resolve requires at least one new stable member.'')
                        [(''roster_id'', JStr roster_id), (''resolved_member_count'', JInt resolved)]] else [])
      in if before = JNull \<or> delta = JNull
         then (existing, i1 @ [issue invalid_mutation
                 (''Roster '' @ roster_id @ '' resolve requires unresolved_before and unresolved_delta.'')
                 (unresolved_evidence roster_id before delta)])
         else
           let ok = (nonnegative_int before = Some existing);
               i2 = (if \<not> ok then [stale_issue roster_id ''resolve'' existing before] else [])
           in case integer_value delta of
                None \<Rightarrow> (existing, i1 @ i2 @
                  [issue invalid_mutation (''Roster '' @ roster_id @ '' unresolved_delta must be an integer.'')
                     [(''roster_id'', JStr roster_id), (''unresolved_delta'', delta)]])
              | Some d \<Rightarrow>
                  let i3 = (if d \<noteq> - resolved
                            then [issue ''roster_resolution_arithmetic_mismatch''
                                    (''Roster '' @ roster_id @ '' resolve must trade one unresolved person for each new stable member.'')
                                    [(''roster_id'', JStr roster_id), (''resolved_member_count'', JInt resolved),
                                     (''declared_unresolved_delta'', delta), (''expected_unresolved_delta'', JInt (- resolved))]]
                            else [])
                  in if \<not> ok \<or> resolved < 1 \<or> d \<noteq> - resolved then (existing, i1 @ i2 @ i3)
                     else if existing + d < 0
                     then (existing, i1 @ i2 @ i3 @
                       [issue ''roster_count_mismatch'' (''Roster '' @ roster_id @ '' cannot resolve more anonymous people than remain.'')
                          [(''roster_id'', JStr roster_id), (''unresolved_before'', JInt existing),
                           (''resolved_member_count'', JInt resolved)]])
                     else (existing + d, i1 @ i2 @ i3))"

definition removal_operations :: "string list" where
  "removal_operations = [''leave'', ''dead'', ''missing'']"

definition unresolved_change :: "string \<Rightarrow> string \<Rightarrow> int \<Rightarrow> json \<Rightarrow> json \<Rightarrow> int \<times> dict list" where
  "unresolved_change roster_id operation existing before delta =
     (if before = JNull \<and> delta = JNull then (existing, [])
      else if before = JNull \<or> delta = JNull
      then (existing, [issue invalid_mutation
              (''Roster '' @ roster_id @ '' aggregate change requires unresolved_before and unresolved_delta.'')
              (unresolved_evidence roster_id before delta)])
      else
        let ok = (nonnegative_int before = Some existing);
            i1 = (if \<not> ok then [stale_issue roster_id ''aggregate change'' existing before] else [])
        in case integer_value delta of
             None \<Rightarrow> (existing, i1 @
               [issue invalid_mutation (''Roster '' @ roster_id @ '' unresolved_delta must be an integer.'')
                  [(''roster_id'', JStr roster_id), (''unresolved_delta'', delta)]])
           | Some d \<Rightarrow>
               let sign_invalid = (operation = ''join'' \<and> d < 0 \<or> operation \<in> set removal_operations \<and> 0 < d);
                   i2 = (if sign_invalid
                         then [issue invalid_mutation
                                 (''Roster '' @ roster_id @ '' unresolved_delta has the wrong sign for '' @ operation @ ''.'')
                                 [(''roster_id'', JStr roster_id), (''operation'', JStr operation), (''unresolved_delta'', JInt d)]]
                         else [])
               in if \<not> ok \<or> sign_invalid then (existing, i1 @ i2)
                  else if existing + d < 0
                  then (existing, i1 @ i2 @
                    [issue ''roster_count_mismatch'' (''Roster '' @ roster_id @ '' unresolved_count cannot become negative.'')
                       [(''roster_id'', JStr roster_id), (''unresolved_before'', JInt existing), (''unresolved_delta'', JInt d)]])
                  else (existing + d, i1 @ i2))"

definition resolve_unresolved_count :: "string \<Rightarrow> string \<Rightarrow> int \<Rightarrow> dict \<Rightarrow> int \<Rightarrow> int \<times> dict list" where
  "resolve_unresolved_count roster_id operation existing mutation resolved =
     (let before = dget mutation ''unresolved_before'';
          delta = dget mutation ''unresolved_delta'';
          count_value = dget mutation ''unresolved_count'' in
      if operation = ''replace'' then unresolved_replace roster_id existing before delta count_value
      else
        let i0 = (if count_value \<noteq> JNull
                  then [issue invalid_mutation (''Roster '' @ roster_id @ '' '' @ operation @ '' must not set unresolved_count.'')
                          [(''roster_id'', JStr roster_id), (''unresolved_count'', count_value)]]
                  else []);
            r = (if operation = ''resolve'' then unresolved_resolve roster_id existing before delta resolved
                 else unresolved_change roster_id operation existing before delta)
        in (fst r, i0 @ snd r))"

section \<open>Identity and audit metadata\<close>

definition existing_name :: "host \<Rightarrow> dict \<Rightarrow> string" where
  "existing_name h existing = id_field h existing [''name'', ''roster_name'']"

definition roster_alias_owners :: "host \<Rightarrow> dict \<Rightarrow> dict" where
  "roster_alias_owners h rosters =
     fold (\<lambda>(key, raw) owners.
        case raw of
          JObj d \<Rightarrow>
            (let roster_id = py_strip (py_str h (py_or (dget d ''roster_id'') (JStr key))) in
             fold (\<lambda>v owners.
                 let normalized = normalize_roster_alias h v in
                 if normalized = [] then owners else dsetdefault normalized (JStr roster_id) owners)
               ([JStr roster_id, dget d ''name'', dget d ''roster_name''] @ map JStr (string_values h (dget d ''aliases''))) owners)
        | _ \<Rightarrow> owners) rosters []"

definition aliases_of :: "host \<Rightarrow> dict \<Rightarrow> string list" where
  "aliases_of h d = unique_strings (string_values h (dget d ''aliases''))"

definition alias_conflicts :: "host \<Rightarrow> dict \<Rightarrow> string \<Rightarrow> string list \<Rightarrow> dict list" where
  "alias_conflicts h rosters roster_id names =
     (let owners = roster_alias_owners h rosters in
      concat (map (\<lambda>alias.
        let normalized = normalize_roster_alias h (JStr alias); owner = dget owners normalized in
        if normalized \<noteq> [] \<and> owner \<noteq> JNull \<and> owner \<noteq> JStr roster_id
        then [issue ''roster_alias_conflict''
                (''Roster alias '' @ repr_str alias @ '' already belongs to '' @ py_str h owner @ ''.'')
                [(''alias'', JStr alias), (''existing_roster_id'', owner), (''incoming_roster_id'', JStr roster_id)]]
        else []) names))"

definition drift_issue :: "string \<Rightarrow> string \<Rightarrow> string \<Rightarrow> json \<Rightarrow> json \<Rightarrow> dict" where
  "drift_issue kind_of roster_id what before after =
     issue kind_of (''Roster '' @ roster_id @ '' '' @ what @ '' changed.'')
       [(''roster_id'', JStr roster_id), (''before'', before), (''after'', after)]"

definition resolve_identity ::
  "host \<Rightarrow> dict \<Rightarrow> string \<Rightarrow> dict \<Rightarrow> dict \<Rightarrow> bool \<Rightarrow> string \<times> string list \<times> dict list" where
  "resolve_identity h rosters roster_id existing incoming is_initial =
     (let old_name = existing_name h existing;
          incoming_name = existing_name h incoming;
          canonical_name = (if is_initial then incoming_name else old_name);
          declares = (dhas incoming ''name'' \<or> dhas incoming ''roster_name'');
          i1 = (if \<not> is_initial \<and> declares \<and> incoming_name \<noteq> old_name
                then [drift_issue ''roster_identity_drift'' roster_id ''canonical name'' (JStr old_name) (JStr incoming_name)] else []);
          old_aliases = aliases_of h existing;
          incoming_aliases = aliases_of h incoming;
          aliases = (if is_initial then incoming_aliases else old_aliases);
          i2 = (if \<not> is_initial \<and> dhas incoming ''aliases'' \<and> incoming_aliases \<noteq> old_aliases
                then [drift_issue ''roster_identity_drift'' roster_id ''aliases'' (strs old_aliases) (strs incoming_aliases)] else [])
      in (canonical_name, aliases,
          i1 @ i2 @ alias_conflicts h rosters roster_id ([roster_id, canonical_name] @ aliases)))"

definition canonical_baseline_evidence :: "host \<Rightarrow> json \<Rightarrow> dict option" where
  "canonical_baseline_evidence h v =
     (case v of
        JObj d \<Rightarrow>
          (let source_kind = id_field h d [''source_kind'']; source_path = id_field h d [''source_path''];
               sha256 = py_lower (id_field h d [''sha256'']) in
           if source_kind = [] \<or> source_path = [] \<or> \<not> is_sha256 sha256 then None
           else Some (dupdate d [(''source_kind'', JStr source_kind), (''source_path'', JStr source_path), (''sha256'', JStr sha256)]))
      | _ \<Rightarrow> None)"

definition audit_fields :: "string list" where
  "audit_fields = [''introduced_chapter'', ''introduced_event_id'', ''baseline_source'', ''migration_id'']"

definition evidence_item :: "dict option \<Rightarrow> dict" where
  "evidence_item e = (case e of None \<Rightarrow> [] | Some d \<Rightarrow> [(''baseline_evidence'', JObj d)])"

definition positive_integer :: "json \<Rightarrow> bool" where
  "positive_integer v \<longleftrightarrow> (case integer_value v of Some i \<Rightarrow> 1 \<le> i | None \<Rightarrow> False)"

definition resolve_audit_metadata :: "host \<Rightarrow> string \<Rightarrow> dict \<Rightarrow> dict \<Rightarrow> bool \<Rightarrow> dict \<times> dict list" where
  "resolve_audit_metadata h roster_id existing incoming is_initial =
     (let old_raw = dget existing ''baseline_evidence''; new_raw = dget incoming ''baseline_evidence'';
          old_evidence = canonical_baseline_evidence h old_raw;
          new_evidence = canonical_baseline_evidence h new_raw;
          invalid = (\<lambda>what raw. issue invalid_mutation (''Roster '' @ roster_id @ what)
                       [(''roster_id'', JStr roster_id), (''baseline_evidence'', raw)]);
          i1 = (if old_raw \<noteq> JNull \<and> old_evidence = None then [invalid '' has invalid baseline_evidence.'' old_raw] else []);
          i2 = (if new_raw \<noteq> JNull \<and> new_evidence = None
                then [invalid '' baseline_evidence is incomplete or invalid.'' new_raw] else []);
          same = (case (old_evidence, new_evidence) of (Some e, Some n) \<Rightarrow> py_eq (JObj n) (JObj e) | _ \<Rightarrow> False);
          i3 = (if \<not> is_initial \<and> new_raw \<noteq> JNull \<and> \<not> same
                then [drift_issue ''roster_baseline_evidence_drift'' roster_id ''baseline evidence'' old_raw new_raw] else []);
          evidence = (if old_evidence \<noteq> None then old_evidence else if is_initial then new_evidence else None);
          i4 = concat (map (\<lambda>field.
                 let old = dget existing field; new = dget incoming field in
                 if \<not> is_initial \<and> new \<noteq> JNull \<and> \<not> py_eq new old
                 then [issue ''roster_audit_metadata_drift'' (''Roster '' @ roster_id @ '' audit field '' @ field @ '' changed.'')
                         [(''roster_id'', JStr roster_id), (''field'', JStr field), (''before'', old), (''after'', new)]]
                 else []) audit_fields);
          selected = filter (\<lambda>(k, v). v \<noteq> JNull)
                       (map (\<lambda>field. (field, dget (if is_initial then incoming else existing) field)) audit_fields);
          metadata = evidence_item evidence @ selected;
          introduced = dget metadata ''introduced_chapter'';
          bad = (introduced \<noteq> JNull \<and> \<not> positive_integer introduced);
          i5 = (if bad then [issue invalid_mutation (''Roster '' @ roster_id @ '' introduced_chapter must be a positive integer.'')
                               [(''roster_id'', JStr roster_id), (''introduced_chapter'', introduced)]] else [])
      in (if bad then dpop ''introduced_chapter'' metadata else metadata, i1 @ i2 @ i3 @ i4 @ i5))"

definition has_audited_baseline :: "host \<Rightarrow> dict \<Rightarrow> bool" where
  "has_audited_baseline h metadata \<longleftrightarrow>
     canonical_baseline_evidence h (dget metadata ''baseline_evidence'') \<noteq> None \<and>
     positive_integer (dget metadata ''introduced_chapter'')"

definition existing_audit_metadata :: "host \<Rightarrow> dict \<Rightarrow> dict" where
  "existing_audit_metadata h existing =
     evidence_item (canonical_baseline_evidence h (dget existing ''baseline_evidence'')) @
     filter (\<lambda>(k, v). v \<noteq> JNull) (map (\<lambda>field. (field, dget existing field)) audit_fields)"

section \<open>One mutation\<close>

record roster_transition =
  rt_roster_id :: string
  rt_record :: "dict option"
  rt_issues :: "dict list"
  rt_expected_delta :: int
  rt_computed_count :: int

definition roster_operations :: "string list" where
  "roster_operations = [''join'', ''leave'', ''dead'', ''missing'', ''replace'', ''resolve'']"

definition refused_transition :: "string \<Rightarrow> dict \<Rightarrow> roster_transition" where
  "refused_transition roster_id i =
     \<lparr>rt_roster_id = roster_id, rt_record = None, rt_issues = [i], rt_expected_delta = 0, rt_computed_count = 0\<rparr>"

definition picked :: "dict \<Rightarrow> string list \<Rightarrow> json" where
  "picked members ids = JObj (map (\<lambda>i. (i, dget members i)) ids)"

definition duplicate_join_issues :: "string \<Rightarrow> string \<Rightarrow> string list \<Rightarrow> dict \<Rightarrow> dict \<Rightarrow> dict list" where
  "duplicate_join_issues roster_id operation change_ids existing incoming =
     (let ids = (if operation \<in> {''join'', ''resolve''} then sort (filter (dhas existing) (remdups change_ids)) else []) in
      if ids = [] then []
      else [issue ''roster_member_already_exists''
              (''Roster '' @ roster_id @ '' cannot '' @ operation @ '' members that already exist.'')
              [(''roster_id'', JStr roster_id), (''operation'', JStr operation), (''member_ids'', strs ids),
               (''existing_members'', picked existing ids), (''incoming_members'', picked incoming ids)]])"

definition missing_removal_issues :: "string \<Rightarrow> string \<Rightarrow> string list \<Rightarrow> dict \<Rightarrow> dict list" where
  "missing_removal_issues roster_id operation change_ids existing =
     (let ids = (if operation \<in> set removal_operations
                 then sort (filter (\<lambda>i. \<not> dhas existing i) (remdups change_ids)) else []) in
      if ids = [] then []
      else [issue ''roster_member_not_found''
              (''Roster '' @ roster_id @ '' cannot '' @ operation @ '' members that do not exist.'')
              [(''roster_id'', JStr roster_id), (''operation'', JStr operation), (''member_ids'', strs ids)]])"

definition next_members_of :: "string \<Rightarrow> dict \<Rightarrow> dict \<Rightarrow> string list \<Rightarrow> dict" where
  "next_members_of operation existing incoming change_ids =
     (if operation \<in> {''join'', ''resolve''}
      then fold (\<lambda>(k, v) members. if dhas existing k then members else dset k v members) incoming existing
      else if operation \<in> set removal_operations
      then filter (\<lambda>(k, v). k \<notin> set change_ids) existing
      else incoming)"

definition before_after :: "json \<Rightarrow> json \<Rightarrow> json" where
  "before_after b a = JObj [(''before'', b), (''after'', a)]"

definition replacement_differences ::
  "dict \<Rightarrow> dict \<Rightarrow> int \<Rightarrow> int \<Rightarrow> string \<Rightarrow> string \<Rightarrow> string list \<Rightarrow> string list \<Rightarrow> dict" where
  "replacement_differences existing next old_count new_count old_name new_name old_aliases new_aliases =
     (if \<not> py_eq (JObj next) (JObj existing)
      then [(''members'', before_after (JList (map snd existing)) (JList (map snd next)))] else []) @
     (if new_count \<noteq> old_count then [(''unresolved_count'', before_after (JInt old_count) (JInt new_count))] else []) @
     (if new_name \<noteq> old_name then [(''name'', before_after (JStr old_name) (JStr new_name))] else []) @
     (if new_aliases \<noteq> old_aliases then [(''aliases'', before_after (strs old_aliases) (strs new_aliases))] else [])"

definition count_issues :: "string \<Rightarrow> dict \<Rightarrow> int \<Rightarrow> int \<Rightarrow> int \<Rightarrow> int \<Rightarrow> dict list" where
  "count_issues roster_id mutation expected_delta computed_count stable_count unresolved =
     (let delta = dget mutation ''delta''; declared = dget mutation ''declared_count''; r = (''roster_id'', JStr roster_id) in
      (case integer_value delta of
         None \<Rightarrow> [issue invalid_mutation (''Roster '' @ roster_id @ '' requires an integer delta.'') [r, (''delta'', delta)]]
       | Some d \<Rightarrow>
           if d \<noteq> expected_delta
           then [issue ''roster_count_mismatch'' (''Roster '' @ roster_id @ '' declared delta is inconsistent.'')
                   [r, (''declared_delta'', delta), (''computed_delta'', JInt expected_delta)]]
           else []) @
      (case nonnegative_int declared of
         None \<Rightarrow> [issue invalid_mutation (''Roster '' @ roster_id @ '' requires a non-negative integer declared_count.'')
                   [r, (''declared_count'', declared)]]
       | Some c \<Rightarrow>
           if c \<noteq> computed_count
           then [issue ''roster_count_mismatch'' (''Roster '' @ roster_id @ '' declared count is inconsistent.'')
                   [r, (''declared_count'', declared), (''computed_count'', JInt computed_count),
                    (''stable_member_count'', JInt stable_count), (''unresolved_count'', JInt unresolved)]]
           else []))"

definition unresolved_baseline :: "string \<Rightarrow> dict \<Rightarrow> int \<times> dict list" where
  "unresolved_baseline roster_id existing =
     (let raw = dget_or existing ''unresolved_count'' (JInt 0) in
      case nonnegative_int raw of
        None \<Rightarrow> (0, [issue invalid_mutation (''Roster '' @ roster_id @ '' has an invalid unresolved_count baseline.'')
                       [(''roster_id'', JStr roster_id), (''unresolved_count'', raw)]])
      | Some c \<Rightarrow> (c, []))"

definition member_ids_issue :: "string \<Rightarrow> string \<Rightarrow> string list \<Rightarrow> dict \<Rightarrow> dict list" where
  "member_ids_issue roster_id operation declared incoming =
     (if operation \<in> {''join'', ''replace'', ''resolve''} \<and> declared \<noteq> [] \<and> set declared \<noteq> set (dkeys incoming)
      then [issue ''roster_count_mismatch'' (''Roster '' @ roster_id @ '' member_ids do not match member records.'')
              [(''roster_id'', JStr roster_id), (''member_ids'', strs declared), (''record_member_ids'', strs (dkeys incoming))]]
      else [])"

definition baseline_issues :: "host \<Rightarrow> string \<Rightarrow> bool \<Rightarrow> int \<Rightarrow> bool \<Rightarrow> dict \<Rightarrow> dict list" where
  "baseline_issues h roster_id is_initial unresolved valid_event metadata =
     (if is_initial \<and> 0 < unresolved \<and> \<not> valid_event \<and> \<not> has_audited_baseline h metadata
      then [issue ''missing_roster_baseline_evidence''
              (''Aggregate roster '' @ roster_id @ '' requires an auditable baseline.'')
              [(''roster_id'', JStr roster_id), (''unresolved_count'', JInt unresolved),
               (''required_baseline_evidence'', strs [''source_kind'', ''source_path'', ''sha256'']),
               (''required_introduced_chapter'', JStr ''positive integer'')]]
      else [])"

definition roster_record :: "dict \<Rightarrow> string \<Rightarrow> string \<Rightarrow> string list \<Rightarrow> dict \<Rightarrow> dict \<Rightarrow> int \<Rightarrow> dict" where
  "roster_record existing roster_id name aliases metadata members unresolved =
     (let computed = JInt (int (length members) + unresolved) in
      dupdate existing
        ([(''roster_id'', JStr roster_id)] @ (if name \<noteq> [] then [(''name'', JStr name)] else []) @
         [(''aliases'', strs aliases)] @ metadata @
         [(''members'', JList (map snd members)), (''unresolved_count'', JInt unresolved),
          (''declared_count'', computed), (''computed_count'', computed)]))"

text \<open>What the mutation makes of the members and the unresolved count, with the issues on the way.\<close>

definition roster_change ::
  "host \<Rightarrow> string \<Rightarrow> string \<Rightarrow> dict \<Rightarrow> int \<Rightarrow> dict \<Rightarrow> dict \<times> int \<times> dict list" where
  "roster_change h roster_id operation members unresolved mutation =
     (let (declared, i1) = member_id_list h (dget mutation ''member_ids'') roster_id;
          (incoming0, i2) = member_map h (dget mutation ''members'') roster_id ''incoming'';
          i3 = member_ids_issue roster_id operation declared incoming0;
          change_ids = (if declared \<noteq> [] then declared else dkeys incoming0);
          i4 = duplicate_join_issues roster_id operation change_ids members incoming0;
          i5 = missing_removal_issues roster_id operation change_ids members;
          kept = map (keep_identity roster_id operation members) incoming0;
          incoming = map fst kept;
          i6 = concat (map snd kept);
          next = next_members_of operation members incoming change_ids;
          resolved = (if operation = ''resolve'' then length (filter (\<lambda>k. \<not> dhas members k) (dkeys incoming)) else 0);
          (count_now, i7) = resolve_unresolved_count roster_id operation unresolved mutation (int resolved)
      in (next, count_now, i1 @ i2 @ i3 @ i4 @ i5 @ i6 @ i7))"

definition applied_transition ::
  "host \<Rightarrow> dict \<Rightarrow> string \<Rightarrow> string \<Rightarrow> dict \<Rightarrow> bool \<Rightarrow> dict list \<Rightarrow> roster_transition" where
  "applied_transition h rosters roster_id operation mutation valid_event event_issues =
     (let existing_raw = dget rosters roster_id;
          existing = (case existing_raw of JObj d \<Rightarrow> d | _ \<Rightarrow> []);
          is_initial = (\<not> is_dict existing_raw);
          (members, i1) = member_map h (dget existing ''members'') roster_id ''existing'';
          (unresolved, i2) = unresolved_baseline roster_id existing;
          (name, aliases, i3) = resolve_identity h rosters roster_id existing mutation is_initial;
          (metadata, i4) = resolve_audit_metadata h roster_id existing mutation is_initial;
          (next, count_now, i5) = roster_change h roster_id operation members unresolved mutation;
          echo = (operation = ''replace'' \<and> \<not> is_initial);
          old_name = existing_name h existing;
          old_aliases = aliases_of h existing;
          differences = (if echo then replacement_differences members next unresolved count_now old_name name old_aliases aliases else []);
          i6 = (if differences \<noteq> []
                then [issue ''roster_replace_not_idempotent''
                        (''Existing roster '' @ roster_id @ '' may only be replaced idempotently.'')
                        [(''roster_id'', JStr roster_id), (''differences'', JObj differences)]]
                else []);
          next' = (if echo then members else next);
          count' = (if echo then unresolved else count_now);
          name' = (if echo then old_name else name);
          aliases' = (if echo then old_aliases else aliases);
          metadata' = (if echo then existing_audit_metadata h existing else metadata);
          stable_count = int (length next');
          expected = stable_count - int (length members) + (count' - unresolved);
          computed = stable_count + count';
          i7 = count_issues roster_id mutation expected computed stable_count count';
          i8 = baseline_issues h roster_id is_initial count' valid_event metadata'
      in \<lparr>rt_roster_id = roster_id,
          rt_record = Some (roster_record existing roster_id name' aliases' metadata' next' count'),
          rt_issues = event_issues @ i1 @ i2 @ i3 @ i4 @ i5 @ i6 @ i7 @ i8,
          rt_expected_delta = expected, rt_computed_count = computed\<rparr>)"

definition reduce_roster_mutation :: "host \<Rightarrow> dict \<Rightarrow> dict \<Rightarrow> dict \<Rightarrow> bool \<Rightarrow> roster_transition res" where
  "reduce_roster_mutation h rosters mutation current_events require_current_event =
     (let roster_id = id_field h mutation [''roster_id'', ''id''];
          operation = py_strip (py_str h (py_or (dget mutation ''operation'') (JStr ''replace''))) in
      if roster_id = []
      then Inr (refused_transition [] (issue invalid_mutation ''Roster mutation requires roster_id.'' [(''mutation'', JObj mutation)]))
      else if operation \<notin> set roster_operations
      then Inr (refused_transition roster_id
             (issue invalid_mutation (''Roster '' @ roster_id @ '' uses unsupported operation '' @ repr_str operation @ ''.'')
                [(''roster_id'', JStr roster_id), (''operation'', JStr operation)]))
      else
        rbind (validate_event_references h roster_id mutation (current_event_index current_events) require_current_event)
          (\<lambda>(valid_event, event_issues).
             Inr (applied_transition h rosters roster_id operation mutation valid_event event_issues)))"

section \<open>Members are records under their own identifiers\<close>

definition member_entry :: "string \<times> json \<Rightarrow> bool" where
  "member_entry e \<longleftrightarrow> fst e \<noteq> [] \<and> py_strip (fst e) = fst e \<and> (\<exists>d. snd e = JObj d \<and> dget d ''member_id'' = JStr (fst e))"

definition member_dict :: "dict \<Rightarrow> bool" where
  "member_dict m \<longleftrightarrow> distinct (map fst m) \<and> (\<forall>e \<in> set m. member_entry e)"

lemma set_dset_sub: "set (dset k v d) \<subseteq> insert (k, v) (set d)"
  by (induction d) (auto simp: dset_def)

lemma member_dict_Nil [simp]: "member_dict []"
  by (simp add: member_dict_def)

lemma member_dict_dset: "member_dict m \<Longrightarrow> member_entry (k, v) \<Longrightarrow> member_dict (dset k v m)"
  using set_dset_sub [of k v m] by (auto simp: member_dict_def)

lemma member_dict_at: "member_dict m \<Longrightarrow> map_of m k = Some v \<Longrightarrow> member_entry (k, v)"
  by (auto simp: member_dict_def dest!: map_of_SomeD)

lemma id_field_stripped [simp]: "py_strip (id_field h d ks) = id_field h d ks"
  by (simp add: id_field_def)

lemma member_step_dict: "member_dict (fst s) \<Longrightarrow> member_dict (fst (member_step h r source raw s))"
  by (auto simp: member_step_def Let_def split: json.split intro!: member_dict_dset) (simp_all add: member_entry_def)

lemma fold_keeps: "(\<And>x s. P s \<Longrightarrow> P (f x s)) \<Longrightarrow> P s \<Longrightarrow> P (fold f xs s)"
  by (induction xs arbitrary: s) auto

lemma member_map_dict: "member_dict (fst (member_map h v r source))"
  by (auto simp: member_map_def split: json.split intro!: fold_keeps [where P = "\<lambda>s. member_dict (fst s)"] member_step_dict)

text \<open>The member list of a record reads back as the dictionary it was written from.\<close>

lemma dset_new: "\<not> dhas d k \<Longrightarrow> dset k v d = d @ [(k, v)]"
  by (induction d) (auto simp: dset_def dhas_def split: if_splits)

lemma member_fold:
  "member_dict (acc @ m) \<Longrightarrow> fold (member_step h r source) (map snd m) (acc, js) = (acc @ m, js)"
proof (induction m arbitrary: acc)
  case (Cons e m)
  obtain k v where e: "e = (k, v)" by force
  from Cons.prems e obtain d where v: "v = JObj d" "dget d ''member_id'' = JStr k" "k \<noteq> []" "py_strip k = k"
    and new: "k \<notin> set (map fst acc)"
    by (auto simp: member_dict_def member_entry_def)
  have id: "id_field h d [''member_id''] = k"
    using v by (simp add: id_field_def text_field_def py_or_def truthy_def)
  have same: "dset ''member_id'' (JStr k) d = d"
    using v by (intro dset_same) (simp add: dget_eq_JStr)
  have "\<not> dhas acc k" using new by (simp add: dhas_iff_key dkeys_def)
  then have "member_step h r source v (acc, js) = (acc @ [(k, v)], js)"
    using v id same by (simp add: member_step_def dset_new)
  with Cons.IH [of "acc @ [e]"] Cons.prems e show ?case by simp
qed simp

lemma member_map_reads_back: "member_dict m \<Longrightarrow> member_map h (JList (map snd m)) r source = (m, [])"
  using member_fold [of "[]" m] by (simp add: member_map_def)

section \<open>The members and the count after a mutation\<close>

lemma keep_identity_key [simp]: "fst (fst (keep_identity r op m e)) = fst e"
  by (simp add: keep_identity_def Let_def)

lemma kept_keys: "map fst (map fst (map (keep_identity r op m) xs)) = map fst xs"
  by (induction xs) auto

lemma keep_identity_entry: "member_dict m \<Longrightarrow> member_entry e \<Longrightarrow> member_entry (fst (keep_identity r op m e))"
  by (auto simp: keep_identity_def Let_def dget_def is_dict_def split: option.splits json.splits dest: member_dict_at)

lemma kept_dict:
  assumes "member_dict m" and "member_dict xs"
  shows "member_dict (map fst (map (keep_identity r op m) xs))"
  unfolding member_dict_def
proof (rule conjI)
  show "distinct (map fst (map fst (map (keep_identity r op m) xs)))"
    using assms(2) by (simp only: kept_keys member_dict_def)
  show "\<forall>e \<in> set (map fst (map (keep_identity r op m) xs)). member_entry e"
    using assms by (auto simp: member_dict_def [of xs] intro: keep_identity_entry)
qed

lemma join_fold:
  "member_dict acc \<Longrightarrow> \<forall>e \<in> set xs. member_entry e \<Longrightarrow>
     member_dict (fold (\<lambda>(k, v) members. if dhas existing k then members else dset k v members) xs acc)"
  by (induction xs arbitrary: acc) (auto simp: member_dict_dset)

lemma join_keys:
  assumes "distinct (map fst xs)" and "set (map fst acc) \<inter> {k \<in> set (map fst xs). \<not> dhas existing k} = {}"
  defines "result \<equiv> fold (\<lambda>(k, v) members. if dhas existing k then members else dset k v members) xs acc"
  shows "dkeys result = dkeys acc @ filter (\<lambda>k. \<not> dhas existing k) (map fst xs)"
  using assms(1,2) unfolding result_def
proof (induction xs arbitrary: acc)
  case (Cons e xs)
  obtain k v where e: "e = (k, v)" by force
  show ?case
  proof (cases "dhas existing k")
    case True
    with Cons e show ?thesis by auto
  next
    case False
    with Cons.prems e have "k \<notin> set (dkeys acc)" by (auto simp: dkeys_def)
    then have k: "dkeys (dset k v acc) = dkeys acc @ [k]" by (simp add: dkeys_dset)
    have "set (map fst (dset k v acc)) \<inter> {j \<in> set (map fst xs). \<not> dhas existing j} = {}"
      using Cons.prems e k by (auto simp: dkeys_def)
    from Cons.IH [OF _ this] Cons.prems e False k show ?thesis by simp
  qed
qed (simp add: dkeys_def)

lemma next_members_dict:
  "member_dict m \<Longrightarrow> member_dict x \<Longrightarrow> member_dict (next_members_of op m x ids)"
proof -
  assume m: "member_dict m" and x: "member_dict x"
  then have e: "\<forall>e \<in> set x. member_entry e" by (simp add: member_dict_def)
  have "member_dict (filter (\<lambda>(k, v). k \<notin> set ids) m)"
    using m by (auto simp: member_dict_def distinct_map_filter)
  then show ?thesis using m x e by (simp add: next_members_of_def join_fold)
qed

lemma unresolved_kept_nonnegative:
  assumes "0 \<le> u"
  shows "0 \<le> fst (resolve_unresolved_count r op u mutation k)"
proof -
  have "0 \<le> fst (unresolved_replace r u b d c)" for b d c
    using assms by (auto simp: unresolved_replace_def Let_def nonnegative_int_def split: option.split json.split)
  moreover have "0 \<le> fst (unresolved_resolve r u b d k)" for b d
    using assms by (auto simp: unresolved_resolve_def Let_def split: option.split)
  moreover have "0 \<le> fst (unresolved_change r op u b d)" for b d
    using assms by (auto simp: unresolved_change_def Let_def split: option.split)
  ultimately show ?thesis by (simp add: resolve_unresolved_count_def Let_def)
qed

lemma resolve_accepted:
  "resolve_unresolved_count r ''resolve'' u mutation k = (c, []) \<Longrightarrow> 1 \<le> k \<and> c = u - k \<and> k \<le> u"
  by (auto simp: resolve_unresolved_count_def unresolved_resolve_def Let_def split: if_splits option.splits)

lemma join_accepted: "resolve_unresolved_count r ''join'' u mutation k = (c, []) \<Longrightarrow> u \<le> c"
  by (auto simp: resolve_unresolved_count_def unresolved_change_def Let_def split: if_splits option.splits)

lemma removal_accepted:
  "resolve_unresolved_count r op u mutation k = (c, []) \<Longrightarrow> op \<in> set removal_operations \<Longrightarrow> c \<le> u"
  by (auto simp: resolve_unresolved_count_def unresolved_change_def Let_def removal_operations_def split: if_splits option.splits)

text \<open>The members a mutation is about.\<close>

definition mutation_ids :: "host \<Rightarrow> string \<Rightarrow> dict \<Rightarrow> string list" where
  "mutation_ids h roster_id mutation =
     (let declared = fst (member_id_list h (dget mutation ''member_ids'') roster_id) in
      if declared \<noteq> [] then declared
      else dkeys (fst (member_map h (dget mutation ''members'') roster_id ''incoming'')))"

lemma member_ids_agree:
  "member_ids_issue r op declared x = [] \<Longrightarrow> op \<in> {''join'', ''replace'', ''resolve''} \<Longrightarrow>
     set (if declared \<noteq> [] then declared else dkeys x) = set (dkeys x)"
  by (auto simp: member_ids_issue_def split: if_splits)

lemma sort_filter_empty: "sort (filter P (remdups xs)) = [] \<longleftrightarrow> (\<forall>x \<in> set xs. \<not> P x)"
  by (metis (no_types, lifting) filter_empty_conv set_empty set_remdups set_sort)

lemma no_duplicate_joins:
  "duplicate_join_issues r op ids m x = [] \<Longrightarrow> op \<in> {''join'', ''resolve''} \<Longrightarrow> \<forall>j \<in> set ids. \<not> dhas m j"
  by (simp add: duplicate_join_issues_def Let_def sort_filter_empty split: if_splits)

lemma no_missing_removals:
  "missing_removal_issues r op ids m = [] \<Longrightarrow> op \<in> set removal_operations \<Longrightarrow> \<forall>j \<in> set ids. dhas m j"
  by (simp add: missing_removal_issues_def Let_def sort_filter_empty split: if_splits)

lemma roster_change_cases:
  assumes "roster_change h r op m u mutation = (nxt, c, issues)" and "member_dict m"
  obtains incoming k i where "member_dict incoming" and "nxt = next_members_of op m incoming (mutation_ids h r mutation)"
    and "resolve_unresolved_count r op u mutation (int k) = (c, i)"
    and "op = ''resolve'' \<Longrightarrow> k = length (filter (\<lambda>k. \<not> dhas m k) (dkeys incoming))"
    and "issues = [] \<Longrightarrow> i = []"
    and "issues = [] \<Longrightarrow> op \<in> {''join'', ''replace'', ''resolve''} \<Longrightarrow> set (mutation_ids h r mutation) = set (dkeys incoming)"
    and "issues = [] \<Longrightarrow> op \<in> {''join'', ''resolve''} \<Longrightarrow> \<forall>j \<in> set (mutation_ids h r mutation). \<not> dhas m j"
    and "issues = [] \<Longrightarrow> op \<in> set removal_operations \<Longrightarrow> \<forall>j \<in> set (mutation_ids h r mutation). dhas m j"
proof -
  obtain declared i1 where d: "member_id_list h (dget mutation ''member_ids'') r = (declared, i1)" by force
  obtain x i2 where x: "member_map h (dget mutation ''members'') r ''incoming'' = (x, i2)" by force
  let ?ids = "mutation_ids h r mutation"
  have ids: "?ids = (if declared \<noteq> [] then declared else dkeys x)" by (simp add: mutation_ids_def d x)
  define y where "y = map fst (map (keep_identity r op m) x)"
  define k where "k = (if op = ''resolve'' then length (filter (\<lambda>k. \<not> dhas m k) (dkeys y)) else 0)"
  have keys: "dkeys y = dkeys x" using kept_keys [of r op m x] by (simp add: dkeys_def y_def)
  have dict: "member_dict y"
    unfolding y_def using member_map_dict [of h "dget mutation ''members''" r "''incoming''"] x by (intro kept_dict assms) simp
  obtain c' i7 where c: "resolve_unresolved_count r op u mutation (int k) = (c', i7)" by force
  have e: "nxt = next_members_of op m y ?ids" "c = c'"
    "issues = i1 @ i2 @ member_ids_issue r op declared x @ duplicate_join_issues r op ?ids m x @
       missing_removal_issues r op ?ids m @ concat (map snd (map (keep_identity r op m) x)) @ i7"
    using assms(1) [unfolded roster_change_def Let_def d x prod.case c [unfolded k_def y_def]] unfolding ids y_def by simp_all
  show thesis
  proof (rule that [OF dict e(1)])
    show "resolve_unresolved_count r op u mutation (int k) = (c, i7)" using c e(2) by simp
    show "op = ''resolve'' \<Longrightarrow> k = length (filter (\<lambda>k. \<not> dhas m k) (dkeys y))" by (simp add: k_def)
    show "issues = [] \<Longrightarrow> i7 = []" using e(3) by simp
    show "issues = [] \<Longrightarrow> op \<in> {''join'', ''replace'', ''resolve''} \<Longrightarrow> set ?ids = set (dkeys y)"
      using e(3) member_ids_agree [of r op declared x] by (simp only: keys ids append_is_Nil_conv)
    show "issues = [] \<Longrightarrow> op \<in> {''join'', ''resolve''} \<Longrightarrow> \<forall>j \<in> set ?ids. \<not> dhas m j"
      using e(3) no_duplicate_joins by (simp only: append_is_Nil_conv) blast
    show "issues = [] \<Longrightarrow> op \<in> set removal_operations \<Longrightarrow> \<forall>j \<in> set ?ids. dhas m j"
      using e(3) no_missing_removals by (simp only: append_is_Nil_conv) blast
  qed
qed

section \<open>The record of a transition\<close>

lemma map_of_dupdate: "map_of (dupdate d e) k = (case map_of (rev e) k of Some v \<Rightarrow> Some v | None \<Rightarrow> map_of d k)"
  by (induction d e rule: dupdate.induct) (auto simp: map_add_def split: option.splits)

lemma roster_record_fields:
  "dget (roster_record existing r name aliases metadata m c) ''members'' = JList (map snd m)"
  "dget (roster_record existing r name aliases metadata m c) ''unresolved_count'' = JInt c"
  "dget (roster_record existing r name aliases metadata m c) ''declared_count'' = JInt (int (length m) + c)"
  "dget (roster_record existing r name aliases metadata m c) ''computed_count'' = JInt (int (length m) + c)"
  by (simp_all add: roster_record_def Let_def dget_def map_of_dupdate)

lemma member_map_length: "member_dict m \<Longrightarrow> length (fst (member_map h (JList (map snd m)) r s)) = length m"
  by (simp add: member_map_reads_back)

definition old_record :: "dict \<Rightarrow> string \<Rightarrow> dict" where
  "old_record rosters r = (case dget rosters r of JObj d \<Rightarrow> d | _ \<Rightarrow> [])"

lemma applied_transition_cases:
  fixes h rosters r mutation
  defines "old \<equiv> old_record rosters r"
  defines "m \<equiv> fst (member_map h (dget old ''members'') r ''existing'')" and "u \<equiv> fst (unresolved_baseline r old)"
  assumes "applied_transition h rosters r op mutation ve ei = t"
  obtains nxt c i where "roster_change h r op m u mutation = (nxt, c, i)"
    and "rt_issues t = [] \<Longrightarrow> i = []"
    and "is_dict (dget rosters r) \<Longrightarrow> op = ''replace'' \<Longrightarrow>
       \<exists>name aliases metadata. rt_record t = Some (roster_record old r name aliases metadata m u) \<and>
         rt_expected_delta t = 0 \<and> rt_computed_count t = int (length m) + u"
    and "\<not> (is_dict (dget rosters r) \<and> op = ''replace'') \<Longrightarrow>
       \<exists>name aliases metadata. rt_record t = Some (roster_record old r name aliases metadata nxt c) \<and>
         rt_expected_delta t = int (length nxt) - int (length m) + (c - u) \<and> rt_computed_count t = int (length nxt) + c"
    and "rt_issues t = [] \<Longrightarrow> dget mutation ''delta'' = JInt (rt_expected_delta t) \<and> dget mutation ''declared_count'' = JInt (rt_computed_count t)"
proof -
  obtain i1 where m: "member_map h (dget old ''members'') r ''existing'' = (m, i1)" by (metis m_def prod.collapse)
  obtain i2 where u: "unresolved_baseline r old = (u, i2)" by (metis u_def prod.collapse)
  obtain nxt c i where rc: "roster_change h r op m u mutation = (nxt, c, i)" by (metis prod.collapse)
  obtain name aliases i3 where id: "resolve_identity h rosters r old mutation (\<not> is_dict (dget rosters r)) = (name, aliases, i3)"
    by (metis prod.collapse)
  obtain metadata i4 where au: "resolve_audit_metadata h r old mutation (\<not> is_dict (dget rosters r)) = (metadata, i4)" by force
  have o: "(case dget rosters r of JObj d \<Rightarrow> d | _ \<Rightarrow> []) = old" by (simp add: old_def old_record_def)
  note t = assms(4) [symmetric, unfolded applied_transition_def Let_def o m u id au rc prod.case]
  have ci: "count_issues r mutation e n s v = [] \<Longrightarrow> dget mutation ''delta'' = JInt e \<and> dget mutation ''declared_count'' = JInt n" for e n s v
    by (auto simp: count_issues_def Let_def integer_value_def nonnegative_int_def split: json.splits if_splits option.splits)
  show thesis
  proof (rule that [OF rc])
    show "rt_issues t = [] \<Longrightarrow> i = []" by (simp add: t)
    show "is_dict (dget rosters r) \<Longrightarrow> op = ''replace'' \<Longrightarrow>
       \<exists>name aliases metadata. rt_record t = Some (roster_record old r name aliases metadata m u) \<and>
         rt_expected_delta t = 0 \<and> rt_computed_count t = int (length m) + u"
      by (simp add: t) blast
    show "\<not> (is_dict (dget rosters r) \<and> op = ''replace'') \<Longrightarrow>
       \<exists>name aliases metadata. rt_record t = Some (roster_record old r name aliases metadata nxt c) \<and>
         rt_expected_delta t = int (length nxt) - int (length m) + (c - u) \<and> rt_computed_count t = int (length nxt) + c"
      by (simp add: t) blast
    show "rt_issues t = [] \<Longrightarrow> dget mutation ''delta'' = JInt (rt_expected_delta t) \<and> dget mutation ''declared_count'' = JInt (rt_computed_count t)"
      unfolding t roster_transition.simps append_is_Nil_conv by (blast dest: ci)
  qed
qed

section \<open>The abstract roster\<close>

text \<open>
  A roster is a set of named members and a number of anonymous ones. The steps say what each operation
  does to them; \<open>S\<close> is the set of members the operation names.
\<close>

type_synonym head_count = "string set \<times> nat"

definition heads :: "head_count \<Rightarrow> nat" where
  "heads s = card (fst s) + snd s"

inductive roster_step :: "string \<Rightarrow> string set \<Rightarrow> head_count option \<Rightarrow> head_count \<Rightarrow> bool" where
  joined: "S \<inter> N = {} \<Longrightarrow> roster_step ''join'' S (Some (N, u)) (N \<union> S, u + k)"
| joined_new: "roster_step ''join'' S None (S, k)"
| removed: "op \<in> set removal_operations \<Longrightarrow> S \<subseteq> N \<Longrightarrow> k \<le> u \<Longrightarrow> roster_step op S (Some (N, u)) (N - S, u - k)"
| removed_new: "op \<in> set removal_operations \<Longrightarrow> roster_step op {} None ({}, 0)"
| resolved: "S \<inter> N = {} \<Longrightarrow> S \<noteq> {} \<Longrightarrow> finite S \<Longrightarrow> card S \<le> u \<Longrightarrow> roster_step ''resolve'' S (Some (N, u)) (N \<union> S, u - card S)"
| founded: "roster_step ''replace'' S None (S, k)"
| confirmed: "roster_step ''replace'' S (Some s) s"

inductive_cases resolve_stepE: "roster_step ''resolve'' S b a"
inductive_cases join_stepE: "roster_step ''join'' S (Some b) a"

lemma resolve_keeps_heads: "roster_step ''resolve'' S (Some b) a \<Longrightarrow> finite (fst b) \<Longrightarrow> heads a = heads b"
  by (erule resolve_stepE) (auto simp: heads_def card_Un_disjoint removal_operations_def Int_commute)

definition roster_abs :: "host \<Rightarrow> string \<Rightarrow> json \<Rightarrow> head_count option" where
  "roster_abs h r v =
     (case v of
        JObj d \<Rightarrow> Some (set (dkeys (fst (member_map h (dget d ''members'') r ''existing''))), nat (fst (unresolved_baseline r d)))
      | _ \<Rightarrow> None)"

lemma unresolved_baseline_nonnegative: "0 \<le> fst (unresolved_baseline r d)"
  by (auto simp: unresolved_baseline_def Let_def nonnegative_int_def split: option.split json.splits)

lemma roster_abs_record:
  assumes "member_dict m" and "0 \<le> c"
  shows "roster_abs h r (JObj (roster_record existing r name aliases metadata m c)) = Some (set (dkeys m), nat c)"
proof -
  have "unresolved_baseline r (roster_record existing r name aliases metadata m c) = (c, [])"
    using assms(2) roster_record_fields(2) [of existing r name aliases metadata m c]
    by (auto simp: unresolved_baseline_def dget_or_def dget_def nonnegative_int_def split: option.splits)
  then show ?thesis by (simp add: roster_abs_def roster_record_fields member_map_reads_back [OF assms(1)])
qed

text \<open>The keys of the members after an operation.\<close>

lemma joined_keys:
  assumes "member_dict incoming" and "set ids = set (dkeys incoming)" and "\<forall>j \<in> set ids. \<not> dhas m j" and "op \<in> {''join'', ''resolve''}"
  shows "dkeys (next_members_of op m incoming ids') = dkeys m @ dkeys incoming"
proof -
  have "filter (\<lambda>k. \<not> dhas m k) (dkeys incoming) = dkeys incoming" using assms(2,3) by auto
  moreover have "set (map fst m) \<inter> {k \<in> set (map fst incoming). \<not> dhas m k} = {}"
    by (auto simp: dhas_iff_key dkeys_def)
  ultimately show ?thesis
    using join_keys [of incoming m m] assms(1,4) by (simp add: next_members_of_def member_dict_def dkeys_def)
qed

lemma removal_iff: "op \<in> set removal_operations \<longleftrightarrow> op = ''leave'' \<or> op = ''dead'' \<or> op = ''missing''"
  by (simp add: removal_operations_def)

lemma in_six: "x \<in> set [a, b, c, d, e, f] \<longleftrightarrow> x = a \<or> x = f \<or> x = e \<or> x = b \<or> x = c \<or> x = d"
  by auto

lemma operation_cases: "op \<in> set roster_operations \<longleftrightarrow> op = ''join'' \<or> op = ''resolve'' \<or> op = ''replace'' \<or> op \<in> set removal_operations"
  unfolding removal_iff roster_operations_def by (rule in_six)

lemma dkeys_filter: "dkeys (filter (\<lambda>(k, v). P k) m) = filter P (dkeys m)"
  by (induction m) (auto simp: dkeys_def)

lemma removed_keys:
  assumes "op \<in> set removal_operations"
  shows "dkeys (next_members_of op m incoming ids) = filter (\<lambda>k. k \<notin> set ids) (dkeys m)"
proof -
  have "op \<notin> {''join'', ''resolve''}" using assms unfolding removal_iff by force
  with assms show ?thesis by (simp add: next_members_of_def dkeys_filter)
qed

lemma dget_empty: "dget [] k = JNull"
  by (simp add: dget_def)

lemma no_roster_is_empty:
  "\<not> is_dict (dget rosters r) \<Longrightarrow> member_map h (dget (old_record rosters r) ''members'') r s = ([], []) \<and>
     unresolved_baseline r (old_record rosters r) = (0, [])"
proof -
  assume "\<not> is_dict (dget rosters r)"
  then have "old_record rosters r = []" by (cases "dget rosters r") (simp_all add: old_record_def is_dict_def)
  moreover have "unresolved_baseline r [] = (0, [])"
    by (simp add: unresolved_baseline_def dget_or_def nonnegative_int_def)
  ultimately show ?thesis by (simp add: member_map_def dget_empty)
qed

lemma card_keys: "member_dict m \<Longrightarrow> card (set (dkeys m)) = length m"
  by (simp add: dkeys_def member_dict_def) (metis distinct_card length_map set_map)

lemma accepted_step:
  assumes rc: "roster_change h r op m u mutation = (nxt, c, [])" and m: "member_dict m" and u: "0 \<le> u"
    and op: "op \<in> set roster_operations" and new: "\<not> (had \<and> op = ''replace'')" and none: "\<not> had \<Longrightarrow> m = [] \<and> u = 0"
  shows "member_dict nxt \<and> 0 \<le> c \<and>
     roster_step op (set (mutation_ids h r mutation)) (if had then Some (set (dkeys m), nat u) else None) (set (dkeys nxt), nat c)"
proof (rule roster_change_cases [OF rc m])
  let ?ids = "mutation_ids h r mutation"
  fix incoming k i
  assume inc: "member_dict incoming" and nxt: "nxt = next_members_of op m incoming ?ids"
    and un: "resolve_unresolved_count r op u mutation (int k) = (c, i)"
    and k: "op = ''resolve'' \<Longrightarrow> k = length (filter (\<lambda>k. \<not> dhas m k) (dkeys incoming))"
    and i: "([] :: dict list) = [] \<Longrightarrow> i = []"
    and same: "([] :: dict list) = [] \<Longrightarrow> op \<in> {''join'', ''replace'', ''resolve''} \<Longrightarrow> set ?ids = set (dkeys incoming)"
    and fresh: "([] :: dict list) = [] \<Longrightarrow> op \<in> {''join'', ''resolve''} \<Longrightarrow> \<forall>j \<in> set ?ids. \<not> dhas m j"
    and there: "([] :: dict list) = [] \<Longrightarrow> op \<in> set removal_operations \<Longrightarrow> \<forall>j \<in> set ?ids. dhas m j"
  from un i have un: "resolve_unresolved_count r op u mutation (int k) = (c, [])" by simp
  have d: "member_dict nxt" unfolding nxt by (rule next_members_dict [OF m inc])
  have c: "0 \<le> c" using unresolved_kept_nonnegative [OF u, of r op mutation "int k"] un by simp
  consider "op = ''join''" | "op = ''resolve''" | "op = ''replace''" | "op \<in> set removal_operations"
    using op unfolding operation_cases by blast
  then have "roster_step op (set ?ids) (if had then Some (set (dkeys m), nat u) else None) (set (dkeys nxt), nat c)"
  proof cases
    case 1
    have s: "set (dkeys nxt) = set (dkeys m) \<union> set ?ids"
      using joined_keys [OF inc same fresh] 1 same by (simp add: nxt)
    have dis: "set ?ids \<inter> set (dkeys m) = {}" using fresh 1 by (auto simp: dhas_iff_key)
    show ?thesis
    proof (cases had)
      case True
      have "nat c = nat u + (nat c - nat u)" using join_accepted [OF un [unfolded 1]] by simp
      with joined [OF dis, of "nat u" "nat c - nat u"] show ?thesis by (simp add: 1 True s)
    next
      case False
      with none s joined_new show ?thesis by (simp add: 1 dkeys_def)
    qed
  next
    case 2
    have fr: "filter (\<lambda>k. \<not> dhas m k) (dkeys incoming) = dkeys incoming" using fresh same 2 by auto
    have kk: "k = length incoming" using k [OF 2] unfolding fr by (simp add: dkeys_def)
    note ra = resolve_accepted [OF un [unfolded 2]]
    have s: "set (dkeys nxt) = set (dkeys m) \<union> set ?ids"
      using joined_keys [OF inc same fresh] 2 same by (simp add: nxt)
    have dis: "set ?ids \<inter> set (dkeys m) = {}" using fresh 2 by (auto simp: dhas_iff_key)
    have cd: "card (set ?ids) = k" using same 2 kk card_keys [OF inc] by simp
    have ne: "set ?ids \<noteq> {}" using cd ra by auto
    have had using ra none by (cases had) auto
    have "nat c = nat u - card (set ?ids)" using ra cd by simp
    moreover have "card (set ?ids) \<le> nat u" using ra cd u by (simp add: le_nat_iff)
    ultimately show ?thesis using resolved [OF dis ne, of "nat u"] by (simp add: 2 \<open>had\<close> s)
  next
    case 3
    with new have h: "\<not> had" by simp
    have "set (dkeys nxt) = set ?ids" using same 3 by (simp add: nxt next_members_of_def removal_operations_def)
    with founded show ?thesis by (simp add: 3 h)
  next
    case 4
    have s: "set (dkeys nxt) = set (dkeys m) - set ?ids" using removed_keys [OF 4] by (auto simp: nxt)
    have sub: "set ?ids \<subseteq> set (dkeys m)" using there 4 by (auto simp: dhas_iff_key)
    note ra = removal_accepted [OF un 4]
    show ?thesis
    proof (cases had)
      case True
      have "nat c = nat u - (nat u - nat c)" "nat u - nat c \<le> nat u" using ra c by simp_all
      with removed [OF 4 sub, of "nat u - nat c" "nat u"] show ?thesis by (simp add: True s)
    next
      case False
      with none sub s c ra removed_new [OF 4] show ?thesis by (simp add: dkeys_def)
    qed
  qed
  with d c show ?thesis by blast
qed

section \<open>Properties\<close>

definition balanced_roster :: "dict \<Rightarrow> bool" where
  "balanced_roster d \<longleftrightarrow>
     (\<exists>m u. dget d ''members'' = JList (map snd m) \<and> member_dict m \<and>
        dget d ''unresolved_count'' = JInt u \<and> 0 \<le> u \<and>
        dget d ''declared_count'' = JInt (int (length m) + u) \<and> dget d ''computed_count'' = JInt (int (length m) + u))"

lemma transition_record:
  assumes "reduce_roster_mutation h rosters mutation events req = Inr t" and "rt_record t = Some d"
  obtains r op ve js where "r = id_field h mutation [''roster_id'', ''id'']" and "r \<noteq> []"
    and "op = py_strip (py_str h (py_or (dget mutation ''operation'') (JStr ''replace'')))" and "op \<in> set roster_operations"
    and "applied_transition h rosters r op mutation ve js = t"
  using assms by (auto simp: reduce_roster_mutation_def Let_def refused_transition_def rbind_eq_Inr split: if_splits prod.splits)

lemma applied_record:
  assumes "applied_transition h rosters r op mutation ve js = t" and "rt_record t = Some d"
  obtains m c name aliases metadata where "d = roster_record (old_record rosters r) r name aliases metadata m c"
    and "member_dict m" and "0 \<le> c" and "rt_computed_count t = int (length m) + c"
proof -
  let ?old = "old_record rosters r"
  let ?m = "fst (member_map h (dget ?old ''members'') r ''existing'')" and ?u = "fst (unresolved_baseline r ?old)"
  have m: "member_dict ?m" by (rule member_map_dict)
  have u: "0 \<le> ?u" by (rule unresolved_baseline_nonnegative)
  show thesis
  proof (rule applied_transition_cases [OF assms(1)])
    fix nxt c i
    assume rc: "roster_change h r op ?m ?u mutation = (nxt, c, i)"
      and echo: "is_dict (dget rosters r) \<Longrightarrow> op = ''replace'' \<Longrightarrow> \<exists>name aliases metadata.
         rt_record t = Some (roster_record ?old r name aliases metadata ?m ?u) \<and> rt_expected_delta t = 0 \<and> rt_computed_count t = int (length ?m) + ?u"
      and new: "\<not> (is_dict (dget rosters r) \<and> op = ''replace'') \<Longrightarrow> \<exists>name aliases metadata.
         rt_record t = Some (roster_record ?old r name aliases metadata nxt c) \<and>
         rt_expected_delta t = int (length nxt) - int (length ?m) + (c - ?u) \<and> rt_computed_count t = int (length nxt) + c"
    have n: "member_dict nxt \<and> 0 \<le> c"
      by (rule roster_change_cases [OF rc m])
         (use m u unresolved_kept_nonnegative [OF u] in \<open>metis fst_conv next_members_dict\<close>)
    show thesis
    proof (cases "is_dict (dget rosters r) \<and> op = ''replace''")
      case True
      with echo assms(2) m u that show thesis by force
    next
      case False
      from new [OF this] assms(2) n that show thesis by force
    qed
  qed
qed

text \<open>
  C23: every record the reducer writes is balanced, whatever the mutation, its issues and the record it
  started from: its members are objects under distinct identifiers that are not blank, the unresolved
  count is not negative, and both counts of the record are the number of members plus the unresolved.
\<close>

theorem roster_records_are_balanced:
  assumes "reduce_roster_mutation h rosters mutation events req = Inr t" and "rt_record t = Some d"
  shows "balanced_roster d \<and> dget d ''computed_count'' = JInt (rt_computed_count t)"
proof (rule transition_record [OF assms])
  fix r op ve js assume "applied_transition h rosters r op mutation ve js = t"
  then show ?thesis
    by (rule applied_record [OF _ assms(2)]) (auto simp: balanced_roster_def roster_record_fields)
qed

definition headcount :: "host \<Rightarrow> string \<Rightarrow> json \<Rightarrow> int" where
  "headcount h r v = (case roster_abs h r v of None \<Rightarrow> 0 | Some s \<Rightarrow> int (heads s))"

text \<open>
  C22: an accepted mutation refines a step of the abstract roster: \<open>join\<close> adds the members it names,
  who were not there, and never lowers the anonymous count, \<open>leave\<close>, \<open>dead\<close> and \<open>missing\<close> remove
  members who were there, \<open>resolve\<close> gives each new member the place of an anonymous one, so that
  it keeps the head count, and \<open>replace\<close> founds a roster or changes nothing. The change and
  the count the mutation declares are those of the step.
\<close>

theorem accepted_mutation_refines:
  assumes "reduce_roster_mutation h rosters mutation events req = Inr t" and "rt_record t = Some d" and "rt_issues t = []"
  shows "\<exists>r op s. r = id_field h mutation [''roster_id'', ''id''] \<and>
     op = py_strip (py_str h (py_or (dget mutation ''operation'') (JStr ''replace''))) \<and>
     roster_abs h r (JObj d) = Some s \<and>
     roster_step op (set (mutation_ids h r mutation)) (roster_abs h r (dget rosters r)) s \<and>
     dget mutation ''declared_count'' = JInt (headcount h r (JObj d)) \<and>
     dget mutation ''delta'' = JInt (headcount h r (JObj d) - headcount h r (dget rosters r))"
proof (rule transition_record [OF assms(1,2)])
  fix r op ve js
  assume r: "r = id_field h mutation [''roster_id'', ''id'']"
    and op: "op = py_strip (py_str h (py_or (dget mutation ''operation'') (JStr ''replace'')))" "op \<in> set roster_operations"
    and t: "applied_transition h rosters r op mutation ve js = t"
  let ?old = "old_record rosters r" and ?S = "set (mutation_ids h r mutation)"
  define m where "m = fst (member_map h (dget ?old ''members'') r ''existing'')"
  define u where "u = fst (unresolved_baseline r ?old)"
  have m: "member_dict m" unfolding m_def by (rule member_map_dict)
  have u: "0 \<le> u" unfolding u_def by (rule unresolved_baseline_nonnegative)
  have none: "m = [] \<and> u = 0" if "\<not> is_dict (dget rosters r)"
    using no_roster_is_empty [OF that, of h "''existing''"] by (simp add: m_def u_def)
  have before: "roster_abs h r (dget rosters r) = (if is_dict (dget rosters r) then Some (set (dkeys m), nat u) else None)"
    by (auto simp: roster_abs_def old_record_def m_def u_def is_dict_def split: json.splits)
  have count: "headcount h r (dget rosters r) = int (length m) + u"
    using m u none by (auto simp: headcount_def before heads_def card_keys)
  show ?thesis
  proof (rule applied_transition_cases [OF t, folded m_def u_def])
    fix nxt c i
    assume rc: "roster_change h r op m u mutation = (nxt, c, i)" and i: "rt_issues t = [] \<Longrightarrow> i = []"
      and echo: "is_dict (dget rosters r) \<Longrightarrow> op = ''replace'' \<Longrightarrow> \<exists>name aliases metadata.
         rt_record t = Some (roster_record ?old r name aliases metadata m u) \<and> rt_expected_delta t = 0 \<and> rt_computed_count t = int (length m) + u"
      and new: "\<not> (is_dict (dget rosters r) \<and> op = ''replace'') \<Longrightarrow> \<exists>name aliases metadata.
         rt_record t = Some (roster_record ?old r name aliases metadata nxt c) \<and>
         rt_expected_delta t = int (length nxt) - int (length m) + (c - u) \<and> rt_computed_count t = int (length nxt) + c"
      and declared: "rt_issues t = [] \<Longrightarrow> dget mutation ''delta'' = JInt (rt_expected_delta t) \<and> dget mutation ''declared_count'' = JInt (rt_computed_count t)"
    show ?thesis
    proof (cases "is_dict (dget rosters r) \<and> op = ''replace''")
      case True
      with echo assms(2) obtain name aliases metadata where d: "d = roster_record ?old r name aliases metadata m u"
        and e: "rt_expected_delta t = 0" "rt_computed_count t = int (length m) + u" by auto
      have after: "roster_abs h r (JObj d) = Some (set (dkeys m), nat u)" unfolding d by (rule roster_abs_record [OF m u])
      then have "headcount h r (JObj d) = int (length m) + u"
        using m u by (simp add: headcount_def heads_def card_keys)
      then show ?thesis
        using r op True after before count e declared [OF assms(3)] confirmed [of ?S "(set (dkeys m), nat u)"] by simp
    next
      case False
      with new assms(2) obtain name aliases metadata where d: "d = roster_record ?old r name aliases metadata nxt c"
        and e: "rt_expected_delta t = int (length nxt) - int (length m) + (c - u)" "rt_computed_count t = int (length nxt) + c" by auto
      have st: "member_dict nxt \<and> 0 \<le> c \<and>
         roster_step op ?S (if is_dict (dget rosters r) then Some (set (dkeys m), nat u) else None) (set (dkeys nxt), nat c)"
        using accepted_step [OF _ m u op(2) False none] rc i [OF assms(3)] by blast
      then have after: "roster_abs h r (JObj d) = Some (set (dkeys nxt), nat c)" unfolding d by (intro roster_abs_record) auto
      then have "headcount h r (JObj d) = int (length nxt) + c"
        using st by (simp add: headcount_def heads_def card_keys)
      then show ?thesis using r op after before count e declared [OF assms(3)] st by simp
    qed
  qed
qed

section \<open>Witnesses\<close>

definition example_rosters :: dict where
  "example_rosters = [(''crew'', JObj [(''roster_id'', JStr ''crew''), (''name'', JStr ''Crew''),
     (''members'', JList [JObj [(''member_id'', JStr ''m1'')]]), (''unresolved_count'', JInt 3)])]"

definition example_resolution :: dict where
  "example_resolution = [(''roster_id'', JStr ''crew''), (''operation'', JStr ''resolve''), (''source_event_id'', JStr ''e1''),
     (''members'', JList [JObj [(''member_id'', JStr ''m2'')], JObj [(''member_id'', JStr ''m3'')]]),
     (''unresolved_before'', JInt 3), (''unresolved_delta'', JInt (- 2)), (''delta'', JInt 0), (''declared_count'', JInt 4)]"

lemma example_resolution_accepted:
  obtains t d where "reduce_roster_mutation example_host example_rosters example_resolution [(''e1'', JObj [])] True = Inr t"
    and "rt_record t = Some d" and "rt_issues t = []"
proof -
  have "case reduce_roster_mutation example_host example_rosters example_resolution [(''e1'', JObj [])] True of
      Inl _ \<Rightarrow> False | Inr t \<Rightarrow> rt_record t \<noteq> None \<and> rt_issues t = []"
    by code_simp
  with that show thesis by (auto split: sum.splits)
qed

lemma roster_records_are_balanced_witness:
  "\<exists>t d. reduce_roster_mutation example_host example_rosters example_resolution [(''e1'', JObj [])] True = Inr t \<and>
     rt_record t = Some d \<and> balanced_roster d"
  by (rule example_resolution_accepted) (use roster_records_are_balanced in blast)

lemma accepted_mutation_refines_witness:
  "\<exists>d s. roster_abs example_host ''crew'' (JObj d) = Some s \<and>
     roster_step ''resolve'' {''m2'', ''m3''} (Some ({''m1''}, 3)) s"
proof (rule example_resolution_accepted)
  fix t d
  assume "reduce_roster_mutation example_host example_rosters example_resolution [(''e1'', JObj [])] True = Inr t"
    and "rt_record t = Some d" and "rt_issues t = []"
  note s = accepted_mutation_refines [OF this]
  have "id_field example_host example_resolution [''roster_id'', ''id''] = ''crew''"
    "py_strip (py_str example_host (py_or (dget example_resolution ''operation'') (JStr ''replace''))) = ''resolve''"
    "mutation_ids example_host ''crew'' example_resolution = [''m2'', ''m3'']"
    by code_simp+
  moreover have "(case dget example_rosters ''crew'' of JObj d \<Rightarrow> dkeys (fst (member_map example_host (dget d ''members'') ''crew'' ''existing'')) = [''m1''] \<and>
       fst (unresolved_baseline ''crew'' d) = 3 | _ \<Rightarrow> False)"
    by code_simp
  then have "roster_abs example_host ''crew'' (dget example_rosters ''crew'') = Some ({''m1''}, 3)"
    by (auto simp: roster_abs_def split: json.splits)
  ultimately show ?thesis using s by auto
qed

end
