(* ===== verification/Authoritative_State.thy ===== *)
theory Authoritative_State
  imports Memory_Documents Roster
begin

text \<open>
  The authoritative state of the story (\<open>core/state/authoritative.py\<close>): seven ledgers of records, and
  the validation of a change of them. \<open>validate_authoritative_state_delta\<close> applies every change it can and
  collects what is wrong as findings; a change without findings is accepted. A record that is truthy but not an
  object makes the language raise. The model is that of an empty chapter text, the text with which the
  reducer and \<open>validate_authoritative_state\<close> call it: the two checks that compare the ledgers with
  Chinese prose then find nothing. A tuple in the evidence of a finding is a list.
\<close>

section \<open>Numbers and values\<close>

definition is_number :: "json \<Rightarrow> bool" where
  "is_number v \<longleftrightarrow> (case v of JInt _ \<Rightarrow> True | JFloat _ \<Rightarrow> True | _ \<Rightarrow> False)"

definition add_floats :: "host \<Rightarrow> pyfloat \<Rightarrow> pyfloat \<Rightarrow> pyfloat" where
  "add_floats h a b =
     (case (a, b) of
        (Finite x, Finite y) \<Rightarrow> Finite (float_add h x y)
      | (Finite x, _) \<Rightarrow> b
      | (_, Finite y) \<Rightarrow> a
      | _ \<Rightarrow> if a = b then a else NaN)"

text \<open>\<open>a + b\<close> of two numbers, and \<open>a < b\<close> of two numbers (false for anything else).\<close>

definition add_numbers :: "host \<Rightarrow> json \<Rightarrow> json \<Rightarrow> json" where
  "add_numbers h a b =
     (case (a, b) of
        (JInt i, JInt j) \<Rightarrow> JInt (i + j)
      | _ \<Rightarrow> (case (as_float a, as_float b) of (Some f, Some g) \<Rightarrow> JFloat (add_floats h f g) | _ \<Rightarrow> JNull))"

definition number_less :: "json \<Rightarrow> json \<Rightarrow> bool" where
  "number_less a b = (case (as_float a, as_float b) of (Some f, Some g) \<Rightarrow> float_less f g | _ \<Rightarrow> False)"

definition object_items :: "json \<Rightarrow> dict list" where
  "object_items v =
     (case v of JList xs \<Rightarrow> concat (map (\<lambda>x. case x of JObj d \<Rightarrow> [d] | _ \<Rightarrow> []) xs) | _ \<Rightarrow> [])"

text \<open>\<open>v or {}\<close> as an object: a truthy value of another type has no \<open>get\<close>.\<close>

definition or_empty :: "json \<Rightarrow> dict res" where
  "or_empty v = (case v of JObj d \<Rightarrow> Inr d | _ \<Rightarrow> if truthy v then Inl AttributeError else Inr [])"

definition finding :: "string \<Rightarrow> string \<Rightarrow> json \<Rightarrow> dict" where
  "finding kind_of message evidence =
     [(''code'', JStr kind_of), (''message'', JStr message), (''blocking'', JBool True), (''evidence'', evidence)]"

definition section_of :: "dict \<Rightarrow> string \<Rightarrow> dict" where
  "section_of state k = (case dget state k of JObj d \<Rightarrow> d | _ \<Rightarrow> [])"

text \<open>\<open>state[collection][key] = record\<close>.\<close>

definition put_authority :: "string \<Rightarrow> string \<Rightarrow> dict \<Rightarrow> dict \<Rightarrow> dict" where
  "put_authority collection key record state = dset collection (JObj (dset key (JObj record) (section_of state collection))) state"

section \<open>Sources\<close>

definition source_precedence :: "string list" where
  "source_precedence = [''story_project_standard'', ''chapter_event'', ''model_inference'']"

definition tier_rank :: "string \<Rightarrow> nat option" where
  "tier_rank t =
     (if t = ''story_project_standard'' then Some 0 else if t = ''chapter_event'' then Some 1
      else if t = ''model_inference'' then Some 2 else None)"

definition delta_source_tier :: "host \<Rightarrow> dict \<Rightarrow> string" where
  "delta_source_tier h delta =
     (let v = py_strip (py_str h (py_or (dget delta ''source_tier'') (JStr ''chapter_event''))) in
      if tier_rank v = None then ''model_inference'' else v)"

definition record_tier :: "host \<Rightarrow> json \<Rightarrow> string" where
  "record_tier h existing = (case existing of JObj d \<Rightarrow> text_field h d [''source_tier''] | _ \<Rightarrow> [])"

definition stronger_source_tier :: "host \<Rightarrow> json \<Rightarrow> string \<Rightarrow> string" where
  "stronger_source_tier h existing incoming =
     (case (tier_rank (record_tier h existing), tier_rank incoming) of
        (Some a, Some b) \<Rightarrow> if b < a then incoming else record_tier h existing
      | _ \<Rightarrow> incoming)"

definition incoming_source_supersedes :: "host \<Rightarrow> json \<Rightarrow> string \<Rightarrow> bool" where
  "incoming_source_supersedes h existing incoming \<longleftrightarrow>
     (case (tier_rank (record_tier h existing), tier_rank incoming) of (Some a, Some b) \<Rightarrow> b < a | _ \<Rightarrow> False)"

definition conflict_ignored :: "string list" where
  "conflict_ignored =
     [''id'', ''character_id'', ''relationship_id'', ''field'', ''before'', ''after'', ''scene_index'', ''source_tier'', ''source_event_id'']"

definition model_inference_conflict :: "host \<Rightarrow> dict \<Rightarrow> dict \<Rightarrow> string \<Rightarrow> string \<Rightarrow> dict list" where
  "model_inference_conflict h existing incoming tier subject =
     (let existing_tier = text_field h existing [''source_tier''];
          changed = map (\<lambda>(k, v). (k, before_after (dget existing k) v))
            (filter (\<lambda>(k, v). k \<notin> set conflict_ignored \<and> dhas existing k \<and> \<not> py_eq (dget existing k) v) incoming) in
      if tier \<noteq> ''model_inference'' \<or> existing_tier \<notin> set (butlast source_precedence) \<or> changed = [] then []
      else [finding ''source_precedence_conflict'' (''Model inference cannot overwrite higher-authority '' @ subject @ ''.'')
              (JObj [(''existing_source_tier'', JStr existing_tier), (''incoming_source_tier'', JStr tier), (''changed'', JObj changed)])])"

section \<open>Events a change refers to\<close>

definition event_finding :: "string \<Rightarrow> string \<Rightarrow> string \<Rightarrow> dict \<Rightarrow> dict" where
  "event_finding kind_of ledger message evidence =
     finding kind_of (ledger @ message) (JObj ((''ledger'', JStr ledger) # evidence))"

definition required_event_reference :: "host \<Rightarrow> dict \<Rightarrow> dict \<Rightarrow> dict \<Rightarrow> string \<Rightarrow> string \<Rightarrow> bool \<Rightarrow> dict list" where
  "required_event_reference h raw state declared tier ledger current_delta_only =
     (let event_id = id_field h raw [''source_event_id'', ''reason_event_id''];
          change = (''change'', JObj raw); ids = (''event_ids'', strs [event_id]) in
      if tier = ''story_project_standard'' then []
      else if event_id = []
      then [event_finding ''missing_authority_event_reference'' ledger '' change requires a source event reference.'' [change]]
      else if current_delta_only
      then
        (if \<not> dhas declared event_id
         then [event_finding ''invalid_authority_event_reference'' ledger
                 '' change must reference an event declared in the current delta.'' [ids, change]]
         else
           let scene = dget raw ''scene_index'';
               event_scene = (case dget declared event_id of JObj e \<Rightarrow> dget e ''scene_index'' | _ \<Rightarrow> JNull) in
           if scene \<noteq> JNull \<and> event_scene \<noteq> JNull \<and> \<not> py_eq event_scene scene
           then [event_finding ''invalid_authority_event_reference'' ledger '' change references an event from another Scene.''
                   [ids, (''change_scene_index'', scene), (''event_scene_indexes'', JObj [(event_id, event_scene)]), change]]
           else [])
      else if \<not> dhas declared event_id \<and> \<not> dhas (section_of state ''events'') event_id
      then [event_finding ''invalid_authority_event_reference'' ledger '' change references an undeclared event.'' [ids, change]]
      else [])"

definition casefold :: "string \<Rightarrow> string" where
  "casefold s = concat (map (\<lambda>c. if code c = 223 then ''ss'' else [py_lower_char c]) s)"

definition rollback_tokens :: "string list" where
  "rollback_tokens = [''purif'', ''cleanse'', ''reset'', ''consume'', ''restore'']"

definition rollback_event :: "host \<Rightarrow> dict \<Rightarrow> dict \<Rightarrow> dict \<Rightarrow> bool" where
  "rollback_event h raw state declared \<longleftrightarrow>
     (let event_id = id_field h raw [''source_event_id''] in
      case py_or (dget declared event_id) (dget (section_of state ''events'') event_id) of
        JObj event \<Rightarrow> list_ex (\<lambda>t. py_substring t (casefold (text_field h event [''type'']))) rollback_tokens
      | _ \<Rightarrow> False)"

section \<open>Characters\<close>

definition normalize_entity_alias :: "string \<Rightarrow> string" where
  "normalize_entity_alias s = normalize_alias s"

text \<open>The names of a record claim their normal forms, the first record to name one owns it.\<close>

definition claim_names :: "host \<Rightarrow> string \<Rightarrow> json list \<Rightarrow> dict \<Rightarrow> dict" where
  "claim_names h character_id names owners =
     fold (\<lambda>name owners.
        let normalized = normalize_entity_alias (py_str h (py_or name (JStr []))) in
        if normalized = [] then owners else dsetdefault normalized (JStr character_id) owners) names owners"

definition character_alias_owners :: "host \<Rightarrow> dict \<Rightarrow> dict res" where
  "character_alias_owners h characters =
     rfold (\<lambda>(key, raw) owners.
        case raw of
          JObj d \<Rightarrow>
            rbind (py_iter (py_or (dget d ''aliases'') (JList []))) (\<lambda>aliases.
            let character_id = py_str h (py_or (py_or (dget d ''character_id'') (dget d ''id'')) (JStr key)) in
            Inr (claim_names h character_id ([dget d ''canonical_name'', dget d ''name''] @ aliases) owners))
        | _ \<Rightarrow> Inr owners) characters []"

definition motivation_targets :: "host \<Rightarrow> json \<Rightarrow> string list" where
  "motivation_targets h v =
     (case v of
        JList xs \<Rightarrow>
          sort (remdups (filter (\<lambda>s. s \<noteq> []) (map (\<lambda>item.
            py_strip (py_str h (py_or (case item of JObj d \<Rightarrow> py_or (dget d ''target_id'') (dget d ''target'') | _ \<Rightarrow> item) (JStr []))))
            xs)))
      | _ \<Rightarrow> [])"

definition names_of :: "dict \<Rightarrow> json" where
  "names_of d = py_or (dget d ''canonical_name'') (dget d ''name'')"

definition alias_drift :: "string \<Rightarrow> dict \<Rightarrow> string list \<Rightarrow> dict list" where
  "alias_drift character_id owners aliases =
     concat (map (\<lambda>alias.
       let owner = dget owners (normalize_entity_alias alias) in
       case owner of
         JStr holder \<Rightarrow> if holder \<noteq> character_id
           then [finding ''character_identity_drift''
                   (''Alias '' @ repr_str alias @ '' already belongs to '' @ holder @ '', not '' @ character_id @ ''.'')
                   (JObj [(''alias'', JStr alias), (''existing_character_id'', owner), (''incoming_character_id'', JStr character_id)])]
           else []
       | _ \<Rightarrow> []) aliases)"

definition character_drift :: "host \<Rightarrow> string \<Rightarrow> string \<Rightarrow> dict \<Rightarrow> dict \<Rightarrow> dict \<Rightarrow> dict \<Rightarrow> string \<Rightarrow> dict list" where
  "character_drift h character_id canonical_name existing incoming raw declared tier =
     (let old_name = py_str h (py_or (names_of existing) (JStr []));
          old_identity = text_field h existing [''identity''];
          new_identity = py_str h (py_or (dget incoming ''identity'') (JStr old_identity));
          old_targets = motivation_targets h (dget existing ''active_motivations'');
          new_targets = motivation_targets h (dget incoming ''active_motivations'') in
      (if old_name \<noteq> [] \<and> old_name \<noteq> canonical_name
       then [finding ''character_identity_drift''
               (''Character '' @ character_id @ '' canonical name changed without authority resolution.'')
               (before_after (JStr old_name) (JStr canonical_name))] else []) @
      (if old_identity \<noteq> [] \<and> new_identity \<noteq> [] \<and> old_identity \<noteq> new_identity
       then [finding ''character_identity_drift''
               (''Character '' @ character_id @ '' identity changed without authority resolution.'')
               (before_after (JStr old_identity) (JStr new_identity))] else []) @
      (if old_targets \<noteq> [] \<and> new_targets \<noteq> [] \<and> old_targets \<noteq> new_targets \<and>
          \<not> dhas declared (text_field h raw [''source_event_id''])
       then [finding ''character_motivation_target_drift''
               (''Character '' @ character_id @ '' motivation target changed without a declared event.'')
               (JObj [(''before'', strs old_targets), (''after'', strs new_targets), (''source_event_id'', dget raw ''source_event_id'')])]
       else []) @
      model_inference_conflict h existing incoming tier (''character '' @ character_id))"

definition character_step ::
  "host \<Rightarrow> string \<Rightarrow> dict \<Rightarrow> dict \<Rightarrow> dict \<times> dict \<times> dict list \<Rightarrow> (dict \<times> dict \<times> dict list) res" where
  "character_step h tier declared raw st =
     (let state = fst st; owners = fst (snd st); findings = snd (snd st);
          character_id = id_field h raw [''character_id'', ''id''];
          existing = dget (section_of state ''characters'') character_id in
      rbind (if truthy (names_of raw) then Inr (names_of raw)
             else rbind (or_empty existing) (\<lambda>e. Inr (names_of e))) (\<lambda>name.
      let canonical_name = py_strip (py_str h (py_or name (JStr []))) in
      if character_id = [] \<or> canonical_name = []
      then Inr (state, owners, findings @
             [finding ''invalid_character_change'' ''Character change requires stable id and name.'' (JObj raw)])
      else
        let field = id_field h raw [''field'']; changes = (field \<noteq> [] \<and> dhas raw ''after'');
            f1 = (case existing of
                    JObj e \<Rightarrow>
                      if changes \<and> dhas e field \<and> \<not> py_eq (dget e field) (dget raw ''before'')
                      then [finding ''character_state_rollback''
                              (''Character '' @ character_id @ '' field '' @ field @ '' starts from stale state.'')
                              (JObj [(''character_id'', JStr character_id), (''field'', JStr field),
                                 (''expected_before'', dget e field), (''declared_before'', dget raw ''before'')])]
                      else []
                  | _ \<Rightarrow> []);
            incoming = (if changes then dset field (dget raw ''after'') raw else raw) in
        rbind (py_iter (py_or (dget raw ''aliases'') (JList []))) (\<lambda>raw_aliases.
        let aliases = unique_strings (canonical_name # map (py_str h) raw_aliases);
            f2 = alias_drift character_id owners aliases;
            f3 = (case existing of JObj e \<Rightarrow> character_drift h character_id canonical_name e incoming raw declared tier | _ \<Rightarrow> []) in
        if truthy existing \<and> \<not> is_dict existing then Inl TypeError
        else
          let e = (case existing of JObj e \<Rightarrow> e | _ \<Rightarrow> []) in
          rbind (py_iter (dget_or e ''aliases'' (JList []))) (\<lambda>old_aliases.
          let all_aliases = unique_strings (map (py_str h) old_aliases @ aliases);
              merged = dset ''source_tier'' (JStr (stronger_source_tier h existing tier))
                (dset ''aliases'' (strs all_aliases) (dset ''canonical_name'' (JStr canonical_name)
                  (dset ''character_id'' (JStr character_id) (dupdate e incoming))));
              owners' = fold (\<lambda>a owners. dsetdefault (normalize_entity_alias a) (JStr character_id) owners) all_aliases owners
          in Inr (put_authority ''characters'' character_id merged state, owners', findings @ f1 @ f2 @ f3)))))"

definition apply_character_changes :: "host \<Rightarrow> json \<Rightarrow> string \<Rightarrow> dict \<Rightarrow> dict \<Rightarrow> (dict \<times> dict list) res" where
  "apply_character_changes h changes tier declared state =
     rbind (character_alias_owners h (section_of state ''characters'')) (\<lambda>owners.
     rbind (rfold (character_step h tier declared) (object_items changes) (state, owners, [])) (\<lambda>st.
     Inr (fst st, snd (snd st))))"

section \<open>Relationships\<close>

definition pair_of :: "host \<Rightarrow> dict \<Rightarrow> string \<times> string" where
  "pair_of h d = (text_field h d [''source_character_id'', ''source_id''], text_field h d [''target_character_id'', ''target_id''])"

definition relation_type_of :: "host \<Rightarrow> dict \<Rightarrow> string" where
  "relation_type_of h d = text_field h d [''type'', ''kind'']"

definition find_pair :: "host \<Rightarrow> dict \<Rightarrow> string \<times> string \<Rightarrow> (string \<times> json) option" where
  "find_pair h relationships p = find (\<lambda>(k, v). case v of JObj d \<Rightarrow> pair_of h d = p | _ \<Rightarrow> False) relationships"

definition relationship_drift :: "host \<Rightarrow> dict \<Rightarrow> string \<Rightarrow> string \<Rightarrow> string \<Rightarrow> string \<Rightarrow> dict list" where
  "relationship_drift h relationships relationship_id source_id target_id relation_type =
     concat (map (\<lambda>(existing_id, candidate). case candidate of
         JObj d \<Rightarrow>
           if pair_of h d = (source_id, target_id) \<and> relation_type_of h d \<noteq> [] \<and> relation_type_of h d \<noteq> relation_type
           then [finding ''character_relationship_drift''
                   (''Relationship pair '' @ source_id @ ''/'' @ target_id @ '' changed from '' @ relation_type_of h d @ '' to '' @ relation_type @ ''.'')
                   (JObj [(''existing_relationship_id'', JStr existing_id), (''incoming_relationship_id'', JStr relationship_id),
                      (''before'', JStr (relation_type_of h d)), (''after'', JStr relation_type)])]
           else []
       | _ \<Rightarrow> []) relationships)"

definition relationship_target :: "host \<Rightarrow> dict \<Rightarrow> dict \<Rightarrow> string \<times> json" where
  "relationship_target h raw relationships =
     (let relationship_id = id_field h raw [''relationship_id'', ''id''];
          source_id = id_field h raw [''source_character_id'', ''source_id''];
          target_id = id_field h raw [''target_character_id'', ''target_id''];
          existing = dget relationships relationship_id in
      if \<not> is_dict existing \<and> source_id \<noteq> [] \<and> target_id \<noteq> []
      then (case find_pair h relationships (source_id, target_id) of
              Some (k, v) \<Rightarrow> (k, dget relationships k) | None \<Rightarrow> (relationship_id, existing))
      else (relationship_id, existing))"

text \<open>\<open>x or str((existing or {}).get(k) or "")\<close>.\<close>

definition own_or_existing :: "host \<Rightarrow> string \<Rightarrow> json \<Rightarrow> string list \<Rightarrow> string res" where
  "own_or_existing h own existing ks =
     (if own \<noteq> [] then Inr own else rbind (or_empty existing) (\<lambda>e. Inr (text_field h e ks)))"

definition relationship_findings ::
  "host \<Rightarrow> string \<Rightarrow> dict \<Rightarrow> dict \<Rightarrow> dict \<Rightarrow> string \<Rightarrow> json \<Rightarrow> string \<times> string \<times> string \<Rightarrow> dict list" where
  "relationship_findings h tier declared raw state relationship_id existing ends =
     (let (source_id, target_id, relation_type) = ends;
          field = id_field h raw [''field'']; changes = (field \<noteq> [] \<and> dhas raw ''after'');
          e = (case existing of JObj e \<Rightarrow> e | _ \<Rightarrow> []);
          old = (fst (pair_of h e), snd (pair_of h e), relation_type_of h e);
          triple = (\<lambda>(a, b, c). strs [a, b, c]) in
      required_event_reference h raw state declared tier ''relationships'' True @
      relationship_drift h (section_of state ''relationships'') relationship_id source_id target_id relation_type @
      (if is_dict existing \<and> old \<noteq> ends
       then [finding ''character_relationship_drift''
               (''Relationship '' @ relationship_id @ '' changed immutable identity fields.'')
               (before_after (triple old) (triple ends))]
       else []) @
      (if changes \<and> dhas e field \<and> \<not> py_eq (dget e field) (dget raw ''before'')
       then [finding ''relationship_state_rollback''
               (''Relationship '' @ relationship_id @ '' field '' @ field @ '' starts stale.'')
               (JObj [(''relationship_id'', JStr relationship_id), (''field'', JStr field),
                  (''expected_before'', dget e field), (''declared_before'', dget raw ''before'')])]
       else []) @
      (if is_dict existing
       then model_inference_conflict h e (if changes then dset field (dget raw ''after'') raw else raw) tier
              (''relationship '' @ relationship_id)
       else []))"

definition relationship_ends :: "host \<Rightarrow> dict \<Rightarrow> json \<Rightarrow> (string \<times> string \<times> string) res" where
  "relationship_ends h raw existing =
     rbind (own_or_existing h (id_field h raw [''source_character_id'', ''source_id'']) existing [''source_character_id'']) (\<lambda>source_id.
     rbind (own_or_existing h (id_field h raw [''target_character_id'', ''target_id'']) existing [''target_character_id'']) (\<lambda>target_id.
     rbind (own_or_existing h
              (if id_field h raw [''field''] = ''type'' \<and> dhas raw ''after'' then py_str h (dget raw ''after'')
               else id_field h raw [''type'', ''kind''])
              existing [''type'', ''kind'']) (\<lambda>relation_type.
     Inr (source_id, target_id, relation_type))))"

definition relationship_step :: "host \<Rightarrow> string \<Rightarrow> dict \<Rightarrow> dict \<Rightarrow> dict \<times> dict list \<Rightarrow> (dict \<times> dict list) res" where
  "relationship_step h tier declared raw st =
     (let state = fst st; target = relationship_target h raw (section_of state ''relationships'');
          relationship_id = fst target; existing = snd target;
          field = id_field h raw [''field'']; changes = (field \<noteq> [] \<and> dhas raw ''after'') in
      rbind (relationship_ends h raw existing) (\<lambda>ends.
      if relationship_id = [] \<or> fst ends = [] \<or> fst (snd ends) = [] \<or> snd (snd ends) = []
      then Inr (state, snd st @ [finding ''invalid_relationship_change'' ''Relationship change is incomplete.'' (JObj raw)])
      else if truthy existing \<and> \<not> is_dict existing
      then (if changes \<and> py_in (JStr field) existing = Inr True then Inl AttributeError else Inl TypeError)
      else
        let e = (case existing of JObj e \<Rightarrow> e | _ \<Rightarrow> []);
            incoming = (if changes then dset field (dget raw ''after'') raw else raw);
            record_of = dupdate (dupdate e incoming)
                [(''relationship_id'', JStr relationship_id), (''source_character_id'', JStr (fst ends)),
                 (''target_character_id'', JStr (fst (snd ends))), (''type'', JStr (snd (snd ends))),
                 (''source_tier'', JStr (stronger_source_tier h existing tier))]
        in Inr (put_authority ''relationships'' relationship_id record_of state,
                snd st @ relationship_findings h tier declared raw state relationship_id existing ends)))"

section \<open>Rosters\<close>

definition roster_findings :: "dict list \<Rightarrow> dict list" where
  "roster_findings issues =
     map (\<lambda>i. finding
        (if dget i ''code'' = JStr invalid_mutation then ''invalid_roster_change'' else (case dget i ''code'' of JStr s \<Rightarrow> s | _ \<Rightarrow> []))
        (case dget i ''message'' of JStr s \<Rightarrow> s | _ \<Rightarrow> [])
        (dget i ''evidence'')) issues"

definition roster_state_step :: "host \<Rightarrow> string \<Rightarrow> dict \<Rightarrow> dict \<Rightarrow> dict \<times> dict list \<Rightarrow> (dict \<times> dict list) res" where
  "roster_state_step h tier current_events raw st =
     (let state = fst st; findings = snd st; rosters = section_of state ''roster'';
          existing = dget rosters (id_field h raw [''roster_id'', ''id'']);
          operation = py_strip (py_str h (py_or (dget raw ''operation'') (JStr ''replace''))) in
      rbind (reduce_roster_mutation h rosters raw current_events
               (\<not> (tier = ''story_project_standard'' \<and> operation = ''replace''))) (\<lambda>t.
      Inr (case rt_record t of
             None \<Rightarrow> state
           | Some r \<Rightarrow> put_authority ''roster'' (rt_roster_id t) (dset ''source_tier'' (JStr (stronger_source_tier h existing tier)) r) state,
           findings @ roster_findings (rt_issues t))))"

definition apply_roster_changes :: "host \<Rightarrow> json \<Rightarrow> string \<Rightarrow> dict \<Rightarrow> dict \<Rightarrow> (dict \<times> dict list) res" where
  "apply_roster_changes h changes tier declared state =
     (let current_events = filter (\<lambda>(k, v). \<not> dhas (section_of state ''events'') k) declared in
      rfold (roster_state_step h tier current_events) (object_items changes) (state, []))"

section \<open>Counters\<close>

definition numeric_findings :: "host \<Rightarrow> string \<Rightarrow> string \<Rightarrow> dict \<Rightarrow> dict \<Rightarrow> dict \<Rightarrow> dict \<Rightarrow> json \<Rightarrow> dict list" where
  "numeric_findings h tier counter_id raw state declared_events e existing =
     (let current = dget_or e ''current_value'' (dget raw ''previous_value'');
          previous = dget_or raw ''previous_value'' (dget raw ''before'');
          delta = dget raw ''delta'';
          expected = dget_or raw ''expected_value'' (dget raw ''after'');
          declared = dget_or raw ''declared_value'' expected;
          rule = py_str h (py_or (dget e ''rule'') (py_or (dget raw ''rule'') (JStr [])));
          minimum = dget_or e ''minimum'' (dget raw ''minimum'');
          maximum = dget_or e ''maximum'' (dget raw ''maximum'');
          mismatch = (\<lambda>message evidence. finding ''numeric_counter_mismatch'' (''Counter '' @ counter_id @ message) (JObj evidence)) in
      (if current \<noteq> JNull \<and> \<not> py_eq previous current \<and> \<not> incoming_source_supersedes h existing tier
       then [mismatch '' starts from stale value.''
               [(''kind'', JStr ''stale_previous_value''), (''expected_previous'', current), (''declared_previous'', previous)]] else []) @
      (if \<not> py_eq (add_numbers h previous delta) expected
       then [mismatch '' arithmetic is inconsistent.''
               [(''kind'', JStr ''arithmetic_mismatch''), (''previous'', previous), (''delta'', delta), (''expected'', expected)]] else []) @
      (if \<not> py_eq expected declared
       then [mismatch '' declared value differs from expected value.''
               [(''kind'', JStr ''declared_value_mismatch''), (''expected'', expected), (''declared'', declared)]] else []) @
      (if rule = ''monotonic_non_decreasing'' \<and> number_less declared previous \<and> \<not> rollback_event h raw state declared_events
       then [finding ''numeric_counter_rollback''
               (''Counter '' @ counter_id @ '' cannot decrease under monotonic_non_decreasing.'')
               (JObj [(''previous'', previous), (''declared'', declared)])] else []) @
      (if is_number minimum \<and> number_less declared minimum
       then [finding ''numeric_counter_out_of_range'' (''Counter '' @ counter_id @ '' is below minimum.'') (JObj raw)] else []) @
      (if is_number maximum \<and> number_less maximum declared
       then [finding ''numeric_counter_out_of_range'' (''Counter '' @ counter_id @ '' exceeds maximum.'') (JObj raw)] else []))"

definition declared_value_of :: "dict \<Rightarrow> json" where
  "declared_value_of raw = dget_or raw ''declared_value'' (dget_or raw ''expected_value'' (dget raw ''after''))"

definition numeric_record :: "host \<Rightarrow> string \<Rightarrow> string \<Rightarrow> dict \<Rightarrow> dict \<Rightarrow> json \<Rightarrow> dict" where
  "numeric_record h tier counter_id raw e existing =
     dupdate (dupdate e raw)
       [(''counter_id'', JStr counter_id), (''current_value'', declared_value_of raw),
        (''source_tier'', JStr (stronger_source_tier h existing tier))]"

definition numeric_step :: "host \<Rightarrow> string \<Rightarrow> dict \<Rightarrow> dict \<Rightarrow> dict \<times> dict list \<Rightarrow> (dict \<times> dict list) res" where
  "numeric_step h tier declared_events raw st =
     (let state = fst st; findings = snd st; counter_id = id_field h raw [''counter_id'', ''id''];
          existing = dget (section_of state ''numeric_counters'') counter_id in
      if counter_id = []
      then Inr (state, findings @ [finding ''invalid_numeric_change'' ''Numeric change requires counter_id.'' (JObj raw)])
      else
        let f1 = required_event_reference h raw state declared_events tier ''numeric_counters'' False in
        rbind (or_empty existing) (\<lambda>e.
        if \<not> list_all is_number
             [dget_or raw ''previous_value'' (dget raw ''before''), dget raw ''delta'',
              dget_or raw ''expected_value'' (dget raw ''after''), declared_value_of raw]
        then Inr (state, findings @ f1 @ [finding ''invalid_numeric_change''
               (''Counter '' @ counter_id @ '' requires numeric previous, delta, expected, and declared values.'') (JObj raw)])
        else Inr (put_authority ''numeric_counters'' counter_id (numeric_record h tier counter_id raw e existing) state,
                  findings @ f1 @ numeric_findings h tier counter_id raw state declared_events e existing)))"

definition apply_numeric_changes :: "host \<Rightarrow> json \<Rightarrow> string \<Rightarrow> dict \<Rightarrow> dict \<Rightarrow> (dict \<times> dict list) res" where
  "apply_numeric_changes h changes tier declared state = rfold (numeric_step h tier declared) (object_items changes) (state, [])"

section \<open>Inventory\<close>

definition declared_quantity_of :: "dict \<Rightarrow> json" where
  "declared_quantity_of raw = dget_or raw ''declared_quantity'' (dget raw ''after'')"

definition inventory_findings :: "host \<Rightarrow> string \<Rightarrow> dict \<Rightarrow> dict \<Rightarrow> dict list" where
  "inventory_findings h key raw e =
     (let previous = dget_or raw ''previous_quantity'' (dget raw ''before'');
          declared = declared_quantity_of raw;
          current = dget_or e ''quantity'' previous in
      (if current \<noteq> JNull \<and> \<not> py_eq previous current
       then [finding ''inventory_state_rollback'' (''Inventory '' @ key @ '' starts stale.'') (JObj raw)] else []) @
      (if \<not> py_eq (add_numbers h previous (dget raw ''delta'')) declared
       then [finding ''inventory_arithmetic_mismatch'' (''Inventory '' @ key @ '' arithmetic is inconsistent.'') (JObj raw)] else []) @
      (if number_less declared (JInt 0)
       then [finding ''inventory_negative_quantity'' (''Inventory '' @ key @ '' cannot be negative.'') (JObj raw)] else []))"

definition inventory_key :: "host \<Rightarrow> dict \<Rightarrow> string" where
  "inventory_key h raw =
     py_strip (py_str h (py_or (dget raw ''inventory_id'') (JStr (id_field h raw [''owner_id''] @ '':'' @ id_field h raw [''item_id'']))))"

definition stock_record :: "host \<Rightarrow> string \<Rightarrow> dict \<Rightarrow> dict \<Rightarrow> json \<Rightarrow> dict" where
  "stock_record h tier raw e existing =
     dupdate (dupdate e raw)
       [(''inventory_id'', JStr (inventory_key h raw)), (''owner_id'', JStr (id_field h raw [''owner_id''])),
        (''item_id'', JStr (id_field h raw [''item_id''])), (''quantity'', declared_quantity_of raw),
        (''source_tier'', JStr (stronger_source_tier h existing tier))]"

definition inventory_step :: "host \<Rightarrow> string \<Rightarrow> dict \<Rightarrow> dict \<Rightarrow> dict \<times> dict list \<Rightarrow> (dict \<times> dict list) res" where
  "inventory_step h tier declared_events raw st =
     (let state = fst st; findings = snd st; owner_id = id_field h raw [''owner_id'']; item_id = id_field h raw [''item_id''];
          key = inventory_key h raw; existing = dget (section_of state ''inventory'') key in
      if owner_id = [] \<or> item_id = []
      then Inr (state, findings @ [finding ''invalid_inventory_change''
             ''Inventory change requires stable owner_id and item_id values.'' (JObj raw)])
      else
        let f1 = required_event_reference h raw state declared_events tier ''inventory'' False in
        if \<not> list_all is_number [dget_or raw ''previous_quantity'' (dget raw ''before''), dget raw ''delta'', declared_quantity_of raw]
        then Inr (state, findings @ f1 @ [finding ''invalid_inventory_change''
               (''Inventory '' @ key @ '' requires numeric previous, delta, and declared quantities.'') (JObj raw)])
        else
          rbind (or_empty existing) (\<lambda>e.
          Inr (put_authority ''inventory'' key (stock_record h tier raw e existing) state,
               findings @ f1 @ inventory_findings h key raw e)))"

definition apply_inventory_changes :: "host \<Rightarrow> json \<Rightarrow> string \<Rightarrow> dict \<Rightarrow> dict \<Rightarrow> (dict \<times> dict list) res" where
  "apply_inventory_changes h changes tier declared state = rfold (inventory_step h tier declared) (object_items changes) (state, [])"

section \<open>Locations and events\<close>

definition location_step :: "host \<Rightarrow> string \<Rightarrow> dict \<Rightarrow> dict \<times> dict list \<Rightarrow> (dict \<times> dict list) res" where
  "location_step h tier raw st =
     (let state = fst st; findings = snd st; entity_id = id_field h raw [''entity_id''];
          before = dget_or raw ''before'' (dget raw ''from_location'');
          after = dget_or raw ''after'' (dget raw ''to_location'');
          existing = dget (section_of state ''locations'') entity_id in
      rbind (or_empty existing) (\<lambda>e.
      let current = dget_or e ''location_id'' before in
      if entity_id = [] \<or> \<not> set_value after
      then Inr (state, findings @ [finding ''invalid_location_change'' ''Location change is incomplete.'' (JObj raw)])
      else
        Inr (put_authority ''locations'' entity_id
               (dupdate (dupdate e raw)
                  [(''entity_id'', JStr entity_id), (''location_id'', after),
                   (''source_tier'', JStr (stronger_source_tier h existing tier))]) state,
             findings @
             (if current \<noteq> JNull \<and> \<not> py_eq before current \<and> \<not> incoming_source_supersedes h existing tier
              then [finding ''location_state_rollback'' (''Location '' @ entity_id @ '' starts stale.'') (JObj raw)] else []))))"

definition apply_location_changes :: "host \<Rightarrow> json \<Rightarrow> string \<Rightarrow> dict \<Rightarrow> (dict \<times> dict list) res" where
  "apply_location_changes h changes tier state = rfold (location_step h tier) (object_items changes) (state, [])"

definition without_tier :: "dict \<Rightarrow> dict" where
  "without_tier d = filter (\<lambda>(k, v). k \<noteq> ''source_tier'') d"

definition event_step :: "host \<Rightarrow> string \<Rightarrow> dict \<Rightarrow> dict \<times> dict list \<Rightarrow> dict \<times> dict list" where
  "event_step h tier raw st =
     (let state = fst st; findings = snd st; event_id = id_field h raw [''event_id'', ''id''];
          existing = dget (section_of state ''events'') event_id in
      if event_id = []
      then (state, findings @ [finding ''invalid_authority_event'' ''Authority event requires event_id.'' (JObj raw)])
      else
        let same = (case existing of JObj e \<Rightarrow> py_eq (JObj (without_tier e)) (JObj (without_tier raw)) | _ \<Rightarrow> False) in
        (put_authority ''events'' event_id (dset ''source_tier'' (JStr (stronger_source_tier h existing tier)) raw) state,
         findings @
         (if existing \<noteq> JNull \<and> \<not> same
          then [finding ''duplicate_scene_event'' (''Event '' @ event_id @ '' was redefined.'') (before_after existing (JObj raw))] else [])))"

definition apply_events :: "host \<Rightarrow> json \<Rightarrow> string \<Rightarrow> dict \<Rightarrow> dict \<times> dict list" where
  "apply_events h events tier state = fold (event_step h tier) (object_items events) (state, [])"

section \<open>The whole change\<close>

definition state_collections :: "string list" where
  "state_collections = [''characters'', ''relationships'', ''roster'', ''numeric_counters'', ''inventory'', ''locations'', ''events'']"

definition normalize_state :: "json \<Rightarrow> dict" where
  "normalize_state v =
     (case v of
        JObj d \<Rightarrow> fold (\<lambda>k state. case dget d k of JObj c \<Rightarrow> dset k (JObj c) state | _ \<Rightarrow> state) state_collections empty_authoritative_state
      | _ \<Rightarrow> empty_authoritative_state)"

definition declared_events_of :: "host \<Rightarrow> json \<Rightarrow> dict" where
  "declared_events_of h events =
     fold (\<lambda>e declared. let k = text_field h e [''event_id''] in if k = [] then declared else dset k (JObj e) declared)
       (object_items events) []"

record authority_report =
  ar_findings :: "dict list"
  ar_source_tier :: string
  ar_state_after :: dict

definition validate_authoritative_state_delta :: "host \<Rightarrow> json \<Rightarrow> dict \<Rightarrow> authority_report res" where
  "validate_authoritative_state_delta h base_state delta =
     (let tier = delta_source_tier h delta; declared = declared_events_of h (dget delta ''events'') in
      rbind (apply_character_changes h (dget delta ''character_changes'') tier declared (normalize_state base_state)) (\<lambda>(s1, f1).
      rbind (rfold (relationship_step h tier declared) (object_items (dget delta ''relationship_changes'')) (s1, [])) (\<lambda>(s2, f2).
      rbind (apply_roster_changes h (dget delta ''roster_changes'') tier declared s2) (\<lambda>(s3, f3).
      rbind (apply_numeric_changes h (dget delta ''numeric_changes'') tier declared s3) (\<lambda>(s4, f4).
      rbind (apply_inventory_changes h (dget delta ''inventory_changes'') tier declared s4) (\<lambda>(s5, f5).
      rbind (apply_location_changes h (dget delta ''location_changes'') tier s5) (\<lambda>(s6, f6).
      let st = apply_events h (dget delta ''events'') tier s6 in
      Inr \<lparr>ar_findings = f1 @ f2 @ f3 @ f4 @ f5 @ f6 @ snd st, ar_source_tier = tier, ar_state_after = fst st\<rparr>)))))))"

section \<open>A state as a change of the empty one\<close>

definition roster_members_count :: "host \<Rightarrow> dict \<Rightarrow> nat res" where
  "roster_members_count h item =
     rbind (py_iter (py_or (dget item ''members'') (JList []))) (\<lambda>members.
     Inr (length (remdups (filter (\<lambda>s. s \<noteq> []) (concat (map (\<lambda>m. case m of
        JObj d \<Rightarrow> [text_field h d [''member_id'']] | _ \<Rightarrow> []) members))))))"

definition roster_echo :: "host \<Rightarrow> json \<Rightarrow> json res" where
  "roster_echo h v =
     (case v of
        JObj item \<Rightarrow>
          (let unresolved = (case nonnegative_int (dget item ''unresolved_count'') of Some i \<Rightarrow> i | None \<Rightarrow> 0) in
           rbind (roster_members_count h item) (\<lambda>n.
           Inr (JObj (dupdate item
             [(''operation'', JStr ''replace''), (''unresolved_before'', JInt 0), (''unresolved_count'', JInt unresolved),
              (''delta'', JInt (int n + unresolved))]))))
      | _ \<Rightarrow> Inl TypeError)"

definition extended :: "(dict \<Rightarrow> dict) \<Rightarrow> json \<Rightarrow> json res" where
  "extended f v = (case v of JObj item \<Rightarrow> Inr (JObj (dupdate item (f item))) | _ \<Rightarrow> Inl TypeError)"

definition counter_echo :: "dict \<Rightarrow> dict" where
  "counter_echo item =
     (let v = dget item ''current_value'' in
      [(''previous_value'', v), (''delta'', JInt 0), (''expected_value'', v), (''declared_value'', v)])"

definition inventory_echo :: "dict \<Rightarrow> dict" where
  "inventory_echo item =
     (let v = dget item ''quantity'' in [(''previous_quantity'', v), (''delta'', JInt 0), (''declared_quantity'', v)])"

definition location_echo :: "dict \<Rightarrow> dict" where
  "location_echo item = (let v = dget item ''location_id'' in [(''before'', v), (''after'', v)])"

definition full_state_delta :: "host \<Rightarrow> dict \<Rightarrow> dict res" where
  "full_state_delta h state =
     (let records = (\<lambda>k. map snd (section_of state k)) in
      rbind (rmap (roster_echo h) (records ''roster'')) (\<lambda>rosters.
      rbind (rmap (extended counter_echo) (records ''numeric_counters'')) (\<lambda>counters.
      rbind (rmap (extended inventory_echo) (records ''inventory'')) (\<lambda>inventory.
      rbind (rmap (extended location_echo) (records ''locations'')) (\<lambda>locations.
      Inr [(''source_tier'', JStr ''story_project_standard''), (''character_changes'', JList (records ''characters'')),
           (''relationship_changes'', JList (records ''relationships'')), (''roster_changes'', JList rosters),
           (''numeric_changes'', JList counters), (''inventory_changes'', JList inventory),
           (''location_changes'', JList locations), (''events'', JList (records ''events''))])))))"

definition finding_codes :: "dict list \<Rightarrow> string list" where
  "finding_codes findings = map (\<lambda>f. case dget f ''code'' of JStr s \<Rightarrow> s | _ \<Rightarrow> []) findings"

definition validate_state :: "host \<Rightarrow> json \<Rightarrow> dict res" where
  "validate_state h state =
     (let normalized = normalize_state state in
      rbind (full_state_delta h normalized) (\<lambda>delta.
      rbind (validate_authoritative_state_delta h (JObj empty_authoritative_state) delta) (\<lambda>report.
      if ar_findings report \<noteq> [] then Inl (AuthoritativeStateError (finding_codes (ar_findings report)))
      else Inr normalized)))"

definition require_authoritative_state_delta :: "authority_report \<Rightarrow> authority_report res" where
  "require_authoritative_state_delta report =
     (if ar_findings report \<noteq> [] then Inl (AuthoritativeStateError (finding_codes (ar_findings report))) else Inr report)"

text \<open>What the memory modules take from this one.\<close>

definition checked_state :: "host \<Rightarrow> dict \<Rightarrow> dict res" where
  "checked_state h d = validate_state h (JObj d)"

definition delta_outcome :: "host \<Rightarrow> dict \<Rightarrow> dict \<Rightarrow> (string list + dict) res" where
  "delta_outcome h base v =
     rbind (validate_authoritative_state_delta h (JObj base) v) (\<lambda>report.
     Inr (if ar_findings report \<noteq> [] then Inl (finding_codes (ar_findings report)) else Inr (ar_state_after report)))"

definition core_authority :: "host \<Rightarrow> authority" where
  "core_authority h = \<lparr>validate_authoritative_state = checked_state h, authoritative_delta = delta_outcome h\<rparr>"

section \<open>Ledgers after an update\<close>

lemma section_of_put_authority [simp]:
  "section_of (put_authority c k r s) c' = (if c' = c then dset k (JObj r) (section_of s c) else section_of s c')"
  by (simp add: section_of_def put_authority_def)

lemma text_field_JStr: "dget d k = JStr t \<Longrightarrow> text_field h d [k] = t"
  by (simp add: text_field_def py_or_def truthy_def)

lemma record_tier_JObj: "dget d ''source_tier'' = JStr t \<Longrightarrow> record_tier h (JObj d) = t"
  by (simp add: record_tier_def text_field_JStr)

lemma stronger_rank:
  assumes "tier_rank tier \<noteq> None"
  shows "tier_rank (stronger_source_tier h existing tier) =
    Some (case tier_rank (record_tier h existing) of None \<Rightarrow> the (tier_rank tier) | Some a \<Rightarrow> min a (the (tier_rank tier)))"
  using assms by (auto simp: stronger_source_tier_def split: option.splits)

lemma delta_source_tier_known: "tier_rank (delta_source_tier h delta) \<noteq> None"
  by (simp add: delta_source_tier_def Let_def tier_rank_def)

text \<open>Every record with a known source is still there with one that is at least as strong.\<close>

definition tiers_kept :: "host \<Rightarrow> dict \<Rightarrow> dict \<Rightarrow> bool" where
  "tiers_kept h s s' \<longleftrightarrow>
     (\<forall>c k a. tier_rank (record_tier h (dget (section_of s c) k)) = Some a \<longrightarrow>
        (\<exists>b. tier_rank (record_tier h (dget (section_of s' c) k)) = Some b \<and> b \<le> a))"

lemma tiers_kept_refl [simp]: "tiers_kept h s s"
  by (simp add: tiers_kept_def)

lemma tiers_kept_trans: "tiers_kept h s t \<Longrightarrow> tiers_kept h t u \<Longrightarrow> tiers_kept h s u"
  unfolding tiers_kept_def by (meson order_trans)

lemma put_authority_keeps_tiers:
  assumes "tier_rank tier \<noteq> None" and "dget r ''source_tier'' = JStr (stronger_source_tier h (dget (section_of s c) k) tier)"
  shows "tiers_kept h s (put_authority c k r s)"
  using stronger_rank [OF assms(1), of h "dget (section_of s c) k"]
  by (auto simp: tiers_kept_def record_tier_JObj [OF assms(2)])

text \<open>A loop keeps what each of its steps keeps.\<close>

lemma rfold_keeps_tiers:
  assumes "rfold f xs st = Inr st'" and "\<And>x st st'. f x st = Inr st' \<Longrightarrow> tiers_kept h (fst st) (fst st')"
  shows "tiers_kept h (fst st) (fst st')"
  using assms by (rule_tac P = "\<lambda>s. tiers_kept h (fst st) (fst s)" in rfold_invariant) (auto intro: tiers_kept_trans)

lemma dget_dupdate: "dget (dupdate d e) k = (case map_of (rev e) k of Some v \<Rightarrow> v | None \<Rightarrow> dget d k)"
  by (simp add: dget_def map_of_dupdate split: option.split)

lemma character_step_tiers:
  assumes "character_step h tier declared raw st = Inr st'" and "tier_rank tier \<noteq> None"
  shows "tiers_kept h (fst st) (fst st')"
  using assms(1)
  by (auto simp: character_step_def Let_def rbind_eq_Inr split: if_splits intro!: put_authority_keeps_tiers [OF assms(2)])

lemma relationship_step_tiers:
  assumes "relationship_step h tier declared raw st = Inr st'" and "tier_rank tier \<noteq> None"
  shows "tiers_kept h (fst st) (fst st')"
proof -
  have e: "snd (relationship_target h raw r) = dget r (fst (relationship_target h raw r))" for r
    by (simp add: relationship_target_def Let_def split: option.split prod.split)
  from assms(1) show ?thesis
    by (auto simp: relationship_step_def Let_def rbind_eq_Inr dget_dupdate e split: if_splits
        intro!: put_authority_keeps_tiers [OF assms(2)])
qed

lemma rt_roster_id_is:
  assumes "reduce_roster_mutation h rosters raw events req = Inr t" and "rt_record t = Some r"
  shows "rt_roster_id t = id_field h raw [''roster_id'', ''id'']"
  by (rule transition_record [OF assms]) (auto simp: applied_transition_def Let_def split_def)

lemma roster_step_tiers:
  assumes "roster_state_step h tier events raw st = Inr st'" and "tier_rank tier \<noteq> None"
  shows "tiers_kept h (fst st) (fst st')"
  using assms(1)
  by (auto simp: roster_state_step_def Let_def rbind_eq_Inr rt_roster_id_is split: option.splits
      intro!: put_authority_keeps_tiers [OF assms(2)])

lemma numeric_step_tiers:
  assumes "numeric_step h tier declared raw st = Inr st'" and "tier_rank tier \<noteq> None"
  shows "tiers_kept h (fst st) (fst st')"
  using assms(1)
  by (auto simp: numeric_step_def numeric_record_def Let_def rbind_eq_Inr dget_dupdate split: if_splits intro!: put_authority_keeps_tiers [OF assms(2)])

lemma inventory_step_tiers:
  assumes "inventory_step h tier declared raw st = Inr st'" and "tier_rank tier \<noteq> None"
  shows "tiers_kept h (fst st) (fst st')"
  using assms(1)
  by (auto simp: inventory_step_def stock_record_def Let_def rbind_eq_Inr dget_dupdate split: if_splits intro!: put_authority_keeps_tiers [OF assms(2)])

lemma location_step_tiers:
  assumes "location_step h tier raw st = Inr st'" and "tier_rank tier \<noteq> None"
  shows "tiers_kept h (fst st) (fst st')"
  using assms(1)
  by (auto simp: location_step_def Let_def rbind_eq_Inr dget_dupdate split: if_splits intro!: put_authority_keeps_tiers [OF assms(2)])

lemma event_step_tiers:
  assumes "tier_rank tier \<noteq> None"
  shows "tiers_kept h (fst st) (fst (event_step h tier raw st))"
  by (auto simp: event_step_def Let_def intro!: put_authority_keeps_tiers [OF assms])

lemma apply_events_tiers:
  assumes "tier_rank tier \<noteq> None"
  shows "tiers_kept h s (fst (apply_events h events tier s))"
  unfolding apply_events_def
  by (rule fold_keeps [where P = "\<lambda>st. tiers_kept h s (fst st)"]) (auto intro: tiers_kept_trans event_step_tiers [OF assms])

text \<open>The stages of a validation.\<close>

lemma validation_stages:
  assumes "validate_authoritative_state_delta h base delta = Inr rep"
  obtains tier declared s1 s2 s3 s4 s5 s6 f1 f2 f3 f4 f5 f6 where
    "tier = delta_source_tier h delta" and "declared = declared_events_of h (dget delta ''events'')"
    and "apply_character_changes h (dget delta ''character_changes'') tier declared (normalize_state base) = Inr (s1, f1)"
    and "rfold (relationship_step h tier declared) (object_items (dget delta ''relationship_changes'')) (s1, []) = Inr (s2, f2)"
    and "apply_roster_changes h (dget delta ''roster_changes'') tier declared s2 = Inr (s3, f3)"
    and "apply_numeric_changes h (dget delta ''numeric_changes'') tier declared s3 = Inr (s4, f4)"
    and "apply_inventory_changes h (dget delta ''inventory_changes'') tier declared s4 = Inr (s5, f5)"
    and "apply_location_changes h (dget delta ''location_changes'') tier s5 = Inr (s6, f6)"
    and "ar_state_after rep = fst (apply_events h (dget delta ''events'') tier s6)"
    and "ar_findings rep = f1 @ f2 @ f3 @ f4 @ f5 @ f6 @ snd (apply_events h (dget delta ''events'') tier s6)"
  using assms by (auto simp: validate_authoritative_state_delta_def Let_def rbind_eq_Inr split: prod.splits)

section \<open>Changes without findings\<close>

lemma rfold_no_findings:
  assumes "rfold f xs st = Inr st'" and "snd st' = []"
    and grow: "\<And>x st st'. f x st = Inr st' \<Longrightarrow> \<exists>g. snd st' = snd st @ (g :: dict list)"
    and step: "\<And>x st st'. x \<in> set xs \<Longrightarrow> f x st = Inr st' \<Longrightarrow> snd st' = [] \<Longrightarrow> P (fst st) \<Longrightarrow> Q x \<and> P (fst st')"
    and "P (fst st)"
  shows "(\<forall>x \<in> set xs. Q x) \<and> P (fst st')"
  using assms(1,5) step
proof (induction xs arbitrary: st)
  case (Cons x xs)
  from Cons.prems(1) obtain st1 where f: "f x st = Inr st1" and r: "rfold f xs st1 = Inr st'" by (auto simp: rbind_eq_Inr)
  have "\<exists>g. snd st' = snd st1 @ g"
    using r by (rule_tac P = "\<lambda>s. \<exists>g. snd s = snd st1 @ g" in rfold_invariant) (auto dest: grow)
  with assms(2) have n: "snd st1 = []" by auto
  from Cons.prems(3) [OF _ f n Cons.prems(2)] have q: "Q x \<and> P (fst st1)" by simp
  have "(\<forall>x \<in> set xs. Q x) \<and> P (fst st')"
    by (rule Cons.IH [OF r]) (use q in blast, rule Cons.prems(3), simp_all)
  with q show ?case by simp
qed simp

lemma numeric_step_grows: "numeric_step h tier declared x st = Inr st' \<Longrightarrow> \<exists>g. snd st' = snd st @ g"
  by (auto simp: numeric_step_def Let_def rbind_eq_Inr split: if_splits)

lemma inventory_step_grows: "inventory_step h tier declared x st = Inr st' \<Longrightarrow> \<exists>g. snd st' = snd st @ g"
  by (auto simp: inventory_step_def Let_def rbind_eq_Inr split: if_splits)

lemma location_step_grows: "location_step h tier x st = Inr st' \<Longrightarrow> \<exists>g. snd st' = snd st @ g"
  by (auto simp: location_step_def Let_def rbind_eq_Inr split: if_splits)

lemma finding_neq_Nil: "finding a b c \<noteq> []"
  by (simp add: finding_def)

lemma inventory_step_accepted:
  assumes "inventory_step h tier declared raw st = Inr st'" and "snd st' = []"
  shows "id_field h raw [''owner_id''] \<noteq> [] \<and> id_field h raw [''item_id''] \<noteq> [] \<and>
    list_all is_number [dget_or raw ''previous_quantity'' (dget raw ''before''), dget raw ''delta'', declared_quantity_of raw] \<and>
    (\<exists>e. or_empty (dget (section_of (fst st) ''inventory'') (inventory_key h raw)) = Inr e \<and>
       inventory_findings h (inventory_key h raw) raw e = [] \<and>
       fst st' = put_authority ''inventory'' (inventory_key h raw)
         (stock_record h tier raw e (dget (section_of (fst st) ''inventory'') (inventory_key h raw))) (fst st))"
  using assms by (auto simp: inventory_step_def Let_def rbind_eq_Inr dget_dupdate split: if_splits)

lemma record_amounts [simp]:
  "dget (stock_record h tier raw e x) ''quantity'' = declared_quantity_of raw"
  "dget (numeric_record h tier k raw e x) ''current_value'' = declared_value_of raw"
  by (simp_all add: stock_record_def numeric_record_def dget_dupdate)

lemma inventory_findings_none:
  "inventory_findings h key raw e = [] \<Longrightarrow>
     \<not> number_less (declared_quantity_of raw) (JInt 0) \<and>
     py_eq (add_numbers h (dget_or raw ''previous_quantity'' (dget raw ''before'')) (dget raw ''delta'')) (declared_quantity_of raw)"
  by (auto simp: inventory_findings_def Let_def split: if_splits)

lemma numeric_step_accepted:
  assumes "numeric_step h tier declared raw st = Inr st'" and "snd st' = []"
  shows "id_field h raw [''counter_id'', ''id''] \<noteq> [] \<and>
    list_all is_number [dget_or raw ''previous_value'' (dget raw ''before''), dget raw ''delta'',
       dget_or raw ''expected_value'' (dget raw ''after''), declared_value_of raw] \<and>
    (\<exists>e. or_empty (dget (section_of (fst st) ''numeric_counters'') (id_field h raw [''counter_id'', ''id''])) = Inr e \<and>
       numeric_findings h tier (id_field h raw [''counter_id'', ''id'']) raw (fst st) declared e
         (dget (section_of (fst st) ''numeric_counters'') (id_field h raw [''counter_id'', ''id''])) = [] \<and>
       fst st' = put_authority ''numeric_counters'' (id_field h raw [''counter_id'', ''id''])
         (numeric_record h tier (id_field h raw [''counter_id'', ''id'']) raw e
            (dget (section_of (fst st) ''numeric_counters'') (id_field h raw [''counter_id'', ''id'']))) (fst st))"
  using assms by (auto simp: numeric_step_def Let_def rbind_eq_Inr dget_dupdate split: if_splits)

lemma location_step_accepted:
  assumes "location_step h tier raw st = Inr st'" and "snd st' = []"
  shows "id_field h raw [''entity_id''] \<noteq> [] \<and> set_value (dget_or raw ''after'' (dget raw ''to_location''))"
  using assms by (auto simp: location_step_def Let_def rbind_eq_Inr split: if_splits)

text \<open>The quantities of the inventory are numbers that are not negative, the counters are numbers.\<close>

definition amounts_ok :: "dict \<Rightarrow> bool" where
  "amounts_ok s \<longleftrightarrow>
     (\<forall>k d. dget (section_of s ''inventory'') k = JObj d \<longrightarrow> is_number (dget d ''quantity'') \<and> \<not> number_less (dget d ''quantity'') (JInt 0)) \<and>
     (\<forall>k d. dget (section_of s ''numeric_counters'') k = JObj d \<longrightarrow> is_number (dget d ''current_value''))"

lemma amounts_ok_other: "c \<notin> {''inventory'', ''numeric_counters''} \<Longrightarrow> amounts_ok (put_authority c k r s) = amounts_ok s"
  by (auto simp: amounts_ok_def)

lemma rfold_keeps_amounts:
  assumes "rfold f xs st = Inr st'" and "\<And>x st st'. f x st = Inr st' \<Longrightarrow> amounts_ok (fst st') = amounts_ok (fst st)"
  shows "amounts_ok (fst st') = amounts_ok (fst st)"
  using assms by (rule_tac P = "\<lambda>s. amounts_ok (fst s) = amounts_ok (fst st)" in rfold_invariant) auto

lemma character_step_amounts: "character_step h tier declared raw st = Inr st' \<Longrightarrow> amounts_ok (fst st') = amounts_ok (fst st)"
  by (auto simp: character_step_def Let_def rbind_eq_Inr amounts_ok_other split: if_splits)

lemma relationship_step_amounts: "relationship_step h tier declared raw st = Inr st' \<Longrightarrow> amounts_ok (fst st') = amounts_ok (fst st)"
  by (auto simp: relationship_step_def Let_def rbind_eq_Inr amounts_ok_other split: if_splits)

lemma roster_step_amounts: "roster_state_step h tier events raw st = Inr st' \<Longrightarrow> amounts_ok (fst st') = amounts_ok (fst st)"
  by (auto simp: roster_state_step_def Let_def rbind_eq_Inr amounts_ok_other split: option.splits)

lemma location_step_amounts: "location_step h tier raw st = Inr st' \<Longrightarrow> amounts_ok (fst st') = amounts_ok (fst st)"
  by (auto simp: location_step_def Let_def rbind_eq_Inr amounts_ok_other split: if_splits)

lemma apply_events_amounts: "amounts_ok (fst (apply_events h events tier s)) = amounts_ok s"
  unfolding apply_events_def
  by (rule fold_keeps [where P = "\<lambda>st. amounts_ok (fst st) = amounts_ok s"]) (auto simp: event_step_def Let_def amounts_ok_other)

lemma numeric_step_keeps:
  assumes "numeric_step h tier declared raw st = Inr st'" and "snd st' = []" and "amounts_ok (fst st)"
  shows "amounts_ok (fst st')"
  using numeric_step_accepted [OF assms(1,2)] assms(3) by (auto simp: amounts_ok_def split: if_splits)

lemma inventory_step_keeps:
  assumes "inventory_step h tier declared raw st = Inr st'" and "snd st' = []" and "amounts_ok (fst st)"
  shows "amounts_ok (fst st')"
proof -
  from inventory_step_accepted [OF assms(1,2)] obtain e where n: "is_number (declared_quantity_of raw)"
    and f: "inventory_findings h (inventory_key h raw) raw e = []"
    and st: "fst st' = put_authority ''inventory'' (inventory_key h raw)
      (stock_record h tier raw e (dget (section_of (fst st) ''inventory'') (inventory_key h raw))) (fst st)" by auto
  from inventory_findings_none [OF f] n assms(3) show ?thesis by (auto simp: st amounts_ok_def split: if_splits)
qed

text \<open>The sections of a normal state.\<close>

definition section_input :: "json \<Rightarrow> string \<Rightarrow> dict" where
  "section_input v k = (case v of JObj d \<Rightarrow> section_of d k | _ \<Rightarrow> [])"

lemma normal_step: "(case dget d k of JObj c \<Rightarrow> dset k (JObj c) s | _ \<Rightarrow> s) =
   (if is_dict (dget d k) then dset k (JObj (section_of d k)) s else s)"
  by (cases "dget d k") (simp_all add: is_dict_def section_of_def)

lemma section_not_dict: "\<not> is_dict (dget d k) \<Longrightarrow> section_of d k = []"
  by (cases "dget d k") (simp_all add: is_dict_def section_of_def)

lemma section_of_normalize: "k \<in> set state_collections \<Longrightarrow> section_of (normalize_state v) k = section_input v k"
proof -
  have "map_of (fold (\<lambda>k s. if is_dict (dget d k) then dset k (JObj (section_of d k)) s else s) ks s) k =
     (if k \<in> set ks \<and> is_dict (dget d k) then Some (JObj (section_of d k)) else map_of s k)" for d ks s k
    by (induction ks arbitrary: s) auto
  moreover assume "k \<in> set state_collections"
  moreover from this have "map_of empty_authoritative_state k = Some (JObj [])"
    by (auto simp: state_collections_def empty_authoritative_state_def)
  ultimately show ?thesis
    by (cases v) (simp_all add: normalize_state_def normal_step section_input_def section_of_def [of "fold _ _ _"]
        section_of_def [of empty_authoritative_state] dget_def [of "fold _ _ _"] dget_def [of empty_authoritative_state] section_not_dict)
qed

section \<open>Properties\<close>

text \<open>
  C24: authority only grows. Whatever the change and whether it is accepted, every record of the
  normal form of the state with a known source is still in its ledger afterwards, and its source is the
  same or one that takes precedence over it.
\<close>

theorem authority_never_weakens:
  assumes "validate_authoritative_state_delta h base delta = Inr rep"
  shows "tiers_kept h (normalize_state base) (ar_state_after rep)"
proof (rule validation_stages [OF assms])
  fix tier declared s1 s2 s3 s4 s5 s6 f1 f2 f3 f4 f5 f6
  assume tier: "tier = delta_source_tier h delta"
    and s1: "apply_character_changes h (dget delta ''character_changes'') tier declared (normalize_state base) = Inr (s1, f1)"
    and s2: "rfold (relationship_step h tier declared) (object_items (dget delta ''relationship_changes'')) (s1, []) = Inr (s2, f2)"
    and s3: "apply_roster_changes h (dget delta ''roster_changes'') tier declared s2 = Inr (s3, f3)"
    and s4: "apply_numeric_changes h (dget delta ''numeric_changes'') tier declared s3 = Inr (s4, f4)"
    and s5: "apply_inventory_changes h (dget delta ''inventory_changes'') tier declared s4 = Inr (s5, f5)"
    and s6: "apply_location_changes h (dget delta ''location_changes'') tier s5 = Inr (s6, f6)"
    and after: "ar_state_after rep = fst (apply_events h (dget delta ''events'') tier s6)"
  have t: "tier_rank tier \<noteq> None" unfolding tier by (rule delta_source_tier_known)
  from s1 obtain owners st where c: "rfold (character_step h tier declared) (object_items (dget delta ''character_changes'')) (normalize_state base, owners, []) = Inr st"
    and "fst st = s1" by (auto simp: apply_character_changes_def rbind_eq_Inr)
  then have k1: "tiers_kept h (normalize_state base) s1"
    using rfold_keeps_tiers [OF c character_step_tiers [OF _ t]] by simp
  have k2: "tiers_kept h s1 s2" using rfold_keeps_tiers [OF s2 relationship_step_tiers [OF _ t]] by simp
  have k3: "tiers_kept h s2 s3"
    using rfold_keeps_tiers [OF s3 [unfolded apply_roster_changes_def Let_def] roster_step_tiers [OF _ t]] by simp
  have k4: "tiers_kept h s3 s4" using rfold_keeps_tiers [OF s4 [unfolded apply_numeric_changes_def] numeric_step_tiers [OF _ t]] by simp
  have k5: "tiers_kept h s4 s5" using rfold_keeps_tiers [OF s5 [unfolded apply_inventory_changes_def] inventory_step_tiers [OF _ t]] by simp
  have k6: "tiers_kept h s5 s6" using rfold_keeps_tiers [OF s6 [unfolded apply_location_changes_def] location_step_tiers [OF _ t]] by simp
  note k7 = apply_events_tiers [OF t, of h s6 "dget delta ''events''"]
  from k1 k2 k3 k4 k5 k6 k7 show ?thesis unfolding after by (blast intro: tiers_kept_trans)
qed

text \<open>
  C26: an accepted change keeps the amounts right. Where the quantities of the inventory are numbers that
  are not negative and the counters are numbers before it, they are after it.
\<close>

theorem accepted_delta_keeps_amounts:
  assumes "validate_authoritative_state_delta h base delta = Inr rep" and "ar_findings rep = []"
    and "amounts_ok (normalize_state base)"
  shows "amounts_ok (ar_state_after rep)"
proof (rule validation_stages [OF assms(1)])
  fix tier declared s1 s2 s3 s4 s5 s6 f1 f2 f3 f4 f5 f6
  assume s1: "apply_character_changes h (dget delta ''character_changes'') tier declared (normalize_state base) = Inr (s1, f1)"
    and s2: "rfold (relationship_step h tier declared) (object_items (dget delta ''relationship_changes'')) (s1, []) = Inr (s2, f2)"
    and s3: "apply_roster_changes h (dget delta ''roster_changes'') tier declared s2 = Inr (s3, f3)"
    and s4: "apply_numeric_changes h (dget delta ''numeric_changes'') tier declared s3 = Inr (s4, f4)"
    and s5: "apply_inventory_changes h (dget delta ''inventory_changes'') tier declared s4 = Inr (s5, f5)"
    and s6: "apply_location_changes h (dget delta ''location_changes'') tier s5 = Inr (s6, f6)"
    and after: "ar_state_after rep = fst (apply_events h (dget delta ''events'') tier s6)"
    and "ar_findings rep = f1 @ f2 @ f3 @ f4 @ f5 @ f6 @ snd (apply_events h (dget delta ''events'') tier s6)"
  with assms(2) have f: "f4 = []" "f5 = []" by simp_all
  from s1 obtain owners st where c: "rfold (character_step h tier declared) (object_items (dget delta ''character_changes'')) (normalize_state base, owners, []) = Inr st"
    and "fst st = s1" by (auto simp: apply_character_changes_def rbind_eq_Inr)
  then have "amounts_ok s1" using rfold_keeps_amounts [OF c character_step_amounts] assms(3) by simp
  then have "amounts_ok s2" using rfold_keeps_amounts [OF s2 relationship_step_amounts] by simp
  then have "amounts_ok s3" using rfold_keeps_amounts [OF s3 [unfolded apply_roster_changes_def Let_def] roster_step_amounts] by simp
  then have "amounts_ok s4"
    using rfold_no_findings [where P = amounts_ok and Q = "\<lambda>_. True", OF s4 [unfolded apply_numeric_changes_def]]
      numeric_step_grows numeric_step_keeps f by (metis fst_conv snd_conv)
  then have "amounts_ok s5"
    using rfold_no_findings [where P = amounts_ok and Q = "\<lambda>_. True", OF s5 [unfolded apply_inventory_changes_def]]
      inventory_step_grows inventory_step_keeps f by (metis fst_conv snd_conv)
  then have "amounts_ok s6" using rfold_keeps_amounts [OF s6 [unfolded apply_location_changes_def] location_step_amounts] by simp
  then show ?thesis by (simp add: after apply_events_amounts)
qed

lemma py_eq_numbers_less: "is_number a \<Longrightarrow> py_eq a b \<Longrightarrow> number_less c a = number_less c b"
  by (cases a) (auto simp: is_number_def number_less_def py_eq.simps as_float_def float_eq_def split: option.splits json.splits)

text \<open>
  C25: an accepted change of a counter obeys the law of the counter. Where the record of the counter
  holds a number and the change does not come from a source that takes precedence, the change starts at
  that number, adds what it says it adds, ends within the bounds of the record, and under the rule
  \<open>monotonic_non_decreasing\<close> does not go down unless it names a rollback event.
\<close>

theorem accepted_counter_obeys_its_law:
  assumes "numeric_step h tier declared raw (state, []) = Inr (state', [])"
    and "dget (section_of state ''numeric_counters'') (id_field h raw [''counter_id'', ''id'']) = JObj e"
    and "is_number (dget e ''current_value'')" and "\<not> incoming_source_supersedes h (JObj e) tier"
  shows "\<exists>r. dget (section_of state' ''numeric_counters'') (id_field h raw [''counter_id'', ''id'']) = JObj r \<and>
     (\<exists>previous. py_eq previous (dget e ''current_value'') \<and>
        (\<exists>expected. py_eq (add_numbers h previous (dget raw ''delta'')) expected \<and> py_eq expected (dget r ''current_value''))) \<and>
     (is_number (dget e ''minimum'') \<longrightarrow> \<not> number_less (dget r ''current_value'') (dget e ''minimum'')) \<and>
     (is_number (dget e ''maximum'') \<longrightarrow> \<not> number_less (dget e ''maximum'') (dget r ''current_value'')) \<and>
     (dget e ''rule'' = JStr ''monotonic_non_decreasing'' \<and> \<not> rollback_event h raw state declared \<longrightarrow>
        \<not> number_less (dget r ''current_value'') (dget e ''current_value''))"
proof -
  let ?id = "id_field h raw [''counter_id'', ''id'']"
  let ?previous = "dget_or raw ''previous_value'' (dget raw ''before'')" and ?new = "declared_value_of raw"
  from numeric_step_accepted [OF assms(1)] assms(2) have num: "is_number ?previous"
    and f: "numeric_findings h tier ?id raw state declared e (JObj e) = []"
    and st: "state' = put_authority ''numeric_counters'' ?id (numeric_record h tier ?id raw e (JObj e)) state"
    by (auto simp: or_empty_def)
  have here: "dget_or e k d = dget e k" if "is_number (dget e k)" for k d
    using that by (auto simp: dget_or_def dget_def is_number_def split: option.splits)
  note nf = f [unfolded numeric_findings_def Let_def append_is_Nil_conv]
  have same: "py_eq ?previous (dget e ''current_value'')"
    using nf assms(3,4) here [OF assms(3)] by (auto simp: is_number_def split: if_splits)
  have sums: "py_eq (add_numbers h ?previous (dget raw ''delta'')) (dget_or raw ''expected_value'' (dget raw ''after''))"
    "py_eq (dget_or raw ''expected_value'' (dget raw ''after'')) ?new"
    using nf by (auto simp: declared_value_of_def split: if_splits)
  have lo: "\<not> number_less ?new (dget e ''minimum'')" if "is_number (dget e ''minimum'')"
    using nf that here [OF that] by (auto simp: declared_value_of_def split: if_splits)
  have hi: "\<not> number_less (dget e ''maximum'') ?new" if "is_number (dget e ''maximum'')"
    using nf that here [OF that] by (auto simp: declared_value_of_def split: if_splits)
  have mono: "\<not> number_less ?new (dget e ''current_value'')"
    if "dget e ''rule'' = JStr ''monotonic_non_decreasing''" "\<not> rollback_event h raw state declared"
    using nf that py_eq_numbers_less [OF num same] by (auto simp: declared_value_of_def py_or_def truthy_def split: if_splits)
  show ?thesis using same sums lo hi mono by (auto simp: st)
qed

lemma roster_step_grows: "roster_state_step h tier events x st = Inr st' \<Longrightarrow> \<exists>g. snd st' = snd st @ g"
  by (auto simp: roster_state_step_def Let_def rbind_eq_Inr)

lemma accepted_mutation_declares:
  assumes "reduce_roster_mutation h rosters raw events req = Inr t" and "rt_issues t = []"
  shows "id_field h raw [''roster_id'', ''id''] \<noteq> [] \<and> (\<exists>n. dget raw ''declared_count'' = JInt n \<and> 0 \<le> n)"
proof -
  from assms obtain op ve js where id: "id_field h raw [''roster_id'', ''id''] \<noteq> []"
    and t: "applied_transition h rosters (id_field h raw [''roster_id'', ''id'']) op raw ve js = t"
    by (auto simp: reduce_roster_mutation_def Let_def refused_transition_def rbind_eq_Inr split: if_splits prod.splits)
  have ci: "count_issues r raw e n s v = [] \<Longrightarrow> \<exists>n. dget raw ''declared_count'' = JInt n \<and> 0 \<le> n" for r e n s v
    by (auto simp: count_issues_def Let_def nonnegative_int_def split: json.splits if_splits option.splits)
  have "\<exists>n. dget raw ''declared_count'' = JInt n \<and> 0 \<le> n"
    using assms(2) ci unfolding t [symmetric] applied_transition_def Let_def split_def roster_transition.simps append_is_Nil_conv by blast
  with id show ?thesis by blast
qed

lemma roster_step_accepted:
  assumes "roster_state_step h tier events raw st = Inr st'" and "snd st' = []"
  shows "id_field h raw [''roster_id'', ''id''] \<noteq> [] \<and> (\<exists>n. dget raw ''declared_count'' = JInt n \<and> 0 \<le> n)"
  using assms by (auto simp: roster_state_step_def Let_def rbind_eq_Inr roster_findings_def dest: accepted_mutation_declares)

lemma object_items_iff: "d \<in> set (object_items (JList xs)) \<longleftrightarrow> JObj d \<in> set xs"
  by (auto simp: object_items_def split: json.splits intro!: bexI [of _ "JObj d"])

lemma extended_records: "rmap (extended f) xs = Inr ys \<Longrightarrow> x \<in> set xs \<Longrightarrow> \<exists>d. x = JObj d \<and> JObj (dupdate d (f d)) \<in> set ys"
  by (induction xs arbitrary: ys) (auto simp: rbind_eq_Inr extended_def split: json.splits)

lemma echoed_rosters:
  "rmap (roster_echo h) xs = Inr ys \<Longrightarrow> x \<in> set xs \<Longrightarrow> \<exists>d e. x = JObj d \<and> JObj (dupdate d e) \<in> set ys \<and>
     dget (dupdate d e) ''declared_count'' = dget d ''declared_count'' \<and> id_field h (dupdate d e) [''roster_id'', ''id''] = id_field h d [''roster_id'', ''id'']"
proof (induction xs arbitrary: ys)
  case (Cons z xs)
  from Cons.prems obtain y zs where y: "roster_echo h z = Inr y" and zs: "rmap (roster_echo h) xs = Inr zs" and ys: "ys = y # zs"
    by (auto simp: rbind_eq_Inr)
  show ?case
  proof (cases "x = z")
    case True
    from y obtain d u n where z: "z = JObj d" and y': "y = JObj (dupdate d
             [(''operation'', JStr ''replace''), (''unresolved_before'', JInt 0), (''unresolved_count'', JInt u), (''delta'', JInt (int n + u))])"
      by (auto simp: roster_echo_def Let_def rbind_eq_Inr split: json.splits)
    show ?thesis
      unfolding True z ys y'
      by (intro exI [of _ d] exI [of _ "[(''operation'', JStr ''replace''), (''unresolved_before'', JInt 0), (''unresolved_count'', JInt u), (''delta'', JInt (int n + u))]"])
         (simp add: dget_dupdate id_field_def text_field_def)
  next
    case False
    with Cons.IH [OF zs] Cons.prems(2) ys show ?thesis by auto
  qed
qed simp

lemma numeric_step_typed:
  "numeric_step h tier declared x st = Inr st' \<Longrightarrow> snd st' = [] \<Longrightarrow> id_field h x [''counter_id'', ''id''] \<noteq> [] \<and> is_number (declared_value_of x)"
  by (drule (1) numeric_step_accepted) simp

lemma inventory_step_typed:
  assumes "inventory_step h tier declared x st = Inr st'" and "snd st' = []"
  shows "id_field h x [''owner_id''] \<noteq> [] \<and> id_field h x [''item_id''] \<noteq> [] \<and>
    is_number (declared_quantity_of x) \<and> \<not> number_less (declared_quantity_of x) (JInt 0)"
  using inventory_step_accepted [OF assms] inventory_findings_none by auto

lemma rfold_accepted:
  assumes "rfold f xs (s, []) = Inr (s', [])" and "\<And>x st st'. f x st = Inr st' \<Longrightarrow> \<exists>g. snd st' = snd st @ (g :: dict list)"
    and "\<And>x st st'. f x st = Inr st' \<Longrightarrow> snd st' = [] \<Longrightarrow> Q x"
  shows "\<forall>x \<in> set xs. Q x"
  using rfold_no_findings [where P = "\<lambda>_. True" and Q = Q, OF assms(1) _ assms(2)] assms(3) by auto

text \<open>The types of the records of four ledgers.\<close>

definition typed_ledgers :: "host \<Rightarrow> dict \<Rightarrow> bool" where
  "typed_ledgers h s \<longleftrightarrow>
     (\<forall>(k, x) \<in> set (section_of s ''roster''). \<exists>d n. x = JObj d \<and> id_field h d [''roster_id'', ''id''] \<noteq> [] \<and> dget d ''declared_count'' = JInt n \<and> 0 \<le> n) \<and>
     (\<forall>(k, x) \<in> set (section_of s ''numeric_counters''). \<exists>d. x = JObj d \<and> id_field h d [''counter_id'', ''id''] \<noteq> [] \<and> is_number (dget d ''current_value'')) \<and>
     (\<forall>(k, x) \<in> set (section_of s ''inventory''). \<exists>d. x = JObj d \<and> id_field h d [''owner_id''] \<noteq> [] \<and> id_field h d [''item_id''] \<noteq> [] \<and>
        is_number (dget d ''quantity'') \<and> \<not> number_less (dget d ''quantity'') (JInt 0)) \<and>
     (\<forall>(k, x) \<in> set (section_of s ''locations''). \<exists>d. x = JObj d \<and> id_field h d [''entity_id''] \<noteq> [] \<and> set_value (dget d ''location_id''))"

lemma validated_types:
  assumes "validate_state h v = Inr state"
  shows "typed_ledgers h state"
proof -
  from assms obtain delta rep where fd: "full_state_delta h state = Inr delta" and va: "validate_authoritative_state_delta h (JObj empty_authoritative_state) delta = Inr rep"
    and none: "ar_findings rep = []"
    by (auto simp: validate_state_def Let_def rbind_eq_Inr split: if_splits)
  from fd obtain rosters counters inventory locations where
    r: "rmap (roster_echo h) (map snd (section_of state ''roster'')) = Inr rosters"
    and c: "rmap (extended counter_echo) (map snd (section_of state ''numeric_counters'')) = Inr counters"
    and i: "rmap (extended inventory_echo) (map snd (section_of state ''inventory'')) = Inr inventory"
    and l: "rmap (extended location_echo) (map snd (section_of state ''locations'')) = Inr locations"
    and d: "dget delta ''roster_changes'' = JList rosters" "dget delta ''numeric_changes'' = JList counters"
      "dget delta ''inventory_changes'' = JList inventory" "dget delta ''location_changes'' = JList locations"
    by (auto simp: full_state_delta_def rbind_eq_Inr Let_def dget_def)
  show ?thesis
  proof (rule validation_stages [OF va])
    fix tier declared s1 s2 s3 s4 s5 s6 f1 f2 f3 f4 f5 f6
    assume s3: "apply_roster_changes h (dget delta ''roster_changes'') tier declared s2 = Inr (s3, f3)"
      and s4: "apply_numeric_changes h (dget delta ''numeric_changes'') tier declared s3 = Inr (s4, f4)"
      and s5: "apply_inventory_changes h (dget delta ''inventory_changes'') tier declared s4 = Inr (s5, f5)"
      and s6: "apply_location_changes h (dget delta ''location_changes'') tier s5 = Inr (s6, f6)"
      and "ar_findings rep = f1 @ f2 @ f3 @ f4 @ f5 @ f6 @ snd (apply_events h (dget delta ''events'') tier s6)"
    with none have f: "f3 = []" "f4 = []" "f5 = []" "f6 = []" by simp_all
    have R: "\<forall>x \<in> set (object_items (JList rosters)). id_field h x [''roster_id'', ''id''] \<noteq> [] \<and> (\<exists>n. dget x ''declared_count'' = JInt n \<and> 0 \<le> n)"
      by (rule rfold_accepted [OF s3 [unfolded apply_roster_changes_def Let_def d f] roster_step_grows roster_step_accepted])
    have N: "\<forall>x \<in> set (object_items (JList counters)). id_field h x [''counter_id'', ''id''] \<noteq> [] \<and> is_number (declared_value_of x)"
      by (rule rfold_accepted [OF s4 [unfolded apply_numeric_changes_def d f] numeric_step_grows numeric_step_typed])
    have I: "\<forall>x \<in> set (object_items (JList inventory)). id_field h x [''owner_id''] \<noteq> [] \<and> id_field h x [''item_id''] \<noteq> [] \<and>
        is_number (declared_quantity_of x) \<and> \<not> number_less (declared_quantity_of x) (JInt 0)"
      by (rule rfold_accepted [OF s5 [unfolded apply_inventory_changes_def d f] inventory_step_grows inventory_step_typed])
    have L: "\<forall>x \<in> set (object_items (JList locations)). id_field h x [''entity_id''] \<noteq> [] \<and> set_value (dget_or x ''after'' (dget x ''to_location''))"
      by (rule rfold_accepted [OF s6 [unfolded apply_location_changes_def d f] location_step_grows location_step_accepted])
    have ids: "id_field h (dupdate x (counter_echo x)) [''counter_id'', ''id''] = id_field h x [''counter_id'', ''id'']"
      "id_field h (dupdate x (inventory_echo x)) [''owner_id''] = id_field h x [''owner_id'']"
      "id_field h (dupdate x (inventory_echo x)) [''item_id''] = id_field h x [''item_id'']"
      "id_field h (dupdate x (location_echo x)) [''entity_id''] = id_field h x [''entity_id'']"
      "declared_value_of (dupdate x (counter_echo x)) = dget x ''current_value''"
      "declared_quantity_of (dupdate x (inventory_echo x)) = dget x ''quantity''"
      "dget_or (dupdate x (location_echo x)) ''after'' y = dget x ''location_id''" for x y
      by (simp_all add: id_field_def text_field_def dget_dupdate counter_echo_def inventory_echo_def location_echo_def Let_def
          declared_value_of_def declared_quantity_of_def dget_or_def map_of_dupdate)
    show ?thesis unfolding typed_ledgers_def
    proof (intro conjI ballI; clarify)
      fix k x
      have x: "x \<in> set (map snd (section_of state c))" if "(k, x) \<in> set (section_of state c)" for c using that by force
      { assume "(k, x) \<in> set (section_of state ''roster'')"
        from echoed_rosters [OF r x [OF this]] obtain d e where d: "x = JObj d" "dupdate d e \<in> set (object_items (JList rosters))"
          "dget (dupdate d e) ''declared_count'' = dget d ''declared_count''"
          "id_field h (dupdate d e) [''roster_id'', ''id''] = id_field h d [''roster_id'', ''id'']"
          unfolding object_items_iff by blast
        from bspec [OF R d(2)] d show "\<exists>d n. x = JObj d \<and> id_field h d [''roster_id'', ''id''] \<noteq> [] \<and> dget d ''declared_count'' = JInt n \<and> 0 \<le> n"
          by simp }
      { assume "(k, x) \<in> set (section_of state ''numeric_counters'')"
        from extended_records [OF c x [OF this]] obtain d where d: "x = JObj d" "dupdate d (counter_echo d) \<in> set (object_items (JList counters))"
          unfolding object_items_iff by blast
        from bspec [OF N d(2)] d show "\<exists>d. x = JObj d \<and> id_field h d [''counter_id'', ''id''] \<noteq> [] \<and> is_number (dget d ''current_value'')"
          by (simp add: ids) }
      { assume "(k, x) \<in> set (section_of state ''inventory'')"
        from extended_records [OF i x [OF this]] obtain d where d: "x = JObj d" "dupdate d (inventory_echo d) \<in> set (object_items (JList inventory))"
          unfolding object_items_iff by blast
        from bspec [OF I d(2)] d show "\<exists>d. x = JObj d \<and> id_field h d [''owner_id''] \<noteq> [] \<and> id_field h d [''item_id''] \<noteq> [] \<and>
            is_number (dget d ''quantity'') \<and> \<not> number_less (dget d ''quantity'') (JInt 0)"
          by (simp add: ids) }
      { assume "(k, x) \<in> set (section_of state ''locations'')"
        from extended_records [OF l x [OF this]] obtain d where d: "x = JObj d" "dupdate d (location_echo d) \<in> set (object_items (JList locations))"
          unfolding object_items_iff by blast
        from bspec [OF L d(2)] d show "\<exists>d. x = JObj d \<and> id_field h d [''entity_id''] \<noteq> [] \<and> set_value (dget d ''location_id'')"
          by (simp add: ids) }
    qed
  qed
qed

text \<open>
  C35: a validated state is typed. Where \<open>validate_authoritative_state\<close> returns a state, every roster has an
  identifier and a count that is not negative, every counter an identifier and a number, every
  inventory record an owner, an item and a number that is not negative, and every location record an
  entity and a place.
\<close>

theorem validated_state_is_typed:
  assumes "validate_state h v = Inr state"
  shows "typed_ledgers h state"
  using assms by (rule validated_types)

text \<open>What the module validates is the normal form of what it was given.\<close>

lemma validate_state_normal: "validate_state h v = Inr s \<Longrightarrow> s = normalize_state v"
  by (auto simp: validate_state_def Let_def rbind_eq_Inr split: if_splits)

section \<open>Witnesses and an example that matters\<close>

definition example_state :: dict where
  "example_state =
     [(''numeric_counters'', JObj [(''hp'', JObj [(''counter_id'', JStr ''hp''), (''current_value'', JInt 50), (''minimum'', JInt 0),
         (''maximum'', JInt 100), (''rule'', JStr ''monotonic_non_decreasing''), (''source_tier'', JStr ''story_project_standard'')])]),
      (''inventory'', JObj [(''a:rope'', JObj [(''owner_id'', JStr ''a''), (''item_id'', JStr ''rope''), (''quantity'', JInt 2),
         (''source_tier'', JStr ''chapter_event'')])])]"

definition example_numeric_change :: "int \<Rightarrow> dict \<Rightarrow> dict" where
  "example_numeric_change d extra =
     [(''counter_id'', JStr ''hp''), (''previous_value'', JInt 50), (''delta'', JInt d), (''expected_value'', JInt (50 + d)),
      (''source_event_id'', JStr ''e1'')] @ extra"

definition example_delta :: "int \<Rightarrow> dict \<Rightarrow> dict" where
  "example_delta d extra =
     [(''source_tier'', JStr ''model_inference''), (''events'', JList [JObj [(''event_id'', JStr ''e1'')]]),
      (''numeric_changes'', JList [JObj (example_numeric_change d extra)]),
      (''inventory_changes'', JList [JObj [(''owner_id'', JStr ''a''), (''item_id'', JStr ''rope''), (''previous_quantity'', JInt 2),
         (''delta'', JInt 0), (''declared_quantity'', JInt 2), (''source_event_id'', JStr ''e1'')]])]"

definition law_rewritten :: "host \<Rightarrow> dict \<Rightarrow> dict \<Rightarrow> dict \<Rightarrow> bool" where
  "law_rewritten h state rewriting forbidden \<longleftrightarrow>
     (case (validate_authoritative_state_delta h (JObj state) forbidden, validate_authoritative_state_delta h (JObj state) rewriting) of
        (Inr refused, Inr rep) \<Rightarrow>
          finding_codes (ar_findings refused) = [''numeric_counter_rollback''] \<and> ar_findings rep = [] \<and> ar_source_tier rep = ''model_inference'' \<and>
          (case validate_authoritative_state_delta h (JObj (ar_state_after rep)) forbidden of Inr rep2 \<Rightarrow> ar_findings rep2 = [] | Inl _ \<Rightarrow> False)
      | _ \<Rightarrow> False)"


lemma example_delta_accepted:
  obtains rep where "validate_authoritative_state_delta example_host (JObj example_state) (example_delta 7 []) = Inr rep" and "ar_findings rep = []"
proof -
  have "case validate_authoritative_state_delta example_host (JObj example_state) (example_delta 7 []) of Inr rep \<Rightarrow> ar_findings rep = [] | Inl _ \<Rightarrow> False"
    by code_simp
  with that show thesis by (auto split: sum.splits)
qed

lemma authority_never_weakens_witness:
  "\<exists>rep. validate_authoritative_state_delta example_host (JObj example_state) (example_delta 7 []) = Inr rep \<and>
     tiers_kept example_host (normalize_state (JObj example_state)) (ar_state_after rep)"
  by (rule example_delta_accepted) (use authority_never_weakens in blast)

lemma example_amounts: "amounts_ok (normalize_state (JObj example_state))"
proof -
  have s: "section_of (normalize_state (JObj example_state)) ''inventory'' = section_of example_state ''inventory''"
    "section_of (normalize_state (JObj example_state)) ''numeric_counters'' = section_of example_state ''numeric_counters''"
    by (simp_all add: section_of_normalize state_collections_def section_input_def)
  show ?thesis unfolding amounts_ok_def s
    by (auto simp: section_of_def example_state_def dget_def is_number_def number_less_def as_float_def split: if_splits)
qed

lemma accepted_delta_keeps_amounts_witness:
  "\<exists>rep. validate_authoritative_state_delta example_host (JObj example_state) (example_delta 7 []) = Inr rep \<and> amounts_ok (ar_state_after rep)"
  by (rule example_delta_accepted) (use accepted_delta_keeps_amounts [OF _ _ example_amounts] in blast)

lemma accepted_counter_obeys_its_law_witness:
  "\<exists>state' r. numeric_step example_host ''model_inference'' [(''e1'', JObj [])] (example_numeric_change 7 []) (example_state, []) = Inr (state', []) \<and>
     dget (section_of state' ''numeric_counters'') ''hp'' = JObj r \<and> \<not> number_less (dget r ''current_value'') (JInt 50)"
proof -
  have "case numeric_step example_host ''model_inference'' [(''e1'', JObj [])] (example_numeric_change 7 []) (example_state, []) of
      Inr st \<Rightarrow> snd st = [] | Inl _ \<Rightarrow> False"
    by code_simp
  then obtain state' where s: "numeric_step example_host ''model_inference'' [(''e1'', JObj [])] (example_numeric_change 7 []) (example_state, []) = Inr (state', [])"
    by (auto split: sum.splits)
  have i: "id_field example_host (example_numeric_change 7 []) [''counter_id'', ''id''] = ''hp''" by code_simp
  have n: "\<not> rollback_event example_host (example_numeric_change 7 []) example_state [(''e1'', JObj [])]" by code_simp
  have t: "\<not> incoming_source_supersedes example_host (dget (section_of example_state ''numeric_counters'') ''hp'') ''model_inference''" by code_simp
  obtain e where e: "dget (section_of example_state ''numeric_counters'') ''hp'' = JObj e"
    and c: "dget e ''current_value'' = JInt 50" "dget e ''rule'' = JStr ''monotonic_non_decreasing''"
    by (simp add: section_of_def example_state_def dget_def)
  have "is_number (dget e ''current_value'')" by (simp add: c is_number_def)
  from accepted_counter_obeys_its_law [OF s _ this, unfolded i, OF e] t e c n s show ?thesis by auto
qed

lemma validated_state_is_typed_witness:
  "\<exists>state. validate_state example_host (JObj example_state) = Inr state \<and> typed_ledgers example_host state \<and> section_of state ''inventory'' \<noteq> []"
proof -
  have "case validate_state example_host (JObj example_state) of Inr s \<Rightarrow> section_of s ''inventory'' \<noteq> [] | Inl _ \<Rightarrow> False" by code_simp
  then obtain state where s: "validate_state example_host (JObj example_state) = Inr state" and "section_of state ''inventory'' \<noteq> []"
    by (auto split: sum.splits)
  with validated_state_is_typed [OF s] show ?thesis by blast
qed

end
