(* ===== verification/Memory_Authority.thy ===== *)
theory Memory_Authority
  imports Memory_Reducer Authoritative_State
begin

text \<open>
  The memory and the authoritative state together: the model of \<open>core/state/authoritative.py\<close> keeps the
  contract \<open>checked_authority\<close> under which the lemmas on memories and on the reducer are proved, so the
  reducer that runs on it only returns memories with typed ledgers.
\<close>

section \<open>The contract is kept\<close>

interpretation core: checked_authority "core_authority h" "\<lambda>d. typed_ledgers h (normalize_state (JObj d))" for h
  by unfold_locales (auto simp: core_authority_def checked_state_def dest: validated_types validate_state_normal)

section \<open>Properties\<close>

text \<open>
  A patch never leaves the memory with bad ledgers. Whatever the patch and the memory, the authoritative
  state of the memory the reducer of version 2.2 returns has, in its normal form, rosters with counts,
  counters with numbers, inventories with quantities that are not negative and locations with places.
\<close>

lemma patched_memory_has_typed_authority:
  assumes "apply_memory_patch_v22 h (core_authority h) (JObj memory) patch context = Inr (final, events)"
    and "dget final ''authoritative_state'' = JObj d"
  shows "typed_ledgers h (normalize_state (JObj d))"
  using assms by (rule core.patch_result_is_lawful)

definition example_world_patch :: dict where
  "example_world_patch = [(''patch_id'', JStr ''p''), (''source'', JObj [(''kind'', JStr ''k'')]),
     (''operations'', JList [JObj [(''op'', JStr ''update_world''), (''value'', JObj [(''sky'', JStr ''red'')])]])]"

definition example_stocked_memory :: dict where
  "example_stocked_memory = dset ''authoritative_state''
     (JObj [(''inventory'', JObj [(''a:rope'', JObj [(''owner_id'', JStr ''a''), (''item_id'', JStr ''rope''), (''quantity'', JInt 2)])])])
     example_memory"

lemma patched_memory_has_typed_authority_witness:
  "\<exists>final events d. apply_memory_patch_v22 example_host (core_authority example_host) (JObj example_stocked_memory) (JObj example_world_patch)
       example_context = Inr (final, events) \<and> dget final ''authoritative_state'' = JObj d \<and>
     dkeys (section_of d ''inventory'') = [''a:rope''] \<and> typed_ledgers example_host (normalize_state (JObj d))"
proof -
  have "case apply_memory_patch_v22 example_host (core_authority example_host) (JObj example_stocked_memory) (JObj example_world_patch) example_context of
      Inl e \<Rightarrow> False
    | Inr (final, events) \<Rightarrow>
        (case dget final ''authoritative_state'' of JObj d \<Rightarrow> dkeys (section_of d ''inventory'') = [''a:rope''] | _ \<Rightarrow> False)"
    by code_simp
  then obtain final events d where
    a: "apply_memory_patch_v22 example_host (core_authority example_host) (JObj example_stocked_memory) (JObj example_world_patch) example_context = Inr (final, events)"
    and d: "dget final ''authoritative_state'' = JObj d" and k: "dkeys (section_of d ''inventory'') = [''a:rope'']"
    by (auto split: sum.splits prod.splits json.splits)
  from patched_memory_has_typed_authority [OF a d] a d k show ?thesis by blast
qed

end
