(* ===== verification/Spec2Isabelle.thy ===== *)
theory Spec2Isabelle
  imports Stage_Control Book_Lease Session_Transitions Repair_Convergence Memory_Authority
begin

text \<open>
  A model of the core of NovelAgent, a program that writes a novel chapter by chapter with language
  models. Its contracts are JSON documents that are sealed with a canonical hash and linked to one
  another, so that a run can be cut short, resumed and audited: this development models the documents,
  the operations on them and the state they stand for, and proves what each of them promises.

  \<^bold>\<open>Common ground.\<close> \<open>Py_Prelude\<close> has the errors (\<open>exn\<close>, one constructor per exception class of the
  program), the result type \<open>exn + 'a\<close> with its bind and folds, and the collection \<open>res_simps\<close>.
  \<open>Py_Value\<close> has the Python values a JSON document can hold (\<open>json\<close>), dicts as association lists in
  insertion order with the operations the code uses (\<open>get\<close>, \<open>[]\<close>, \<open>pop\<close>, \<open>setdefault\<close>, \<open>update\<close>), and
  Python's \<open>==\<close>, truth and \<open>int()\<close>. What the code takes from outside src/, SHA-256, the text of a
  float, the parsing of a time, the texts of platform errors, is the record \<open>host\<close>; a law of it that a
  theorem needs is a hypothesis of that theorem. The clock is an argument of the operations that read it.

  \<^bold>\<open>Sealed documents.\<close> \<open>Schema\<close> is the subset of JSON Schema in src/core/schema.py (the recursion goes down the
  document, which is its termination measure); \<open>Canonical\<close> is src/core/memory_v2/canonical.py, with the canonical text
  of a value and its injectivity; \<open>Sealed\<close> and \<open>Field_Checks\<close> hold what every sealed document shares;
  \<open>Recovery_Protocol\<close> is src/core/engine/recovery_protocol.py.

  \<^bold>\<open>Stages and budget.\<close> \<open>Stage_Control\<close> is src/core/stage_control.py: the authorization of a model call,
  the receipt of a stage, the chain of receipts, and the readiness of outline and draft. Its theorems say which calls an
  authorization lets through and that the head of a chain fixes the chain. \<open>Run_Budget\<close> is \<open>RunBudgetTracker\<close> of
  src/core/context_budget.py, with the invariant of its books over every sequence of operations.
  \<open>Repair_Convergence\<close> is src/core/engine/repair_convergence.py with the methods of
  src/core/engine/executor.py that run a repair round; it uses the budget for the elastic
  authorization of a round, and shows that a repair that goes on makes progress.

  \<^bold>\<open>Book lease.\<close> \<open>Autonomy_Common\<close> is src/core/autonomy/common.py and \<open>Book_Lease\<close> is
  src/core/autonomy/lease.py. The directory of a book is a record of its history files and of
  \<open>current.json\<close>; \<open>lease_step\<close> runs one operation, or its first half where the process dies between the two
  files. The abstract specification is an append-only chain of leases (\<open>dir_chain\<close>), which
  every step refines; the walk from a lease to its ancestor takes as fuel the number of leases
  of the history, which bounds the rounds of the loop in the code.

  \<^bold>\<open>Operation journal.\<close> \<open>Operation_Journal\<close> is src/core/autonomy/operations.py: a journal is the list of its
  operations, each with its files (intent, verification, marker, result). The abstract protocol of an
  operation is pending, marked, completed or rolled back; every operation of the store and every crash between two
  files is a step of it.

  \<^bold>\<open>Plans and stage receipts.\<close> \<open>Instruction_Plan\<close> is the validation of src/core/autonomy/plans.py and the
  trusted profiles of src/core/autonomy/profiles.py it rests on. \<open>Stage_Receipts\<close> is \<open>StageReceiptStore\<close> of
  src/core/autonomy/receipts.py: the directory of a chapter is a record of five groups of files,
  \<open>append_writes\<close> lists the writes of a publication in their order, and recovery publishes what a marker commits.
  It uses the lease store (\<open>assert_held\<close>, \<open>assert_descends_from\<close>, \<open>load_history\<close>) and the receipts of \<open>Stage_Control\<close>.

  \<open>Completion_Ledger\<close> is \<open>CompletionLedger\<close> of the same file: what a completed chapter needs, the two writes that
  record it, and the rebuilding of the ledger, which accepts only a canonical chain of receipts. The names of numbered
  files are in \<open>File_Names\<close>.

  \<^bold>\<open>Book sessions.\<close> \<open>Session_Events\<close> and \<open>Session_Status\<close> are src/core/autonomy/session.py with the contract of
  src/core/autonomy/contracts.py. The event log of a session is a hash chain and a run of an
  automaton (\<open>session_step\<close>); the status is rebuilt from the log, the ledger and the lease, and meets its contract. The
  files under the root of the autonomous runs are the record \<open>autonomy_root\<close>. \<open>Session_Operations\<close> has the operations that
  execute, resume, cancel, abandon and complete a session, each journaled over log, lease and
  ledger, and the recovery of those that were cut short; \<open>Session_Transitions\<close> shows that an event is
  written once, that nothing happens before the marker and what a completion needs. The source snapshot, the
  boundary recovery of the caller and the plans of src/core/autonomy/arc.py (Chinese texts) are arguments.

  \<^bold>\<open>Memory.\<close> \<open>Memory_Documents\<close> is the canonical memory of the story and its patches
  (versions, models, patch, typed and validator of src/core/memory_v2), \<open>Memory_Events\<close> is
  src/core/memory_v2/events.py, the typed events with their evidence and hashes and the log
  they are appended to, and \<open>Memory_Reducer\<close> is src/core/memory_v2/reducer.py, which applies a
  patch, returns the events of it, and replays events. Its theorems show that replay is the inverse
  of the patch and where it is not, and that the events extend the hash chain of the memory.

  \<^bold>\<open>Authoritative state.\<close> \<open>Roster\<close> is src/core/state/roster.py, the declared rosters with
  the records that explain every change of their members: a mutation that is accepted is a run of
  the abstract steps of a finite map from members to states (\<open>roster_step\<close>). \<open>Authoritative_State\<close> is the part of
  src/core/state/authoritative.py that holds the ledgers of a state (counters, references,
  directed obligations, commitments, reveals) and decides which change of them is allowed, for a
  change that comes without chapter text: what it accepts never weakens a monotone ledger, keeps amounts
  and obeys the law of each counter. The memory takes these functions as the record
  \<open>authority\<close>, whose laws are the locale \<open>checked_authority\<close> of \<open>Memory_Documents\<close>; \<open>Memory_Authority\<close>
  interprets it on \<open>core_authority\<close> and draws the consequence for a patch of the memory.

  \<^bold>\<open>Not modelled.\<close> Of src/core/state/authoritative.py: the comparison of a change with the prose of
  the chapter and with the labels of its counters, the seeding of a state from a legacy snapshot,
  the adapters from the delta of a scene, and the merge of the report into a validation. Files are the values they hold, each write of one
  file is atomic, and a lock makes an operation one step. Strings are lists of characters below
  256. A finite float is the rational number it is; arithmetic on floats is a function of the host. The network clients, the prompts, the
  file transactions of src/core/engine, the Markdown of src/core/story_project and the command
  lines are left out; PROJECT.json lists them.
\<close>

end
